(* ===== verification/Agent_Prelude.thy ===== *)
theory Agent_Prelude
  imports Complex_Main "HOL-Library.Word" "HOL-Library.Char_ord" "HOL-Library.List_Lexorder"
    "HOL-Library.Multiset"
begin

text \<open>
  The prelude of the development: the types every component shares (machine words, byte
  strings, the error values of the Go code), the two ways the code sequences fallible work
  (a plain result and a stateful result that keeps the state reached when an error is
  returned), and generic facts on lists that several components use.

  A Go string and a Go byte slice are both sequences of bytes, so both are \<^typ>\<open>string\<close>
  (a \<^typ>\<open>char\<close> of HOL is a byte). An \<open>int\<close> of the code that only counts is a \<^typ>\<open>nat\<close>; a
  \<open>uint64\<close> is a 64-bit word.
\<close>

section \<open>Types\<close>

type_synonym u64 = "64 word"
type_synonym bytes = string

text \<open>
  Error values. \<open>NotExist\<close> is what \<open>errors.Is(err, os.ErrNotExist)\<close> recognises, \<open>IoFault\<close> is any
  other failure of the operating system, \<open>HttpStatus\<close> is the transport's \<open>HTTPError\<close>
  (status code and code string), \<open>Canceled\<close> the error of a cancelled context, and \<open>Msg\<close> an
  error made by the code itself, with the constant part of its text.
\<close>

datatype error =
    NotExist
  | IoFault
  | Canceled
  | HttpStatus nat string
  | Revoked
  | Msg string

type_synonym 'a result = "error + 'a"

section \<open>Automation\<close>

named_theorems go_simps \<open>equations that evaluate the sequencing combinators\<close>
named_theorems disk_simps \<open>how the disk operations act on the files\<close>

section \<open>Sequencing\<close>

text \<open>The plain form of \<open>x, err := m; if err != nil { return err }\<close>.\<close>

definition bind_result :: "'a result \<Rightarrow> ('a \<Rightarrow> 'b result) \<Rightarrow> 'b result" where
  "bind_result m f = (case m of Inl e \<Rightarrow> Inl e | Inr x \<Rightarrow> f x)"

lemma bind_result_simps [simp, go_simps]:
  "bind_result (Inl e) f = Inl e"
  "bind_result (Inr x) f = f x"
  by (simp_all add: bind_result_def)

lemma bind_result_Inr_iff:
  "bind_result m f = Inr y \<longleftrightarrow> (\<exists>x. m = Inr x \<and> f x = Inr y)"
  by (cases m) auto

lemma bind_result_Inl_iff:
  "bind_result m f = Inl e \<longleftrightarrow> m = Inl e \<or> (\<exists>x. m = Inr x \<and> f x = Inl e)"
  by (cases m) auto

text \<open>
  The stateful form: an operation takes the state and returns its result with the state it
  reached; an error keeps the changes made before it, as the code does.
\<close>

definition bind_io :: "('s \<Rightarrow> 'a result \<times> 's) \<Rightarrow> ('a \<Rightarrow> 's \<Rightarrow> 'b result \<times> 's) \<Rightarrow> 's \<Rightarrow> 'b result \<times> 's" where
  "bind_io m f s = (case m s of (Inl e, t) \<Rightarrow> (Inl e, t) | (Inr x, t) \<Rightarrow> f x t)"

definition return_io :: "'a \<Rightarrow> 's \<Rightarrow> 'a result \<times> 's" where
  "return_io x s = (Inr x, s)"

definition fail_io :: "error \<Rightarrow> 's \<Rightarrow> 'a result \<times> 's" where
  "fail_io e s = (Inl e, s)"

lemma bind_io_Inl [simp, go_simps]: "m s = (Inl e, t) \<Longrightarrow> bind_io m f s = (Inl e, t)"
  by (simp add: bind_io_def)

lemma bind_io_Inr [simp, go_simps]: "m s = (Inr x, t) \<Longrightarrow> bind_io m f s = f x t"
  by (simp add: bind_io_def)

lemma bind_io_return [simp, go_simps]: "bind_io (return_io x) f s = f x s"
  by (simp add: return_io_def)

lemma bind_io_fail [simp, go_simps]: "bind_io (fail_io e) f s = (Inl e, s)"
  by (simp add: fail_io_def)

lemma bind_io_InrE:
  assumes "bind_io m f s = (Inr y, u)"
  obtains x t where "m s = (Inr x, t)" and "f x t = (Inr y, u)"
  using assms by (auto simp: bind_io_def split: prod.splits sum.splits)

lemma bind_io_InlE:
  assumes "bind_io m f s = (Inl e, u)"
  obtains (first) "m s = (Inl e, u)"
    | (second) x t where "m s = (Inr x, t)" and "f x t = (Inl e, u)"
  using assms by (auto simp: bind_io_def split: prod.splits sum.splits)

lemma bind_io_split:
  "P (bind_io m f s) \<longleftrightarrow>
     (\<forall>e t. m s = (Inl e, t) \<longrightarrow> P (Inl e, t)) \<and> (\<forall>x t. m s = (Inr x, t) \<longrightarrow> P (f x t))"
  by (auto simp: bind_io_def split: prod.splits sum.splits)

text \<open>A relation kept by both halves of a sequence is kept by the sequence.\<close>

lemma bind_io_rel:
  assumes "\<And>s. R s (snd (m s))" and "\<And>x s. R s (snd (f x s))"
    and "\<And>a b c. R a b \<Longrightarrow> R b c \<Longrightarrow> R a c"
  shows "R s (snd (bind_io m f s))"
  using assms by (auto simp: bind_io_def split: prod.splits sum.splits) (metis snd_conv)+

section \<open>First failing check of a list\<close>

text \<open>
  \<open>for _, x := range xs { if err := f(x); err != nil { return err } }\<close>
\<close>

fun check_all :: "('a \<Rightarrow> unit result) \<Rightarrow> 'a list \<Rightarrow> unit result" where
  "check_all f [] = Inr ()"
| "check_all f (x # xs) = (case f x of Inl e \<Rightarrow> Inl e | Inr _ \<Rightarrow> check_all f xs)"

lemma check_all_ok [simp]: "check_all f xs = Inr () \<longleftrightarrow> (\<forall>x \<in> set xs. f x = Inr ())"
  by (induction xs) (auto split: sum.splits)

lemma check_all_cong [fundef_cong]:
  "xs = ys \<Longrightarrow> (\<And>x. x \<in> set ys \<Longrightarrow> f x = g x) \<Longrightarrow> check_all f xs = check_all g ys"
  by (induction ys arbitrary: xs) (auto split: sum.split)

section \<open>Lists sorted by a key\<close>

lemma sort_key_distinct_set:
  assumes "distinct (map k xs)" and "distinct (map k ys)" and "set xs = set ys"
  shows "sort_key k xs = sort_key k ys"
proof (rule map_sorted_distinct_set_unique [where f = k])
  show "inj_on k (set (sort_key k xs) \<union> set (sort_key k ys))"
    using assms by (simp add: distinct_map)
qed (use assms in \<open>auto simp: distinct_map distinct_sort\<close>)

lemma sort_key_idem: "sorted (map k xs) \<Longrightarrow> sort_key k xs = xs"
  by (rule sort_key_id_if_sorted)

lemma insort_key_snoc: "\<forall>x \<in> set xs. k x < k a \<Longrightarrow> insort_key k a xs = xs @ [a]" for k :: "'a \<Rightarrow> 'b :: linorder"
  by (induction xs) auto

lemma distinct_map_sort_key [simp]: "distinct (map k (sort_key k' xs)) \<longleftrightarrow> distinct (map k xs)"
proof -
  have "mset (map k (sort_key k' xs)) = mset (map k xs)" by simp
  then show ?thesis by (metis mset_eq_imp_distinct_iff)
qed

lemma sum_list_sort_key [simp]: "sum_list (map (f :: 'a \<Rightarrow> nat) (sort_key k xs)) = sum_list (map f xs)"
proof -
  have "mset (map f (sort_key k xs)) = mset (map f xs)" by simp
  then show ?thesis by (metis sum_mset_sum_list)
qed

end
