(* ===== verification/Go_Numbers.thy ===== *)
theory Go_Numbers
  imports Go_Strings
begin

text \<open>
  Decimal numbers as \<open>strconv\<close> and \<open>fmt\<close> read and write them, with the round trip between the
  two, and \<open>filepath.Clean\<close>.
\<close>

section \<open>Decimal digits\<close>

definition is_digit :: "char \<Rightarrow> bool" where
  "is_digit c \<longleftrightarrow> 48 \<le> (of_char c :: nat) \<and> (of_char c :: nat) \<le> 57"

definition digit_val :: "char \<Rightarrow> nat" where
  "digit_val c = of_char c - 48"

definition digit_char :: "nat \<Rightarrow> char" where
  "digit_char d = char_of (48 + d)"

text \<open>The value of a string of digits read after the number \<open>a\<close>; \<^const>\<open>None\<close> if a byte is no digit.\<close>

fun dec_val :: "nat \<Rightarrow> string \<Rightarrow> nat option" where
  "dec_val a [] = Some a"
| "dec_val a (c # s) = (if is_digit c then dec_val (10 * a + digit_val c) s else None)"

fun show_nat :: "nat \<Rightarrow> string" where
  "show_nat n = (if n < 10 then [digit_char n] else show_nat (n div 10) @ [digit_char (n mod 10)])"

declare show_nat.simps [simp del]

lemma is_digit_char [simp]: "d < 10 \<Longrightarrow> is_digit (digit_char d)"
  by (simp add: is_digit_def digit_char_def)

lemma digit_val_char [simp]: "d < 10 \<Longrightarrow> digit_val (digit_char d) = d"
  by (simp add: digit_val_def digit_char_def)

lemma digit_char_val: "is_digit c \<Longrightarrow> digit_char (digit_val c) = c"
  by (simp add: is_digit_def digit_val_def digit_char_def)

lemma digit_val_less: "is_digit c \<Longrightarrow> digit_val c < 10"
  unfolding is_digit_def digit_val_def by linarith

lemma digit_char_zero: "digit_char 0 = CHR ''0''"
  using digit_char_val [of "CHR ''0''"] by (simp add: digit_val_def is_digit_def)

lemma digit_visible: "is_digit c \<Longrightarrow> visible c"
  by (simp add: is_digit_def visible_def)

lemma dec_val_append:
  "dec_val a (s @ t) = Option.bind (dec_val a s) (\<lambda>b. dec_val b t)"
  by (induction a s rule: dec_val.induct) auto

lemma dec_val_digits: "dec_val a s = Some n \<Longrightarrow> \<forall>c \<in> set s. is_digit c"
  by (induction a s rule: dec_val.induct) (auto split: if_splits)

lemma dec_val_total: "\<forall>c \<in> set s. is_digit c \<Longrightarrow> \<exists>n. dec_val a s = Some n"
  by (induction s arbitrary: a) auto

lemma dec_val_ge: "dec_val a s = Some n \<Longrightarrow> a * 10 ^ length s \<le> n"
proof (induction a s arbitrary: n rule: dec_val.induct)
  case (2 a c s)
  then have "(10 * a + digit_val c) * 10 ^ length s \<le> n" by (simp split: if_splits)
  then show ?case by (simp add: algebra_simps)
qed simp

lemma dec_val_less: "dec_val a s = Some n \<Longrightarrow> n < (a + 1) * 10 ^ length s"
proof (induction a s arbitrary: n rule: dec_val.induct)
  case (2 a c s)
  then have d: "is_digit c" and n: "n < (10 * a + digit_val c + 1) * 10 ^ length s"
    by (auto split: if_splits)
  have "10 * a + digit_val c + 1 \<le> 10 * (a + 1)" using digit_val_less [OF d] by simp
  then have "(10 * a + digit_val c + 1) * 10 ^ length s \<le> 10 * (a + 1) * 10 ^ length s"
    by (rule mult_right_mono) simp
  with n have "n < 10 * (a + 1) * 10 ^ length s" by (rule less_le_trans)
  then show ?case by (simp add: algebra_simps)
qed simp

section \<open>Writing and reading a number back\<close>

lemma show_nat_not_Nil [simp]: "show_nat n \<noteq> []"
  by (subst show_nat.simps) simp

lemma show_nat_digits: "c \<in> set (show_nat n) \<Longrightarrow> is_digit c"
proof (induction n rule: show_nat.induct)
  case (1 n)
  then show ?case by (subst (asm) show_nat.simps) (auto split: if_splits)
qed

lemma dec_val_show_nat [simp]: "dec_val 0 (show_nat n) = Some n"
proof (induction n rule: show_nat.induct)
  case (1 n)
  then show ?case by (subst show_nat.simps) (simp add: dec_val_append)
qed

lemma hd_show_nat: "0 < n \<Longrightarrow> hd (show_nat n) \<noteq> CHR ''0''"
proof (induction n rule: show_nat.induct)
  case (1 n)
  show ?case
  proof (cases "n < 10")
    case True
    have "digit_char n \<noteq> digit_char 0"
      using True "1.prems" digit_val_char [of n] digit_val_char [of 0] by fastforce
    then have "digit_char n \<noteq> CHR ''0''" by (simp add: digit_char_zero)
    with True show ?thesis by (simp add: show_nat.simps [of n])
  next
    case False
    then have "0 < n div 10" by simp
    with False "1.IH" show ?thesis by (simp add: show_nat.simps [of n])
  qed
qed

lemma show_nat_inj: "show_nat m = show_nat n \<longleftrightarrow> m = n"
  by (metis dec_val_show_nat option.inject)

lemma length_show_nat: "n < 10 ^ k \<Longrightarrow> 0 < k \<Longrightarrow> length (show_nat n) \<le> k"
proof (induction k arbitrary: n)
  case (Suc k)
  show ?case
  proof (cases "n < 10")
    case True
    then show ?thesis by (simp add: show_nat.simps [of n])
  next
    case False
    then have "0 < k" using Suc.prems by (cases k) auto
    moreover have "n div 10 < 10 ^ k" using Suc.prems by (simp add: div_less_iff_less_mult mult.commute)
    ultimately have "length (show_nat (n div 10)) \<le> k" using Suc.IH by blast
    with False show ?thesis by (simp add: show_nat.simps [of n])
  qed
qed simp

text \<open>A digit string without a superfluous leading zero is what \<open>show_nat\<close> writes.\<close>

lemma dec_val_canonical:
  assumes "dec_val 0 s = Some n" and "s \<noteq> []" and "length s = 1 \<or> hd s \<noteq> CHR ''0''"
  shows "s = show_nat n"
  using assms
proof (induction s arbitrary: n rule: rev_induct)
  case (snoc c s)
  from snoc.prems obtain m where m: "dec_val 0 s = Some m" and c: "is_digit c"
    and n: "n = 10 * m + digit_val c"
    by (auto simp: dec_val_append Option.bind_eq_Some_conv split: if_splits)
  note dv = digit_val_less [OF c]
  show ?case
  proof (cases "s = []")
    case True
    with m n dv c show ?thesis by (simp add: show_nat.simps [of "digit_val c"] digit_char_val)
  next
    case False
    with snoc.prems(3) have h: "hd s \<noteq> CHR ''0''" by simp
    with snoc.IH [OF m False] have s: "s = show_nat m" by simp
    have "m \<noteq> 0"
    proof
      assume "m = 0"
      with s h show False by (simp add: show_nat.simps [of 0] digit_char_zero)
    qed
    with n dv s c show ?thesis by (simp add: show_nat.simps [of "10 * m + digit_val c"] digit_char_val)
  qed
qed simp

text \<open>\<open>fmt.Sprintf("%020d", n)\<close> and its like.\<close>

definition pad_zeros :: "nat \<Rightarrow> string \<Rightarrow> string" where
  "pad_zeros k s = replicate (k - length s) (CHR ''0'') @ s"

lemma dec_val_zeros: "dec_val 0 (replicate k (CHR ''0'') @ s) = dec_val 0 s"
  by (induction k) (simp_all add: is_digit_def digit_val_def)

lemma dec_val_pad_zeros [simp]: "dec_val 0 (pad_zeros k s) = dec_val 0 s"
  by (simp add: pad_zeros_def dec_val_zeros)

lemma pad_zeros_show_not_Nil [simp]: "pad_zeros k (show_nat n) \<noteq> []"
  by (simp add: pad_zeros_def)

section \<open>strconv\<close>

text \<open>\<open>strconv.ParseUint(s, 10, bits)\<close>: digits only, and within the width.\<close>

definition parse_uint :: "nat \<Rightarrow> string \<Rightarrow> nat option" where
  "parse_uint bits s =
     (if s = [] then None
      else (case dec_val 0 s of None \<Rightarrow> None | Some n \<Rightarrow> if n < 2 ^ bits then Some n else None))"

definition parse_u64 :: "string \<Rightarrow> u64 option" where
  "parse_u64 s = map_option word_of_nat (parse_uint 64 s)"

definition show_u64 :: "u64 \<Rightarrow> string" where
  "show_u64 w = show_nat (unat w)"

text \<open>\<open>strconv.Atoi\<close>: an optional sign, digits, and the range of a 64-bit \<open>int\<close>.\<close>

definition atoi :: "string \<Rightarrow> int option" where
  "atoi s =
     (let neg = (has_prefix s ''-''); t = (if neg \<or> has_prefix s ''+'' then tl s else s)
      in if t = [] then None
         else (case dec_val 0 t of None \<Rightarrow> None
               | Some n \<Rightarrow> (let v = (if neg then - int n else int n)
                  in if - (2 ^ 63) \<le> v \<and> v < 2 ^ 63 then Some v else None)))"

lemma parse_uint_bound: "parse_uint b s = Some n \<Longrightarrow> n < 2 ^ b"
  by (auto simp: parse_uint_def split: if_splits option.splits)

lemma u64_bound: "unat (w :: u64) < 2 ^ 64"
  using unsigned_less [where ?'a = nat, of w] by simp

lemma unat_of_nat_u64: "n < 2 ^ 64 \<Longrightarrow> unat (of_nat n :: u64) = n"
  by (simp add: unsigned_of_nat take_bit_nat_eq_self)

lemma of_nat_u64_zero: "n < 2 ^ 64 \<Longrightarrow> (of_nat n :: u64) = 0 \<longleftrightarrow> n = 0"
  using unat_of_nat_u64 [of n] unat_eq_zero [of "of_nat n :: u64"] by simp

lemma parse_u64_show [simp]: "parse_u64 (show_u64 w) = Some w"
  using u64_bound [of w] by (simp add: parse_u64_def show_u64_def parse_uint_def)

lemma parse_u64_pad_show [simp]: "parse_u64 (pad_zeros k (show_u64 w)) = Some w"
  using u64_bound [of w] by (simp add: parse_u64_def show_u64_def parse_uint_def)

lemma show_u64_inj: "show_u64 v = show_u64 w \<longleftrightarrow> v = w"
  by (metis parse_u64_show option.inject)

lemma atoi_digits:
  assumes "\<forall>c \<in> set s. is_digit c" and "s \<noteq> []"
  shows "atoi s = (case dec_val 0 s of None \<Rightarrow> None
           | Some n \<Rightarrow> if n < 2 ^ 63 then Some (int n) else None)"
proof -
  obtain c t where s: "s = c # t" using assms(2) by (cases s) auto
  have "is_digit c" using assms(1) s by simp
  then have "c \<noteq> CHR ''-''" and "c \<noteq> CHR ''+''" by (auto simp: is_digit_def)
  then have "\<not> has_prefix s ''-''" and "\<not> has_prefix s ''+''" by (simp_all add: has_prefix_def s)
  then show ?thesis using assms(2) by (simp add: atoi_def Let_def split: option.split)
qed

lemma atoi_show_nat: "n < 2 ^ 63 \<Longrightarrow> atoi (show_nat n) = Some (int n)"
  by (subst atoi_digits) (auto simp: show_nat_digits)

section \<open>Cleaning a path\<close>

text \<open>
  \<open>filepath.Clean\<close> on Unix (the same function as \<open>path.Clean\<close>): drop empty and \<open>.\<close> elements,
  let \<open>..\<close> remove the element before it, keep a leading \<open>..\<close> only in a relative path.
  \<open>stack\<close> holds the elements kept so far, last first.
\<close>

fun clean_elem :: "bool \<Rightarrow> string list \<Rightarrow> string \<Rightarrow> string list" where
  "clean_elem rooted stack e =
     (if e = [] \<or> e = ''.'' then stack
      else if e = ''..'' then
        (case stack of
           [] \<Rightarrow> (if rooted then [] else [''..''])
         | x # xs \<Rightarrow> (if x = ''..'' then ''..'' # stack else xs))
      else e # stack)"

definition is_abs :: "string \<Rightarrow> bool" where
  "is_abs p \<longleftrightarrow> has_prefix p ''/''"

definition clean_elems :: "string \<Rightarrow> string list" where
  "clean_elems p = rev (foldl (clean_elem (is_abs p)) [] (split_on (CHR ''/'') p))"

definition clean_path :: "string \<Rightarrow> string" where
  "clean_path p =
     (let q = (if is_abs p then ''/'' else []) @ join_with (CHR ''/'') (clean_elems p)
      in if q = [] then ''.'' else q)"

text \<open>
  The elements of a cleaned path: none is empty or \<open>.\<close>, none contains a slash, and \<open>..\<close>
  occurs only in front, and only in a relative path.
\<close>

definition clean_stack :: "bool \<Rightarrow> string list \<Rightarrow> bool" where
  "clean_stack rooted st \<longleftrightarrow>
     (\<forall>e \<in> set st. e \<noteq> [] \<and> e \<noteq> ''.'' \<and> CHR ''/'' \<notin> set e) \<and>
     (\<exists>n st'. st = st' @ replicate n ''..'' \<and> ''..'' \<notin> set st' \<and> (rooted \<longrightarrow> n = 0))"

definition plain_elem :: "string \<Rightarrow> bool" where
  "plain_elem e \<longleftrightarrow> e \<noteq> [] \<and> e \<noteq> ''.'' \<and> CHR ''/'' \<notin> set e"

lemma clean_stack_iff:
  "clean_stack r st \<longleftrightarrow>
     list_all plain_elem st \<and>
     (\<exists>n st'. st = st' @ replicate n ''..'' \<and> ''..'' \<notin> set st' \<and> (r \<longrightarrow> n = 0))"
  by (simp add: clean_stack_def list_all_iff plain_elem_def)

lemma clean_stackI:
  "list_all plain_elem (st' @ replicate n ''..'') \<Longrightarrow> ''..'' \<notin> set st' \<Longrightarrow> (r \<longrightarrow> n = 0) \<Longrightarrow>
   clean_stack r (st' @ replicate n ''..'')"
  unfolding clean_stack_iff by blast

lemma clean_elem_up:
  assumes "clean_stack r st"
  shows "clean_stack r (clean_elem r st ''..'')"
proof -
  obtain n st' where st: "st = st' @ replicate n ''..''" and st': "''..'' \<notin> set st'"
    and n: "r \<longrightarrow> n = 0" and ok: "list_all plain_elem st"
    using assms unfolding clean_stack_iff by blast
  show ?thesis
  proof (cases st')
    case (Cons x xs)
    then have "clean_elem r st ''..'' = xs @ replicate n ''..''" using st st' by auto
    moreover have "clean_stack r (xs @ replicate n ''..'')"
      using Cons st st' n ok by (intro clean_stackI) auto
    ultimately show ?thesis by simp
  next
    case Nil
    then have "clean_elem r st ''..'' = [] @ replicate (if r then 0 else Suc n) ''..''"
      using st n by (cases n) auto
    moreover have "clean_stack r ([] @ replicate (if r then 0 else Suc n) ''..'')"
      by (rule clean_stackI) (auto simp: list_all_iff plain_elem_def)
    ultimately show ?thesis by simp
  qed
qed

lemma clean_elem_name:
  assumes "clean_stack r st" and "plain_elem e" and "e \<noteq> ''..''"
  shows "clean_stack r (e # st)"
proof -
  obtain n st' where st: "st = st' @ replicate n ''..''" and st': "''..'' \<notin> set st'"
    and n: "r \<longrightarrow> n = 0" and ok: "list_all plain_elem st"
    using assms(1) unfolding clean_stack_iff by blast
  have "clean_stack r ((e # st') @ replicate n ''..'')"
    using assms(2,3) st st' n ok by (intro clean_stackI) auto
  with st show ?thesis by simp
qed

lemma clean_elem_stack:
  assumes "clean_stack r st" and "CHR ''/'' \<notin> set e"
  shows "clean_stack r (clean_elem r st e)"
proof (cases "e = [] \<or> e = ''.''")
  case False
  with assms show ?thesis
    by (cases "e = ''..''") (use clean_elem_up in blast, simp add: clean_elem_name plain_elem_def)
qed (use assms in auto)

lemma clean_elems_stack: "clean_stack (is_abs p) (rev (clean_elems p))"
proof -
  have "clean_stack r (foldl (clean_elem r) st es)"
    if "clean_stack r st" and "\<forall>e \<in> set es. CHR ''/'' \<notin> set e" for r st es
    using that by (induction es arbitrary: st) (simp_all add: clean_elem_stack del: clean_elem.simps)
  moreover have "clean_stack (is_abs p) []" by (simp add: clean_stack_def)
  ultimately show ?thesis
    using split_on_elem by (auto simp: clean_elems_def)
qed

text \<open>Cleaning a cleaned path changes nothing.\<close>

lemma clean_elem_keeps:
  assumes "clean_stack r (e # st)"
  shows "clean_elem r st e = e # st" and "clean_stack r st"
proof -
  obtain n st' where st: "e # st = st' @ replicate n ''..''" and st': "''..'' \<notin> set st'"
    and n: "r \<longrightarrow> n = 0" and ok: "list_all plain_elem (e # st)"
    using assms unfolding clean_stack_iff by blast
  show "clean_elem r st e = e # st"
  proof (cases st')
    case Nil
    then have e: "e = ''..''" and "\<not> r" and "st = replicate (n - 1) ''..''"
      using st n by (cases n; auto)+
    then show ?thesis by (cases "n - 1") auto
  next
    case (Cons x xs)
    then show ?thesis using st st' ok by (auto simp: plain_elem_def)
  qed
  show "clean_stack r st"
  proof (cases st')
    case Nil
    then have "st = [] @ replicate (n - 1) ''..''" and "\<not> r" using st n by (cases n; auto)+
    with clean_stackI [of "[]" "n - 1" r] ok show ?thesis by simp
  next
    case (Cons x xs)
    then show ?thesis using st st' n ok clean_stackI [of xs n r] by auto
  qed
qed

lemma foldl_clean_fixed: "clean_stack r st \<Longrightarrow> foldl (clean_elem r) [] (rev st) = st"
  by (induction st) (simp_all add: clean_elem_keeps del: clean_elem.simps)

lemma clean_elems_no_slash: "e \<in> set (clean_elems p) \<Longrightarrow> e \<noteq> [] \<and> e \<noteq> ''.'' \<and> CHR ''/'' \<notin> set e"
  using clean_elems_stack [of p] by (auto simp: clean_stack_def)

lemma clean_elems_rejoin:
  assumes "clean_elems p \<noteq> []" and "q = (if is_abs p then ''/'' else []) @ join_with (CHR ''/'') (clean_elems p)"
  shows "is_abs q = is_abs p" and "clean_elems q = clean_elems p"
proof -
  let ?es = "clean_elems p"
  have sp: "split_on (CHR ''/'') (join_with (CHR ''/'') ?es) = ?es"
    using assms(1) clean_elems_no_slash [of _ p] by (simp add: split_on_join)
  obtain e es where es: "?es = e # es" using assms(1) by (cases ?es) auto
  obtain c cs where e: "e = c # cs" and c: "c \<noteq> CHR ''/''"
    using clean_elems_no_slash [of e p] es by (cases e) auto
  have hd: "\<exists>t. join_with (CHR ''/'') ?es = c # t" using es e by (cases es) auto
  show abs: "is_abs q = is_abs p"
    using assms(2) hd c by (auto simp: is_abs_def has_prefix_def)
  have "foldl (clean_elem r) [] (split_on (CHR ''/'') q) = foldl (clean_elem r) [] ?es" for r
    using assms(2) sp by (cases "is_abs p") auto
  then show "clean_elems q = ?es"
    using foldl_clean_fixed [OF clean_elems_stack [of p]] abs by (simp add: clean_elems_def [of q])
qed

lemma clean_path_idem: "clean_path (clean_path p) = clean_path p"
proof (cases "clean_elems p = []")
  case True
  then have "clean_path p = (if is_abs p then ''/'' else ''.'')" by (simp add: clean_path_def)
  then show ?thesis by (simp add: clean_path_def clean_elems_def is_abs_def has_prefix_def)
next
  case False
  let ?q = "(if is_abs p then ''/'' else []) @ join_with (CHR ''/'') (clean_elems p)"
  have "?q \<noteq> []"
    using False clean_elems_no_slash [of "hd (clean_elems p)" p]
    by (cases "clean_elems p"; cases "tl (clean_elems p)") auto
  then have q: "clean_path p = ?q" by (simp add: clean_path_def)
  show ?thesis
    using clean_elems_rejoin [OF False q] q \<open>?q \<noteq> []\<close> by (simp add: clean_path_def [of ?q])
qed

lemma is_abs_clean_path [simp]: "is_abs (clean_path p) = is_abs p"
proof (cases "clean_elems p = []")
  case True
  then show ?thesis by (simp add: clean_path_def is_abs_def has_prefix_def)
next
  case False
  note r = clean_elems_rejoin(1) [OF False refl]
  then show ?thesis
    using False by (auto simp: clean_path_def Let_def is_abs_def has_prefix_def)
qed

end
