(* ===== verification/Go_Float.thy ===== *)
theory Go_Float
  imports Agent_Prelude
begin

text \<open>
  Go's \<open>float64\<close>: a finite value is a rational, and arithmetic rounds the exact result to the
  nearest binary64 value, ties to even, with gradual underflow and overflow to infinity. The
  sign of zero is not kept: the agent's code never looks at it.
\<close>

datatype float64 = NaN | PlusInf | MinusInf | Finite rat

section \<open>Rounding\<close>

fun bit_length :: "nat \<Rightarrow> nat" where
  "bit_length n = (if n = 0 then 0 else Suc (bit_length (n div 2)))"

declare bit_length.simps [simp del]

definition pow2 :: "int \<Rightarrow> rat" where
  "pow2 e = (if 0 \<le> e then 2 ^ nat e else 1 / 2 ^ nat (- e))"

text \<open>The exponent \<open>e\<close> with \<open>2^e \<le> x < 2^(e+1)\<close>, for positive \<open>x\<close>.\<close>

definition binary_exponent :: "rat \<Rightarrow> int" where
  "binary_exponent x = (case quotient_of x of (n, d) \<Rightarrow>
     (let k = int (bit_length (nat n)) - int (bit_length (nat d))
      in if x < pow2 k then k - 1 else k))"

definition round_even :: "rat \<Rightarrow> int" where
  "round_even x = (let f = \<lfloor>x\<rfloor>; r = x - of_int f in
     if r < 1 / 2 then f else if r > 1 / 2 then f + 1 else if even f then f else f + 1)"

definition max_float :: rat where
  "max_float = (2 ^ 53 - 1) * 2 ^ 971"

definition round_pos :: "rat \<Rightarrow> rat" where
  "round_pos x = (let e = max (- 1074) (binary_exponent x - 52)
     in of_int (round_even (x / pow2 e)) * pow2 e)"

definition to_float :: "rat \<Rightarrow> float64" where
  "to_float x =
     (if x = 0 then Finite 0
      else let y = round_pos \<bar>x\<bar> in
        if y > max_float then (if x < 0 then MinusInf else PlusInf)
        else Finite (if x < 0 then - y else y))"

section \<open>Operations\<close>

fun fneg :: "float64 \<Rightarrow> float64" where
  "fneg NaN = NaN" | "fneg PlusInf = MinusInf" | "fneg MinusInf = PlusInf" | "fneg (Finite x) = Finite (- x)"

fun fadd :: "float64 \<Rightarrow> float64 \<Rightarrow> float64" where
  "fadd (Finite x) (Finite y) = to_float (x + y)"
| "fadd NaN _ = NaN"
| "fadd _ NaN = NaN"
| "fadd PlusInf MinusInf = NaN"
| "fadd MinusInf PlusInf = NaN"
| "fadd PlusInf _ = PlusInf"
| "fadd MinusInf _ = MinusInf"
| "fadd _ PlusInf = PlusInf"
| "fadd _ MinusInf = MinusInf"

definition fsub :: "float64 \<Rightarrow> float64 \<Rightarrow> float64" where
  "fsub x y = fadd x (fneg y)"

text \<open>Division; by zero it is infinite with the sign of the dividend (the divisor's zero is positive).\<close>

fun fdiv :: "float64 \<Rightarrow> float64 \<Rightarrow> float64" where
  "fdiv (Finite x) (Finite y) =
     (if y = 0 then (if x = 0 then NaN else if x < 0 then MinusInf else PlusInf) else to_float (x / y))"
| "fdiv NaN _ = NaN"
| "fdiv _ NaN = NaN"
| "fdiv (Finite x) _ = Finite 0"
| "fdiv PlusInf (Finite y) = (if y < 0 then MinusInf else PlusInf)"
| "fdiv MinusInf (Finite y) = (if y < 0 then PlusInf else MinusInf)"
| "fdiv _ _ = NaN"

fun fmul :: "float64 \<Rightarrow> float64 \<Rightarrow> float64" where
  "fmul (Finite x) (Finite y) = to_float (x * y)"
| "fmul NaN _ = NaN"
| "fmul _ NaN = NaN"
| "fmul (Finite x) PlusInf = (if x = 0 then NaN else if x < 0 then MinusInf else PlusInf)"
| "fmul (Finite x) MinusInf = (if x = 0 then NaN else if x < 0 then PlusInf else MinusInf)"
| "fmul PlusInf (Finite y) = (if y = 0 then NaN else if y < 0 then MinusInf else PlusInf)"
| "fmul MinusInf (Finite y) = (if y = 0 then NaN else if y < 0 then PlusInf else MinusInf)"
| "fmul PlusInf PlusInf = PlusInf"
| "fmul PlusInf MinusInf = MinusInf"
| "fmul MinusInf PlusInf = MinusInf"
| "fmul MinusInf MinusInf = PlusInf"

text \<open>Comparison: every comparison with NaN is false.\<close>

fun fless :: "float64 \<Rightarrow> float64 \<Rightarrow> bool" where
  "fless (Finite x) (Finite y) \<longleftrightarrow> x < y"
| "fless (Finite x) PlusInf \<longleftrightarrow> True"
| "fless MinusInf (Finite x) \<longleftrightarrow> True"
| "fless MinusInf PlusInf \<longleftrightarrow> True"
| "fless _ _ \<longleftrightarrow> False"

definition nonfinite :: "float64 \<Rightarrow> bool" where
  "nonfinite x \<longleftrightarrow> x = NaN \<or> x = PlusInf \<or> x = MinusInf"

definition float_of_int :: "int \<Rightarrow> float64" where
  "float_of_int n = to_float (of_int n)"

lemma nonfinite_iff: "\<not> nonfinite x \<longleftrightarrow> (\<exists>r. x = Finite r)"
  by (cases x) (auto simp: nonfinite_def)

section \<open>Rounding keeps what it can\<close>

lemma pow2_pos [simp]: "0 < pow2 e"
  by (simp add: pow2_def)

lemma round_even_int [simp]: "round_even (of_int n) = n"
  by (simp add: round_even_def)

lemma round_even_nonneg: "0 \<le> x \<Longrightarrow> 0 \<le> round_even x"
  by (auto simp: round_even_def Let_def)

lemma to_float_zero [simp]: "to_float 0 = Finite 0"
  by (simp add: to_float_def)

end
