(* ===== verification/Protocol_Model.thy ===== *)
theory Protocol_Model
  imports Go_Numbers Go_Float
begin

text \<open>
  The wire model of protocol version 1, \<open>protocol/v1/models.go\<close>: its structs as records (field
  names carry a prefix where two structs share one), the untyped values of the metric maps, and
  the validators, each a sequence of checks whose first failure is the result.
\<close>

section \<open>Time\<close>

text \<open>
  A time is its distance in nanoseconds from the zero time; \<open>Sub\<close> saturates at the range of a
  64-bit duration.
\<close>

type_synonym time = int

definition is_zero :: "time \<Rightarrow> bool" where
  "is_zero t \<longleftrightarrow> t = 0"

definition time_sub :: "time \<Rightarrow> time \<Rightarrow> int" where
  "time_sub t u = max (- (2 ^ 63)) (min (2 ^ 63 - 1) (t - u))"

section \<open>Untyped values\<close>

text \<open>
  What an \<open>any\<close> holds, by reflection kind. A map lists its pairs in the order the iteration visits
  them (Go leaves that order open); a key that is no string is \<open>OtherKey\<close>. A struct field carries
  whether it is exported; \<open>GOther\<close> is every kind the validator does not support.
\<close>

datatype int_kind = KInt | KInt8 | KInt16 | KInt32 | KInt64 | KUint | KUint8 | KUint16 | KUint32 | KUint64

datatype map_key = StringKey string | OtherKey

datatype any =
    GNil
  | GBool bool
  | GInt int_kind int
  | GFloat32 float64
  | GFloat64 float64
  | GString string
  | GMap "(map_key \<times> any) list"
  | GSlice "any list"
  | GPointer "any option"
  | GStruct "(bool \<times> any) list"
  | GOther

section \<open>Records\<close>

datatype availability = Available | Unavailable | PermissionBlocked | Disabled | OtherAvailability string

record host_ref =
  HostType :: string
  HostID :: u64

record capability =
  CapState :: availability
  CapDetail :: string

record collection_policy =
  HostIntervalSeconds :: int
  ServiceIntervalSeconds :: int
  StorageHealthIntervalSeconds :: int
  GPUSampleIntervalSeconds :: int

record payload_limits =
  CompressedBytes :: int
  DecompressedBytes :: int
  OfflineSamples :: int
  OfflineBytes :: int

record privacy_policy =
  ContainersEnabled :: bool
  SMARTEnabled :: bool
  RawHardwareIdentifiers :: bool

record contract =
  ContractMajor :: int
  ContractRevision :: u64
  IssuedAt :: time
  SchemaBundleDigest :: string
  Collection :: collection_policy
  ContractLimits :: payload_limits
  Privacy :: privacy_policy

record monitoring_config =
  MonRevision :: u64
  MonEnabled :: bool
  MonServiceInterval :: int
  SelectedServices :: "string list"
  SelectedContainers :: "string list"

type_synonym metric_map = "(map_key \<times> any) list"

record metrics =
  UptimeSeconds :: "float64 option"
  LoadAverage :: "float64 list"
  MSystem :: metric_map
  MCPU :: metric_map
  MMemory :: metric_map
  Filesystems :: "metric_map list"
  DiskIO :: "metric_map list"
  Network :: "metric_map list"
  MSensors :: "metric_map list"
  Batteries :: "metric_map list"
  MGPUs :: "metric_map list"

record service =
  Manager :: string
  ServiceName :: string
  Description :: string
  ActiveState :: string
  Classification :: string
  SubState :: string
  ServiceEnabled :: "bool option"
  MemoryCurrent :: "u64 option"
  MemoryPeak :: "u64 option"
  ServiceCPU :: "float64 option"
  RestartCount :: "u64 option"
  TaskCount :: "u64 option"
  TaskLimit :: "u64 option"
  LastResult :: "string option"
  ActiveEnteredAt :: "string option"
  InactiveEnteredAt :: "string option"

record container_port =
  HostPort :: "16 word"
  ContainerPort :: "16 word"
  PortProtocol :: string

record container =
  Runtime :: string
  RuntimeID :: string
  ContainerName :: string
  Image :: string
  ImageDigest :: "string option"
  ContainerState :: string
  Status :: string
  Uptime :: string
  Health :: "string option"
  ComposeService :: string
  NetworkMode :: string
  NetworkNames :: "string list"
  Ports :: "container_port list"
  PublishedPorts :: "string list"
  ContainerCPU :: "float64 option"
  MemoryBytes :: "u64 option"
  NetworkRx :: "float64 option"
  NetworkTx :: "float64 option"
  DiskRead :: "float64 option"
  DiskWrite :: "float64 option"

record storage_health =
  StorageDevice :: string
  StorageKind :: string
  StorageState :: string
  StorageCollectedAt :: time
  StorageMetrics :: metric_map

text \<open>\<open>Removed\<close> is a slice that may be nil.\<close>

record 'a state_family =
  FamilyRevision :: u64
  Full :: bool
  Changed :: "'a list"
  Removed :: "string list option"

record heartbeat_state =
  StServices :: "service state_family option"
  StContainers :: "container state_family option"
  StFilesystems :: "metric_map state_family option"
  StGPUs :: "metric_map state_family option"
  StSensors :: "metric_map state_family option"
  StSystem :: "metric_map state_family option"
  StStorageHealth :: "storage_health state_family option"

record hardware_component =
  ComponentKind :: string
  Locator :: string
  ComponentValues :: metric_map

record hardware_snapshot =
  SnapshotMajor :: int
  SnapshotHost :: host_ref
  SnapshotCollectedAt :: time
  Components :: "hardware_component list"

type_synonym capabilities = "(string \<times> capability) list"

record heartbeat =
  HbMajor :: int
  HbSequence :: u64
  AgentVersion :: string
  CollectedAt :: time
  HbHost :: host_ref
  Hostname :: string
  DroppedSamples :: u64
  MonitoringRevision :: u64
  Capabilities :: capabilities
  CapabilitiesHash :: string
  HbMetrics :: metrics
  HbState :: "heartbeat_state option"
  HbServices :: "service list"
  HbContainers :: "container list"
  HbStorage :: "storage_health list"

end
