(* ===== verification/Protocol_Check.thy ===== *)
theory Protocol_Check
  imports Protocol_Model
begin

text \<open>
  The validators of \<open>protocol/v1/models.go\<close>. A validator is a list of checks in the order of the
  code; its result is the first failure. The lemmas give each validator's meaning as a
  predicate.
\<close>

section \<open>Checks in order\<close>

definition fail_if :: "bool \<Rightarrow> string \<Rightarrow> unit result" where
  "fail_if bad msg = (if bad then Inl (Msg msg) else Inr ())"

definition checks :: "unit result list \<Rightarrow> unit result" where
  "checks cs = check_all (\<lambda>c. c) cs"

lemma fail_if_ok [simp]: "fail_if bad msg = Inr () \<longleftrightarrow> \<not> bad"
  by (simp add: fail_if_def)

lemma checks_ok: "checks cs = Inr () \<longleftrightarrow> (\<forall>c \<in> set cs. c = Inr ())"
  by (simp add: checks_def)

lemma checks_first: "\<forall>c \<in> set cs. c = Inr () \<Longrightarrow> checks (cs @ Inl e # ds) = Inl e"
  by (induction cs) (simp_all add: checks_def)

section \<open>Patterns\<close>

definition is_lower :: "char \<Rightarrow> bool" where
  "is_lower c \<longleftrightarrow> 97 \<le> (of_char c :: nat) \<and> (of_char c :: nat) \<le> 122"

definition name_pattern :: "string \<Rightarrow> string \<Rightarrow> bool" where
  "name_pattern extra s \<longleftrightarrow> s \<noteq> [] \<and> is_lower (hd s) \<and> length s \<le> 64 \<and>
     (\<forall>c \<in> set (tl s). is_lower c \<or> is_digit c \<or> c \<in> set extra)"

definition capability_name_pattern :: "string \<Rightarrow> bool" where
  "capability_name_pattern = name_pattern ''.-''"

definition hardware_component_kind_pattern :: "string \<Rightarrow> bool" where
  "hardware_component_kind_pattern = name_pattern ''-''"

definition hash_pattern :: "string \<Rightarrow> bool" where
  "hash_pattern s \<longleftrightarrow> length s = 64 \<and>
     (\<forall>c \<in> set s. is_digit c \<or> (97 \<le> (of_char c :: nat) \<and> (of_char c :: nat) \<le> 102))"

definition blank_text :: "string \<Rightarrow> bool" where
  "blank_text s \<longleftrightarrow> trim_space s = []"

fun valid_availability :: "availability \<Rightarrow> bool" where
  "valid_availability (OtherAvailability s) = False"
| "valid_availability _ = True"

section \<open>Bounded values\<close>

definition unsafe_keys :: "string list" where
  "unsafe_keys = [''__proto__'', ''constructor'', ''prototype'']"

fun check_key :: "map_key \<Rightarrow> unit result" where
  "check_key OtherKey = Inl (Msg ''metric object keys must be strings'')"
| "check_key (StringKey k) = fail_if (k \<in> set unsafe_keys) ''metric object contains an unsafe key''"

fun validate_bounded_value :: "any \<Rightarrow> nat \<Rightarrow> unit result" where
  "validate_bounded_value v depth =
     (if depth > 6 then Inl (Msg ''metric value is nested too deeply'')
      else case v of
        GNil \<Rightarrow> Inr ()
      | GString s \<Rightarrow> fail_if (length s > 2048) ''metric string exceeds 2048 characters''
      | GFloat32 x \<Rightarrow> fail_if (nonfinite x) ''metric contains a nonfinite number''
      | GFloat64 x \<Rightarrow> fail_if (nonfinite x) ''metric contains a nonfinite number''
      | GBool b \<Rightarrow> Inr ()
      | GInt k n \<Rightarrow> Inr ()
      | GMap ms \<Rightarrow>
          (if length ms > 128 then Inl (Msg ''metric object exceeds 128 fields'')
           else check_all (\<lambda>(k, x). bind_result (check_key k) (\<lambda>_. validate_bounded_value x (depth + 1))) ms)
      | GSlice xs \<Rightarrow>
          (if length xs > 1024 then Inl (Msg ''metric array exceeds 1024 values'')
           else check_all (\<lambda>x. validate_bounded_value x (depth + 1)) xs)
      | GPointer None \<Rightarrow> Inr ()
      | GPointer (Some x) \<Rightarrow> validate_bounded_value x (depth + 1)
      | GStruct fs \<Rightarrow>
          check_all (\<lambda>(exported, x). if exported then validate_bounded_value x (depth + 1) else Inr ()) fs
      | GOther \<Rightarrow> Inl (Msg ''metric contains unsupported value type''))"

declare validate_bounded_value.simps [simp del]

section \<open>Validators\<close>

definition max_safe_id :: u64 where "max_safe_id = 2 ^ 53 - 1"

definition validate_host_ref :: "host_ref \<Rightarrow> unit result" where
  "validate_host_ref host = checks
     [fail_if (HostType host \<noteq> ''server'' \<and> HostType host \<noteq> ''nas'' \<and> HostType host \<noteq> ''pcBuild'')
        ''unsupported host type'',
      fail_if (HostID host = 0 \<or> HostID host > max_safe_id) ''host id must be a positive safe integer'']"

definition outside :: "int \<Rightarrow> int \<Rightarrow> int \<Rightarrow> bool" where
  "outside lo hi n \<longleftrightarrow> n < lo \<or> n > hi"

definition validate_contract :: "contract \<Rightarrow> unit result" where
  "validate_contract c = (let col = Collection c; lim = ContractLimits c in checks
     [fail_if (ContractMajor c \<noteq> 1) ''unsupported protocol major'',
      fail_if (ContractRevision c = 0 \<or> is_zero (IssuedAt c)) ''contract revision and issuedAt are required'',
      fail_if (length (SchemaBundleDigest c) \<noteq> 64) ''contract schema bundle digest is required'',
      fail_if (outside 30 300 (HostIntervalSeconds col)) ''host interval must be between 30 and 300 seconds'',
      fail_if (outside 300 3600 (ServiceIntervalSeconds col)) ''service interval must be between 300 and 3600 seconds'',
      fail_if (outside 1800 86400 (StorageHealthIntervalSeconds col))
        ''storage-health interval must be between 1800 and 86400 seconds'',
      fail_if (outside 3 60 (GPUSampleIntervalSeconds col)) ''GPU sample interval must be between 3 and 60 seconds'',
      fail_if (outside 1024 1048576 (CompressedBytes lim))
        ''compressed payload limit must be between 1024 and 1048576 bytes'',
      fail_if (outside 4096 4194304 (DecompressedBytes lim))
        ''decompressed payload limit must be between 4096 and 4194304 bytes'',
      fail_if (outside 1 1440 (OfflineSamples lim)) ''offline sample limit must be between 1 and 1440'',
      fail_if (outside 1048576 52428800 (OfflineBytes lim)) ''offline byte limit must be between 1048576 and 52428800'',
      fail_if (RawHardwareIdentifiers (Privacy c)) ''normal telemetry cannot enable raw hardware identifiers''])"

definition validate_monitoring_config :: "monitoring_config \<Rightarrow> unit result" where
  "validate_monitoring_config c = checks
     [fail_if (MonRevision c = 0) ''monitoring config revision is required'',
      fail_if (outside 60 3600 (MonServiceInterval c)) ''monitoring service interval is invalid'',
      fail_if (length (SelectedServices c) > 512 \<or> length (SelectedContainers c) > 256)
        ''monitoring selection limit exceeded'',
      check_all (\<lambda>v. fail_if (blank_text v \<or> length v > 512) ''monitoring selector is invalid'')
        (SelectedServices c @ SelectedContainers c)]"

text \<open>The struct \<open>Metrics\<close> as a value: one exported field after the other.\<close>

definition maps_value :: "metric_map list \<Rightarrow> any" where
  "maps_value ms = GSlice (map GMap ms)"

definition metrics_value :: "metrics \<Rightarrow> any" where
  "metrics_value m = GStruct (map (Pair True)
     [GPointer (map_option GFloat64 (UptimeSeconds m)), GSlice (map GFloat64 (LoadAverage m)),
      GMap (MSystem m), GMap (MCPU m), GMap (MMemory m), maps_value (Filesystems m),
      maps_value (DiskIO m), maps_value (Network m), maps_value (MSensors m),
      maps_value (Batteries m), maps_value (MGPUs m)])"

fun option_over :: "nat \<Rightarrow> string option \<Rightarrow> bool" where
  "option_over n None = False"
| "option_over n (Some s) = (length s > n)"

fun bad_measure :: "float64 option \<Rightarrow> bool" where
  "bad_measure None = False"
| "bad_measure (Some x) = (nonfinite x \<or> fless x (Finite 0))"

definition validate_service :: "service \<Rightarrow> unit result" where
  "validate_service s = checks
     [fail_if (blank_text (ServiceName s) \<or> length (ServiceName s) > 256 \<or> length (Description s) > 2048 \<or>
         blank_text (ActiveState s) \<or> length (ActiveState s) > 64 \<or> length (SubState s) > 64)
        ''service identity fields are invalid'',
      fail_if (Classification s \<notin> set ['''', ''user-installed'', ''system'', ''unknown''])
        ''service classification is invalid'',
      fail_if (option_over 256 (LastResult s) \<or> option_over 128 (ActiveEnteredAt s) \<or>
         option_over 128 (InactiveEnteredAt s) \<or> bad_measure (ServiceCPU s))
        ''service telemetry fields are invalid'']"

definition validate_container :: "container \<Rightarrow> unit result" where
  "validate_container c = checks
     [fail_if ((Runtime c \<noteq> ''docker'' \<and> Runtime c \<noteq> ''podman'') \<or> blank_text (RuntimeID c) \<or>
         length (RuntimeID c) > 128 \<or> blank_text (ContainerName c) \<or> length (ContainerName c) > 256 \<or>
         blank_text (Image c) \<or> length (Image c) > 512 \<or> length (ContainerState c) > 64 \<or>
         length (Status c) > 256 \<or> length (Uptime c) > 128 \<or> length (ComposeService c) > 256 \<or>
         length (NetworkNames c) > 32 \<or> length (Ports c) > 128 \<or> length (PublishedPorts c) > 128)
        ''container identity fields are required'',
      fail_if (NetworkMode c \<notin> set ['''', ''host'', ''bridge'', ''none'', ''custom''])
        ''container network mode is invalid'',
      check_all (\<lambda>n. fail_if (blank_text n \<or> length n > 128) ''container network name is invalid'') (NetworkNames c),
      check_all (\<lambda>p. fail_if (HostPort p = 0 \<or> ContainerPort p = 0 \<or>
          PortProtocol p \<notin> set [''tcp'', ''udp'', ''sctp'']) ''container port mapping is invalid'') (Ports c),
      check_all (\<lambda>p. fail_if (length p > 128) ''container published port is invalid'') (PublishedPorts c),
      check_all (\<lambda>x. fail_if (bad_measure x) ''container metric is invalid'')
        [ContainerCPU c, NetworkRx c, NetworkTx c, DiskRead c, DiskWrite c]]"

definition validate_storage :: "storage_health \<Rightarrow> unit result" where
  "validate_storage s = checks
     [fail_if (length (StorageDevice s) < 16 \<or> length (StorageDevice s) > 128 \<or>
         StorageKind s \<notin> set [''smart'', ''emmc'', ''mdraid''] \<or>
         StorageState s \<notin> set [''healthy'', ''warning'', ''failed'', ''unknown''] \<or>
         is_zero (StorageCollectedAt s))
        ''storage-health record is invalid'',
      validate_bounded_value (GMap (StorageMetrics s)) 0]"

text \<open>\<open>familyRevision\<close>, \<open>familyLength\<close> and \<open>familyRemoved\<close> of a family that may be absent.\<close>

fun family_revision :: "'a state_family option \<Rightarrow> u64" where
  "family_revision None = 0"
| "family_revision (Some f) = FamilyRevision f"

fun family_length :: "'a state_family option \<Rightarrow> nat" where
  "family_length None = 0"
| "family_length (Some f) = length (Changed f)"

fun family_removed :: "'a state_family option \<Rightarrow> string list option" where
  "family_removed None = None"
| "family_removed (Some f) = Removed f"

definition check_family :: "'a state_family option \<Rightarrow> unit result" where
  "check_family f = checks
     [fail_if (family_revision f = 0 \<and> (family_length f > 0 \<or> family_removed f \<noteq> None))
        ''heartbeat family revision is required'',
      fail_if (family_length f > 512 \<or>
          (case family_removed f of None \<Rightarrow> False | Some ks \<Rightarrow> length ks > 512))
        ''heartbeat family state limit exceeded'']"

definition check_state :: "heartbeat_state \<Rightarrow> unit result" where
  "check_state st = checks
     [check_family (StServices st), check_family (StContainers st), check_family (StFilesystems st),
      check_family (StGPUs st), check_family (StSensors st), check_family (StSystem st),
      check_family (StStorageHealth st)]"

definition check_capability :: "string \<times> capability \<Rightarrow> unit result" where
  "check_capability nc = fail_if (\<not> capability_name_pattern (fst nc) \<or>
     \<not> valid_availability (CapState (snd nc)) \<or> length (CapDetail (snd nc)) > 256) ''capability is invalid''"

definition metric_collections :: "metrics \<Rightarrow> (nat \<times> nat) list" where
  "metric_collections m = [(length (Filesystems m), 64), (length (DiskIO m), 128), (length (Network m), 128),
     (length (MSensors m), 256), (length (Batteries m), 16), (length (MGPUs m), 16)]"

definition validate_heartbeat :: "heartbeat \<Rightarrow> unit result" where
  "validate_heartbeat h = checks
     [fail_if (HbMajor h \<noteq> 1) ''unsupported protocol major'',
      fail_if (HbSequence h = 0 \<or> is_zero (CollectedAt h)) ''heartbeat sequence and collectedAt are required'',
      validate_host_ref (HbHost h),
      fail_if (blank_text (AgentVersion h) \<or> length (AgentVersion h) > 64)
        ''agent version must contain 1 to 64 characters'',
      fail_if (length (Hostname h) > 255 \<or> length (HbServices h) > 512 \<or> length (HbContainers h) > 256 \<or>
         length (HbStorage h) > 64) ''heartbeat collection limit exceeded'',
      fail_if (Capabilities h = [] \<and> \<not> hash_pattern (CapabilitiesHash h))
        ''heartbeat capabilities or capability hash are required'',
      fail_if (length (Capabilities h) > 64) ''heartbeat capability limit exceeded'',
      check_all check_capability (Capabilities h),
      (case HbState h of None \<Rightarrow> Inr () | Some st \<Rightarrow> check_state st),
      fail_if (LoadAverage (HbMetrics h) \<noteq> [] \<and> length (LoadAverage (HbMetrics h)) \<noteq> 3)
        ''load average must contain exactly three values'',
      check_all (\<lambda>x. fail_if (fless x (Finite 0) \<or> nonfinite x) ''load average is invalid'') (LoadAverage (HbMetrics h)),
      check_all (\<lambda>(n, limit). fail_if (n > limit) ''heartbeat collection limit exceeded'')
        (metric_collections (HbMetrics h)),
      validate_bounded_value (metrics_value (HbMetrics h)) 0,
      check_all validate_service (HbServices h),
      check_all validate_container (HbContainers h),
      check_all validate_storage (HbStorage h)]"

definition validate_component :: "hardware_component \<Rightarrow> unit result" where
  "validate_component c = checks
     [fail_if (\<not> hardware_component_kind_pattern (ComponentKind c)) ''hardware component kind is invalid'',
      fail_if (blank_text (Locator c) \<or> length (Locator c) > 256) ''hardware component locator is invalid'',
      fail_if (ComponentValues c = [] \<or> length (ComponentValues c) > 128) ''hardware component values are invalid'',
      validate_bounded_value (GMap (ComponentValues c)) 0]"

definition validate_hardware_snapshot :: "hardware_snapshot \<Rightarrow> unit result" where
  "validate_hardware_snapshot s = checks
     [fail_if (SnapshotMajor s \<noteq> 1) ''unsupported protocol major'',
      validate_host_ref (SnapshotHost s),
      fail_if (is_zero (SnapshotCollectedAt s)) ''hardware snapshot collectedAt is required'',
      fail_if (Components s = [] \<or> length (Components s) > 1024)
        ''hardware snapshot must contain 1 to 1024 components'',
      check_all validate_component (Components s)]"

end
