(* ===== verification/Go_Json.thy ===== *)
theory Go_Json
  imports Go_Numbers
begin

text \<open>
  The part of Go's \<open>encoding/json\<close> behind the agent's state files: a parser for JSON texts
  (white space, literals, numbers kept as text, strings with their escapes, arrays, objects),
  and the assignment of an object's members to struct fields: names match without regard to
  case, \<open>null\<close> leaves a field alone, the last member wins, a value of another type is an error.
  Strings are taken to be valid UTF-8, and the decoder's limit of 10000 nested values is left
  out. The recursion of the parser is bounded by a fuel argument; \<open>parse_json\<close> gives more of it
  than any parse of the text can use.
\<close>

datatype json =
    JNull
  | JBool bool
  | JNum string
  | JStr string
  | JArr "json list"
  | JObj "(string \<times> json) list"

section \<open>Tokens\<close>

definition json_space :: "char \<Rightarrow> bool" where
  "json_space c \<longleftrightarrow> (of_char c :: nat) \<in> {9, 10, 13, 32}"

definition skip_ws :: "string \<Rightarrow> string" where
  "skip_ws s = dropWhile json_space s"

definition hex_val :: "char \<Rightarrow> nat option" where
  "hex_val c = (let n = (of_char c :: nat) in
     if 48 \<le> n \<and> n \<le> 57 then Some (n - 48)
     else if 97 \<le> n \<and> n \<le> 102 then Some (n - 87)
     else if 65 \<le> n \<and> n \<le> 70 then Some (n - 55) else None)"

fun hex4 :: "string \<Rightarrow> (nat \<times> string) option" where
  "hex4 (a # b # c # d # s) =
     (case (hex_val a, hex_val b, hex_val c, hex_val d) of
        (Some w, Some x, Some y, Some z) \<Rightarrow> Some (((w * 16 + x) * 16 + y) * 16 + z, s)
      | _ \<Rightarrow> None)"
| "hex4 _ = None"

lemma hex4_shorter: "hex4 s = Some (n, t) \<Longrightarrow> length t < length s"
  by (cases s rule: hex4.cases) (auto split: option.splits)

text \<open>The UTF-8 encoding of a code point.\<close>

definition utf8 :: "nat \<Rightarrow> string" where
  "utf8 r =
     (if r < 0x80 then [char_of r]
      else if r < 0x800 then [char_of (0xC0 + r div 0x40), char_of (0x80 + r mod 0x40)]
      else if r < 0x10000 then
        [char_of (0xE0 + r div 0x1000), char_of (0x80 + r div 0x40 mod 0x40), char_of (0x80 + r mod 0x40)]
      else
        [char_of (0xF0 + r div 0x40000), char_of (0x80 + r div 0x1000 mod 0x40),
         char_of (0x80 + r div 0x40 mod 0x40), char_of (0x80 + r mod 0x40)])"

definition high_surrogate :: "nat \<Rightarrow> bool" where "high_surrogate r \<longleftrightarrow> 0xD800 \<le> r \<and> r < 0xDC00"
definition low_surrogate :: "nat \<Rightarrow> bool" where "low_surrogate r \<longleftrightarrow> 0xDC00 \<le> r \<and> r < 0xE000"

text \<open>
  The rune of a \<open>\u\<close> escape (its backslash and \<open>u\<close> already read): a surrogate pair is one
  rune, a lone surrogate is U+FFFD.
\<close>

definition unicode_escape :: "string \<Rightarrow> (string \<times> string) option" where
  "unicode_escape s = (case hex4 s of
     None \<Rightarrow> None
   | Some (r, t) \<Rightarrow>
      (if high_surrogate r then
         (case t of
            (CHR 0x5C) # (CHR ''u'') # t' \<Rightarrow>
              (case hex4 t' of
                 Some (r2, t2) \<Rightarrow>
                   (if low_surrogate r2
                    then Some (utf8 (0x10000 + (r - 0xD800) * 0x400 + (r2 - 0xDC00)), t2)
                    else Some (utf8 0xFFFD, t))
               | None \<Rightarrow> Some (utf8 0xFFFD, t))
          | _ \<Rightarrow> Some (utf8 0xFFFD, t))
       else if low_surrogate r then Some (utf8 0xFFFD, t)
       else Some (utf8 r, t)))"

lemma unicode_escape_shorter: "unicode_escape s = Some (x, t) \<Longrightarrow> length t < length s"
  by (auto simp: unicode_escape_def dest!: hex4_shorter split: option.splits if_splits list.splits char.splits bool.splits)

definition simple_escape :: "char \<Rightarrow> char option" where
  "simple_escape c =
     (if c = CHR 0x22 then Some (CHR 0x22) else if c = CHR 0x5C then Some (CHR 0x5C)
      else if c = CHR ''/'' then Some (CHR ''/'') else if c = CHR ''b'' then Some (CHR 8)
      else if c = CHR ''f'' then Some (CHR 12) else if c = CHR ''n'' then Some (CHR 10)
      else if c = CHR ''r'' then Some (CHR 13) else if c = CHR ''t'' then Some (CHR 9) else None)"

text \<open>The rest of a string literal after its opening quote: its value and what follows it.\<close>

function scan_string :: "string \<Rightarrow> (string \<times> string) option" where
  "scan_string [] = None"
| "scan_string (c # s) =
     (if c = CHR 0x22 then Some ([], s)
      else if c = CHR 0x5C then
        (case s of
           [] \<Rightarrow> None
         | e # t \<Rightarrow>
             (if e = CHR ''u'' then
                (case unicode_escape t of
                   None \<Rightarrow> None
                 | Some (x, t') \<Rightarrow> map_option (\<lambda>(y, u). (x @ y, u)) (scan_string t'))
              else (case simple_escape e of
                   None \<Rightarrow> None
                 | Some x \<Rightarrow> map_option (\<lambda>(y, u). (x # y, u)) (scan_string t))))
      else if (of_char c :: nat) < 32 then None
      else map_option (\<lambda>(y, u). (c # y, u)) (scan_string s))"
  by pat_completeness auto
termination
  by (relation "measure length") (auto dest: unicode_escape_shorter)

definition scan_digits :: "string \<Rightarrow> string \<times> string" where
  "scan_digits s = (takeWhile is_digit s, dropWhile is_digit s)"

text \<open>
  A number literal: an optional sign and an integer part without superfluous zero, a fraction,
  an exponent; each scanner returns the text it read and the rest.
\<close>

definition scan_int :: "string \<Rightarrow> (string \<times> string) option" where
  "scan_int s =
     (let neg = has_prefix s ''-'' in
      case scan_digits (if neg then tl s else s) of
        (ip, r) \<Rightarrow>
          (if ip = [] \<or> length ip > 1 \<and> hd ip = CHR ''0'' then None
           else Some ((if neg then ''-'' else []) @ ip, r)))"

definition scan_frac :: "string \<Rightarrow> (string \<times> string) option" where
  "scan_frac s =
     (if has_prefix s ''.'' then
        (case scan_digits (tl s) of (f, r) \<Rightarrow> if f = [] then None else Some (CHR ''.'' # f, r))
      else Some ([], s))"

definition exp_sign :: "string \<Rightarrow> string \<times> string" where
  "exp_sign s = (if has_prefix s ''+'' \<or> has_prefix s ''-'' then ([hd s], tl s) else ([], s))"

definition scan_exp :: "string \<Rightarrow> (string \<times> string) option" where
  "scan_exp s =
     (if has_prefix s ''e'' \<or> has_prefix s ''E'' then
        (case exp_sign (tl s) of (sg, t) \<Rightarrow>
           (case scan_digits t of (e, r) \<Rightarrow> if e = [] then None else Some (hd s # sg @ e, r)))
      else Some ([], s))"

definition scan_number :: "string \<Rightarrow> (string \<times> string) option" where
  "scan_number s = (case scan_int s of
     None \<Rightarrow> None
   | Some (a, r1) \<Rightarrow> (case scan_frac r1 of
        None \<Rightarrow> None
      | Some (b, r2) \<Rightarrow> map_option (\<lambda>(c, r3). (a @ b @ c, r3)) (scan_exp r2)))"

section \<open>Values\<close>

text \<open>
  One step of each of the three mutually recursive parsers, over the parsers for the parts.
\<close>

definition value_step :: "(string \<Rightarrow> ((string \<times> json) list \<times> string) option) \<Rightarrow>
    (string \<Rightarrow> (json list \<times> string) option) \<Rightarrow> string \<Rightarrow> (json \<times> string) option" where
  "value_step members elems s = (case skip_ws s of
     [] \<Rightarrow> None
   | c # t \<Rightarrow>
      (if c = CHR ''{'' then
         (if has_prefix (skip_ws t) ''}'' then Some (JObj [], tl (skip_ws t))
          else map_option (\<lambda>(ms, u). (JObj ms, u)) (members t))
       else if c = CHR ''['' then
         (if has_prefix (skip_ws t) '']'' then Some (JArr [], tl (skip_ws t))
          else map_option (\<lambda>(vs, u). (JArr vs, u)) (elems t))
       else if c = CHR 0x22 then map_option (\<lambda>(x, u). (JStr x, u)) (scan_string t)
       else if has_prefix (c # t) ''null'' then Some (JNull, drop 4 (c # t))
       else if has_prefix (c # t) ''true'' then Some (JBool True, drop 4 (c # t))
       else if has_prefix (c # t) ''false'' then Some (JBool False, drop 5 (c # t))
       else map_option (\<lambda>(l, u). (JNum l, u)) (scan_number (c # t))))"

text \<open>After a part: a comma and more parts, or the closing bracket.\<close>

definition list_step :: "char \<Rightarrow> (string \<Rightarrow> ('a list \<times> string) option) \<Rightarrow> 'a \<Rightarrow> string \<Rightarrow> ('a list \<times> string) option" where
  "list_step close more x s = (case skip_ws s of
     [] \<Rightarrow> None
   | c # t \<Rightarrow> (if c = CHR '','' then map_option (\<lambda>(xs, u). (x # xs, u)) (more t)
              else if c = close then Some ([x], t) else None))"

definition key_step :: "string \<Rightarrow> (string \<times> string) option" where
  "key_step s = (case skip_ws s of
     [] \<Rightarrow> None
   | q # t \<Rightarrow>
      (if q \<noteq> CHR 0x22 then None
       else (case scan_string t of
          None \<Rightarrow> None
        | Some (k, t1) \<Rightarrow>
           (case skip_ws t1 of
              [] \<Rightarrow> None
            | c # t2 \<Rightarrow> (if c = CHR '':'' then Some (k, t2) else None)))))"

fun parse_value :: "nat \<Rightarrow> string \<Rightarrow> (json \<times> string) option"
  and parse_elems :: "nat \<Rightarrow> string \<Rightarrow> (json list \<times> string) option"
  and parse_members :: "nat \<Rightarrow> string \<Rightarrow> ((string \<times> json) list \<times> string) option" where
  "parse_value 0 s = None"
| "parse_value (Suc n) s = value_step (parse_members n) (parse_elems n) s"
| "parse_elems 0 s = None"
| "parse_elems (Suc n) s = (case parse_value n s of
     None \<Rightarrow> None | Some (v, t) \<Rightarrow> list_step (CHR '']'') (parse_elems n) v t)"
| "parse_members 0 s = None"
| "parse_members (Suc n) s = (case key_step s of
     None \<Rightarrow> None
   | Some (k, t) \<Rightarrow> (case parse_value n t of
        None \<Rightarrow> None | Some (v, u) \<Rightarrow> list_step (CHR ''}'') (parse_members n) (k, v) u))"

text \<open>A whole text is one value with white space around it.\<close>

definition json_fuel :: "string \<Rightarrow> nat" where
  "json_fuel s = 2 * length s + 4"

definition parse_json :: "string \<Rightarrow> json option" where
  "parse_json s = (case parse_value (json_fuel s) s of
     Some (v, t) \<Rightarrow> (if skip_ws t = [] then Some v else None)
   | None \<Rightarrow> None)"

text \<open>\<open>json.NewDecoder(r).Decode\<close> reads one value and does not look at what follows it.\<close>

definition first_value :: "bytes \<Rightarrow> json option" where
  "first_value b = map_option fst (parse_value (json_fuel b) b)"

text \<open>More fuel never changes a result.\<close>

lemma value_step_mono:
  assumes "value_step f g s = Some r"
    and "\<And>t x. f t = Some x \<Longrightarrow> f' t = Some x" and "\<And>t x. g t = Some x \<Longrightarrow> g' t = Some x"
  shows "value_step f' g' s = Some r"
proof (cases "skip_ws s")
  case (Cons c t)
  show ?thesis
  proof (cases "f t")
    case None
    then show ?thesis using assms Cons by (cases "g t") (auto simp: value_step_def split: if_splits)
  next
    case (Some x)
    then show ?thesis using assms Cons assms(2) [OF Some]
      by (cases "g t") (auto simp: value_step_def split: if_splits)
  qed
qed (use assms in \<open>simp add: value_step_def\<close>)

lemma list_step_mono:
  assumes "list_step c f x s = Some r" and "\<And>t y. f t = Some y \<Longrightarrow> f' t = Some y"
  shows "list_step c f' x s = Some r"
proof (cases "skip_ws s")
  case (Cons d t)
  then show ?thesis using assms by (cases "f t") (auto simp: list_step_def split: if_splits)
qed (use assms in \<open>simp add: list_step_def\<close>)

lemma parse_more_fuel:
  "(\<forall>s r. parse_value n s = Some r \<longrightarrow> parse_value (Suc n) s = Some r) \<and>
   (\<forall>s r. parse_elems n s = Some r \<longrightarrow> parse_elems (Suc n) s = Some r) \<and>
   (\<forall>s r. parse_members n s = Some r \<longrightarrow> parse_members (Suc n) s = Some r)"
proof (induction n)
  case (Suc n)
  then have v: "\<And>s r. parse_value n s = Some r \<Longrightarrow> parse_value (Suc n) s = Some r"
    and e: "\<And>s r. parse_elems n s = Some r \<Longrightarrow> parse_elems (Suc n) s = Some r"
    and m: "\<And>s r. parse_members n s = Some r \<Longrightarrow> parse_members (Suc n) s = Some r" by blast+
  have "parse_value (Suc (Suc n)) s = Some r" if "parse_value (Suc n) s = Some r" for s r
    using that unfolding parse_value.simps
    by (rule value_step_mono [of "parse_members n" "parse_elems n"]) (erule m e)+
  moreover have "parse_elems (Suc (Suc n)) s = Some r" if "parse_elems (Suc n) s = Some r" for s r
  proof -
    from that obtain x t where x: "parse_value n s = Some (x, t)"
      and l: "list_step (CHR '']'') (parse_elems n) x t = Some r"
      by (auto split: option.splits)
    from l have "list_step (CHR '']'') (parse_elems (Suc n)) x t = Some r"
      by (rule list_step_mono) (erule e)
    with v [OF x] show ?thesis by (subst parse_elems.simps(2)) (simp only: option.case prod.case)
  qed
  moreover have "parse_members (Suc (Suc n)) s = Some r" if "parse_members (Suc n) s = Some r" for s r
  proof -
    from that obtain k u x t where k: "key_step s = Some (k, u)" and x: "parse_value n u = Some (x, t)"
      and l: "list_step (CHR ''}'') (parse_members n) (k, x) t = Some r"
      by (auto split: option.splits)
    from l have "list_step (CHR ''}'') (parse_members (Suc n)) (k, x) t = Some r"
      by (rule list_step_mono) (erule m)
    with k v [OF x] show ?thesis by (subst parse_members.simps(2)) (simp only: option.case prod.case)
  qed
  ultimately show ?case by blast
qed simp

lemma parse_value_mono: "n \<le> m \<Longrightarrow> parse_value n s = Some r \<Longrightarrow> parse_value m s = Some r"
  by (induction m rule: dec_induct) (use parse_more_fuel in blast)+

section \<open>The fuel of a whole text is enough\<close>

lemma skip_ws_length: "length (skip_ws s) \<le> length s"
  by (simp add: skip_ws_def length_dropWhile_le)

lemma skip_ws_Cons: "skip_ws s = c # t \<Longrightarrow> length t < length s"
  using skip_ws_length [of s] by simp

lemma scan_string_shorter: "scan_string s = Some (x, t) \<Longrightarrow> length t < length s"
proof (induction s arbitrary: x t rule: scan_string.induct)
  case (2 c s)
  show ?case
  proof (cases "c = CHR 0x22 \<or> c \<noteq> CHR 0x5C")
    case True
    then show ?thesis using 2 by (fastforce split: if_splits)
  next
    case False
    then have c: "c = CHR 0x5C" by blast
    obtain e u where s: "s = e # u" using 2(4) c by (cases s) auto
    show ?thesis
    proof (cases "e = CHR ''u''")
      case True
      with 2(4) c s obtain x' t' y where u: "unicode_escape u = Some (x', t')"
        and r: "scan_string t' = Some (y, t)" by (auto split: option.splits)
      have "length t < length t'" using 2(1) c s True u r by simp
      then show ?thesis using unicode_escape_shorter [OF u] s by simp
    next
      case False
      with 2(4) c s obtain y where r: "scan_string u = Some (y, t)" and e: "simple_escape e \<noteq> None"
        by (auto split: option.splits)
      have "length t < length u" using 2(2) c s False r e by auto
      then show ?thesis using s by simp
    qed
  qed
qed simp

lemma scan_digits_length: "scan_digits s = (a, b) \<Longrightarrow> length s = length a + length b"
  by (metis Pair_inject length_append scan_digits_def takeWhile_dropWhile_id)

lemma scan_int_shorter: "scan_int s = Some (x, t) \<Longrightarrow> length t < length s"
proof -
  assume a: "scan_int s = Some (x, t)"
  let ?u = "if has_prefix s ''-'' then tl s else s"
  obtain ip r where d: "scan_digits ?u = (ip, r)" by (metis surj_pair)
  with a have "ip \<noteq> []" and "t = r" by (auto simp: scan_int_def Let_def split: if_splits)
  moreover have "length ?u \<le> length s" by simp
  ultimately show ?thesis using scan_digits_length [OF d] by (cases ip) auto
qed

lemma scan_frac_length: "scan_frac s = Some (x, t) \<Longrightarrow> length t \<le> length s"
  using scan_digits_length [of "tl s"] by (fastforce simp: scan_frac_def split: if_splits prod.splits)

lemma scan_exp_length: "scan_exp s = Some (x, t) \<Longrightarrow> length t \<le> length s"
proof -
  assume a: "scan_exp s = Some (x, t)"
  obtain sg u where e: "exp_sign (tl s) = (sg, u)" by (metis surj_pair)
  obtain ep r where d: "scan_digits u = (ep, r)" by (metis surj_pair)
  have "length u \<le> length s" using e by (auto simp: exp_sign_def split: if_splits)
  then show ?thesis using a e d scan_digits_length [OF d] by (auto simp: scan_exp_def split: if_splits)
qed

lemma scan_number_shorter: "scan_number s = Some (x, t) \<Longrightarrow> length t < length s"
  by (auto simp: scan_number_def dest!: scan_int_shorter scan_frac_length scan_exp_length split: option.splits)

lemma key_step_shorter: "key_step s = Some (k, t) \<Longrightarrow> length t < length s"
  by (auto simp: key_step_def dest!: skip_ws_Cons scan_string_shorter split: list.splits if_splits option.splits)

lemma list_step_shorter:
  assumes "list_step c f x s = Some (y, t)" and "\<And>u z v. f u = Some (z, v) \<Longrightarrow> length v < length u"
  shows "length t < length s"
  using assms by (fastforce simp: list_step_def dest!: skip_ws_Cons split: list.splits if_splits)

lemma value_step_shorter:
  assumes "value_step f g s = Some (v, t)" and "\<And>u z w. f u = Some (z, w) \<Longrightarrow> length w < length u"
    and "\<And>u z w. g u = Some (z, w) \<Longrightarrow> length w < length u"
  shows "length t < length s"
proof (cases "skip_ws s")
  case (Cons c u)
  have le: "length u < length s" by (rule skip_ws_Cons [OF Cons])
  have sk: "length (tl (skip_ws u)) \<le> length u" using skip_ws_length [of u] by simp
  have le': "length (c # u) \<le> length s" using le by simp
  consider (obj) "c = CHR ''{''" | (arr) "c = CHR ''[''" | (str) "c = CHR 0x22"
    | (lit) "c \<noteq> CHR ''{''" "c \<noteq> CHR ''[''" "c \<noteq> CHR 0x22" by blast
  then show ?thesis
  proof cases
    case obj
    then show ?thesis using assms(1) assms(2) [of u] Cons le sk
      by (fastforce simp: value_step_def split: if_splits)
  next
    case arr
    then show ?thesis using assms(1) assms(3) [of u] Cons le sk
      by (fastforce simp: value_step_def split: if_splits)
  next
    case str
    then show ?thesis using assms(1) scan_string_shorter [of u] Cons le
      by (fastforce simp: value_step_def split: if_splits)
  next
    case lit
    then have "t = drop 4 (c # u) \<or> t = drop 5 (c # u) \<or> length t < length (c # u)"
      using assms(1) scan_number_shorter [of "c # u"] Cons
      by (auto simp: value_step_def split: if_splits)
    then show ?thesis using le' by (auto simp: numeral_eq_Suc)
  qed
qed (use assms in \<open>simp add: value_step_def\<close>)

lemma parse_shorter:
  "(\<forall>s r t. parse_value n s = Some (r, t) \<longrightarrow> length t < length s) \<and>
   (\<forall>s r t. parse_elems n s = Some (r, t) \<longrightarrow> length t < length s) \<and>
   (\<forall>s r t. parse_members n s = Some (r, t) \<longrightarrow> length t < length s)"
proof (induction n)
  case (Suc n)
  then have v: "\<And>s r t. parse_value n s = Some (r, t) \<Longrightarrow> length t < length s"
    and e: "\<And>s r t. parse_elems n s = Some (r, t) \<Longrightarrow> length t < length s"
    and m: "\<And>s r t. parse_members n s = Some (r, t) \<Longrightarrow> length t < length s" by blast+
  have "length t < length s" if "parse_value (Suc n) s = Some (r, t)" for s r t
    using that unfolding parse_value.simps
    by (rule value_step_shorter [of "parse_members n" "parse_elems n"]) (erule m e)+
  moreover have "length t < length s" if "parse_elems (Suc n) s = Some (r, t)" for s r t
    using that v list_step_shorter [of _ "parse_elems n", OF _ e]
    by (fastforce split: option.splits)
  moreover have "length t < length s" if p: "parse_members (Suc n) s = Some (r, t)" for s r t
  proof -
    from p obtain k u w x where "key_step s = Some (k, u)" and "parse_value n u = Some (x, w)"
      and l: "list_step (CHR ''}'') (parse_members n) (k, x) w = Some (r, t)"
      by (auto split: option.splits)
    then have "length u < length s" and "length w < length u" using key_step_shorter v by blast+
    moreover have "length t < length w" using l by (rule list_step_shorter) (erule m)
    ultimately show ?thesis by simp
  qed
  ultimately show ?case by blast
qed simp

lemma value_step_cong:
  assumes "\<And>t. length t < length s \<Longrightarrow> f t = f' t" and "\<And>t. length t < length s \<Longrightarrow> g t = g' t"
  shows "value_step f g s = value_step f' g' s"
proof (cases "skip_ws s")
  case (Cons c t)
  then have "f t = f' t" and "g t = g' t" using assms skip_ws_Cons by blast+
  with Cons show ?thesis by (simp add: value_step_def)
qed (simp add: value_step_def)

lemma list_step_cong:
  assumes "\<And>t. length t < length s \<Longrightarrow> f t = f' t"
  shows "list_step c f x s = list_step c f' x s"
proof (cases "skip_ws s")
  case (Cons d t)
  then have "f t = f' t" using assms skip_ws_Cons by blast
  with Cons show ?thesis by (simp add: list_step_def)
qed (simp add: list_step_def)

lemma fuel_step:
  "(\<forall>s. 2 * length s + 2 \<le> n \<longrightarrow> parse_value (Suc n) s = parse_value n s) \<and>
   (\<forall>s. 2 * length s + 3 \<le> n \<longrightarrow> parse_elems (Suc n) s = parse_elems n s) \<and>
   (\<forall>s. 2 * length s + 3 \<le> n \<longrightarrow> parse_members (Suc n) s = parse_members n s)"
proof (induction n)
  case (Suc n)
  then have v: "\<And>s. 2 * length s + 2 \<le> n \<Longrightarrow> parse_value (Suc n) s = parse_value n s"
    and e: "\<And>s. 2 * length s + 3 \<le> n \<Longrightarrow> parse_elems (Suc n) s = parse_elems n s"
    and m: "\<And>s. 2 * length s + 3 \<le> n \<Longrightarrow> parse_members (Suc n) s = parse_members n s" by blast+
  have "parse_value (Suc (Suc n)) s = parse_value (Suc n) s" if "2 * length s + 2 \<le> Suc n" for s
    unfolding parse_value.simps by (rule value_step_cong; rule m e) (use that in linarith)+
  moreover have "parse_elems (Suc (Suc n)) s = parse_elems (Suc n) s" if l: "2 * length s + 3 \<le> Suc n" for s
  proof (cases "parse_value n s")
    case (Some p)
    obtain x u where p: "p = (x, u)" by (cases p)
    have "length u < length s" using Some p parse_shorter [of n] by blast
    then have "list_step (CHR '']'') (parse_elems (Suc n)) x u = list_step (CHR '']'') (parse_elems n) x u"
      by (intro list_step_cong e) (use l in linarith)
    with Some p v [of s] l show ?thesis
      by (simp only: parse_elems.simps(2) [of "Suc n"] parse_elems.simps(2) [of n]) simp
  qed (use v [of s] l in \<open>simp only: parse_elems.simps(2) [of "Suc n"] parse_elems.simps(2) [of n]; simp\<close>)
  moreover have "parse_members (Suc (Suc n)) s = parse_members (Suc n) s" if l: "2 * length s + 3 \<le> Suc n" for s
  proof (cases "key_step s")
    case (Some p)
    obtain k u where p: "p = (k, u)" by (cases p)
    have ku: "length u < length s" using key_step_shorter Some p by blast
    then have vu: "parse_value (Suc n) u = parse_value n u" by (intro v) (use l in linarith)
    have "list_step (CHR ''}'') (parse_members (Suc n)) (k, x) w = list_step (CHR ''}'') (parse_members n) (k, x) w"
      if "parse_value n u = Some (x, w)" for x w
    proof -
      have "length w < length u" using that parse_shorter [of n] by blast
      then show ?thesis by (intro list_step_cong m) (use l ku in linarith)
    qed
    with Some p vu show ?thesis
      by (simp only: parse_members.simps(2) [of "Suc n"] parse_members.simps(2) [of n])
        (auto split: option.split)
  qed (simp only: parse_members.simps(2) [of "Suc n"] parse_members.simps(2) [of n]; simp)
  ultimately show ?case by blast
qed simp

text \<open>With at least the fuel \<^const>\<open>parse_json\<close> gives, the result is independent of the fuel.\<close>

lemma json_fuel_enough: "json_fuel s \<le> n \<Longrightarrow> parse_value n s = parse_value (json_fuel s) s"
proof (induction n rule: dec_induct)
  case (step n)
  then have "2 * length s + 2 \<le> n" by (simp add: json_fuel_def)
  with fuel_step [of n] step.IH show ?case by simp
qed simp

lemma parse_jsonI:
  assumes "parse_value n s = Some (v, t)" and "n \<le> json_fuel s" and "skip_ws t = []"
  shows "parse_json s = Some v"
  using parse_value_mono [OF assms(2,1)] assms(3) by (simp add: parse_json_def)

text \<open>A text with one value only: reading its first value reads the whole.\<close>

lemma first_value_parse: "parse_json s \<noteq> None \<Longrightarrow> first_value s = parse_json s"
  by (auto simp: parse_json_def first_value_def split: option.splits prod.splits if_splits)

section \<open>Writing\<close>

definition newline :: string where "newline = [CHR 10]"

definition plain_char :: "char \<Rightarrow> bool" where
  "plain_char c \<longleftrightarrow> 32 \<le> (of_char c :: nat) \<and> c \<noteq> CHR 0x22 \<and> c \<noteq> CHR 0x5C"

lemma scan_digits_stop:
  "\<forall>c \<in> set x. is_digit c \<Longrightarrow> s = [] \<or> \<not> is_digit (hd s) \<Longrightarrow> scan_digits (x @ s) = (x, s)"
  by (cases s) (auto simp: scan_digits_def)

lemma show_nat_cases: obtains c s where "show_nat n = c # s" and "is_digit c"
  using show_nat_digits [of _ n] by (cases "show_nat n") auto

section \<open>Assigning members to fields\<close>

text \<open>The values of the members whose name matches a field, in order.\<close>

definition member_values :: "string \<Rightarrow> (string \<times> json) list \<Rightarrow> json list" where
  "member_values name ms = map snd (filter (\<lambda>(k, v). equal_fold k name) ms)"

text \<open>
  The field's final value from its initial one: \<open>null\<close> is skipped, a wrong type is an error of
  the whole decoding (\<^const>\<open>None\<close>).
\<close>

fun assign_field :: "(json \<Rightarrow> 'a option) \<Rightarrow> 'a \<Rightarrow> json list \<Rightarrow> 'a option" where
  "assign_field conv x [] = Some x"
| "assign_field conv x (JNull # vs) = assign_field conv x vs"
| "assign_field conv x (v # vs) = (case conv v of None \<Rightarrow> None | Some y \<Rightarrow> assign_field conv y vs)"

fun json_u64 :: "json \<Rightarrow> u64 option" where
  "json_u64 (JNum l) = parse_u64 l"
| "json_u64 _ = None"

fun json_int :: "json \<Rightarrow> int option" where
  "json_int (JNum l) = (if has_prefix l ''-'' \<or> (l \<noteq> [] \<and> is_digit (hd l)) then atoi l else None)"
| "json_int _ = None"

fun json_string :: "json \<Rightarrow> string option" where
  "json_string (JStr s) = Some s"
| "json_string _ = None"

definition u64_field :: "string \<Rightarrow> (string \<times> json) list \<Rightarrow> u64 option" where
  "u64_field name ms = assign_field json_u64 0 (member_values name ms)"

definition int_field :: "string \<Rightarrow> (string \<times> json) list \<Rightarrow> int option" where
  "int_field name ms = assign_field json_int 0 (member_values name ms)"

definition string_field :: "string \<Rightarrow> (string \<times> json) list \<Rightarrow> string option" where
  "string_field name ms = assign_field json_string [] (member_values name ms)"

text \<open>The members of the top-level object; a top-level \<open>null\<close> sets no field.\<close>

definition top_members :: "bytes \<Rightarrow> (string \<times> json) list option" where
  "top_members b = (case parse_json b of
     Some (JObj ms) \<Rightarrow> Some ms | Some JNull \<Rightarrow> Some [] | _ \<Rightarrow> None)"

text \<open>How the fields of a printed object read back.\<close>

lemma json_u64_show [simp]: "json_u64 (JNum (show_u64 w)) = Some w"
  by simp

lemma json_int_show: "n < 2 ^ 63 \<Longrightarrow> json_int (JNum (show_nat n)) = Some (int n)"
proof -
  assume n: "n < 2 ^ 63"
  obtain c t where "show_nat n = c # t" "is_digit c" by (rule show_nat_cases)
  with atoi_show_nat [OF n] show ?thesis by simp
qed

lemma member_values_simps [simp]:
  "member_values n [] = []"
  "equal_fold k n \<Longrightarrow> member_values n ((k, v) # ms) = v # member_values n ms"
  "\<not> equal_fold k n \<Longrightarrow> member_values n ((k, v) # ms) = member_values n ms"
  by (simp_all add: member_values_def)

lemma member_values_append [simp]: "member_values n (xs @ ys) = member_values n xs @ member_values n ys"
  by (simp add: member_values_def)

section \<open>Structs and slices\<close>

text \<open>
  A struct field that is itself a struct or a slice of structs: \<open>null\<close> gives the zero value; a
  repeated slice member is taken from its last occurrence. \<open>DisallowUnknownFields\<close> refuses an
  object with a member that matches no field.
\<close>

definition known_members :: "string list \<Rightarrow> (string \<times> json) list \<Rightarrow> bool" where
  "known_members names ms \<longleftrightarrow> (\<forall>(k, v) \<in> set ms. \<exists>n \<in> set names. equal_fold k n)"

definition json_struct :: "string list option \<Rightarrow> 'a \<Rightarrow> ((string \<times> json) list \<Rightarrow> 'a option) \<Rightarrow> json \<Rightarrow> 'a option" where
  "json_struct strict dflt fields v = (case v of
     JNull \<Rightarrow> Some dflt
   | JObj ms \<Rightarrow> (case strict of
        None \<Rightarrow> fields ms
      | Some names \<Rightarrow> if known_members names ms then fields ms else None)
   | _ \<Rightarrow> None)"

definition json_slice :: "(json \<Rightarrow> 'a option) \<Rightarrow> json \<Rightarrow> 'a list option" where
  "json_slice conv v = (case v of JArr vs \<Rightarrow> those (map conv vs) | _ \<Rightarrow> None)"

fun json_bool :: "json \<Rightarrow> bool option" where
  "json_bool (JBool b) = Some b"
| "json_bool _ = None"

definition bool_field :: "string \<Rightarrow> (string \<times> json) list \<Rightarrow> bool option" where
  "bool_field name ms = assign_field json_bool False (member_values name ms)"

definition slice_field :: "(json \<Rightarrow> 'a option) \<Rightarrow> string \<Rightarrow> (string \<times> json) list \<Rightarrow> 'a list option" where
  "slice_field conv name ms = assign_field (json_slice conv) [] (member_values name ms)"

text \<open>An element that is a string: \<open>null\<close> leaves it empty.\<close>

fun json_string_elem :: "json \<Rightarrow> string option" where
  "json_string_elem JNull = Some []"
| "json_string_elem (JStr s) = Some s"
| "json_string_elem _ = None"

end
