(* ===== verification/Go_Json_Print.thy ===== *)
theory Go_Json_Print
  imports Go_Json
begin

text \<open>
  \<open>json.Marshal\<close>: the text of a JSON value as Go writes it (compact, member order kept, strings
  escaped with HTML escaping on), and the round trip through the parser of
  \<^theory_text>\<open>Go_Json\<close>. Numbers are the decimal naturals the state files hold.
\<close>

section \<open>Strings\<close>

definition hex_digit :: "nat \<Rightarrow> char" where
  "hex_digit n = char_of (if n < 10 then 48 + n else 87 + n)"

definition escape_u :: "nat \<Rightarrow> string" where
  "escape_u r = [CHR 0x5C, CHR ''u'', hex_digit (r div 4096), hex_digit (r div 256 mod 16),
                 hex_digit (r div 16 mod 16), hex_digit (r mod 16)]"

definition escape_char :: "char \<Rightarrow> string" where
  "escape_char c =
     (if c = CHR 0x22 then [CHR 0x5C, CHR 0x22] else if c = CHR 0x5C then [CHR 0x5C, CHR 0x5C]
      else if c = CHR 8 then [CHR 0x5C, CHR ''b''] else if c = CHR 12 then [CHR 0x5C, CHR ''f'']
      else if c = CHR 10 then [CHR 0x5C, CHR ''n''] else if c = CHR 13 then [CHR 0x5C, CHR ''r'']
      else if c = CHR 9 then [CHR 0x5C, CHR ''t'']
      else if (of_char c :: nat) < 32 \<or> c = CHR ''<'' \<or> c = CHR ''>'' \<or> c = CHR ''&''
        then escape_u (of_char c)
      else [c])"

text \<open>U+2028 and U+2029 (bytes E2 80 A8 and E2 80 A9) are escaped too.\<close>

fun escape_string :: "string \<Rightarrow> string" where
  "escape_string (a # b # c # s) =
     (if a = CHR 0xE2 \<and> b = CHR 0x80 \<and> (c = CHR 0xA8 \<or> c = CHR 0xA9)
      then escape_u (if c = CHR 0xA8 then 0x2028 else 0x2029) @ escape_string s
      else escape_char a @ escape_string (b # c # s))"
| "escape_string s = concat (map escape_char s)"

definition json_quote :: "string \<Rightarrow> string" where
  "json_quote s = CHR 0x22 # escape_string s @ [CHR 0x22]"

lemma hex_val_digit: "n < 16 \<Longrightarrow> hex_val (hex_digit n) = Some n"
  by (auto simp: hex_val_def hex_digit_def)

lemma unicode_escape_u:
  "r < 0xD800 \<Longrightarrow> unicode_escape (drop 2 (escape_u r) @ s) = Some (utf8 r, s)"
proof -
  assume r: "r < 0xD800"
  have "hex_val (hex_digit (r div 4096)) = Some (r div 4096)" using r by (intro hex_val_digit) linarith
  moreover have "((r div 4096 * 16 + r div 256 mod 16) * 16 + r div 16 mod 16) * 16 + r mod 16 = r"
    using r by (simp add: div_mult2_eq [of r 256 16, simplified] div_mult2_eq [of r 16 16, simplified])
  ultimately show ?thesis using r
    by (simp add: unicode_escape_def escape_u_def hex_val_digit high_surrogate_def low_surrogate_def)
qed

lemma scan_step_plain:
  "plain_char c \<Longrightarrow> scan_string (c # s) = map_option (\<lambda>(y, u). (c # y, u)) (scan_string s)"
  by (subst scan_string.simps(2)) (auto simp: plain_char_def)

lemma scan_step_escape:
  "simple_escape e = Some x \<Longrightarrow> e \<noteq> CHR ''u'' \<Longrightarrow>
   scan_string (CHR 0x5C # e # s) = map_option (\<lambda>(y, u). (x # y, u)) (scan_string s)"
  by (subst scan_string.simps(2)) simp

lemma scan_step_unicode:
  "unicode_escape t = Some (x, t') \<Longrightarrow>
   scan_string (CHR 0x5C # CHR ''u'' # t) = map_option (\<lambda>(y, u). (x @ y, u)) (scan_string t')"
  by (subst scan_string.simps(2)) simp

lemma scan_escape_u:
  assumes "r < 0xD800"
  shows "scan_string (escape_u r @ s) = map_option (\<lambda>(y, u). (utf8 r @ y, u)) (scan_string s)"
proof -
  have e: "escape_u r @ s = CHR 0x5C # CHR ''u'' # (drop 2 (escape_u r) @ s)" by (simp add: escape_u_def)
  show ?thesis unfolding e by (rule scan_step_unicode [OF unicode_escape_u [OF assms]])
qed

lemma escape_char_cases:
  obtains (simple) e where "escape_char c = [CHR 0x5C, e]" and "simple_escape e = Some c" and "e \<noteq> CHR ''u''"
  | (unicode) "escape_char c = escape_u (of_char c)" and "of_char c < (0x80 :: nat)"
  | (plain) "escape_char c = [c]" and "plain_char c"
proof (cases "c = CHR 0x22 \<or> c = CHR 0x5C \<or> c = CHR 8 \<or> c = CHR 12 \<or> c = CHR 10 \<or> c = CHR 13 \<or> c = CHR 9")
  case True
  then show thesis using simple by (elim disjE) (simp_all add: escape_char_def simple_escape_def)
next
  case False
  show thesis
  proof (cases "(of_char c :: nat) < 32 \<or> c = CHR ''<'' \<or> c = CHR ''>'' \<or> c = CHR ''&''")
    case True
    then have "of_char c < (0x80 :: nat)" by (elim disjE) simp_all
    with True False show thesis by (intro unicode) (simp_all add: escape_char_def)
  next
    case plain': False
    with False show thesis by (intro plain) (simp_all add: escape_char_def plain_char_def)
  qed
qed

lemma scan_escape_char:
  "scan_string (escape_char c @ s) = map_option (\<lambda>(y, u). (c # y, u)) (scan_string s)"
proof (cases c rule: escape_char_cases)
  case (simple e)
  then show ?thesis using scan_step_escape by simp
next
  case unicode
  then show ?thesis using scan_escape_u [of "of_char c" s] by (simp add: utf8_def)
next
  case plain
  then show ?thesis using scan_step_plain by simp
qed

lemma utf8_separators:
  "utf8 0x2028 = [CHR 0xE2, CHR 0x80, CHR 0xA8]" "utf8 0x2029 = [CHR 0xE2, CHR 0x80, CHR 0xA9]"
  by (simp_all add: utf8_def char_of_def bit_iff_odd)

lemma scan_escape_string:
  "scan_string (escape_string x @ CHR 0x22 # s) = Some (x, s)"
proof (induction x rule: escape_string.induct)
  case (1 a b c x)
  show ?case
  proof (cases "a = CHR 0xE2 \<and> b = CHR 0x80 \<and> (c = CHR 0xA8 \<or> c = CHR 0xA9)")
    case True
    have u: "utf8 (if c = CHR 0xA8 then 0x2028 else 0x2029) = [a, b, c]" using True utf8_separators by auto
    have "escape_string (a # b # c # x)
        = escape_u (if c = CHR 0xA8 then 0x2028 else 0x2029) @ escape_string x" using True by simp
    then show ?thesis
      using scan_escape_u [of "if c = CHR 0xA8 then 0x2028 else 0x2029"] "1.IH"(1) True u by simp
  next
    case False
    have "escape_string (a # b # c # x) = escape_char a @ escape_string (b # c # x)"
      by (subst escape_string.simps(1)) (rule if_not_P [OF False])
    then show ?thesis using scan_escape_char "1.IH"(2) [OF False] by simp
  qed
qed (simp_all add: scan_escape_char)

lemma length_escape_char: "length (escape_char c) \<le> 6"
  by (simp add: escape_char_def escape_u_def)

lemma length_escape_string: "length (escape_string s) \<le> 6 * length s"
  apply (induction s rule: escape_string.induct)
  subgoal for a b c s using length_escape_char [of a] by (auto simp: escape_u_def)
  subgoal by simp
  subgoal for v using length_escape_char [of v] by simp
  subgoal for v w using length_escape_char [of v] length_escape_char [of w] by simp
  done

section \<open>Values\<close>

fun json_text :: "json \<Rightarrow> string" where
  "json_text JNull = ''null''"
| "json_text (JBool b) = (if b then ''true'' else ''false'')"
| "json_text (JNum l) = l"
| "json_text (JStr s) = json_quote s"
| "json_text (JArr vs) = ''['' @ join_with (CHR '','') (map json_text vs) @ '']''"
| "json_text (JObj ms) = ''{'' @ join_with (CHR '','') (map (\<lambda>(k, v). json_quote k @ '':'' @ json_text v) ms) @ ''}''"

text \<open>The values the round trip covers: their numbers are decimal naturals.\<close>

fun natural_json :: "json \<Rightarrow> bool" where
  "natural_json (JNum l) \<longleftrightarrow> (\<exists>n. l = show_nat n)"
| "natural_json (JArr vs) \<longleftrightarrow> (\<forall>v \<in> set vs. natural_json v)"
| "natural_json (JObj ms) \<longleftrightarrow> (\<forall>(k, v) \<in> set ms. natural_json v)"
| "natural_json _ \<longleftrightarrow> True"


section \<open>The round trip\<close>

definition closer :: "char \<Rightarrow> bool" where
  "closer c \<longleftrightarrow> c = CHR '','' \<or> c = CHR '']'' \<or> c = CHR ''}'' \<or> c = CHR 10"

lemma scan_number_natural:
  assumes "closer c"
  shows "scan_number (show_nat n @ c # s) = Some (show_nat n, c # s)"
proof -
  let ?x = "show_nat n"
  have d: "\<forall>k \<in> set ?x. is_digit k" using show_nat_digits by blast
  have "\<not> is_digit c" using assms by (auto simp: is_digit_def closer_def)
  then have sd: "scan_digits (?x @ c # s) = (?x, c # s)" using d by (simp add: scan_digits_stop)
  have "is_digit (hd ?x)" using d by simp
  then have "\<not> has_prefix (?x @ c # s) ''-''" by (cases ?x) (auto simp: has_prefix_def is_digit_def)
  moreover have "\<not> (length ?x > 1 \<and> hd ?x = CHR ''0'')"
    using hd_show_nat [of n] by (cases "n = 0") (auto simp: show_nat.simps [of 0])
  ultimately have "scan_int (?x @ c # s) = Some (?x, c # s)" using sd by (simp add: scan_int_def)
  moreover have "scan_frac (c # s) = Some ([], c # s)" and "scan_exp (c # s) = Some ([], c # s)"
    using assms by (auto simp: scan_frac_def scan_exp_def has_prefix_def closer_def)
  ultimately show ?thesis by (simp add: scan_number_def)
qed

lemma step_natural:
  assumes "closer c"
  shows "value_step f g (show_nat n @ c # s) = Some (JNum (show_nat n), c # s)"
proof -
  obtain h t where h: "show_nat n = h # t" "is_digit h" by (rule show_nat_cases)
  then have "\<not> json_space h" by (auto simp: is_digit_def json_space_def)
  then have "skip_ws (show_nat n @ c # s) = show_nat n @ c # s" using h by (simp add: skip_ws_def)
  moreover have "h \<notin> {CHR ''{'', CHR ''['', CHR 0x22, CHR ''n'', CHR ''t'', CHR ''f''}"
    using h(2) by (auto simp: is_digit_def)
  ultimately show ?thesis using h scan_number_natural [OF assms, of n s]
    by (auto simp: value_step_def has_prefix_def)
qed

text \<open>
  A text denotes a value when the parser reads it back with something after it that may follow a
  value. White space before a text changes nothing; \<open>gap\<close> is what may stand before a closing bracket.
\<close>

definition denotes :: "json \<Rightarrow> string \<Rightarrow> bool" where
  "denotes v x \<longleftrightarrow> (\<exists>n. \<forall>m \<ge> n. \<forall>c s. closer c \<longrightarrow> parse_value m (x @ c # s) = Some (v, c # s))"

definition blank :: "string \<Rightarrow> bool" where
  "blank w \<longleftrightarrow> (\<forall>c \<in> set w. json_space c)"

definition gap :: "string \<Rightarrow> bool" where
  "gap w \<longleftrightarrow> blank w \<and> (w = [] \<or> closer (hd w))"

lemma skip_blank [simp]: "blank w \<Longrightarrow> skip_ws (w @ s) = skip_ws s"
  by (simp add: skip_ws_def blank_def dropWhile_append3)

lemma parse_value_step: "0 < n \<Longrightarrow> parse_value n s = value_step (parse_members (n - 1)) (parse_elems (n - 1)) s"
  by (cases n) simp_all

lemma denotesI: "(\<And>n c s. n \<ge> k \<Longrightarrow> n > 0 \<Longrightarrow> closer c \<Longrightarrow>
    value_step (parse_members (n - 1)) (parse_elems (n - 1)) (x @ c # s) = Some (v, c # s)) \<Longrightarrow> denotes v x"
  unfolding denotes_def by (intro exI [of _ "Suc k"]) (auto simp: parse_value_step)

lemma denotes_blank: "denotes v x \<Longrightarrow> blank w \<Longrightarrow> denotes v (w @ x)"
  unfolding denotes_def
proof (elim exE)
  fix n
  assume n: "\<forall>m \<ge> n. \<forall>c s. closer c \<longrightarrow> parse_value m (x @ c # s) = Some (v, c # s)" and w: "blank w"
  have "parse_value m ((w @ x) @ c # s) = parse_value m (x @ c # s)" for m c s
    using skip_blank [OF w, of "x @ c # s"] by (cases m) (simp_all add: value_step_def)
  then show "\<exists>n. \<forall>m \<ge> n. \<forall>c s. closer c \<longrightarrow> parse_value m ((w @ x) @ c # s) = Some (v, c # s)" using n by auto
qed

lemma step_not_closed: "value_step f g s = Some r \<Longrightarrow> \<not> has_prefix (skip_ws s) '']''"
proof
  assume r: "value_step f g s = Some r" and "has_prefix (skip_ws s) '']''"
  then obtain t where "skip_ws s = CHR '']'' # t" by (auto simp: has_prefix_iff)
  then show False using r
    by (simp add: value_step_def has_prefix_def scan_number_def scan_int_def scan_digits_def is_digit_def)
qed

lemma list_step_last: "gap w \<Longrightarrow> close \<noteq> CHR '','' \<Longrightarrow> \<not> json_space close \<Longrightarrow> list_step close more x (w @ close # s) = Some ([x], s)"
  by (simp add: list_step_def gap_def) (simp add: skip_ws_def)

lemma list_step_more: "list_step close more x (CHR '','' # s) = map_option (\<lambda>(xs, u). (x # xs, u)) (more s)"
  by (simp add: list_step_def skip_ws_def json_space_def)

text \<open>What follows the last part of a list starts with a character that may follow a value.\<close>

lemma gap_closer:
  assumes "gap w" and "closer close"
  obtains c t where "w @ close # s = c # t" and "closer c"
  using assms by (cases w) (auto simp: gap_def)

lemma denotes_elems:
  assumes "list_all2 denotes vs xs" and "vs \<noteq> []" and "gap w"
  shows "\<exists>n. \<forall>m \<ge> n. \<forall>s. parse_elems m (join_with (CHR '','') xs @ w @ CHR '']'' # s) = Some (vs, s)"
  using assms(1,2)
proof (induction vs xs rule: list_all2_induct)
  case (Cons v vs x xs)
  from Cons.hyps(1) obtain n where n: "\<And>m c s. m \<ge> n \<Longrightarrow> closer c \<Longrightarrow> parse_value m (x @ c # s) = Some (v, c # s)"
    unfolding denotes_def by blast
  show ?case
  proof (cases vs)
    case Nil
    then have xs: "xs = []" using Cons.hyps(2) by simp
    have "parse_elems m (x @ w @ CHR '']'' # s) = Some ([v], s)" if m: "m \<ge> Suc n" for m s
    proof -
      obtain k where k: "m = Suc k" "k \<ge> n" using m by (cases m) auto
      obtain c t where c: "w @ CHR '']'' # s = c # t" "closer c"
        by (rule gap_closer [OF assms(3), of "CHR '']''" s]) (simp_all add: closer_def)
      have "parse_value k (x @ w @ CHR '']'' # s) = Some (v, w @ CHR '']'' # s)" unfolding c(1) by (rule n [OF k(2) c(2)])
      then show ?thesis using k list_step_last [OF assms(3), of "CHR '']''"] by (simp add: json_space_def)
    qed
    then show ?thesis using Nil xs by auto
  next
    case (Cons v' vs')
    then obtain x' xs' where xs: "xs = x' # xs'" using Cons.hyps(2) by (cases xs) auto
    obtain k where k: "\<And>m s. m \<ge> k \<Longrightarrow> parse_elems m (join_with (CHR '','') xs @ w @ CHR '']'' # s) = Some (vs, s)"
      using Cons.IH Cons by auto
    have "parse_elems m (join_with (CHR '','') (x # xs) @ w @ CHR '']'' # s) = Some (v # vs, s)" if m: "m \<ge> Suc (max n k)" for m s
    proof -
      obtain l where l: "m = Suc l" "l \<ge> n" "l \<ge> k" using m by (cases m) auto
      let ?r = "join_with (CHR '','') xs @ w @ CHR '']'' # s"
      have "parse_value l (x @ CHR '','' # ?r) = Some (v, CHR '','' # ?r)" by (rule n [OF l(2)]) (simp add: closer_def)
      then show ?thesis using k [OF l(3), of s] l(1) by (simp add: xs list_step_more)
    qed
    then show ?thesis by blast
  qed
qed simp

text \<open>A member: white space, the quoted key, a colon and a text of the value.\<close>

definition member_text :: "string \<Rightarrow> string \<times> string \<Rightarrow> string" where
  "member_text w m = w @ json_quote (fst m) @ '':'' @ snd m"

lemma key_step_quote: "blank w \<Longrightarrow> key_step (w @ json_quote k @ CHR '':'' # s) = Some (k, s)"
  by (simp add: key_step_def) (simp add: json_quote_def skip_ws_def json_space_def scan_escape_string)

lemma denotes_members:
  assumes "list_all2 denotes (map snd ms) xs" and "ms \<noteq> []" and "gap w" and "blank u"
  shows "\<exists>n. \<forall>m \<ge> n. \<forall>s. parse_members m (join_with (CHR '','') (map (member_text u) (zip (map fst ms) xs)) @
    w @ CHR ''}'' # s) = Some (ms, s)"
  using assms(1,2)
proof (induction ms arbitrary: xs)
  case (Cons p ms)
  then obtain x ys where xs: "xs = x # ys" "denotes (snd p) x" "list_all2 denotes (map snd ms) ys"
    by (auto simp: list_all2_Cons1)
  from xs(2) obtain n where n: "\<And>m c s. m \<ge> n \<Longrightarrow> closer c \<Longrightarrow> parse_value m (x @ c # s) = Some (snd p, c # s)"
    unfolding denotes_def by blast
  have key: "key_step (member_text u (fst p, x) @ s) = Some (fst p, x @ s)" for s
    using key_step_quote [OF assms(4), of "fst p" "x @ s"] by (simp add: member_text_def)
  show ?case
  proof (cases ms)
    case Nil
    have "parse_members m (member_text u (fst p, x) @ w @ CHR ''}'' # s) = Some ([p], s)" if m: "m \<ge> Suc n" for m s
    proof -
      obtain k where k: "m = Suc k" "k \<ge> n" using m by (cases m) auto
      obtain c t where c: "w @ CHR ''}'' # s = c # t" "closer c"
        by (rule gap_closer [OF assms(3), of "CHR ''}''" s]) (simp_all add: closer_def)
      have "parse_value k (x @ w @ CHR ''}'' # s) = Some (snd p, w @ CHR ''}'' # s)" unfolding c(1) by (rule n [OF k(2) c(2)])
      then show ?thesis using k key list_step_last [OF assms(3), of "CHR ''}''"] by (simp add: json_space_def)
    qed
    then show ?thesis using Nil xs by auto
  next
    case (Cons q qs)
    then obtain y zs where ys: "ys = y # zs" using xs(3) by (cases ys) auto
    let ?rest = "join_with (CHR '','') (map (member_text u) (zip (map fst ms) ys))"
    obtain k where k: "\<And>m s. m \<ge> k \<Longrightarrow> parse_members m (?rest @ w @ CHR ''}'' # s) = Some (ms, s)"
      using Cons.IH [OF xs(3)] Cons by auto
    have "parse_members m (join_with (CHR '','') (map (member_text u) (zip (map fst (p # ms)) xs)) @ w @ CHR ''}'' # s) = Some (p # ms, s)"
      if m: "m \<ge> Suc (max n k)" for m s
    proof -
      obtain l where l: "m = Suc l" "l \<ge> n" "l \<ge> k" using m by (cases m) auto
      have join: "join_with (CHR '','') (map (member_text u) (zip (map fst (p # ms)) xs)) = member_text u (fst p, x) @ CHR '','' # ?rest"
        using xs(1) ys Cons by simp
      let ?r = "?rest @ w @ CHR ''}'' # s"
      have "parse_value l (x @ CHR '','' # ?r) = Some (snd p, CHR '','' # ?r)" by (rule n [OF l(2)]) (simp add: closer_def)
      then show ?thesis using k [OF l(3), of s] l(1) key unfolding join by (simp add: list_step_more)
    qed
    then show ?thesis by blast
  qed
qed simp

text \<open>Arrays and objects from the texts of their parts.\<close>

lemma denotes_array:
  assumes "list_all2 denotes vs xs" and "vs \<noteq> []" and "gap w"
  shows "denotes (JArr vs) (''['' @ join_with (CHR '','') xs @ w @ '']'')"
proof -
  obtain n where n: "\<And>m s. m \<ge> n \<Longrightarrow> parse_elems m (join_with (CHR '','') xs @ w @ CHR '']'' # s) = Some (vs, s)"
    using denotes_elems [OF assms] by blast
  have not_end: "\<not> has_prefix (skip_ws (join_with (CHR '','') xs @ w @ CHR '']'' # s)) '']''" for s
  proof -
    obtain r where "parse_elems (Suc n) (join_with (CHR '','') xs @ w @ CHR '']'' # s) = Some r" using n [of "Suc n"] by auto
    then obtain r' where "parse_value n (join_with (CHR '','') xs @ w @ CHR '']'' # s) = Some r'" by (auto split: option.splits)
    then show ?thesis by (cases n) (auto dest: step_not_closed)
  qed
  show ?thesis
  proof (rule denotesI [of "Suc n"])
    fix m c s
    assume "m \<ge> Suc n"
    then have "parse_elems (m - 1) (join_with (CHR '','') xs @ w @ CHR '']'' # c # s) = Some (vs, c # s)" using n by simp
    then show "value_step (parse_members (m - 1)) (parse_elems (m - 1)) ((''['' @ join_with (CHR '','') xs @ w @ '']'') @ c # s)
        = Some (JArr vs, c # s)"
      using not_end [of "c # s"] by (simp add: value_step_def skip_ws_def json_space_def)
  qed
qed

lemma denotes_object:
  assumes "list_all2 denotes (map snd ms) xs" and "ms \<noteq> []" and "gap w" and "blank u"
  shows "denotes (JObj ms) (''{'' @ join_with (CHR '','') (map (member_text u) (zip (map fst ms) xs)) @ w @ ''}'')"
proof -
  let ?j = "join_with (CHR '','') (map (member_text u) (zip (map fst ms) xs))"
  obtain n where n: "\<And>m s. m \<ge> n \<Longrightarrow> parse_members m (?j @ w @ CHR ''}'' # s) = Some (ms, s)"
    using denotes_members [OF assms] by blast
  have not_end: "\<not> has_prefix (skip_ws (?j @ w @ CHR ''}'' # s)) ''}''" for s
  proof
    assume "has_prefix (skip_ws (?j @ w @ CHR ''}'' # s)) ''}''"
    then have "key_step (?j @ w @ CHR ''}'' # s) = None" by (auto simp: has_prefix_iff key_step_def)
    then have "parse_members (Suc n) (?j @ w @ CHR ''}'' # s) = None" by simp
    with n [of "Suc n" s] show False by simp
  qed
  show ?thesis
  proof (rule denotesI [of "Suc n"])
    fix m c s
    assume "m \<ge> Suc n"
    then have "parse_members (m - 1) (?j @ w @ CHR ''}'' # c # s) = Some (ms, c # s)" using n by simp
    then show "value_step (parse_members (m - 1)) (parse_elems (m - 1)) ((''{'' @ ?j @ w @ ''}'') @ c # s) = Some (JObj ms, c # s)"
      using not_end [of "c # s"] by (simp add: value_step_def skip_ws_def json_space_def)
  qed
qed

lemma denotes_number: "denotes (JNum (show_nat n)) (show_nat n)"
  by (rule denotesI [of 0]) (simp add: step_natural)

lemma denotes_scalar:
  "denotes (JStr x) (json_quote x)" "denotes JNull ''null''" "denotes (JBool True) ''true''"
  "denotes (JBool False) ''false''" "denotes (JArr []) ''[]''" "denotes (JObj []) ''{}''"
  by (rule denotesI [of 0];
      simp add: value_step_def skip_ws_def json_space_def json_quote_def scan_escape_string has_prefix_def)+

lemma map_zip_fst: "map f (zip (map fst ms) (map g ms)) = map (\<lambda>p. f (fst p, g p)) ms"
  by (induction ms) simp_all

lemma list_all2_same_map: "(\<And>p. p \<in> set ms \<Longrightarrow> P (f p) (g p)) \<Longrightarrow> list_all2 P (map f ms) (map g ms)"
  by (induction ms) auto

lemma natural_denotes: "natural_json v \<Longrightarrow> denotes v (json_text v)"
proof (induction v)
  case (JArr vs)
  then have "list_all2 denotes vs (map json_text vs)" using list_all2_same_map [of vs denotes "\<lambda>v. v" json_text] by simp
  then show ?case using denotes_array [of vs "map json_text vs" "[]"] denotes_scalar(5)
    by (cases "vs = []") (simp_all add: gap_def blank_def)
next
  case (JObj ms)
  have "denotes (snd p) (json_text (snd p))" if "p \<in> set ms" for p
    using JObj that by (cases p) (fastforce simp: snds.simps)
  then have d: "list_all2 denotes (map snd ms) (map (\<lambda>p. json_text (snd p)) ms)" by (rule list_all2_same_map)
  show ?case
  proof (cases "ms = []")
    case False
    from denotes_object [OF d this, of "[]" "[]"] show ?thesis
      by (simp add: gap_def blank_def map_zip_fst member_text_def case_prod_beta')
  qed (simp add: denotes_scalar)
qed (auto simp: denotes_scalar denotes_number)

text \<open>A document followed by a line feed is read back as it was written.\<close>

lemma denotes_parse:
  assumes "denotes v x"
  shows "parse_json (x @ newline) = Some v"
proof -
  let ?s = "x @ newline"
  obtain n where n: "\<And>m c s. m \<ge> n \<Longrightarrow> closer c \<Longrightarrow> parse_value m (x @ c # s) = Some (v, c # s)"
    using assms by (auto simp: denotes_def)
  let ?m = "max n (json_fuel ?s)"
  have "parse_value ?m ?s = Some (v, newline)"
    using n [of ?m "CHR 10" "[]"] by (simp add: closer_def newline_def)
  then have "parse_value (json_fuel ?s) ?s = Some (v, newline)"
    using json_fuel_enough [of ?s ?m] by simp
  then show ?thesis by (simp add: parse_json_def newline_def skip_ws_def json_space_def)
qed

lemma parse_json_text: "natural_json v \<Longrightarrow> parse_json (json_text v @ newline) = Some v"
  by (rule denotes_parse [OF natural_denotes])

section \<open>Indented text\<close>

text \<open>\<open>json.MarshalIndent(v, "", "  ")\<close>: each part on a line of its own, two blanks per level.\<close>

definition indent :: "nat \<Rightarrow> string" where
  "indent d = CHR 10 # replicate (2 * d) (CHR '' '')"

fun indent_text :: "nat \<Rightarrow> json \<Rightarrow> string" where
  "indent_text d (JArr (v # vs)) =
     ''['' @ join_with (CHR '','') (map (\<lambda>x. indent (d + 1) @ indent_text (d + 1) x) (v # vs)) @ indent d @ '']''"
| "indent_text d (JObj (m # ms)) =
     ''{'' @ join_with (CHR '','') (map (\<lambda>(k, x). indent (d + 1) @ json_quote k @ '': '' @ indent_text (d + 1) x) (m # ms))
       @ indent d @ ''}''"
| "indent_text d v = json_text v"

lemma indent_gap: "gap (indent d)" "blank (indent d)" "blank '' ''"
  by (auto simp: gap_def blank_def indent_def closer_def json_space_def)

lemma indent_denotes: "natural_json v \<Longrightarrow> denotes v (indent_text d v)"
proof (induction v arbitrary: d)
  case (JArr vs)
  have "denotes v (indent (d + 1) @ indent_text (d + 1) v)" if "v \<in> set vs" for v
    using JArr that by (intro denotes_blank indent_gap) auto
  then have "list_all2 denotes (map (\<lambda>v. v) vs) (map (\<lambda>x. indent (d + 1) @ indent_text (d + 1) x) vs)"
    by (rule list_all2_same_map)
  then have a: "vs \<noteq> [] \<Longrightarrow> denotes (JArr vs) (''['' @ join_with (CHR '','') (map (\<lambda>x. indent (d + 1) @ indent_text (d + 1) x) vs)
      @ indent d @ '']'')" using denotes_array [OF _ _ indent_gap(1)] by simp
  show ?case
  proof (cases vs)
    case (Cons v ws)
    then show ?thesis using a by (simp only: indent_text.simps) simp
  qed (simp add: denotes_scalar)
next
  case (JObj ms)
  have "denotes (snd p) ('' '' @ indent_text (d + 1) (snd p))" if "p \<in> set ms" for p
    using JObj that by (cases p) (fastforce simp: snds.simps intro!: denotes_blank indent_gap)
  then have d: "list_all2 denotes (map snd ms) (map (\<lambda>p. '' '' @ indent_text (d + 1) (snd p)) ms)"
    by (rule list_all2_same_map)
  have m: "map (member_text (indent (d + 1))) (zip (map fst ms) (map (\<lambda>p. '' '' @ indent_text (d + 1) (snd p)) ms)) =
      map (\<lambda>(k, x). indent (d + 1) @ json_quote k @ '': '' @ indent_text (d + 1) x) ms"
    unfolding map_zip_fst by (rule map_cong [OF refl]) (simp add: member_text_def split_beta)
  show ?case
  proof (cases ms)
    case (Cons p ps)
    have "denotes (JObj ms) (''{'' @ join_with (CHR '','') (map (\<lambda>(k, x). indent (d + 1) @ json_quote k @ '': '' @
        indent_text (d + 1) x) ms) @ indent d @ ''}'')"
      using denotes_object [OF d _ indent_gap(1) [of d] indent_gap(2) [of "d + 1"]] Cons unfolding m by simp
    then show ?thesis unfolding Cons indent_text.simps .
  qed (simp add: denotes_scalar)
qed (auto simp: denotes_scalar denotes_number)

lemma parse_indent_text: "natural_json v \<Longrightarrow> parse_json (indent_text 0 v @ newline) = Some v"
  by (rule denotes_parse [OF indent_denotes])

end
