(* ===== verification/Go_Http.thy ===== *)
theory Go_Http
  imports Go_Json_Print
begin

text \<open>
  The edge to the network: a request as the client builds it, a response with a body that can
  fail to be read, the bounded reading of a body, and the escaping of a path segment. The server
  is an argument of the definitions that talk to it: a function from a request and the state of
  the world to a response, or to an error of the connection, and the next state.
\<close>

record http_request =
  Method :: string
  Url :: string
  Headers :: "(string \<times> string) list"
  Content :: bytes

record http_response =
  StatusCode :: nat
  RespBody :: "bytes result"
  ETag :: string

type_synonym 'w server = "http_request \<Rightarrow> 'w \<Rightarrow> http_response result \<times> 'w"

definition get_request :: "string \<Rightarrow> http_request" where
  "get_request url = \<lparr>Method = ''GET'', Url = url, Headers = [], Content = []\<rparr>"

definition success_status :: "http_response \<Rightarrow> bool" where
  "success_status r \<longleftrightarrow> \<not> (StatusCode r < 200 \<or> StatusCode r \<ge> 300)"

text \<open>\<open>io.ReadAll(io.LimitReader(body, n))\<close>.\<close>

definition read_limited :: "nat \<Rightarrow> http_response \<Rightarrow> bytes result" where
  "read_limited n r = bind_result (RespBody r) (\<lambda>b. Inr (take n b))"

text \<open>\<open>url.PathEscape\<close>.\<close>

definition segment_char :: "char \<Rightarrow> bool" where
  "segment_char c \<longleftrightarrow> (let n = (of_char c :: nat) in
     48 \<le> n \<and> n \<le> 57 \<or> 65 \<le> n \<and> n \<le> 90 \<or> 97 \<le> n \<and> n \<le> 122 \<or> c \<in> set ''-_.~$&+:=@'')"

definition upper_hex :: "nat \<Rightarrow> char" where
  "upper_hex n = char_of (if n < 10 then 48 + n else 55 + n)"

definition path_escape :: "string \<Rightarrow> string" where
  "path_escape s = concat (map (\<lambda>c. if segment_char c then [c]
     else [CHR ''%'', upper_hex (of_char c div 16), upper_hex (of_char c mod 16)]) s)"

lemma read_limited_Inr: "read_limited n r = Inr b \<Longrightarrow> length b \<le> n"
  by (auto simp: read_limited_def bind_result_Inr_iff)

end
