(* ===== verification/Go_Base64.thy ===== *)
theory Go_Base64
  imports Agent_Prelude
begin

text \<open>
  \<open>encoding/base64\<close> with the standard alphabet: \<open>StdEncoding.EncodeToString\<close>, and the decoder in
  its strict form, which also demands that the unused bits before the padding are zero. Both
  decoders skip carriage returns and line feeds.
\<close>

definition b64_char :: "nat \<Rightarrow> char" where
  "b64_char n =
     (if n < 26 then char_of (65 + n) else if n < 52 then char_of (71 + n)
      else if n < 62 then char_of (n - 4) else if n = 62 then CHR ''+'' else CHR ''/'')"

definition b64_val :: "char \<Rightarrow> nat option" where
  "b64_val c = (let n = (of_char c :: nat) in
     if 65 \<le> n \<and> n \<le> 90 then Some (n - 65) else if 97 \<le> n \<and> n \<le> 122 then Some (n - 71)
     else if 48 \<le> n \<and> n \<le> 57 then Some (n + 4) else if n = 43 then Some 62
     else if n = 47 then Some 63 else None)"

fun b64_encode :: "bytes \<Rightarrow> string" where
  "b64_encode (a # b # c # s) =
     (let x = of_char a; y = of_char b; z = of_char c :: nat in
      b64_char (x div 4) # b64_char (x mod 4 * 16 + y div 16) # b64_char (y mod 16 * 4 + z div 64)
        # b64_char (z mod 64) # b64_encode s)"
| "b64_encode [a, b] =
     (let x = of_char a; y = of_char b :: nat in
      [b64_char (x div 4), b64_char (x mod 4 * 16 + y div 16), b64_char (y mod 16 * 4), CHR ''=''])"
| "b64_encode [a] =
     (let x = of_char a :: nat in [b64_char (x div 4), b64_char (x mod 4 * 16), CHR ''='', CHR ''=''])"
| "b64_encode [] = []"

text \<open>The last quantum: padded or full; \<open>strict\<close> looks at the bits that are left over.\<close>

definition b64_last :: "bool \<Rightarrow> char \<Rightarrow> char \<Rightarrow> char \<Rightarrow> char \<Rightarrow> bytes option" where
  "b64_last strict a b c d = (case (b64_val a, b64_val b) of
     (Some x, Some y) \<Rightarrow>
       (if c = CHR ''='' \<and> d = CHR ''='' then
          (if strict \<and> y mod 16 \<noteq> 0 then None else Some [char_of (x * 4 + y div 16)])
        else (case b64_val c of
          None \<Rightarrow> None
        | Some z \<Rightarrow>
           (if d = CHR ''='' then
              (if strict \<and> z mod 4 \<noteq> 0 then None
               else Some [char_of (x * 4 + y div 16), char_of (y mod 16 * 16 + z div 4)])
            else (case b64_val d of
               None \<Rightarrow> None
             | Some w \<Rightarrow> Some [char_of (x * 4 + y div 16), char_of (y mod 16 * 16 + z div 4),
                               char_of (z mod 4 * 64 + w)]))))
   | _ \<Rightarrow> None)"

fun b64_groups :: "bool \<Rightarrow> string \<Rightarrow> bytes option" where
  "b64_groups strict [] = Some []"
| "b64_groups strict (a # b # c # d # s) = (case b64_last strict a b c d of
     None \<Rightarrow> None
   | Some x \<Rightarrow> (if s = [] then Some x
               else if d = CHR ''='' then None
               else map_option (\<lambda>y. x @ y) (b64_groups strict s)))"
| "b64_groups strict _ = None"

definition b64_decode :: "bool \<Rightarrow> string \<Rightarrow> bytes option" where
  "b64_decode strict s = b64_groups strict (filter (\<lambda>c. c \<noteq> CHR 10 \<and> c \<noteq> CHR 13) s)"

section \<open>The round trip\<close>

lemma b64_char_val [simp]: "n < 64 \<Longrightarrow> b64_val (b64_char n) = Some n"
  by (auto simp: b64_char_def b64_val_def Let_def of_char_of)

lemma b64_char_not: "n < 64 \<Longrightarrow> b64_val c = None \<Longrightarrow> b64_char n \<noteq> c"
  using b64_char_val by force

lemma b64_char_pad [simp]: "n < 64 \<Longrightarrow> b64_char n \<noteq> CHR ''=''"
  by (rule b64_char_not) (simp_all add: b64_val_def)

lemma b64_char_line [simp]: "n < 64 \<Longrightarrow> b64_char n \<noteq> CHR 10 \<and> b64_char n \<noteq> CHR 13"
  using b64_char_not [of n "CHR 10"] b64_char_not [of n "CHR 13"] by (simp add: b64_val_def)

lemma byte_bound [simp]: "(of_char c :: nat) < 256"
  by simp

lemma b64_quads:
  assumes "(x :: nat) < 256" and "y < 256" and "z < 256"
  shows "x div 4 < 64" "x mod 4 * 16 + y div 16 < 64" "y mod 16 * 4 + z div 64 < 64" "z mod 64 < 64"
    "x mod 4 * 16 < 64" "y mod 16 * 4 < 64"
  using assms by linarith+

lemma b64_bytes:
  assumes "(x :: nat) < 256"
  shows "x div 16 div 16 = 0" "x div 64 div 4 = 0" "x div 16 mod 16 = x div 16" "x div 64 mod 4 = x div 64"
  using assms by (simp_all add: div_mult2_eq [symmetric])

lemma b64_encode_Nil [simp]: "b64_encode s = [] \<longleftrightarrow> s = []"
  by (cases s rule: b64_encode.cases) (simp_all add: Let_def)

lemma b64_groups_encode: "b64_groups strict (b64_encode s) = Some s"
proof (induction s rule: b64_encode.induct)
  case (1 a b c s)
  note q = b64_quads [of "of_char a" "of_char b" "of_char c", OF byte_bound byte_bound byte_bound]
    and e = b64_bytes [OF byte_bound, of a] b64_bytes [OF byte_bound, of b] b64_bytes [OF byte_bound, of c]
  show ?case using 1 q by (cases s) (simp_all add: Let_def b64_last_def e)
next
  case (2 a b)
  note q = b64_quads [of "of_char a" "of_char b" 0, OF byte_bound byte_bound, simplified]
    and e = b64_bytes [OF byte_bound, of a] b64_bytes [OF byte_bound, of b]
  show ?case using q e by (simp add: Let_def b64_last_def)
next
  case (3 a)
  note q = b64_quads [of "of_char a" 0 0, OF byte_bound, simplified]
    and e = b64_bytes [OF byte_bound, of a]
  show ?case using q e by (simp add: Let_def b64_last_def)
qed simp

lemma b64_encode_chars: "c \<in> set (b64_encode s) \<Longrightarrow> c \<noteq> CHR 10 \<and> c \<noteq> CHR 13"
proof (induction s rule: b64_encode.induct)
  case (1 a b c s)
  note q = b64_quads [of "of_char a" "of_char b" "of_char c", OF byte_bound byte_bound byte_bound]
  then show ?case using 1 by (auto simp: Let_def)
next
  case (2 a b)
  note q = b64_quads [of "of_char a" "of_char b" 0, OF byte_bound byte_bound]
  then show ?case using 2 by (auto simp: Let_def)
next
  case (3 a)
  note q = b64_quads [of "of_char a" 0 0, OF byte_bound]
  then show ?case using 3 by (auto simp: Let_def)
qed simp

lemma b64_decode_encode: "b64_decode strict (b64_encode s) = Some s"
proof -
  have "filter (\<lambda>c. c \<noteq> CHR 10 \<and> c \<noteq> CHR 13) (b64_encode s) = b64_encode s"
    using b64_encode_chars by (auto intro: filter_True)
  then show ?thesis by (simp add: b64_decode_def b64_groups_encode)
qed

end
