(* ===== verification/Go_Time.thy ===== *)
theory Go_Time
  imports Go_Numbers
begin

text \<open>
  The text of a time in JSON, RFC 3339 with nanoseconds, as \<open>time.Time\<close> marshals and unmarshals it:
  a time is the number of nanoseconds since midnight UTC of January 1 of year 1. The parser is the
  strict one; the few forms only Go's lenient fallback reads (a comma before the fraction, an hour
  of one digit) are refused here.
\<close>

section \<open>The calendar\<close>

definition leap_year :: "int \<Rightarrow> bool" where
  "leap_year y \<longleftrightarrow> y mod 4 = 0 \<and> (y mod 100 \<noteq> 0 \<or> y mod 400 = 0)"

definition month_lengths :: "int \<Rightarrow> nat list" where
  "month_lengths y = [31, if leap_year y then 29 else 28, 31, 30, 31, 30, 31, 31, 30, 31, 30, 31]"

definition days_before_year :: "int \<Rightarrow> int" where
  "days_before_year y = 365 * (y - 1) + (y - 1) div 4 - (y - 1) div 100 + (y - 1) div 400"

lemma div_next:
  fixes k n :: int
  assumes "0 < n"
  shows "(k + 1) div n = k div n + (if (k + 1) mod n = 0 then 1 else 0)"
proof -
  have k: "k + 1 = n * (k div n) + (k mod n + 1)" by (simp add: mult_div_mod_eq)
  show ?thesis
  proof (cases "k mod n + 1 = n")
    case True
    then have "k + 1 = n * (k div n + 1)" using k by (simp add: algebra_simps)
    then show ?thesis using assms by simp
  next
    case False
    then have lt: "k mod n + 1 < n" using pos_mod_bound [OF assms, of k] by linarith
    have nn: "0 \<le> k mod n" using assms by simp
    then have ge: "0 \<le> k mod n + 1" by linarith
    have "(k + 1) div n = k div n" by (rule int_div_pos_eq [OF k ge lt])
    moreover have "(k + 1) mod n = k mod n + 1" by (rule int_mod_pos_eq [OF k ge lt])
    ultimately show ?thesis using nn by simp
  qed
qed

lemma year_length: "days_before_year (y + 1) = days_before_year y + int (sum_list (month_lengths y))"
proof -
  define A B C where "A = (y - 1) div 4" and "B = (y - 1) div 100" and "C = (y - 1) div 400"
  have d: "y mod 400 = 0 \<Longrightarrow> y mod 100 = 0" "y mod 100 = 0 \<Longrightarrow> y mod 4 = 0"
    using dvd_trans [of 100 400 y] dvd_trans [of 4 100 y] by (simp_all add: dvd_eq_mod_eq_0 [symmetric])
  have "y div 4 = A + (if y mod 4 = 0 then 1 else 0)" "y div 100 = B + (if y mod 100 = 0 then 1 else 0)"
    "y div 400 = C + (if y mod 400 = 0 then 1 else 0)"
    using div_next [of 4 "y - 1"] div_next [of 100 "y - 1"] div_next [of 400 "y - 1"]
    by (simp_all only: diff_add_cancel A_def B_def C_def)
  then have after: "days_before_year (y + 1) = 365 * y + (A + (if y mod 4 = 0 then 1 else 0))
      - (B + (if y mod 100 = 0 then 1 else 0)) + (C + (if y mod 400 = 0 then 1 else 0))"
    by (simp only: days_before_year_def add_diff_cancel_right')
  have before: "days_before_year y = 365 * (y - 1) + A - B + C"
    by (simp only: days_before_year_def A_def B_def C_def)
  have len: "int (sum_list (month_lengths y)) = 365 + (if leap_year y then 1 else 0)" by (simp add: month_lengths_def)
  have truth: "(if p \<and> (\<not> q \<or> r) then 1 else 0) = (if p then 1 else 0 :: int) - (if q then 1 else 0) + (if r then 1 else 0)"
    if "r \<longrightarrow> q" "q \<longrightarrow> p" for p q r using that by (cases p; cases q; cases r) simp_all
  have leap: "(if leap_year y then 1 else 0) = (if y mod 4 = 0 then 1 else 0 :: int)
      - (if y mod 100 = 0 then 1 else 0) + (if y mod 400 = 0 then 1 else 0)" unfolding leap_year_def
    by (rule truth; rule impI; erule d)
  show ?thesis unfolding after before len leap by (simp only: ring_distribs)
qed

lemma year_length_pos: "sum_list (month_lengths y) \<ge> 365"
  by (simp add: month_lengths_def)

text \<open>The year of a day, searched upward from a year that is early enough.\<close>

function year_from :: "int \<Rightarrow> int \<Rightarrow> int" where
  "year_from y d = (if days_before_year (y + 1) \<le> d then year_from (y + 1) d else y)"
  by pat_completeness auto
termination
proof (relation "measure (\<lambda>(y, d). nat (d - days_before_year y))")
  fix y d :: int
  assume "days_before_year (y + 1) \<le> d"
  then show "((y + 1, d), (y, d)) \<in> measure (\<lambda>(y, d). nat (d - days_before_year y))"
    using year_length [of y] year_length_pos [of y] by auto
qed simp

declare year_from.simps [simp del]

definition year_of :: "int \<Rightarrow> int" where
  "year_of d = year_from (d div 366 + 1) d"

lemma year_from_spec:
  "days_before_year y \<le> d \<Longrightarrow> days_before_year (year_from y d) \<le> d \<and> d < days_before_year (year_from y d + 1) \<and> y \<le> year_from y d"
proof (induction y d rule: year_from.induct)
  case (1 y d)
  show ?case
  proof (cases "days_before_year (y + 1) \<le> d")
    case True
    then show ?thesis using 1(1) by (subst (1 2 3) year_from.simps) auto
  next
    case False
    then show ?thesis using 1(2) by (subst (1 2 3) year_from.simps) auto
  qed
qed

lemma year_of_spec:
  assumes "days_before_year 0 \<le> d"
  shows "days_before_year (year_of d) \<le> d" "d < days_before_year (year_of d + 1)" "0 \<le> year_of d"
proof -
  let ?k = "d div 366"
  have "days_before_year 0 = - 366" by code_simp
  with assms have k: "-1 \<le> ?k" by linarith
  have "days_before_year (?k + 1) \<le> d"
  proof -
    have le: "?k div 4 - ?k div 100 + ?k div 400 \<le> ?k + 1" using k by linarith
    have d: "366 * ?k \<le> d" by linarith
    show ?thesis
    proof (cases "?k = -1")
      case True
      then show ?thesis using assms by simp
    next
      case False
      then have "0 \<le> ?k" using k by linarith
      moreover from this have "?k div 4 - ?k div 100 + ?k div 400 \<le> ?k" by linarith
      ultimately show ?thesis using d by (simp add: days_before_year_def)
    qed
  qed
  from year_from_spec [OF this] k show "days_before_year (year_of d) \<le> d" "d < days_before_year (year_of d + 1)"
    "0 \<le> year_of d" by (auto simp: year_of_def)
qed

text \<open>Finding the month: the lengths before it, and the day within it, counted from zero.\<close>

fun locate :: "nat list \<Rightarrow> nat \<Rightarrow> nat \<times> nat" where
  "locate [] d = (0, d)"
| "locate (n # ns) d = (if d < n then (0, d) else (case locate ns (d - n) of (i, r) \<Rightarrow> (Suc i, r)))"

lemma locate_spec:
  "locate ns d = (i, r) \<Longrightarrow> d < sum_list ns \<Longrightarrow> i < length ns \<and> r < ns ! i \<and> sum_list (take i ns) + r = d"
proof (induction ns arbitrary: d i)
  case (Cons n ns)
  show ?case
  proof (cases "d < n")
    case True
    with Cons.prems show ?thesis by simp
  next
    case False
    obtain j where "locate ns (d - n) = (j, r)" "i = Suc j" using Cons.prems(1) False by (auto split: prod.splits)
    moreover have "d - n < sum_list ns" using Cons.prems(2) False by simp
    ultimately have "j < length ns \<and> r < ns ! j \<and> sum_list (take j ns) + r = d - n" using Cons.IH by blast
    then show ?thesis using \<open>i = Suc j\<close> False by (simp, linarith)
  qed
qed simp

section \<open>Printing\<close>

definition second :: int where "second = 10 ^ 9"

definition trim_zeros :: "string \<Rightarrow> string" where
  "trim_zeros s = rev (dropWhile (\<lambda>c. c = CHR ''0'') (rev s))"

definition fraction_text :: "nat \<Rightarrow> string" where
  "fraction_text ns = (if ns = 0 then [] else CHR ''.'' # trim_zeros (pad_zeros 9 (show_nat ns)))"

definition padded :: "nat \<Rightarrow> nat \<Rightarrow> string" where
  "padded k n = pad_zeros k (show_nat n)"

definition show_time :: "int \<Rightarrow> string" where
  "show_time t =
     (let days = t div (86400 * second); secs = nat (t mod (86400 * second) div second); ns = nat (t mod second);
          y = year_of days; (m, d) = locate (month_lengths y) (nat (days - days_before_year y))
      in padded 4 (nat y) @ CHR ''-'' # padded 2 (m + 1) @ CHR ''-'' # padded 2 (d + 1) @
         CHR ''T'' # padded 2 (secs div 3600) @ CHR '':'' # padded 2 (secs div 60 mod 60) @
         CHR '':'' # padded 2 (secs mod 60) @ fraction_text ns @ ''Z'')"

text \<open>\<open>MarshalJSON\<close> refuses years beyond 9999.\<close>

definition time_in_range :: "int \<Rightarrow> bool" where
  "time_in_range t \<longleftrightarrow> days_before_year 0 \<le> t div (86400 * second) \<and> t div (86400 * second) < days_before_year 10000"

section \<open>Parsing\<close>

definition read_digits :: "nat \<Rightarrow> string \<Rightarrow> (nat \<times> string) option" where
  "read_digits k s = (if length s < k then None else map_option (\<lambda>n. (n, drop k s)) (dec_val 0 (take k s)))"

fun expect :: "char \<Rightarrow> string \<Rightarrow> string option" where
  "expect c [] = None"
| "expect c (x # s) = (if x = c then Some s else None)"

text \<open>The fraction: all its digits are consumed, nine count.\<close>

fun read_fraction :: "string \<Rightarrow> nat \<times> string" where
  "read_fraction (x # c # s) =
     (if x = CHR ''.'' \<and> is_digit c then
        (let ds = takeWhile is_digit (c # s); kept = take 9 ds in
         (the (dec_val 0 kept) * 10 ^ (9 - length kept), dropWhile is_digit (c # s)))
      else (0, x # c # s))"
| "read_fraction s = (0, s)"

fun read_zone :: "string \<Rightarrow> int option" where
  "read_zone s =
     (if s = ''Z'' then Some 0
      else case s of
        [] \<Rightarrow> None
      | sign # t \<Rightarrow>
          (if length s \<noteq> 6 \<or> (sign \<noteq> CHR ''+'' \<and> sign \<noteq> CHR ''-'') then None
           else Option.bind (read_digits 2 t) (\<lambda>(h, t1).
                Option.bind (expect (CHR '':'') t1) (\<lambda>t2.
                Option.bind (read_digits 2 t2) (\<lambda>(m, _).
                  (if h > 23 \<or> m > 59 then None
                   else Some ((if sign = CHR ''-'' then -1 else 1) * int ((h * 60 + m) * 60))))))))"

declare read_zone.simps [simp del]

definition parse_time :: "string \<Rightarrow> int option" where
  "parse_time s0 =
     Option.bind (read_digits 4 s0) (\<lambda>(y, s1). Option.bind (expect (CHR ''-'') s1) (\<lambda>s2.
     Option.bind (read_digits 2 s2) (\<lambda>(m, s3). Option.bind (expect (CHR ''-'') s3) (\<lambda>s4.
     Option.bind (read_digits 2 s4) (\<lambda>(d, s5). Option.bind (expect (CHR ''T'') s5) (\<lambda>s6.
     Option.bind (read_digits 2 s6) (\<lambda>(h, s7). Option.bind (expect (CHR '':'') s7) (\<lambda>s8.
     Option.bind (read_digits 2 s8) (\<lambda>(mi, s9). Option.bind (expect (CHR '':'') s9) (\<lambda>s10.
     Option.bind (read_digits 2 s10) (\<lambda>(sec, s11).
       (case read_fraction s11 of (ns, s12) \<Rightarrow>
         (if m < 1 \<or> m > 12 \<or> d < 1 \<or> d > month_lengths (int y) ! (m - 1) \<or> h > 23 \<or> mi > 59 \<or> sec > 59 then None
          else map_option (\<lambda>offset.
            ((days_before_year (int y) + int (sum_list (take (m - 1) (month_lengths (int y)))) + int (d - 1)) * 86400
             + int (h * 3600 + mi * 60 + sec) - offset) * second + int ns) (read_zone s12))))))))))))))"

section \<open>The round trip\<close>

lemma read_padded:
  assumes "n < 10 ^ k" and "0 < k"
  shows "read_digits k (padded k n @ s) = Some (n, s)"
proof -
  have "length (padded k n) = k"
    using length_show_nat [OF assms] by (simp add: padded_def pad_zeros_def)
  then show ?thesis by (simp add: read_digits_def) (simp add: padded_def)
qed

lemma trim_zeros_split: "\<exists>k. s = trim_zeros s @ replicate k (CHR ''0'')"
proof -
  have "rev (takeWhile (\<lambda>c. c = CHR ''0'') (rev s)) = replicate (length (takeWhile (\<lambda>c. c = CHR ''0'') (rev s))) (CHR ''0'')"
    by (rule replicate_length_same [symmetric, THEN trans]) (auto dest: set_takeWhileD)
  moreover have "s = trim_zeros s @ rev (takeWhile (\<lambda>c. c = CHR ''0'') (rev s))"
    unfolding trim_zeros_def by (metis rev_append rev_rev_ident takeWhile_dropWhile_id)
  ultimately show ?thesis by metis
qed

lemma dec_val_trailing: "dec_val a (replicate k (CHR ''0'')) = Some (a * 10 ^ k)"
  by (induction k arbitrary: a) (simp_all add: is_digit_def digit_val_def)

lemma fraction_back:
  assumes "ns < 10 ^ 9"
  shows "read_fraction (fraction_text ns @ ''Z'') = (ns, ''Z'')"
proof (cases "ns = 0")
  case False
  let ?p = "pad_zeros 9 (show_nat ns)"
  have p: "length ?p = 9" "\<forall>c \<in> set ?p. is_digit c"
    using length_show_nat [OF assms] show_nat_digits by (auto simp: pad_zeros_def is_digit_def)
  have pv: "dec_val 0 ?p = Some ns" by simp
  obtain k where k: "?p = trim_zeros ?p @ replicate k (CHR ''0'')" using trim_zeros_split by blast
  obtain n where n: "dec_val 0 (trim_zeros ?p) = Some n"
    using pv k by (metis bind.simps(1) dec_val_append option.distinct(1) option.exhaust)
  then have v: "ns = n * 10 ^ k" using pv k dec_val_append [of 0 "trim_zeros ?p" "replicate k (CHR ''0'')"]
    by (simp add: dec_val_trailing)
  have l: "length (trim_zeros ?p) + k = 9" using p(1) k by (metis length_append length_replicate)
  have ne: "trim_zeros ?p \<noteq> []" using v n False by (cases "trim_zeros ?p = []") auto
  then obtain c t where t: "trim_zeros ?p = c # t" by (cases "trim_zeros ?p") auto
  have ds: "\<forall>c \<in> set (trim_zeros ?p). is_digit c" using p(2) k by (metis Un_iff set_append)
  have tw: "takeWhile is_digit (c # t @ ''Z'') = c # t" "dropWhile is_digit (c # t @ ''Z'') = ''Z''"
    using ds t by (simp_all add: takeWhile_append dropWhile_append is_digit_def)
  have "is_digit c" using ds t by simp
  moreover have "10 ^ (9 - length (c # t)) = (10 :: nat) ^ k" using l t by simp
  ultimately show ?thesis using False tw n v l t
    by (simp add: fraction_text_def t del: takeWhile.simps dropWhile.simps)
qed (simp add: fraction_text_def is_digit_def)

lemma month_length_bounds: "m < 12 \<Longrightarrow> month_lengths y ! m \<le> 31"
proof -
  assume "m < 12"
  then have "month_lengths y ! m \<in> set (month_lengths y)" by (intro nth_mem) (simp add: month_lengths_def)
  moreover have "\<forall>x \<in> set (month_lengths y). x \<le> 31" by (simp add: month_lengths_def)
  ultimately show ?thesis by blast
qed

lemma clock_split: "s div 3600 * 3600 + s div 60 mod 60 * 60 + s mod 60 = (s :: nat)"
proof -
  define q h m r where "q = s div 60" and "h = q div 60" and "m = q mod 60" and "r = s mod 60"
  have "s = q * 60 + r" "q = h * 60 + m" by (simp_all add: q_def h_def m_def r_def)
  then have "h * 3600 + m * 60 + r = s" by simp
  moreover have "s div 3600 = h" using div_mult2_eq [of s 60 60] by (simp add: h_def q_def)
  ultimately show ?thesis by (simp only: m_def q_def r_def)
qed

lemma nanoseconds_split:
  fixes t p n :: int
  assumes "0 < p" and "0 < n"
  shows "(t div (n * p) * n + t mod (n * p) div p) * p + t mod p = t" and "0 \<le> t mod (n * p) div p" and "t mod (n * p) div p < n"
proof -
  have m: "t mod (n * p) div p = t div p mod n"
    using zmod_zmult2_eq [of n t p] assms by (simp add: mult.commute)
  have d: "t div (n * p) = t div p div n" using zdiv_zmult2_eq [of n t p] assms by (simp add: mult.commute)
  show "(t div (n * p) * n + t mod (n * p) div p) * p + t mod p = t" unfolding m d by simp
  show "0 \<le> t mod (n * p) div p" "t mod (n * p) div p < n" unfolding m using assms by simp_all
qed

lemma year_from_mono: "days_before_year y < days_before_year z \<Longrightarrow> y < z"
proof (rule ccontr)
  have step: "days_before_year x \<le> days_before_year (x + int k)" for x k
  proof (induction k)
    case (Suc k)
    then show ?case using year_length [of "x + int k"] by (simp add: add.commute add.left_commute)
  qed simp
  assume a: "days_before_year y < days_before_year z" and "\<not> y < z"
  then have "y = z + int (nat (y - z))" by simp
  then have "days_before_year z \<le> days_before_year y" using step [of z "nat (y - z)"] by metis
  with a show False by simp
qed

lemma parse_show_time:
  assumes "time_in_range t"
  shows "parse_time (show_time t) = Some t"
proof -
  define days where "days = t div (86400 * second)"
  define s where "s = nat (t mod (86400 * second) div second)"
  define ns where "ns = nat (t mod second)"
  define y where "y = year_of days"
  obtain m d where md: "locate (month_lengths y) (nat (days - days_before_year y)) = (m, d)" by (metis surj_pair)
  have r: "days_before_year 0 \<le> days" "days < days_before_year 10000" using assms by (simp_all add: time_in_range_def days_def)
  note y = year_of_spec [OF r(1), folded y_def]
  have "nat (days - days_before_year y) < sum_list (month_lengths y)" using y year_length [of y] by linarith
  from locate_spec [OF md this] have l: "m < 12" "d < month_lengths y ! m"
    "sum_list (take m (month_lengths y)) + d = nat (days - days_before_year y)" by (simp_all add: month_lengths_def)
  have "y < 10000" using year_from_mono [of y 10000] y(1) r(2) by linarith
  then have y4: "nat y < 10 ^ 4" by simp
  have m2: "m + 1 < 10 ^ 2" using l(1) by simp
  have d2: "d + 1 < 10 ^ 2" using l(2) month_length_bounds [OF l(1), of y] by simp
  have sec: "0 < second" by (simp add: second_def)
  note sp = nanoseconds_split [of second 86400 t, OF sec]
  have si: "int s = t mod (86400 * second) div second" using sp(2) by (simp add: s_def)
  have s: "s < 86400" using sp(3) si by simp
  have c: "s div 3600 < 24" "s div 60 mod 60 < 60" "s mod 60 < 60" using s by (simp_all add: div_less_iff_less_mult)
  have ni: "int ns = t mod second" using sec by (simp add: ns_def)
  then have n9: "ns < 10 ^ 9" using sec pos_mod_bound [OF sec, of t] by (simp add: second_def)
  have shown: "show_time t = padded 4 (nat y) @ CHR ''-'' # padded 2 (m + 1) @ CHR ''-'' # padded 2 (d + 1) @
         CHR ''T'' # padded 2 (s div 3600) @ CHR '':'' # padded 2 (s div 60 mod 60) @
         CHR '':'' # padded 2 (s mod 60) @ fraction_text ns @ ''Z''"
    unfolding show_time_def Let_def days_def [symmetric] s_def [symmetric] ns_def [symmetric] y_def [symmetric] md by simp
  have day: "days_before_year y + int (sum_list (take m (month_lengths y))) + int d = days"
    using l(3) y(1) by linarith
  have total: "(days * 86400 + int (s div 3600 * 3600 + s div 60 mod 60 * 60 + s mod 60)) * second + int ns = t"
    unfolding clock_split ni si days_def by (rule sp(1)) simp
  have z: "read_zone ''Z'' = Some 0" by (simp add: read_zone.simps)
  have reads: "read_digits 4 (padded 4 (nat y) @ x) = Some (nat y, x)" "read_digits 2 (padded 2 (m + 1) @ x) = Some (m + 1, x)"
    "read_digits 2 (padded 2 (d + 1) @ x) = Some (d + 1, x)" "read_digits 2 (padded 2 (s div 3600) @ x) = Some (s div 3600, x)"
    "read_digits 2 (padded 2 (s div 60 mod 60) @ x) = Some (s div 60 mod 60, x)"
    "read_digits 2 (padded 2 (s mod 60) @ x) = Some (s mod 60, x)" for x
    using y4 m2 d2 c by (auto intro!: read_padded)
  have guard: "\<not> (m + 1 < 1 \<or> 12 < m + 1 \<or> d + 1 < 1 \<or> month_lengths (int (nat y)) ! (m + 1 - 1) < d + 1 \<or>
      23 < s div 3600 \<or> 59 < s div 60 mod 60 \<or> 59 < s mod 60)"
    using l c y(3) by auto
  show ?thesis
    unfolding shown parse_time_def reads bind.simps prod.case expect.simps(2) if_P [OF refl]
      fraction_back [OF n9] z option.map if_not_P [OF guard]
    using y(3) total day by simp
qed

end
