(* ===== verification/Agent_Transport.thy ===== *)
theory Agent_Transport
  imports Protocol_Check Go_Http Go_Base64 Go_Time
begin

text \<open>
  The client of the hub, \<open>internal/transport/client.go\<close>, and the schema bundle it names,
  \<open>protocol/v1/bundle.go\<close>: fetching the contract, activation, and the signed requests. The server,
  the clock, SHA-256 in hex and the Ed25519 signature are arguments.
\<close>

section \<open>The schema bundle\<close>

definition legacy_digest :: string where
  "legacy_digest = ''6991de825d245d5906d64a137f51fd52ed820c97c5f093a0935434a0130c06ec''"
definition intermediate_digest :: string where
  "intermediate_digest = ''97ea85ea215e8d35d2cf8c70c24d715d79e092391dd57f70b6b54ef9717e7495''"
definition previous_digest :: string where
  "previous_digest = ''3179a40f31801dee2edaf890485e0e360680684c2ef9ba6e01f6961bacca0106''"
definition pre_openrc_digest :: string where
  "pre_openrc_digest = ''0e1749bf18a921f89334410d61ce95ebd0d001c6ed30ef6ae4655c90e1180554''"

text \<open>The bytes that are hashed: each schema's name and content, each with a zero byte after it.\<close>

definition bundle_bytes :: "(string \<times> bytes) list \<Rightarrow> bytes" where
  "bundle_bytes schemas = concat (map (\<lambda>(name, content). name @ [CHR 0x00] @ content @ [CHR 0x00]) (sort_key fst schemas))"

definition bundle_digest :: "(bytes \<Rightarrow> string) \<Rightarrow> (string \<times> bytes) list result \<Rightarrow> string result" where
  "bundle_digest sha schemas = bind_result schemas (\<lambda>ss. Inr (sha (bundle_bytes ss)))"

definition compatible_digest :: "string result \<Rightarrow> string \<Rightarrow> bool result" where
  "compatible_digest current value = bind_result current (\<lambda>c.
     Inr (value = c \<or> value = pre_openrc_digest \<or> value = previous_digest \<or> value = intermediate_digest \<or> value = legacy_digest))"

definition supports_monitoring :: "string result \<Rightarrow> string \<Rightarrow> bool result" where
  "supports_monitoring current value = bind_result current (\<lambda>c.
     Inr (value = c \<or> value = pre_openrc_digest \<or> value = previous_digest \<or> value = intermediate_digest))"

definition supports_compact :: "string result \<Rightarrow> string \<Rightarrow> bool result" where
  "supports_compact current value = bind_result current (\<lambda>c. Inr (value = c \<or> value = pre_openrc_digest))"

section \<open>Decoding\<close>

text \<open>A pointer field: \<open>null\<close> sets it to nil.\<close>

fun assign_pointer :: "(json \<Rightarrow> 'a option) \<Rightarrow> 'a option \<Rightarrow> json list \<Rightarrow> 'a option option" where
  "assign_pointer conv x [] = Some x"
| "assign_pointer conv x (JNull # vs) = assign_pointer conv None vs"
| "assign_pointer conv x (v # vs) = (case conv v of None \<Rightarrow> None | Some y \<Rightarrow> assign_pointer conv (Some y) vs)"

fun json_time :: "json \<Rightarrow> time option" where
  "json_time (JStr s) = parse_time s"
| "json_time _ = None"

definition time_field :: "string \<Rightarrow> (string \<times> json) list \<Rightarrow> time option" where
  "time_field name ms = assign_field json_time 0 (member_values name ms)"

text \<open>A map from strings to 64-bit numbers; a \<open>null\<close> element is zero.\<close>

definition json_counts :: "json \<Rightarrow> (string \<times> u64) list option" where
  "json_counts v = (case v of
     JObj ms \<Rightarrow> those (map (\<lambda>(k, x). map_option (Pair k) (if x = JNull then Some 0 else json_u64 x)) ms)
   | _ \<Rightarrow> None)"

definition zero_collection :: collection_policy where
  "zero_collection = \<lparr>HostIntervalSeconds = 0, ServiceIntervalSeconds = 0, StorageHealthIntervalSeconds = 0,
     GPUSampleIntervalSeconds = 0\<rparr>"

definition zero_limits :: payload_limits where
  "zero_limits = \<lparr>CompressedBytes = 0, DecompressedBytes = 0, OfflineSamples = 0, OfflineBytes = 0\<rparr>"

definition zero_privacy :: privacy_policy where
  "zero_privacy = \<lparr>ContainersEnabled = False, SMARTEnabled = False, RawHardwareIdentifiers = False\<rparr>"

definition zero_contract :: contract where
  "zero_contract = \<lparr>ContractMajor = 0, ContractRevision = 0, IssuedAt = 0, SchemaBundleDigest = [],
     Collection = zero_collection, ContractLimits = zero_limits, Privacy = zero_privacy\<rparr>"

text \<open>With \<open>strict\<close> a member that is no field is an error, as \<open>DisallowUnknownFields\<close> has it.\<close>

definition field_names :: "bool \<Rightarrow> string list \<Rightarrow> string list option" where
  "field_names strict names = (if strict then Some names else None)"

definition decode_collection :: "bool \<Rightarrow> json \<Rightarrow> collection_policy option" where
  "decode_collection strict = json_struct (field_names strict [''hostIntervalSeconds'', ''serviceIntervalSeconds'',
       ''storageHealthIntervalSeconds'', ''gpuSampleIntervalSeconds'']) zero_collection (\<lambda>ms.
     (case (int_field ''hostIntervalSeconds'' ms, int_field ''serviceIntervalSeconds'' ms,
            int_field ''storageHealthIntervalSeconds'' ms, int_field ''gpuSampleIntervalSeconds'' ms) of
        (Some h, Some s, Some t, Some g) \<Rightarrow> Some \<lparr>HostIntervalSeconds = h, ServiceIntervalSeconds = s,
          StorageHealthIntervalSeconds = t, GPUSampleIntervalSeconds = g\<rparr>
      | _ \<Rightarrow> None))"

definition decode_limits :: "bool \<Rightarrow> json \<Rightarrow> payload_limits option" where
  "decode_limits strict = json_struct (field_names strict [''compressedBytes'', ''decompressedBytes'',
       ''offlineSamples'', ''offlineBytes'']) zero_limits (\<lambda>ms.
     (case (int_field ''compressedBytes'' ms, int_field ''decompressedBytes'' ms,
            int_field ''offlineSamples'' ms, int_field ''offlineBytes'' ms) of
        (Some c, Some d, Some s, Some b) \<Rightarrow>
          Some \<lparr>CompressedBytes = c, DecompressedBytes = d, OfflineSamples = s, OfflineBytes = b\<rparr>
      | _ \<Rightarrow> None))"

definition decode_privacy :: "bool \<Rightarrow> json \<Rightarrow> privacy_policy option" where
  "decode_privacy strict = json_struct (field_names strict [''containersEnabled'', ''smartEnabled'',
       ''rawHardwareIdentifiersEnabled'']) zero_privacy (\<lambda>ms.
     (case (bool_field ''containersEnabled'' ms, bool_field ''smartEnabled'' ms, bool_field ''rawHardwareIdentifiersEnabled'' ms) of
        (Some c, Some s, Some r) \<Rightarrow> Some \<lparr>ContainersEnabled = c, SMARTEnabled = s, RawHardwareIdentifiers = r\<rparr>
      | _ \<Rightarrow> None))"

definition decode_contract :: "bool \<Rightarrow> json \<Rightarrow> contract option" where
  "decode_contract strict = json_struct (field_names strict [''protocolMajor'', ''revision'', ''issuedAt'',
       ''schemaBundleDigest'', ''collection'', ''limits'', ''privacy'']) zero_contract (\<lambda>ms.
     (case (int_field ''protocolMajor'' ms, u64_field ''revision'' ms, time_field ''issuedAt'' ms,
            string_field ''schemaBundleDigest'' ms) of
        (Some m, Some r, Some t, Some d) \<Rightarrow>
          (case (assign_field (decode_collection strict) zero_collection (member_values ''collection'' ms),
                 assign_field (decode_limits strict) zero_limits (member_values ''limits'' ms),
                 assign_field (decode_privacy strict) zero_privacy (member_values ''privacy'' ms)) of
             (Some c, Some l, Some p) \<Rightarrow> Some \<lparr>ContractMajor = m, ContractRevision = r, IssuedAt = t,
                SchemaBundleDigest = d, Collection = c, ContractLimits = l, Privacy = p\<rparr>
           | _ \<Rightarrow> None)
      | _ \<Rightarrow> None))"

definition zero_monitoring :: monitoring_config where
  "zero_monitoring = \<lparr>MonRevision = 0, MonEnabled = False, MonServiceInterval = 0, SelectedServices = [],
     SelectedContainers = []\<rparr>"

definition decode_monitoring :: "json \<Rightarrow> monitoring_config option" where
  "decode_monitoring = json_struct None zero_monitoring (\<lambda>ms.
     (case (u64_field ''revision'' ms, bool_field ''enabled'' ms, int_field ''serviceIntervalSeconds'' ms,
            slice_field json_string_elem ''selectedServices'' ms, slice_field json_string_elem ''selectedContainers'' ms) of
        (Some r, Some e, Some i, Some ss, Some cs) \<Rightarrow> Some \<lparr>MonRevision = r, MonEnabled = e, MonServiceInterval = i,
          SelectedServices = ss, SelectedContainers = cs\<rparr>
      | _ \<Rightarrow> None))"

section \<open>Responses\<close>

record activation_response =
  ActDeviceID :: u64
  ActMajor :: int
  ContractURL :: string
  HeartbeatURL :: string

record telemetry_ack =
  Duplicate :: bool
  AcceptedRevisions :: "(string \<times> u64) list"
  Reconcile :: "string list"
  RequestCapabilities :: bool

record heartbeat_response =
  ResponseOK :: bool
  ReceivedAt :: string
  ResponseSequence :: u64
  NewMonitoring :: "monitoring_config option"
  TelemetryAck :: "telemetry_ack option"

definition zero_activation :: activation_response where
  "zero_activation = \<lparr>ActDeviceID = 0, ActMajor = 0, ContractURL = [], HeartbeatURL = []\<rparr>"

definition decode_activation :: "json \<Rightarrow> activation_response option" where
  "decode_activation = json_struct (Some [''deviceId'', ''protocolMajor'', ''contractUrl'', ''heartbeatUrl'']) zero_activation
     (\<lambda>ms. (case (u64_field ''deviceId'' ms, int_field ''protocolMajor'' ms, string_field ''contractUrl'' ms,
                 string_field ''heartbeatUrl'' ms) of
        (Some d, Some m, Some c, Some h) \<Rightarrow>
          Some \<lparr>ActDeviceID = d, ActMajor = m, ContractURL = c, HeartbeatURL = h\<rparr>
      | _ \<Rightarrow> None))"

definition decode_ack :: "json \<Rightarrow> telemetry_ack option" where
  "decode_ack = json_struct None \<lparr>Duplicate = False, AcceptedRevisions = [], Reconcile = [], RequestCapabilities = False\<rparr>
     (\<lambda>ms. (case (bool_field ''duplicate'' ms, assign_field json_counts [] (member_values ''acceptedRevisions'' ms),
                 slice_field json_string_elem ''reconcile'' ms, bool_field ''requestCapabilities'' ms) of
        (Some d, Some a, Some r, Some q) \<Rightarrow>
          Some \<lparr>Duplicate = d, AcceptedRevisions = a, Reconcile = r, RequestCapabilities = q\<rparr>
      | _ \<Rightarrow> None))"

definition zero_response :: heartbeat_response where
  "zero_response = \<lparr>ResponseOK = False, ReceivedAt = [], ResponseSequence = 0, NewMonitoring = None, TelemetryAck = None\<rparr>"

definition decode_response_body :: "json \<Rightarrow> heartbeat_response option" where
  "decode_response_body = json_struct None zero_response
     (\<lambda>ms. (case (bool_field ''ok'' ms, string_field ''receivedAt'' ms, u64_field ''sequence'' ms,
                 assign_pointer decode_monitoring None (member_values ''monitoringConfig'' ms),
                 assign_pointer decode_ack None (member_values ''telemetry'' ms)) of
        (Some k, Some t, Some s, Some m, Some a) \<Rightarrow> Some \<lparr>ResponseOK = k, ReceivedAt = t, ResponseSequence = s,
           NewMonitoring = m, TelemetryAck = a\<rparr>
      | _ \<Rightarrow> None))"

section \<open>The client\<close>

record 'w client =
  ClientEndpoint :: string
  Server :: "'w server"
  Clock :: "'w \<Rightarrow> time \<times> 'w"
  Sha :: "bytes \<Rightarrow> string"
  Sign :: "bytes \<Rightarrow> bytes \<Rightarrow> bytes"
  SchemaDigest :: "string result"

definition max_response_bytes :: nat where "max_response_bytes = 1024 * 1024"

text \<open>
  \<open>New\<close>: \<open>parse\<close> gives the scheme, the host and the text of the parsed endpoint; \<open>connect\<close> holds the
  other fields.
\<close>

definition new_client :: "(string \<Rightarrow> (string \<times> string \<times> string) option) \<Rightarrow> 'w client \<Rightarrow> string \<Rightarrow> 'w client result" where
  "new_client parse connect endpoint =
     (case parse (trim_right_slash endpoint) of
        None \<Rightarrow> Inl (Msg ''agent endpoint is invalid'')
      | Some (scheme, host, text) \<Rightarrow>
          if host = [] \<or> (scheme \<noteq> ''http'' \<and> scheme \<noteq> ''https'') then Inl (Msg ''agent endpoint is invalid'')
          else Inr (connect\<lparr>ClientEndpoint := text\<rparr>))"

definition route :: "'w client \<Rightarrow> string \<Rightarrow> string" where
  "route c path = ClientEndpoint c @ path"

text \<open>
  The error code of a refused request: \<open>json.Unmarshal\<close> assigns the members it can before it reports
  a member of the wrong type, and the code is used whatever it reports.
\<close>

fun last_string :: "string \<Rightarrow> json list \<Rightarrow> string" where
  "last_string x [] = x"
| "last_string x (JStr s # vs) = last_string s vs"
| "last_string x (v # vs) = last_string x vs"

definition error_code :: "bytes \<Rightarrow> string" where
  "error_code body = (case parse_json body of
     Some (JObj ms) \<Rightarrow> last_string [] (member_values ''code'' ms) | _ \<Rightarrow> [])"

definition read_response :: "http_response \<Rightarrow> bytes result" where
  "read_response r = bind_result (read_limited (max_response_bytes + 1) r) (\<lambda>body.
     if length body > max_response_bytes then Inl (Msg ''agent endpoint response exceeds the size limit'')
     else if \<not> success_status r then Inl (HttpStatus (StatusCode r) (error_code body))
     else Inr body)"

datatype fetched = Unmodified | Fetched contract string

definition fetch_contract :: "'w client \<Rightarrow> string \<Rightarrow> 'w \<Rightarrow> fetched result \<times> 'w" where
  "fetch_contract c etag =
     bind_io (\<lambda>w. (SchemaDigest c, w)) (\<lambda>digest.
     bind_io (Server c \<lparr>Method = ''GET'', Url = route c ''/api/agent/contracts/current'',
         Headers = (if etag \<noteq> [] then [(''If-None-Match'', etag)] else []) @ [(''X-Homelab-Agent-Schema-Digest'', digest)],
         Content = []\<rparr>) (\<lambda>response.
       (if StatusCode response = 304 then return_io Unmodified
        else (\<lambda>w. (bind_result (read_response response) (\<lambda>body.
          case Option.bind (parse_json body) (decode_contract True) of
            None \<Rightarrow> Inl (Msg ''decode agent contract'')
          | Some contract \<Rightarrow>
              bind_result (validate_contract contract) (\<lambda>_.
              bind_result (compatible_digest (SchemaDigest c) (SchemaBundleDigest contract)) (\<lambda>ok.
                if ok then Inr (Fetched contract (ETag response))
                else Inl (Msg ''agent contract schema bundle is incompatible with this binary'')))), w)))))"

fun availability_text :: "availability \<Rightarrow> string" where
  "availability_text Available = ''available''"
| "availability_text Unavailable = ''unavailable''"
| "availability_text PermissionBlocked = ''permission-blocked''"
| "availability_text Disabled = ''disabled''"
| "availability_text (OtherAvailability s) = s"

text \<open>\<open>json.Marshal\<close> writes the entries of a map in key order; \<open>detail\<close> is omitted when empty.\<close>

definition capability_json :: "capability \<Rightarrow> json" where
  "capability_json c = JObj ((''state'', JStr (availability_text (CapState c))) #
     (if CapDetail c = [] then [] else [(''detail'', JStr (CapDetail c))]))"

definition capabilities_json :: "capabilities \<Rightarrow> json" where
  "capabilities_json cs = JObj (map (\<lambda>(k, c). (k, capability_json c)) (sort_key fst cs))"

record activation =
  ActivationMajor :: nat
  ActivationVersion :: string
  PublicKey :: string
  ActivationCapabilities :: capabilities

definition activation_body :: "activation \<Rightarrow> bytes" where
  "activation_body a = json_text (JObj [(''protocolMajor'', JNum (show_nat (ActivationMajor a))),
     (''agentVersion'', JStr (ActivationVersion a)), (''publicKey'', JStr (PublicKey a)),
     (''capabilities'', capabilities_json (ActivationCapabilities a))])"

definition host_path :: "host_ref \<Rightarrow> string \<Rightarrow> string" where
  "host_path h action = ''/api/agent/hosts/'' @ HostType h @ ''/'' @ show_u64 (HostID h) @ ''/'' @ action"

definition activate_device :: "'w client \<Rightarrow> host_ref \<Rightarrow> string \<Rightarrow> activation \<Rightarrow> 'w \<Rightarrow> activation_response result \<times> 'w" where
  "activate_device c host token a =
     bind_io (\<lambda>w. (validate_host_ref host, w)) (\<lambda>_.
     bind_io (Server c \<lparr>Method = ''POST'', Url = route c (host_path host ''activate''),
         Headers = [(''Authorization'', ''Bearer '' @ token), (''Content-Type'', ''application/json'')],
         Content = activation_body a\<rparr>) (\<lambda>response w.
       (bind_result (read_response response) (\<lambda>body.
          case Option.bind (parse_json body) decode_activation of
            None \<Rightarrow> Inl (Msg ''decode activation response'')
          | Some r \<Rightarrow>
              if ActDeviceID r = 0 \<or> ActDeviceID r > max_safe_id \<or> ActMajor r \<noteq> 1
              then Inl (Msg ''activation response is invalid'') else Inr r), w)))"

section \<open>Signed requests\<close>

definition signature_prefix :: string where "signature_prefix = ''homelab-inventory-agent-v1''"

definition to_upper :: "string \<Rightarrow> string" where
  "to_upper s = map (\<lambda>c. if 97 \<le> (of_char c :: nat) \<and> (of_char c :: nat) \<le> 122 then char_of ((of_char c :: nat) - 32) else c) s"

definition canonical_request :: "string \<Rightarrow> string \<Rightarrow> string \<Rightarrow> u64 \<Rightarrow> string \<Rightarrow> bytes" where
  "canonical_request verb path timestamp sequence digest =
     join_with (CHR 10) [signature_prefix, to_upper verb, path, timestamp, show_u64 sequence, digest]"

definition private_key_size :: nat where "private_key_size = 64"

definition signed_headers :: "'w client \<Rightarrow> string \<Rightarrow> string \<Rightarrow> string \<Rightarrow> u64 \<Rightarrow> bytes \<Rightarrow> u64 \<Rightarrow> bytes \<Rightarrow> string \<Rightarrow> (string \<times> string) list" where
  "signed_headers c path content_type encoding device key sequence body timestamp =
     (let digest = Sha c body in
      [(''Content-Type'', content_type)] @ (if encoding \<noteq> [] then [(''Content-Encoding'', encoding)] else []) @
      [(''X-Homelab-Agent-Id'', show_u64 device), (''X-Homelab-Agent-Timestamp'', timestamp),
       (''X-Homelab-Agent-Sequence'', show_u64 sequence), (''X-Homelab-Agent-Content-Sha256'', digest),
       (''X-Homelab-Agent-Signature'',
         b64_encode (Sign c key (canonical_request ''POST'' path timestamp sequence digest)))])"

definition send_signed :: "'w client \<Rightarrow> string \<Rightarrow> string \<Rightarrow> string \<Rightarrow> u64 \<Rightarrow> bytes \<Rightarrow> u64 \<Rightarrow> bytes \<Rightarrow> 'w \<Rightarrow> bytes result \<times> 'w" where
  "send_signed c path content_type encoding device key sequence body w =
     (if device = 0 \<or> sequence = 0 \<or> length key \<noteq> private_key_size \<or> body = []
      then (Inl (Msg ''signed request input is invalid''), w)
      else (case Clock c w of
        (t, w1) \<Rightarrow>
          (case Server c \<lparr>Method = ''POST'', Url = route c path,
              Headers = signed_headers c path content_type encoding device key sequence body (show_time t),
              Content = body\<rparr> w1 of
             (Inl e, w2) \<Rightarrow> (Inl e, w2)
           | (Inr response, w2) \<Rightarrow> (read_response response, w2))))"

definition check_response :: "u64 \<Rightarrow> bytes \<Rightarrow> heartbeat_response result" where
  "check_response sequence body =
     (case Option.bind (parse_json body) decode_response_body of
        None \<Rightarrow> Inl (Msg ''decode heartbeat response'')
      | Some r \<Rightarrow>
          (if \<not> ResponseOK r \<or> ResponseSequence r \<noteq> sequence then Inl (Msg ''heartbeat response is invalid'')
           else case NewMonitoring r of
             None \<Rightarrow> Inr r
           | Some m \<Rightarrow> bind_result (validate_monitoring_config m) (\<lambda>_. Inr r)))"

definition send_heartbeat :: "'w client \<Rightarrow> host_ref \<Rightarrow> u64 \<Rightarrow> bytes \<Rightarrow> u64 \<Rightarrow> bytes \<Rightarrow> 'w \<Rightarrow> heartbeat_response result \<times> 'w" where
  "send_heartbeat c host device key sequence body =
     bind_io (\<lambda>w. (validate_host_ref host, w)) (\<lambda>_.
     bind_io (send_signed c (host_path host ''heartbeats'') ''application/json'' ''gzip'' device key sequence body) (\<lambda>reply w.
       (check_response sequence reply, w)))"

definition send_hardware_snapshot :: "'w client \<Rightarrow> host_ref \<Rightarrow> u64 \<Rightarrow> bytes \<Rightarrow> u64 \<Rightarrow> bytes \<Rightarrow> 'w \<Rightarrow> unit result \<times> 'w" where
  "send_hardware_snapshot c host device key sequence body =
     bind_io (\<lambda>w. (validate_host_ref host, w)) (\<lambda>_.
     bind_io (send_signed c (host_path host ''hardware-snapshots'') ''application/json'' [] device key sequence body) (\<lambda>_.
       return_io ()))"

end
