(* ===== verification/Telemetry_Delta.thy ===== *)
theory Telemetry_Delta
  imports Protocol_Check "HOL-Library.AList"
begin

text \<open>
  Compact telemetry, \<open>internal/runtime/telemetry_delta.go\<close>: each heartbeat carries, per family of
  values, only what changed since the last one, found by comparing digests; a full copy is sent
  at first, after six hours and on request. The digest (SHA-256 of the JSON text) is a parameter
  \<open>h\<close>, which may fail as \<open>json.Marshal\<close> may.
\<close>

section \<open>The state kept between heartbeats\<close>

record family_sync =
  SyncRevision :: u64
  Hashes :: "(string \<times> string) list"
  LastFullAt :: time

type_synonym families = "(string \<times> family_sync) list"

text \<open>\<open>SyncFamilies\<close> is a Go map: \<^const>\<open>None\<close> is the nil map.\<close>

record telemetry_sync =
  SyncVersion :: int
  SyncCapabilities :: string
  SyncFamilies :: "families option"

definition sync_version :: int where "sync_version = 1"
definition full_interval :: int where "full_interval = 6 * 3600 * 10 ^ 9"

definition empty_sync :: telemetry_sync where
  "empty_sync = \<lparr>SyncVersion = sync_version, SyncCapabilities = [], SyncFamilies = Some []\<rparr>"

definition zero_family :: family_sync where
  "zero_family = \<lparr>SyncRevision = 0, Hashes = [], LastFullAt = 0\<rparr>"

text \<open>Reading a map that may be nil, at a key that may be absent.\<close>

definition family_of :: "families \<Rightarrow> string \<Rightarrow> family_sync" where
  "family_of fams name = (case map_of fams name of None \<Rightarrow> zero_family | Some f \<Rightarrow> f)"

definition hash_of :: "family_sync \<Rightarrow> string \<Rightarrow> string" where
  "hash_of f key = (case map_of (Hashes f) key of None \<Rightarrow> [] | Some d \<Rightarrow> d)"

section \<open>The delta of one family\<close>

text \<open>The first loop of \<open>deltaFamily\<close>: the new digests, and the values whose digest is new.\<close>

fun hash_values :: "('a \<Rightarrow> string result) \<Rightarrow> family_sync \<Rightarrow> (string \<times> 'a) list \<Rightarrow>
    (string \<times> string) list \<Rightarrow> 'a list \<Rightarrow> ((string \<times> string) list \<times> 'a list) result" where
  "hash_values h previous [] hashes changed = Inr (hashes, changed)"
| "hash_values h previous ((key, v) # rest) hashes changed =
     (case h v of
        Inl e \<Rightarrow> Inl e
      | Inr digest \<Rightarrow> hash_values h previous rest (AList.update key digest hashes)
          (if hash_of previous key \<noteq> digest then changed @ [v] else changed))"

definition removed_keys :: "family_sync \<Rightarrow> (string \<times> string) list \<Rightarrow> string list" where
  "removed_keys previous hashes = sort (filter (\<lambda>k. map_of hashes k = None) (map fst (Hashes previous)))"

definition needs_full :: "family_sync \<Rightarrow> time \<Rightarrow> bool" where
  "needs_full previous now \<longleftrightarrow> SyncRevision previous = 0 \<or> is_zero (LastFullAt previous) \<or>
     time_sub now (LastFullAt previous) \<ge> full_interval"

definition delta_family :: "('a \<Rightarrow> string result) \<Rightarrow> family_sync \<Rightarrow> (string \<times> 'a) list \<Rightarrow> time \<Rightarrow>
    'a state_family option result \<times> family_sync" where
  "delta_family h previous entries now =
     (case hash_values h previous entries [] [] of
        Inl e \<Rightarrow> (Inl e, previous)
      | Inr (hashes, changed) \<Rightarrow>
          (let removed = removed_keys previous hashes;
               full = needs_full previous now;
               next = \<lparr>SyncRevision = SyncRevision previous, Hashes = hashes, LastFullAt = LastFullAt previous\<rparr>
           in if \<not> full \<and> changed = [] \<and> removed = [] then (Inr None, next)
              else (let revision = SyncRevision next + 1;
                        next' = next\<lparr>SyncRevision := revision, LastFullAt := (if full then now else LastFullAt next)\<rparr>;
                        sent = (if full then map snd entries else changed)
                    in (Inr (Some \<lparr>FamilyRevision = revision, Full = full, Changed = sent,
                                  Removed = Some removed\<rparr>), next'))))"

section \<open>Keys\<close>

definition field :: "metric_map \<Rightarrow> string \<Rightarrow> any option" where
  "field m k = map_of m (StringKey k)"

fun map_key :: "metric_map \<Rightarrow> string list \<Rightarrow> string" where
  "map_key m [] = []"
| "map_key m (c # cs) = (case field m c of
     Some (GString text) \<Rightarrow> (if trim_space text \<noteq> [] then trim_space text else map_key m cs)
   | _ \<Rightarrow> map_key m cs)"

definition keyed_maps :: "metric_map list \<Rightarrow> string list \<Rightarrow> (string \<times> metric_map) list" where
  "keyed_maps ms cs = filter (\<lambda>(k, m). k \<noteq> []) (map (\<lambda>m. (map_key m cs, m)) ms)"

definition nul :: char where "nul = CHR 0x00"

definition named_service :: "service \<Rightarrow> string \<times> service" where
  "named_service v = (let manager = trim_space (Manager v) in
     if manager = [] then (''systemd'' @ nul # ServiceName v, v\<lparr>Manager := ''systemd''\<rparr>)
     else (manager @ nul # ServiceName v, v))"

definition named_container :: "container \<Rightarrow> string \<times> container" where
  "named_container v = (Runtime v @ nul # RuntimeID v, v)"

definition named_storage :: "storage_health \<Rightarrow> string \<times> storage_health" where
  "named_storage v = (StorageDevice v, v)"

definition named_system :: "metric_map \<Rightarrow> (string \<times> metric_map) list" where
  "named_system m = (if m \<noteq> [] then [(''system'', m)] else [])"

section \<open>Compact CPU and sensor values\<close>

definition cpu_keys :: "string list" where
  "cpu_keys = [''percent'', ''idlePercent'', ''ioWaitPercent'', ''stealPercent'', ''systemPercent'', ''userPercent'']"

definition compact_cpu :: "metric_map \<Rightarrow> metric_map" where
  "compact_cpu input = List.map_filter (\<lambda>k. map_option (Pair (StringKey k)) (field input k)) cpu_keys"

fun number :: "any option \<Rightarrow> float64 option" where
  "number (Some (GFloat64 x)) = Some x"
| "number (Some (GFloat32 x)) = Some x"
| "number (Some (GInt KInt n)) = Some (float_of_int n)"
| "number (Some (GInt KUint64 n)) = Some (float_of_int n)"
| "number _ = None"

text \<open>
  Matching without regard to case: letters are lowered, and the Kelvin sign and the long s,
  which Go's \<open>(?i)\<close> folds to \<open>k\<close> and \<open>s\<close>, too.
\<close>

fun fold_case :: "string \<Rightarrow> string" where
  "fold_case [] = []"
| "fold_case (a # s) =
     (if has_prefix (a # s) [CHR 0xE2, CHR 0x84, CHR 0xAA] then CHR ''k'' # fold_case (drop 2 s)
      else if has_prefix (a # s) [CHR 0xC5, CHR 0xBF] then CHR ''s'' # fold_case (drop 1 s)
      else lower_char a # fold_case s)"

definition cpu_pattern :: "string \<Rightarrow> bool" where
  "cpu_pattern s \<longleftrightarrow> (let t = fold_case s in
     (\<exists>w \<in> set [''cpu'', ''package'', ''coretemp'', ''k10temp'']. contains_str t w) \<or>
     (\<exists>c \<in> set [CHR 9, CHR 10, CHR 12, CHR 13, CHR 32]. contains_str t (''core'' @ [c])))"

definition nvme_pattern :: "string \<Rightarrow> bool" where
  "nvme_pattern s \<longleftrightarrow> (let t = fold_case s in contains_str t ''nvme'' \<or> contains_str t ''composite'')"

definition temperature :: "metric_map \<Rightarrow> float64 option" where
  "temperature sensor = (case number (field sensor ''temperatureC'') of
     Some x \<Rightarrow> Some x | None \<Rightarrow> number (field sensor ''temperatureCelsius''))"

definition sensor_identity :: "metric_map \<Rightarrow> string" where
  "sensor_identity sensor = join_with (CHR '' '') [map_key sensor [''key''], map_key sensor [''id''],
     map_key sensor [''name''], map_key sensor [''source'']]"

definition nvme_value :: "string \<Rightarrow> float64 \<Rightarrow> metric_map" where
  "nvme_value key x = [(StringKey ''key'', GString key), (StringKey ''kind'', GString ''nvme''),
                       (StringKey ''temperatureC'', GFloat64 x)]"

definition nvme_key :: "metric_map \<Rightarrow> string" where
  "nvme_key sensor = (let key = map_key sensor [''source'', ''id'', ''name'', ''key''] in
     if key = [] then [] else if has_prefix (to_lower key) ''nvme:'' then key else ''nvme:'' @ key)"

text \<open>The loop over the sensors: the CPU temperatures so far, and the NVMe values by key.\<close>

fun scan_sensors :: "metric_map list \<Rightarrow> float64 list \<Rightarrow> (string \<times> metric_map) list \<Rightarrow>
    float64 list \<times> (string \<times> metric_map) list" where
  "scan_sensors [] cpu nvme = (cpu, nvme)"
| "scan_sensors (sensor # rest) cpu nvme =
     (case temperature sensor of
        None \<Rightarrow> scan_sensors rest cpu nvme
      | Some x \<Rightarrow>
          (let identity = sensor_identity sensor; key = nvme_key sensor in
           scan_sensors rest (if cpu_pattern identity then cpu @ [x] else cpu)
             (if nvme_pattern identity \<and> key \<noteq> [] then AList.update key (nvme_value key x) nvme else nvme)))"

definition cpu_average :: "float64 list \<Rightarrow> metric_map" where
  "cpu_average cpu = [(StringKey ''key'', GString ''cpu:average''), (StringKey ''kind'', GString ''cpu-average''),
     (StringKey ''temperatureC'', GFloat64 (fdiv (fold (\<lambda>x tot. fadd tot x) cpu (Finite 0)) (float_of_int (int (length cpu)))))]"

definition compact_sensors :: "metric_map list \<Rightarrow> metric_map list" where
  "compact_sensors input = (case scan_sensors input [] [] of
     (cpu, nvme) \<Rightarrow> (if cpu = [] then [] else [cpu_average cpu]) @
        map (\<lambda>k. the (map_of nvme k)) (sort (map fst nvme)))"

section \<open>The compact heartbeat\<close>

text \<open>What is digested.\<close>

datatype payload =
    PCapabilities capabilities
  | PService service
  | PContainer container
  | PMap metric_map
  | PStorage storage_health

text \<open>One family: read its state from the map, and assign the new one, also after an error.\<close>

definition delta_step :: "('a \<Rightarrow> string result) \<Rightarrow> string \<Rightarrow> (string \<times> 'a) list \<Rightarrow> time \<Rightarrow>
    families \<Rightarrow> 'a state_family option result \<times> families" where
  "delta_step h name entries now fams = (case delta_family h (family_of fams name) entries now of
     (r, next) \<Rightarrow> (r, AList.update name next fams))"

definition build_state :: "(payload \<Rightarrow> string result) \<Rightarrow> heartbeat \<Rightarrow> time \<Rightarrow>
    families \<Rightarrow> heartbeat_state result \<times> families" where
  "build_state h input now =
     bind_io (delta_step (h \<circ> PService) ''services'' (map named_service (HbServices input)) now) (\<lambda>services.
     bind_io (delta_step (h \<circ> PContainer) ''containers'' (map named_container (HbContainers input)) now) (\<lambda>containers.
     bind_io (delta_step (h \<circ> PMap) ''filesystems''
       (keyed_maps (Filesystems (HbMetrics input)) [''mountPoint'', ''mount'', ''source'']) now) (\<lambda>filesystems.
     bind_io (delta_step (h \<circ> PMap) ''gpus''
       (keyed_maps (MGPUs (HbMetrics input)) [''id'', ''pciAddress'', ''uuid'', ''name'']) now) (\<lambda>gpus.
     bind_io (delta_step (h \<circ> PMap) ''sensors''
       (keyed_maps (compact_sensors (MSensors (HbMetrics input))) [''key'']) now) (\<lambda>sensors.
     bind_io (delta_step (h \<circ> PMap) ''system'' (named_system (MSystem (HbMetrics input))) now) (\<lambda>system.
     bind_io (delta_step (h \<circ> PStorage) ''storageHealth'' (map named_storage (HbStorage input)) now) (\<lambda>storage.
     return_io \<lparr>StServices = services, StContainers = containers, StFilesystems = filesystems,
       StGPUs = gpus, StSensors = sensors, StSystem = system, StStorageHealth = storage\<rparr>)))))))"

definition compact_metrics :: "metrics \<Rightarrow> metrics" where
  "compact_metrics m = m\<lparr>MCPU := compact_cpu (MCPU m), MSystem := [], Filesystems := [], DiskIO := [],
     Network := [], MSensors := [], Batteries := [], MGPUs := []\<rparr>"

text \<open>
  \<open>buildCompactHeartbeat\<close>: \<open>next := previous\<close> copies the struct but not the map in it, so the
  families are assigned in the caller's map too. The result is paired with what the caller's
  state is afterwards; \<open>clock\<close> is the wall clock, read only when the heartbeat has no time.
\<close>

definition build_compact_heartbeat :: "(payload \<Rightarrow> string result) \<Rightarrow> time \<Rightarrow> heartbeat \<Rightarrow> telemetry_sync \<Rightarrow>
    (heartbeat \<times> telemetry_sync) result \<times> telemetry_sync" where
  "build_compact_heartbeat h clock input previous =
     (let now = (if is_zero (CollectedAt input) then clock else CollectedAt input);
          next = (if SyncFamilies previous = None then empty_sync else previous);
          shared = (SyncFamilies previous \<noteq> None)
      in case h (PCapabilities (Capabilities input)) of
           Inl e \<Rightarrow> (Inl e, previous)
         | Inr digest \<Rightarrow>
             (let input1 = input\<lparr>CapabilitiesHash := digest\<rparr>;
                  input2 = (if SyncCapabilities previous = digest then input1\<lparr>Capabilities := []\<rparr> else input1);
                  next2 = (if SyncCapabilities previous = digest then next else next\<lparr>SyncCapabilities := digest\<rparr>)
              in case build_state h input2 now (the (SyncFamilies next2)) of
                   (r, fams) \<Rightarrow>
                     ((case r of
                         Inl e \<Rightarrow> Inl e
                       | Inr st \<Rightarrow> Inr (input2\<lparr>HbState := Some st, HbServices := [], HbContainers := [],
                           HbStorage := [], HbMetrics := compact_metrics (HbMetrics input2)\<rparr>,
                           next2\<lparr>SyncFamilies := Some fams\<rparr>)),
                      (if shared then previous\<lparr>SyncFamilies := Some fams\<rparr> else previous))))"

end
