(* ===== verification/Go_Disk.thy ===== *)
theory Go_Disk
  imports Go_Numbers "HOL-Library.AList"
begin

text \<open>
  The part of Go's \<open>os\<close> package the agent's persistent state rests on: one directory, as an
  association list from file names to nodes, with the calls that read and change it. Every
  call may fail: \<open>faults\<close> says, call by call, which ones do (\<^const>\<open>None\<close>: the call works,
  \<^term>\<open>Some k\<close>: it fails, a write after \<open>k\<close> bytes); when the list is used up nothing fails any
  more. A crash is the fault list whose entries all fail from some call on, because then no
  later call has an effect. \<open>seeds\<close> holds the random numbers \<open>os.CreateTemp\<close> draws.
\<close>

datatype node = Reg bytes nat | Directory

record disk =
  files :: "(string \<times> node) list"
  faults :: "nat option list"
  seeds :: "nat list"

definition lookup :: "disk \<Rightarrow> string \<Rightarrow> node option" where
  "lookup d = map_of (files d)"

definition disk_ok :: "disk \<Rightarrow> bool" where
  "disk_ok d \<longleftrightarrow> distinct (map fst (files d))"

definition fault_free :: "disk \<Rightarrow> bool" where
  "fault_free d \<longleftrightarrow> faults d = []"

definition put_file :: "string \<Rightarrow> node \<Rightarrow> disk \<Rightarrow> disk" where
  "put_file n x d = d\<lparr>files := AList.update n x (files d)\<rparr>"

definition drop_file :: "string \<Rightarrow> disk \<Rightarrow> disk" where
  "drop_file n d = d\<lparr>files := AList.delete n (files d)\<rparr>"

lemma lookup_put [simp, disk_simps]: "lookup (put_file n x d) = (lookup d)(n \<mapsto> x)"
  by (simp add: lookup_def put_file_def update_conv')

lemma lookup_drop [simp, disk_simps]: "lookup (drop_file n d) = (lookup d)(n := None)"
  by (simp add: lookup_def drop_file_def delete_conv')

lemma lookup_faults [simp, disk_simps]: "lookup (d\<lparr>faults := fs\<rparr>) = lookup d"
  by (simp add: lookup_def)

lemma lookup_seeds [simp, disk_simps]: "lookup (d\<lparr>seeds := fs\<rparr>) = lookup d"
  by (simp add: lookup_def)

lemma disk_ok_put [simp]: "disk_ok d \<Longrightarrow> disk_ok (put_file n x d)"
  by (simp add: disk_ok_def put_file_def distinct_update)

lemma disk_ok_drop [simp]: "disk_ok d \<Longrightarrow> disk_ok (drop_file n d)"
  by (simp add: disk_ok_def drop_file_def distinct_delete)

lemma disk_ok_faults [simp]: "disk_ok (d\<lparr>faults := fs\<rparr>) = disk_ok d"
  by (simp add: disk_ok_def)

lemma disk_ok_seeds [simp]: "disk_ok (d\<lparr>seeds := fs\<rparr>) = disk_ok d"
  by (simp add: disk_ok_def)

lemma faults_put [simp]: "faults (put_file n x d) = faults d"
  by (simp add: put_file_def)

lemma faults_drop [simp]: "faults (drop_file n d) = faults d"
  by (simp add: drop_file_def)

lemma lookup_in_files: "disk_ok d \<Longrightarrow> (n, x) \<in> set (files d) \<longleftrightarrow> lookup d n = Some x"
  by (simp add: disk_ok_def lookup_def)

text \<open>The permission bits the code writes, in decimal: 0600, 0644, 0755, 0555.\<close>

abbreviation mode_600 :: nat where "mode_600 \<equiv> 384"
abbreviation mode_644 :: nat where "mode_644 \<equiv> 420"
abbreviation mode_755 :: nat where "mode_755 \<equiv> 493"
abbreviation mode_555 :: nat where "mode_555 \<equiv> 365"

section \<open>The calls\<close>

text \<open>One call: it consumes one entry of the fault list and either fails or has its effect.\<close>

definition call :: "(disk \<Rightarrow> 'a result \<times> disk) \<Rightarrow> disk \<Rightarrow> 'a result \<times> disk" where
  "call f d = (case faults d of
     [] \<Rightarrow> f d
   | None # fs \<Rightarrow> f (d\<lparr>faults := fs\<rparr>)
   | Some _ # fs \<Rightarrow> (Inl IoFault, d\<lparr>faults := fs\<rparr>))"

definition read_file :: "string \<Rightarrow> disk \<Rightarrow> bytes result \<times> disk" where
  "read_file n = call (\<lambda>d. (case lookup d n of
      None \<Rightarrow> Inl NotExist | Some (Reg b m) \<Rightarrow> Inr b | Some Directory \<Rightarrow> Inl IoFault, d))"

definition stat_file :: "string \<Rightarrow> disk \<Rightarrow> node result \<times> disk" where
  "stat_file n = call (\<lambda>d. (case lookup d n of None \<Rightarrow> Inl NotExist | Some x \<Rightarrow> Inr x, d))"

definition remove_file :: "string \<Rightarrow> disk \<Rightarrow> unit result \<times> disk" where
  "remove_file n = call (\<lambda>d. case lookup d n of
      None \<Rightarrow> (Inl NotExist, d) | Some _ \<Rightarrow> (Inr (), drop_file n d))"

definition chmod_file :: "string \<Rightarrow> nat \<Rightarrow> disk \<Rightarrow> unit result \<times> disk" where
  "chmod_file n m = call (\<lambda>d. case lookup d n of
      None \<Rightarrow> (Inl NotExist, d)
    | Some (Reg b _) \<Rightarrow> (Inr (), put_file n (Reg b m) d)
    | Some Directory \<Rightarrow> (Inr (), d))"

text \<open>\<open>file.Sync()\<close> and \<open>file.Close()\<close> can fail and change nothing the model shows.\<close>

definition flush_file :: "disk \<Rightarrow> unit result \<times> disk" where
  "flush_file = call (\<lambda>d. (Inr (), d))"

text \<open>\<open>os.MkdirAll\<close> of the directory the model stands for: it can fail, and changes no file.\<close>

definition make_directory :: "disk \<Rightarrow> unit result \<times> disk" where
  "make_directory = call (\<lambda>d. (Inr (), d))"

definition chmod_directory :: "disk \<Rightarrow> unit result \<times> disk" where
  "chmod_directory = call (\<lambda>d. (Inr (), d))"

definition rename_file :: "string \<Rightarrow> string \<Rightarrow> disk \<Rightarrow> unit result \<times> disk" where
  "rename_file a b = call (\<lambda>d. case lookup d a of
      None \<Rightarrow> (Inl NotExist, d)
    | Some x \<Rightarrow> (if lookup d b = Some Directory then (Inl IoFault, d)
                 else (Inr (), put_file b x (drop_file a d))))"

text \<open>\<open>file.Write(body)\<close> on a new file: a failing write leaves a prefix of the body.\<close>

definition write_file :: "string \<Rightarrow> bytes \<Rightarrow> nat \<Rightarrow> disk \<Rightarrow> unit result \<times> disk" where
  "write_file n b m d = (case faults d of
     [] \<Rightarrow> (Inr (), put_file n (Reg b m) d)
   | None # fs \<Rightarrow> (Inr (), put_file n (Reg b m) (d\<lparr>faults := fs\<rparr>))
   | Some k # fs \<Rightarrow> (Inl IoFault, put_file n (Reg (take k b) m) (d\<lparr>faults := fs\<rparr>)))"

text \<open>
  \<open>os.CreateTemp(dir, pre*)\<close> draws numbers until it finds a name that is not taken; the
  search below starts at the number drawn and takes the first free name.
\<close>

fun free_name :: "nat \<Rightarrow> string \<Rightarrow> nat \<Rightarrow> string set \<Rightarrow> string" where
  "free_name 0 pre n used = pre @ show_nat n"
| "free_name (Suc k) pre n used =
     (if pre @ show_nat n \<in> used then free_name k pre (Suc n) used else pre @ show_nat n)"

definition temp_name :: "string \<Rightarrow> disk \<Rightarrow> string" where
  "temp_name pre d = free_name (length (files d)) pre (case seeds d of [] \<Rightarrow> 0 | n # _ \<Rightarrow> n)
     (set (map fst (files d)))"

definition create_temp :: "string \<Rightarrow> disk \<Rightarrow> string result \<times> disk" where
  "create_temp pre = call (\<lambda>d. (Inr (temp_name pre d),
      put_file (temp_name pre d) (Reg [] mode_600) (d\<lparr>seeds := tl (seeds d)\<rparr>)))"

text \<open>\<open>os.ReadDir\<close>: the entries, sorted by file name.\<close>

definition read_dir :: "disk \<Rightarrow> (string \<times> node) list result \<times> disk" where
  "read_dir = call (\<lambda>d. (Inr (sort_key fst (files d)), d))"

section \<open>A new temporary name is free\<close>

lemma free_name_taken: "free_name k pre n used \<in> used \<Longrightarrow> i \<le> k \<Longrightarrow> pre @ show_nat (n + i) \<in> used"
proof (induction k arbitrary: n i)
  case (Suc k)
  then have n: "pre @ show_nat n \<in> used" and t: "free_name k pre (Suc n) used \<in> used"
    by (auto split: if_splits)
  show ?case
  proof (cases i)
    case (Suc j)
    with Suc.prems(2) Suc.IH [OF t, of j] show ?thesis by simp
  qed (use n in simp)
qed simp

lemma free_name_free:
  assumes "finite used" and "card used \<le> k"
  shows "free_name k pre n used \<notin> used"
proof
  assume "free_name k pre n used \<in> used"
  then have "(\<lambda>i. pre @ show_nat (n + i)) ` {..k} \<subseteq> used" using free_name_taken by blast
  moreover have "inj_on (\<lambda>i. pre @ show_nat (n + i)) {..k}" by (simp add: inj_on_def show_nat_inj)
  ultimately have "card {..k} \<le> card used" using assms(1) by (metis card_image card_mono)
  with assms(2) show False by simp
qed

lemma temp_name_free: "lookup d (temp_name pre d) = None"
proof -
  have "card (set (map fst (files d))) \<le> length (files d)"
    using card_length [of "map fst (files d)"] by simp
  then have "temp_name pre d \<notin> set (map fst (files d))"
    unfolding temp_name_def by (intro free_name_free) auto
  then show ?thesis by (simp add: lookup_def map_of_eq_None_iff)
qed

lemma free_name_prefix: "has_prefix (free_name k pre n used) pre"
  by (induction k arbitrary: n) auto

lemma temp_name_prefix: "has_prefix (temp_name pre d) pre"
  by (simp add: temp_name_def free_name_prefix)

section \<open>What each call does\<close>

lemma call_cases:
  assumes "call f d = (r, d')"
  obtains (fault) fs where "r = Inl IoFault" and "d' = d\<lparr>faults := fs\<rparr>"
    | (works) fs where "f (d\<lparr>faults := fs\<rparr>) = (r, d')"
proof (cases "faults d")
  case Nil
  then have "d\<lparr>faults := []\<rparr> = d" by (cases d) simp
  with assms Nil works [of "[]"] show thesis by (simp add: call_def)
next
  case (Cons x fs)
  with assms fault works show thesis by (cases x) (auto simp: call_def)
qed

lemma call_fault_free: "fault_free d \<Longrightarrow> call f d = f d"
  by (simp add: call_def fault_free_def)

lemma fault_free_put [simp]: "fault_free (put_file n x d) = fault_free d"
  by (simp add: fault_free_def)

lemma fault_free_drop [simp]: "fault_free (drop_file n d) = fault_free d"
  by (simp add: fault_free_def)

lemma fault_free_seeds [simp]: "fault_free (d\<lparr>seeds := x\<rparr>) = fault_free d"
  by (simp add: fault_free_def)

lemma write_file_fault_free: "fault_free d \<Longrightarrow> write_file n b m d = (Inr (), put_file n (Reg b m) d)"
  by (simp add: write_file_def fault_free_def)

lemmas call_defs = read_file_def stat_file_def remove_file_def chmod_file_def flush_file_def
  rename_file_def create_temp_def read_dir_def

text \<open>Calls that only read keep the files.\<close>

lemma read_file_keeps: "read_file n d = (r, d') \<Longrightarrow> lookup d' = lookup d \<and> files d' = files d"
  by (auto simp: read_file_def elim!: call_cases)

lemma read_file_Inr: "read_file n d = (Inr b, d') \<Longrightarrow> \<exists>m. lookup d n = Some (Reg b m)"
  by (auto simp: read_file_def elim!: call_cases split: option.splits node.splits)

lemma read_file_NotExist: "read_file n d = (Inl NotExist, d') \<Longrightarrow> lookup d n = None"
  by (auto simp: read_file_def elim!: call_cases split: option.splits node.splits)

lemma stat_file_keeps: "stat_file n d = (r, d') \<Longrightarrow> lookup d' = lookup d \<and> files d' = files d"
  by (auto simp: stat_file_def elim!: call_cases)

lemma stat_file_Inl: "stat_file n d = (Inl NotExist, d') \<Longrightarrow> lookup d n = None"
  by (auto simp: stat_file_def elim!: call_cases split: option.splits)

lemma flush_file_keeps: "flush_file d = (r, d') \<Longrightarrow> lookup d' = lookup d \<and> files d' = files d"
  by (auto simp: flush_file_def elim!: call_cases)

lemma make_directory_keeps: "make_directory d = (r, d') \<Longrightarrow> lookup d' = lookup d \<and> files d' = files d"
  by (auto simp: make_directory_def elim!: call_cases)

lemma chmod_directory_keeps: "chmod_directory d = (r, d') \<Longrightarrow> lookup d' = lookup d \<and> files d' = files d"
  by (auto simp: chmod_directory_def elim!: call_cases)

lemma read_dir_keeps: "read_dir d = (r, d') \<Longrightarrow> lookup d' = lookup d \<and> files d' = files d"
  by (auto simp: read_dir_def elim!: call_cases)

lemma read_dir_Inr: "read_dir d = (Inr es, d') \<Longrightarrow> es = sort_key fst (files d)"
  by (auto simp: read_dir_def elim!: call_cases)

lemma remove_file_Inr: "remove_file n d = (Inr (), d') \<Longrightarrow> lookup d' = (lookup d)(n := None)"
  by (auto simp: remove_file_def elim!: call_cases split: option.splits)

lemma remove_file_Inl: "remove_file n d = (Inl e, d') \<Longrightarrow>
    lookup d' = lookup d \<and> (e = NotExist \<longrightarrow> lookup d n = None)"
  by (auto simp: remove_file_def elim!: call_cases split: option.splits)

lemma remove_file_cases: "remove_file n d = (r, d') \<Longrightarrow> lookup d' = lookup d \<or> lookup d' = (lookup d)(n := None)"
  by (auto simp: remove_file_def elim!: call_cases split: option.splits)

lemma remove_file_ok: "remove_file n d = (r, d') \<Longrightarrow> disk_ok d \<Longrightarrow> disk_ok d'"
  by (auto simp: remove_file_def elim!: call_cases split: option.splits)

lemma keeps_disk_ok: "files d' = files d \<Longrightarrow> disk_ok d' = disk_ok d"
  by (simp add: disk_ok_def)

section \<open>Replacing a file atomically\<close>

text \<open>
  The sequence every persistent file of the agent is written with: create a temporary file,
  set its mode, write, sync, close and rename it over the target, with the deferred removal of
  the temporary name.
\<close>

definition write_temp :: "string \<Rightarrow> bytes \<Rightarrow> nat \<Rightarrow> string \<Rightarrow> disk \<Rightarrow> unit result \<times> disk" where
  "write_temp target body mode tmp =
     bind_io (chmod_file tmp mode) (\<lambda>_.
     bind_io (write_file tmp body mode) (\<lambda>_.
     bind_io flush_file (\<lambda>_.
     bind_io flush_file (\<lambda>_.
     rename_file tmp target))))"

definition atomic_write :: "string \<Rightarrow> string \<Rightarrow> bytes \<Rightarrow> nat \<Rightarrow> disk \<Rightarrow> unit result \<times> disk" where
  "atomic_write pre target body mode =
     bind_io (create_temp pre) (\<lambda>tmp d.
       (case write_temp target body mode tmp d of
          (r, d') \<Rightarrow> (r, snd (remove_file tmp d'))))"

text \<open>The disk agrees with an earlier one but for the temporary file.\<close>

definition upto_temp :: "string \<Rightarrow> disk \<Rightarrow> disk \<Rightarrow> bool" where
  "upto_temp t d d' \<longleftrightarrow>
     (\<exists>x. lookup d' = (lookup d)(t := x) \<and> x \<noteq> Some Directory) \<and> (disk_ok d \<longrightarrow> disk_ok d')"

lemma upto_temp_keeps: "upto_temp t d d1 \<Longrightarrow> lookup d2 = lookup d1 \<and> files d2 = files d1 \<Longrightarrow> upto_temp t d d2"
  unfolding upto_temp_def using keeps_disk_ok [of d2 d1] by metis

lemma upto_temp_put: "upto_temp t d d1 \<Longrightarrow> upto_temp t d (put_file t (Reg b m) (d1\<lparr>faults := fs\<rparr>))"
  by (auto simp: upto_temp_def)

lemma upto_temp_faults [simp]: "upto_temp t d (d1\<lparr>faults := fs\<rparr>) = upto_temp t d d1"
  by (simp add: upto_temp_def)

lemma upto_temp_drop: "upto_temp t d d1 \<Longrightarrow> upto_temp t d (drop_file t d1)"
  by (auto simp: upto_temp_def)

lemma create_temp_upto:
  "create_temp pre d = (Inr t, d1) \<Longrightarrow> lookup d t = None \<and> has_prefix t pre \<and> upto_temp t d d1"
  by (auto simp: create_temp_def temp_name_prefix upto_temp_def elim!: call_cases)
    (metis lookup_faults temp_name_free)+

lemma create_temp_Inl: "create_temp pre d = (Inl e, d1) \<Longrightarrow> lookup d1 = lookup d \<and> files d1 = files d"
  by (auto simp: create_temp_def elim!: call_cases)

lemma chmod_temp: "chmod_file t m d1 = (r, d2) \<Longrightarrow> upto_temp t d d1 \<Longrightarrow> upto_temp t d d2"
  by (auto simp: chmod_file_def upto_temp_put elim!: call_cases split: option.splits node.splits)

lemma write_temp_file: "write_file t b m d1 = (r, d2) \<Longrightarrow> upto_temp t d d1 \<Longrightarrow>
    upto_temp t d d2 \<and> (r = Inr () \<longrightarrow> lookup d2 t = Some (Reg b m))"
  using upto_temp_put [of t d d1 b m "faults d1"]
  by (auto simp: write_file_def upto_temp_put split: list.splits option.splits)

lemma rename_temp:
  assumes "rename_file t target d1 = (r, d2)" and "upto_temp t d d1" and "lookup d1 t = Some (Reg b m)"
    and "lookup d t = None" and "target \<noteq> t"
  shows "(r \<noteq> Inr () \<and> upto_temp t d d2) \<or>
         (r = Inr () \<and> lookup d2 = (lookup d)(target \<mapsto> Reg b m) \<and> (disk_ok d \<longrightarrow> disk_ok d2))"
  using assms(1)
  unfolding rename_file_def
proof (cases rule: call_cases)
  case (fault fs)
  with assms(2) show ?thesis by simp
next
  case (works fs)
  have l: "lookup d1 = (lookup d)(t \<mapsto> Reg b m)" using assms(2,3) by (auto simp: upto_temp_def)
  have ok: "disk_ok d \<longrightarrow> disk_ok d1" using assms(2) by (simp add: upto_temp_def)
  have same: "(lookup d)(t := None) = lookup d" using assms(4) by (simp add: fun_eq_iff)
  show ?thesis
  proof (cases "lookup d1 target = Some Directory")
    case True
    with works l assms(2) show ?thesis by (auto split: if_splits)
  next
    case False
    with works l have "r = Inr ()" and d2: "d2 = put_file target (Reg b m) (drop_file t (d1\<lparr>faults := fs\<rparr>))"
      by auto
    then show ?thesis using l ok same assms(5) by (simp add: fun_upd_twist)
  qed
qed

lemma write_temp_spec:
  assumes "write_temp target b m t d1 = (r, d2)" and up: "upto_temp t d d1" and "lookup d t = None"
    and "target \<noteq> t"
  shows "(r \<noteq> Inr () \<and> upto_temp t d d2) \<or>
         (r = Inr () \<and> lookup d2 = (lookup d)(target \<mapsto> Reg b m) \<and> (disk_ok d \<longrightarrow> disk_ok d2))"
proof -
  obtain r1 e1 where c: "chmod_file t m d1 = (r1, e1)" by (metis surj_pair)
  obtain r2 e2 where w: "write_file t b m e1 = (r2, e2)" by (metis surj_pair)
  obtain r3 e3 where f: "flush_file e2 = (r3, e3)" by (metis surj_pair)
  obtain r4 e4 where g: "flush_file e3 = (r4, e4)" by (metis surj_pair)
  obtain r5 e5 where n: "rename_file t target e4 = (r5, e5)" by (metis surj_pair)
  have u1: "upto_temp t d e1" by (rule chmod_temp [OF c up])
  have u2: "upto_temp t d e2" "r2 = Inr () \<longrightarrow> lookup e2 t = Some (Reg b m)"
    using write_temp_file [OF w u1] by auto
  have u3: "upto_temp t d e3" by (rule upto_temp_keeps [OF u2(1) flush_file_keeps [OF f]])
  have u4: "upto_temp t d e4" by (rule upto_temp_keeps [OF u3 flush_file_keeps [OF g]])
  have l4: "lookup e4 = lookup e2" using flush_file_keeps [OF f] flush_file_keeps [OF g] by simp
  have u5: "r2 = Inr () \<Longrightarrow> (r5 \<noteq> Inr () \<and> upto_temp t d e5) \<or>
      (r5 = Inr () \<and> lookup e5 = (lookup d)(target \<mapsto> Reg b m) \<and> (disk_ok d \<longrightarrow> disk_ok e5))"
    using rename_temp [OF n u4 _ assms(3,4)] u2(2) l4 by simp
  show ?thesis
    using assms(1) u1 u2(1) u3 u4 u5
    by (cases r1; cases r2; cases r3; cases r4) (auto simp: write_temp_def bind_io_def c w f g n)
qed

text \<open>
  Whatever fails, and wherever the process stops, the target holds its old content or the
  whole new body, and no other file changes but for one leftover temporary file; a success is
  the new content.
\<close>

lemma atomic_write_spec:
  assumes "atomic_write pre target b m d = (r, d')" and "\<not> has_prefix target pre"
  shows "(r \<noteq> Inr () \<and> (\<exists>t. has_prefix t pre \<and> lookup d t = None \<and> upto_temp t d d')) \<or>
         (r = Inr () \<and> lookup d' = (lookup d)(target \<mapsto> Reg b m) \<and> (disk_ok d \<longrightarrow> disk_ok d'))"
proof (cases "create_temp pre d")
  case (Pair c d1)
  show ?thesis
  proof (cases c)
    case (Inl e)
    with Pair assms(1) have "r = Inl e" and "d' = d1" by (auto simp: atomic_write_def)
    moreover have "upto_temp (temp_name pre d) d d1"
      using create_temp_Inl [OF Pair [unfolded Inl]] temp_name_free [of d pre] keeps_disk_ok [of d1 d]
      by (auto simp: upto_temp_def fun_eq_iff)
    ultimately show ?thesis using temp_name_prefix temp_name_free by blast
  next
    case (Inr t)
    note ct = create_temp_upto [OF Pair [unfolded Inr]]
    obtain r' d2 where w: "write_temp target b m t d1 = (r', d2)" by (metis surj_pair)
    obtain q d3 where rm: "remove_file t d2 = (q, d3)" by (metis surj_pair)
    from assms(1) Pair Inr w rm have r: "r = r'" and d': "d' = d3" by (auto simp: atomic_write_def)
    have "target \<noteq> t" using ct assms(2) by auto
    with write_temp_spec [OF w] ct have s:
      "(r' \<noteq> Inr () \<and> upto_temp t d d2) \<or>
       (r' = Inr () \<and> lookup d2 = (lookup d)(target \<mapsto> Reg b m) \<and> (disk_ok d \<longrightarrow> disk_ok d2))" by blast
    have l3: "lookup d3 = lookup d2 \<or> lookup d3 = (lookup d2)(t := None)"
      by (rule remove_file_cases [OF rm])
    note ok3 = remove_file_ok [OF rm]
    from s show ?thesis
    proof
      assume "r' \<noteq> Inr () \<and> upto_temp t d d2"
      then have "r' \<noteq> Inr ()" and "upto_temp t d d3" using l3 ok3 by (auto simp: upto_temp_def)
      then show ?thesis using ct r d' by blast
    next
      assume a: "r' = Inr () \<and> lookup d2 = (lookup d)(target \<mapsto> Reg b m) \<and> (disk_ok d \<longrightarrow> disk_ok d2)"
      then have "(lookup d2)(t := None) = lookup d2" using ct \<open>target \<noteq> t\<close> by (auto simp: fun_eq_iff)
      then show ?thesis using a l3 ok3 r d' by auto
    qed
  qed
qed

lemma atomic_write_fault_free:
  assumes "fault_free d" and "lookup d target \<noteq> Some Directory" and "\<not> has_prefix target pre"
  shows "\<exists>d'. atomic_write pre target b m d = (Inr (), d') \<and>
           lookup d' = (lookup d)(target \<mapsto> Reg b m) \<and> fault_free d' \<and> (disk_ok d \<longrightarrow> disk_ok d')"
proof -
  let ?t = "temp_name pre d"
  have t: "lookup d ?t = None" "target \<noteq> ?t" using temp_name_free temp_name_prefix assms(3) by metis+
  obtain r d' where a: "atomic_write pre target b m d = (r, d')" by (metis surj_pair)
  have "r = Inr () \<and> fault_free d'"
    using a t assms(1,2)
    by (auto simp: atomic_write_def write_temp_def bind_io_def call_defs call_fault_free
        write_file_fault_free)
  then show ?thesis using atomic_write_spec [OF a assms(3)] a by auto
qed

lemma atomic_write_other:
  assumes "atomic_write pre target b m d = (r, d')" and "\<not> has_prefix target pre"
    and "n \<noteq> target" and "\<not> has_prefix n pre"
  shows "lookup d' n = lookup d n"
  using atomic_write_spec [OF assms(1,2)] assms(3,4) by (auto simp: upto_temp_def)

lemma atomic_write_target:
  assumes "atomic_write pre target b m d = (r, d')" and "\<not> has_prefix target pre"
  shows "lookup d' target = (if r = Inr () then Some (Reg b m) else lookup d target)"
  using atomic_write_spec [OF assms] assms(2) by (auto simp: upto_temp_def)

lemma atomic_write_disk_ok:
  assumes "atomic_write pre target b m d = (r, d')" and "\<not> has_prefix target pre" and "disk_ok d"
  shows "disk_ok d'"
  using atomic_write_spec [OF assms(1,2)] assms(3) by (auto simp: upto_temp_def)

end
