(* ===== verification/State_File.thy ===== *)
theory State_File
  imports Go_Disk Go_Json_Print
begin

text \<open>
  The contract every state file of the agent shares: a document with an encoder and a decoder,
  written by replacing a file atomically and read with a default for a missing file. The locale
  \<open>document\<close> states what the code relies on, and proves once that saving is all or nothing.
\<close>

definition load_document ::
  "(bytes \<Rightarrow> 'a option) \<Rightarrow> 'a \<Rightarrow> error \<Rightarrow> string \<Rightarrow> disk \<Rightarrow> 'a result \<times> disk" where
  "load_document dec dflt bad name d = (case read_file name d of
     (Inl e, d') \<Rightarrow> ((if e = NotExist then Inr dflt else Inl e), d')
   | (Inr b, d') \<Rightarrow> ((case dec b of None \<Rightarrow> Inl bad | Some v \<Rightarrow> Inr v), d'))"

text \<open>What a fault-free load would return: the value the file stands for.\<close>

definition stored :: "(bytes \<Rightarrow> 'a option) \<Rightarrow> 'a \<Rightarrow> string \<Rightarrow> disk \<Rightarrow> 'a option" where
  "stored dec dflt name d = (case lookup d name of
     None \<Rightarrow> Some dflt | Some (Reg b m) \<Rightarrow> dec b | Some Directory \<Rightarrow> None)"

lemma stored_cong: "lookup d name = lookup d' name \<Longrightarrow> stored dec dflt name d = stored dec dflt name d'"
  by (simp add: stored_def)

lemma load_document_keeps:
  "load_document dec dflt bad name d = (r, d') \<Longrightarrow> lookup d' = lookup d \<and> files d' = files d"
  using read_file_keeps [of name d]
  by (auto simp: load_document_def split: prod.splits sum.splits)

lemma load_document_Inr:
  "load_document dec dflt bad name d = (Inr v, d') \<Longrightarrow> stored dec dflt name d = Some v"
  using read_file_Inr [of name d] read_file_NotExist [of name d]
  by (fastforce simp: load_document_def stored_def split: prod.splits sum.splits if_splits option.splits)

lemma load_document_fault_free:
  "fault_free d \<Longrightarrow> stored dec dflt name d = Some v \<Longrightarrow> load_document dec dflt bad name d = (Inr v, d)"
  by (auto simp: load_document_def stored_def read_file_def call_fault_free
      split: option.splits node.splits)

locale document =
  fixes valid :: "'a \<Rightarrow> bool" and enc :: "'a \<Rightarrow> bytes" and dec :: "bytes \<Rightarrow> 'a option"
    and pre :: string and name :: string
  assumes dec_enc: "valid v \<Longrightarrow> dec (enc v) = Some v"
    and not_temporary: "\<not> has_prefix name pre"
begin

lemma save_stored:
  assumes "atomic_write pre name (enc v) m d = (Inr (), d')" and "valid v"
  shows "stored dec dflt name d' = Some v"
  using atomic_write_target [OF assms(1) not_temporary] assms(2) by (simp add: stored_def dec_enc)

lemma save_failed:
  assumes "atomic_write pre name (enc v) m d = (Inl e, d')"
  shows "stored dec dflt name d' = stored dec dflt name d"
  using atomic_write_target [OF assms not_temporary] by (intro stored_cong) simp

lemma save_all_or_nothing:
  assumes "atomic_write pre name (enc v) m d = (r, d')" and "valid v"
  shows "stored dec dflt name d' = (if r = Inr () then Some v else stored dec dflt name d)"
  using assms save_stored save_failed by (cases r) auto

lemma save_then_load:
  assumes "atomic_write pre name (enc v) m d = (Inr (), d')" and "valid v" and "fault_free d'"
  shows "load_document dec dflt bad name d' = (Inr v, d')"
  using save_stored [OF assms(1,2)] assms(3) by (simp add: load_document_fault_free)

end

end
