(* ===== verification/Agent_State.thy ===== *)
theory Agent_State
  imports Agent_Transport Telemetry_Delta State_File
begin

text \<open>
  The files of the runtime in the state directory: the contract cache
  (\<open>internal/runtime/contract_cache.go\<close>), the monitoring configuration (\<open>monitoring_config.go\<close>), the
  telemetry state (\<open>telemetry_delta.go\<close>) and the marker of a revoked registration (\<open>agent.go\<close>). A nil
  slice or map is written as the empty one, and a time in UTC.
\<close>

definition int_json :: "int \<Rightarrow> json" where
  "int_json n = JNum (if n < 0 then CHR ''-'' # show_nat (nat (- n)) else show_nat (nat n))"

definition u64_json :: "u64 \<Rightarrow> json" where
  "u64_json n = JNum (show_u64 n)"

definition bad_year :: error where
  "bad_year = Msg ''Time.MarshalJSON: year outside of range [0,9999]''"

section \<open>The contract cache\<close>

record cached_contract =
  CachedETag :: string
  Cached :: contract

definition zero_cache :: cached_contract where
  "zero_cache = \<lparr>CachedETag = [], Cached = zero_contract\<rparr>"

definition contract_json :: "contract \<Rightarrow> json" where
  "contract_json c = (let col = Collection c; lim = ContractLimits c; priv = Privacy c in JObj
     [(''protocolMajor'', int_json (ContractMajor c)), (''revision'', u64_json (ContractRevision c)),
      (''issuedAt'', JStr (show_time (IssuedAt c))), (''schemaBundleDigest'', JStr (SchemaBundleDigest c)),
      (''collection'', JObj [(''hostIntervalSeconds'', int_json (HostIntervalSeconds col)),
         (''serviceIntervalSeconds'', int_json (ServiceIntervalSeconds col)),
         (''storageHealthIntervalSeconds'', int_json (StorageHealthIntervalSeconds col)),
         (''gpuSampleIntervalSeconds'', int_json (GPUSampleIntervalSeconds col))]),
      (''limits'', JObj [(''compressedBytes'', int_json (CompressedBytes lim)),
         (''decompressedBytes'', int_json (DecompressedBytes lim)), (''offlineSamples'', int_json (OfflineSamples lim)),
         (''offlineBytes'', int_json (OfflineBytes lim))]),
      (''privacy'', JObj [(''containersEnabled'', JBool (ContainersEnabled priv)),
         (''smartEnabled'', JBool (SMARTEnabled priv)),
         (''rawHardwareIdentifiersEnabled'', JBool (RawHardwareIdentifiers priv))])])"

definition encode_cache :: "cached_contract \<Rightarrow> bytes" where
  "encode_cache v = json_text (JObj [(''etag'', JStr (CachedETag v)), (''contract'', contract_json (Cached v))]) @ newline"

definition decode_cache :: "bytes \<Rightarrow> cached_contract option" where
  "decode_cache b = Option.bind (top_members b) (\<lambda>ms.
     (case (string_field ''etag'' ms, assign_field (decode_contract False) zero_contract (member_values ''contract'' ms)) of
        (Some e, Some c) \<Rightarrow> Some \<lparr>CachedETag = e, Cached = c\<rparr> | _ \<Rightarrow> None))"

definition contract_name :: string where "contract_name = ''contract.json''"
definition contract_temp :: string where "contract_temp = ''.contract-''"

definition incompatible_cache :: error where
  "incompatible_cache = Msg ''cached contract schema is incompatible''"

definition check_cache :: "string result \<Rightarrow> cached_contract \<Rightarrow> cached_contract result" where
  "check_cache digest v =
     (if validate_contract (Cached v) \<noteq> Inr () then Inl (Msg ''cached contract is invalid'')
      else bind_result (compatible_digest digest (SchemaBundleDigest (Cached v))) (\<lambda>ok.
        if ok then Inr v else Inl incompatible_cache))"

definition load_contract_cache :: "string result \<Rightarrow> disk \<Rightarrow> cached_contract result \<times> disk" where
  "load_contract_cache digest d = (case read_file contract_name d of
     (Inl e, d') \<Rightarrow> ((if e = NotExist then Inr zero_cache else Inl e), d')
   | (Inr body, d') \<Rightarrow> ((case decode_cache body of
        None \<Rightarrow> Inl (Msg ''contract cache is invalid'') | Some v \<Rightarrow> check_cache digest v), d'))"

definition write_contract_cache :: "cached_contract \<Rightarrow> disk \<Rightarrow> unit result \<times> disk" where
  "write_contract_cache v = bind_io make_directory (\<lambda>_.
     if \<not> time_in_range (IssuedAt (Cached v)) then fail_io bad_year
     else atomic_write contract_temp contract_name (encode_cache v) mode_600)"

section \<open>The monitoring configuration\<close>

definition monitoring_json :: "monitoring_config \<Rightarrow> json" where
  "monitoring_json m = JObj [(''revision'', u64_json (MonRevision m)), (''enabled'', JBool (MonEnabled m)),
     (''serviceIntervalSeconds'', int_json (MonServiceInterval m)),
     (''selectedServices'', JArr (map JStr (SelectedServices m))),
     (''selectedContainers'', JArr (map JStr (SelectedContainers m)))]"

definition encode_monitoring :: "monitoring_config \<Rightarrow> bytes" where
  "encode_monitoring m = indent_text 0 (monitoring_json m) @ newline"

definition monitoring_name :: string where "monitoring_name = ''monitoring-config.json''"
definition monitoring_temp :: string where "monitoring_temp = ''.monitoring-config-''"

definition load_monitoring :: "disk \<Rightarrow> monitoring_config result \<times> disk" where
  "load_monitoring d = (case read_file monitoring_name d of
     (Inl e, d') \<Rightarrow> ((if e = NotExist then Inr zero_monitoring else Inl e), d')
   | (Inr body, d') \<Rightarrow> ((case Option.bind (parse_json body) decode_monitoring of
        None \<Rightarrow> Inl (Msg ''monitoring config is invalid'')
      | Some m \<Rightarrow> bind_result (validate_monitoring_config m) (\<lambda>_. Inr m)), d'))"

definition write_monitoring :: "monitoring_config \<Rightarrow> disk \<Rightarrow> unit result \<times> disk" where
  "write_monitoring m = bind_io (\<lambda>d. (validate_monitoring_config m, d)) (\<lambda>_.
     atomic_write monitoring_temp monitoring_name (encode_monitoring m) mode_600)"

section \<open>The telemetry state\<close>

definition family_json :: "family_sync \<Rightarrow> json" where
  "family_json f = JObj [(''revision'', u64_json (SyncRevision f)),
     (''hashes'', JObj (map (\<lambda>(k, h). (k, JStr h)) (sort_key fst (Hashes f)))),
     (''lastFullAt'', JStr (show_time (LastFullAt f)))]"

definition telemetry_json :: "telemetry_sync \<Rightarrow> json" where
  "telemetry_json s = JObj ([(''version'', int_json (SyncVersion s))] @
     (if SyncCapabilities s = [] then [] else [(''capabilitiesHash'', JStr (SyncCapabilities s))]) @
     [(''families'', (case SyncFamilies s of None \<Rightarrow> JNull
        | Some fams \<Rightarrow> JObj (map (\<lambda>(k, f). (k, family_json f)) (sort_key fst fams))))])"

definition encode_telemetry :: "telemetry_sync \<Rightarrow> bytes" where
  "encode_telemetry s = json_text (telemetry_json s) @ newline"

text \<open>A map: a repeated key keeps the last value; a \<open>null\<close> element is the zero value.\<close>

definition json_map :: "(json \<Rightarrow> 'a option) \<Rightarrow> 'a \<Rightarrow> json \<Rightarrow> (string \<times> 'a) list option" where
  "json_map conv dflt v = (case v of
     JObj ms \<Rightarrow> map_option (\<lambda>kvs. fold (\<lambda>(k, x). AList.update k x) kvs [])
       (those (map (\<lambda>(k, x). map_option (Pair k) (if x = JNull then Some dflt else conv x)) ms))
   | _ \<Rightarrow> None)"

definition decode_family :: "json \<Rightarrow> family_sync option" where
  "decode_family = json_struct None zero_family (\<lambda>ms.
     (case (u64_field ''revision'' ms, assign_field (json_map json_string []) [] (member_values ''hashes'' ms),
            time_field ''lastFullAt'' ms) of
        (Some r, Some hs, Some t) \<Rightarrow> Some \<lparr>SyncRevision = r, Hashes = hs, LastFullAt = t\<rparr> | _ \<Rightarrow> None))"

definition decode_telemetry :: "bytes \<Rightarrow> telemetry_sync option" where
  "decode_telemetry b = Option.bind (top_members b) (\<lambda>ms.
     (case (int_field ''version'' ms, string_field ''capabilitiesHash'' ms,
            assign_pointer (json_map decode_family zero_family) None (member_values ''families'' ms)) of
        (Some v, Some c, Some fs) \<Rightarrow> Some \<lparr>SyncVersion = v, SyncCapabilities = c, SyncFamilies = fs\<rparr> | _ \<Rightarrow> None))"

definition telemetry_name :: string where "telemetry_name = ''telemetry-sync.json''"

definition load_telemetry :: "disk \<Rightarrow> telemetry_sync result \<times> disk" where
  "load_telemetry d = (case read_file telemetry_name d of
     (Inl e, d') \<Rightarrow> ((if e = NotExist then Inr empty_sync else Inl e), d')
   | (Inr body, d') \<Rightarrow> ((case decode_telemetry body of
        None \<Rightarrow> Inr empty_sync
      | Some s \<Rightarrow> Inr (if SyncVersion s \<noteq> sync_version \<or> SyncFamilies s = None then empty_sync else s)), d'))"

text \<open>
  \<open>os.WriteFile\<close>: the file is opened (an existing file keeps its mode), written and closed.
  A file is replaced by writing a fixed temporary name and renaming it over the target; a failed
  rename is followed by the removal of the temporary file.
\<close>

definition kept_mode :: "string \<Rightarrow> nat \<Rightarrow> disk \<Rightarrow> nat" where
  "kept_mode n m d = (case lookup d n of Some (Reg b k) \<Rightarrow> k | _ \<Rightarrow> m)"

definition write_whole :: "string \<Rightarrow> bytes \<Rightarrow> nat \<Rightarrow> disk \<Rightarrow> unit result \<times> disk" where
  "write_whole n b m =
     bind_io (call (\<lambda>d. (if lookup d n = Some Directory then Inl IoFault else Inr (), d))) (\<lambda>_ d.
     bind_io (write_file n b (kept_mode n m d)) (\<lambda>_. flush_file) d)"

definition replace_file :: "string \<Rightarrow> bytes \<Rightarrow> disk \<Rightarrow> unit result \<times> disk" where
  "replace_file name body =
     bind_io (write_whole (name @ ''.tmp'') body mode_600) (\<lambda>_ d.
       (case rename_file (name @ ''.tmp'') name d of
          (Inl e, d') \<Rightarrow> (Inl e, snd (remove_file (name @ ''.tmp'') d'))
        | (Inr _, d') \<Rightarrow> (Inr (), d')))"

definition times_in_range :: "telemetry_sync \<Rightarrow> bool" where
  "times_in_range s \<longleftrightarrow> (case SyncFamilies s of None \<Rightarrow> True
     | Some fams \<Rightarrow> (\<forall>(k, f) \<in> set fams. time_in_range (LastFullAt f)))"

definition write_telemetry :: "telemetry_sync \<Rightarrow> disk \<Rightarrow> unit result \<times> disk" where
  "write_telemetry s = bind_io make_directory (\<lambda>_.
     if \<not> times_in_range s then fail_io bad_year
     else bind_io (replace_file telemetry_name (encode_telemetry s)) (\<lambda>_. chmod_file telemetry_name mode_600))"

section \<open>The dormant marker\<close>

definition dormant_name :: string where "dormant_name = ''dormant.json''"

definition is_dormant :: "disk \<Rightarrow> bool \<times> disk" where
  "is_dormant d = (case stat_file dormant_name d of
     (Inr (Reg b m), d') \<Rightarrow> (True, d') | (_, d') \<Rightarrow> (False, d'))"

definition mark_dormant :: "time \<Rightarrow> disk \<Rightarrow> unit result \<times> disk" where
  "mark_dormant now = replace_file dormant_name
     (''{'' @ json_quote ''state'' @ '':'' @ json_quote ''revoked'' @ '','' @ json_quote ''recordedAt'' @ '':'' @
      json_quote (show_time now) @ ''}'' @ newline)"

section \<open>Round trips\<close>

lemma int_json_back: "0 \<le> n \<Longrightarrow> n < 2 ^ 63 \<Longrightarrow> natural_json (int_json n) \<and> json_int (int_json n) = Some n"
  using json_int_show [of "nat n"] by (auto simp: int_json_def simp del: json_int.simps)

lemma u64_json_back [simp]: "natural_json (u64_json n)" "json_u64 (u64_json n) = Some n"
  by (auto simp: u64_json_def show_u64_def) (metis json_u64.simps(1) json_u64_show show_u64_def)

definition small_int :: "int \<Rightarrow> bool" where
  "small_int n \<longleftrightarrow> 0 \<le> n \<and> n < 2 ^ 63"

lemma small_int_json [simp]: "small_int n \<Longrightarrow> natural_json (int_json n)" "small_int n \<Longrightarrow> json_int (int_json n) = Some n"
  using int_json_back by (simp_all add: small_int_def)

lemma int_json_not_null [simp]: "int_json n \<noteq> JNull" "u64_json w \<noteq> JNull"
  by (simp_all add: int_json_def u64_json_def)

lemma assign_one [simp]: "v \<noteq> JNull \<Longrightarrow> assign_field conv x [v] = conv v"
  by (cases v) (auto split: option.splits)

lemma decode_encode_monitoring:
  assumes "validate_monitoring_config m = Inr ()"
  shows "Option.bind (parse_json (encode_monitoring m)) decode_monitoring = Some m"
proof -
  have i: "small_int (MonServiceInterval m)"
    using assms by (auto simp: validate_monitoring_config_def checks_ok outside_def small_int_def)
  have "natural_json (monitoring_json m)" using i by (auto simp: monitoring_json_def)
  from parse_indent_text [OF this] have p: "parse_json (encode_monitoring m) = Some (monitoring_json m)"
    by (simp add: encode_monitoring_def)
  have s: "json_slice json_string_elem (JArr (map JStr xs)) = Some xs" for xs
    by (induction xs) (simp_all add: json_slice_def)
  show ?thesis unfolding p
    using i by (simp add: decode_monitoring_def monitoring_json_def json_struct_def u64_field_def bool_field_def int_field_def
        slice_field_def fold_simps s)
qed

definition contract_storable :: "contract \<Rightarrow> bool" where
  "contract_storable c \<longleftrightarrow> validate_contract c = Inr () \<and> time_in_range (IssuedAt c)"

lemma decode_contract_json:
  assumes "contract_storable c"
  shows "natural_json (contract_json c)" "decode_contract False (contract_json c) = Some c"
proof -
  note ok = assms [unfolded contract_storable_def]
  have i: "small_int (ContractMajor c)" "small_int (HostIntervalSeconds (Collection c))"
    "small_int (ServiceIntervalSeconds (Collection c))" "small_int (StorageHealthIntervalSeconds (Collection c))"
    "small_int (GPUSampleIntervalSeconds (Collection c))" "small_int (CompressedBytes (ContractLimits c))"
    "small_int (DecompressedBytes (ContractLimits c))" "small_int (OfflineSamples (ContractLimits c))"
    "small_int (OfflineBytes (ContractLimits c))"
    using ok by (auto simp: validate_contract_def checks_ok outside_def small_int_def Let_def)
  have t: "parse_time (show_time (IssuedAt c)) = Some (IssuedAt c)" using ok by (intro parse_show_time) simp
  show "natural_json (contract_json c)" using i by (simp add: contract_json_def Let_def)
  have col: "decode_collection False (JObj [(''hostIntervalSeconds'', int_json (HostIntervalSeconds (Collection c))),
         (''serviceIntervalSeconds'', int_json (ServiceIntervalSeconds (Collection c))),
         (''storageHealthIntervalSeconds'', int_json (StorageHealthIntervalSeconds (Collection c))),
         (''gpuSampleIntervalSeconds'', int_json (GPUSampleIntervalSeconds (Collection c)))]) = Some (Collection c)"
    using i by (simp add: decode_collection_def field_names_def json_struct_def int_field_def fold_simps)
  have lim: "decode_limits False (JObj [(''compressedBytes'', int_json (CompressedBytes (ContractLimits c))),
         (''decompressedBytes'', int_json (DecompressedBytes (ContractLimits c))),
         (''offlineSamples'', int_json (OfflineSamples (ContractLimits c))),
         (''offlineBytes'', int_json (OfflineBytes (ContractLimits c)))]) = Some (ContractLimits c)"
    using i by (simp add: decode_limits_def field_names_def json_struct_def int_field_def fold_simps)
  have priv: "decode_privacy False (JObj [(''containersEnabled'', JBool (ContainersEnabled (Privacy c))),
         (''smartEnabled'', JBool (SMARTEnabled (Privacy c))),
         (''rawHardwareIdentifiersEnabled'', JBool (RawHardwareIdentifiers (Privacy c)))]) = Some (Privacy c)"
    by (simp add: decode_privacy_def field_names_def json_struct_def bool_field_def fold_simps)
  show "decode_contract False (contract_json c) = Some c"
    using i(1) t by (simp add: decode_contract_def contract_json_def Let_def field_names_def json_struct_def int_field_def
        u64_field_def time_field_def string_field_def fold_simps col lim priv)
qed

lemma decode_encode_cache:
  assumes "contract_storable (Cached v)"
  shows "decode_cache (encode_cache v) = Some v"
proof -
  note c = decode_contract_json [OF assms]
  let ?ms = "[(''etag'', JStr (CachedETag v)), (''contract'', contract_json (Cached v))]"
  have "parse_json (encode_cache v) = Some (JObj ?ms)"
    unfolding encode_cache_def by (rule parse_json_text) (simp add: c)
  moreover have "contract_json (Cached v) \<noteq> JNull" by (simp add: contract_json_def Let_def)
  ultimately show ?thesis by (simp add: decode_cache_def top_members_def string_field_def fold_simps c)
qed

interpretation contract_file: document "\<lambda>v. contract_storable (Cached v)" encode_cache decode_cache contract_temp contract_name
  by unfold_locales (simp_all add: decode_encode_cache contract_temp_def contract_name_def has_prefix_def)

interpretation monitoring_file: document "\<lambda>m. validate_monitoring_config m = Inr ()" encode_monitoring
    "\<lambda>b. Option.bind (parse_json b) decode_monitoring" monitoring_temp monitoring_name
  by unfold_locales (simp_all add: decode_encode_monitoring monitoring_temp_def monitoring_name_def has_prefix_def)

text \<open>The telemetry state comes back with its maps in key order.\<close>

definition sorted_family :: "family_sync \<Rightarrow> family_sync" where
  "sorted_family f = f\<lparr>Hashes := sort_key fst (Hashes f)\<rparr>"

definition sorted_sync :: "telemetry_sync \<Rightarrow> telemetry_sync" where
  "sorted_sync s = s\<lparr>SyncFamilies := map_option (\<lambda>fams. map (\<lambda>(k, f). (k, sorted_family f)) (sort_key fst fams)) (SyncFamilies s)\<rparr>"

definition sync_storable :: "telemetry_sync \<Rightarrow> bool" where
  "sync_storable s \<longleftrightarrow> SyncVersion s = sync_version \<and> (\<exists>fams. SyncFamilies s = Some fams \<and> distinct (map fst fams) \<and>
     (\<forall>(k, f) \<in> set fams. distinct (map fst (Hashes f)) \<and> time_in_range (LastFullAt f)))"

lemma fold_update_distinct:
  "distinct (map fst (acc @ kvs)) \<Longrightarrow> fold (\<lambda>(k, x). AList.update k x) kvs acc = acc @ kvs"
proof (induction kvs arbitrary: acc)
  case (Cons p kvs)
  have "AList.update (fst p) (snd p) acc = acc @ [p]" if "fst p \<notin> fst ` set acc" using that by (induction acc) auto
  then show ?case using Cons by (cases p) auto
qed simp

lemma json_map_back:
  assumes "distinct (map fst kvs)" and "\<And>k x. (k, x) \<in> set kvs \<Longrightarrow> enc x \<noteq> JNull \<and> conv (enc x) = Some (tidy x)"
  shows "json_map conv dflt (JObj (map (\<lambda>(k, x). (k, enc x)) kvs)) = Some (map (\<lambda>(k, x). (k, tidy x)) kvs)"
proof -
  have "those (map (\<lambda>(k, v). map_option (Pair k) (if v = JNull then Some dflt else conv v)) (map (\<lambda>(k, x). (k, enc x)) kvs))
      = Some (map (\<lambda>(k, x). (k, tidy x)) kvs)" using assms(2)
  proof (induction kvs)
    case (Cons p kvs)
    obtain k x where p: "p = (k, x)" by (metis surj_pair)
    have "enc x \<noteq> JNull \<and> conv (enc x) = Some (tidy x)" using Cons.prems [of k x] p by simp
    moreover have "those (map (\<lambda>(k, v). map_option (Pair k) (if v = JNull then Some dflt else conv v)) (map (\<lambda>(k, x). (k, enc x)) kvs))
      = Some (map (\<lambda>(k, x). (k, tidy x)) kvs)" by (rule Cons.IH) (use Cons.prems in auto)
    ultimately show ?case using p by simp
  qed simp
  moreover have keys: "map fst (map (\<lambda>(k, x). (k, tidy x)) kvs) = map fst kvs" by (simp add: case_prod_beta)
  have "fold (\<lambda>(k, x). AList.update k x) (map (\<lambda>(k, x). (k, tidy x)) kvs) [] = map (\<lambda>(k, x). (k, tidy x)) kvs"
    using fold_update_distinct [of "[]" "map (\<lambda>(k, x). (k, tidy x)) kvs"] assms(1) unfolding append_Nil keys by blast
  ultimately show ?thesis unfolding json_map_def json.case by simp
qed

lemma decode_family_json:
  assumes "distinct (map fst (Hashes f))" and "time_in_range (LastFullAt f)"
  shows "natural_json (family_json f)" "family_json f \<noteq> JNull" "decode_family (family_json f) = Some (sorted_family f)"
proof -
  show "natural_json (family_json f)" "family_json f \<noteq> JNull" by (auto simp: family_json_def)
  have h: "json_map json_string [] (JObj (map (\<lambda>(k, h). (k, JStr h)) (sort_key fst (Hashes f)))) = Some (sort_key fst (Hashes f))"
    using json_map_back [of "sort_key fst (Hashes f)" JStr json_string "\<lambda>x. x" "[]"] assms(1) by simp
  show "decode_family (family_json f) = Some (sorted_family f)"
    by (simp add: decode_family_def family_json_def json_struct_def u64_field_def time_field_def fold_simps h
        parse_show_time [OF assms(2)] sorted_family_def)
qed

lemma decode_encode_telemetry:
  assumes "sync_storable s"
  shows "decode_telemetry (encode_telemetry s) = Some (sorted_sync s)"
proof -
  obtain fams where f: "SyncVersion s = 1" "SyncFamilies s = Some fams" "distinct (map fst fams)"
    "\<And>k g. (k, g) \<in> set fams \<Longrightarrow> distinct (map fst (Hashes g)) \<and> time_in_range (LastFullAt g)"
    using assms by (auto simp: sync_storable_def sync_version_def)
  let ?fj = "JObj (map (\<lambda>(k, f). (k, family_json f)) (sort_key fst fams))"
  have "natural_json (telemetry_json s)"
    using f by (auto simp: telemetry_json_def small_int_def decode_family_json)
  then have p: "parse_json (encode_telemetry s) = Some (telemetry_json s)"
    unfolding encode_telemetry_def by (rule parse_json_text)
  have m: "json_map decode_family zero_family ?fj = Some (map (\<lambda>(k, f). (k, sorted_family f)) (sort_key fst fams))"
    using json_map_back [of "sort_key fst fams" family_json decode_family sorted_family zero_family] f(3,4) decode_family_json by simp
  have one: "json_int (int_json 1) = Some 1" by (simp add: small_int_def)
  show ?thesis
    by (cases "SyncCapabilities s = []")
      (simp_all add: decode_telemetry_def top_members_def p telemetry_json_def f int_field_def string_field_def fold_simps one m
        sorted_sync_def)
qed

end
