(* ===== verification/Agent_Config.thy ===== *)
theory Agent_Config
  imports Protocol_Check State_File
begin

text \<open>
  The configuration, \<open>internal/config/config.go\<close>: its decoding and its validation, which also
  normalises the endpoints and fills in the container defaults. \<open>net/url\<close> is an argument: the
  parts of a parsed URL the code looks at, and the text of the URL with a given path.
\<close>

section \<open>Data\<close>

record containers_config =
  CMode :: string
  CRuntime :: string
  CEndpoint :: string

record config =
  ConfEndpoint :: string
  ConfHost :: host_ref
  StateDirectory :: string
  ConfFilesystems :: "string list"
  SmartDevices :: "string list"
  ConfContainers :: containers_config

record url_parts =
  UScheme :: string
  UHost :: string
  UHostname :: string
  UUser :: bool
  UQuery :: string
  UFragment :: string
  UPath :: string
  TextWithPath :: "string \<Rightarrow> string"

type_synonym url_parser = "string \<Rightarrow> url_parts option"

section \<open>Decoding\<close>

definition decode_host :: "json \<Rightarrow> host_ref option" where
  "decode_host = json_struct (Some [''type'', ''id'']) \<lparr>HostType = [], HostID = 0\<rparr> (\<lambda>ms.
     (case (string_field ''type'' ms, u64_field ''id'' ms) of
        (Some t, Some i) \<Rightarrow> Some \<lparr>HostType = t, HostID = i\<rparr> | _ \<Rightarrow> None))"

definition zero_containers :: containers_config where
  "zero_containers = \<lparr>CMode = [], CRuntime = [], CEndpoint = []\<rparr>"

definition decode_containers :: "json \<Rightarrow> containers_config option" where
  "decode_containers = json_struct (Some [''mode'', ''runtime'', ''endpoint'']) zero_containers (\<lambda>ms.
     (case (string_field ''mode'' ms, string_field ''runtime'' ms, string_field ''endpoint'' ms) of
        (Some m, Some r, Some e) \<Rightarrow> Some \<lparr>CMode = m, CRuntime = r, CEndpoint = e\<rparr> | _ \<Rightarrow> None))"

definition decode_devices :: "json \<Rightarrow> string list option" where
  "decode_devices = json_struct (Some [''smartDevices'']) [] (slice_field json_string_elem ''smartDevices'')"

definition zero_config :: config where
  "zero_config = \<lparr>ConfEndpoint = [], ConfHost = \<lparr>HostType = [], HostID = 0\<rparr>, StateDirectory = [],
     ConfFilesystems = [], SmartDevices = [], ConfContainers = zero_containers\<rparr>"

definition decode_config :: "json \<Rightarrow> config option" where
  "decode_config = json_struct
     (Some [''endpoint'', ''host'', ''stateDirectory'', ''filesystems'', ''storageHealth'', ''containers'']) zero_config
     (\<lambda>ms. (case (string_field ''endpoint'' ms, string_field ''stateDirectory'' ms,
               slice_field json_string_elem ''filesystems'' ms) of
        (Some e, Some d, Some fs) \<Rightarrow>
          (case (assign_field decode_host \<lparr>HostType = [], HostID = 0\<rparr> (member_values ''host'' ms),
                 assign_field decode_devices [] (member_values ''storageHealth'' ms),
                 assign_field decode_containers zero_containers (member_values ''containers'' ms)) of
             (Some h, Some ds, Some c) \<Rightarrow> Some \<lparr>ConfEndpoint = e, ConfHost = h, StateDirectory = d,
                ConfFilesystems = fs, SmartDevices = ds, ConfContainers = c\<rparr>
           | _ \<Rightarrow> None)
      | _ \<Rightarrow> None))"

section \<open>Validation\<close>

definition socket_paths :: "string list" where
  "socket_paths = [''/var/run/docker.sock'', ''/run/docker.sock'', ''/run/podman/podman.sock'']"

definition user_socket :: "string \<Rightarrow> bool" where
  "user_socket p \<longleftrightarrow> has_prefix p ''/run/user/'' \<and>
     (case split_on (CHR ''/'') (trim_prefix p ''/run/user/'') of
        [uid, a, b] \<Rightarrow> a = ''podman'' \<and> b = ''podman.sock'' \<and> parse_uint 32 uid \<noteq> None
      | _ \<Rightarrow> False)"

definition allowed_socket :: "string \<Rightarrow> string \<Rightarrow> bool" where
  "allowed_socket runtime p \<longleftrightarrow> p \<in> set socket_paths \<or> (runtime = ''podman'' \<and> user_socket p)"

definition default_containers :: "containers_config \<Rightarrow> containers_config" where
  "default_containers c = c\<lparr>CMode := (if CMode c = [] then ''disabled'' else CMode c),
     CRuntime := (if CRuntime c = [] then ''docker'' else CRuntime c)\<rparr>"

definition validate_proxy :: "url_parser \<Rightarrow> containers_config \<Rightarrow> containers_config result" where
  "validate_proxy parse c =
     (case parse (CEndpoint c) of
        None \<Rightarrow> Inl (Msg ''containers.endpoint must be a credential-free loopback HTTP URL in proxy mode'')
      | Some u \<Rightarrow>
         (if UScheme u \<noteq> ''http'' \<or> UHost u = [] \<or> UUser u \<or> UQuery u \<noteq> [] \<or> UFragment u \<noteq> []
          then Inl (Msg ''containers.endpoint must be a credential-free loopback HTTP URL in proxy mode'')
          else if UHostname u \<notin> set [''localhost'', ''127.0.0.1'', ''::1'']
          then Inl (Msg ''container proxy must listen on loopback'')
          else if trim_right_slash (UPath u) \<noteq> [] then Inl (Msg ''container proxy endpoint cannot contain a path'')
          else Inr (c\<lparr>CEndpoint := trim_right_slash (TextWithPath u (UPath u))\<rparr>)))"

definition validate_containers :: "url_parser \<Rightarrow> containers_config \<Rightarrow> containers_config result" where
  "validate_containers parse given =
     (let c = default_containers given; clean = clean_path (CEndpoint c) in
      if CMode c \<notin> set [''disabled'', ''proxy'', ''socket'']
        then Inl (Msg ''containers.mode must be disabled, proxy, or socket'')
      else if CRuntime c \<noteq> ''docker'' \<and> CRuntime c \<noteq> ''podman''
        then Inl (Msg ''containers.runtime must be docker or podman'')
      else if CMode c = ''disabled'' then
        (if CEndpoint c \<noteq> [] then Inl (Msg ''containers.endpoint must be empty when container collection is disabled'')
         else Inr c)
      else if CMode c = ''proxy'' then validate_proxy parse c
      else if \<not> is_abs (CEndpoint c) \<or> clean \<noteq> CEndpoint c \<or> \<not> allowed_socket (CRuntime c) clean
        then Inl (Msg ''containers.endpoint is not an allowed local runtime socket'')
      else Inr c)"

text \<open>The loops over the mounts and the devices; \<open>seen\<close> are the paths so far.\<close>

fun check_mounts :: "string list \<Rightarrow> string list \<Rightarrow> unit result" where
  "check_mounts seen [] = Inr ()"
| "check_mounts seen (mount # rest) =
     (if \<not> is_abs mount \<or> clean_path mount \<noteq> mount \<or> length (clean_path mount) > 4096
        then Inl (Msg ''filesystems must be a normalized absolute path'')
      else if clean_path mount \<in> set seen \<or> clean_path mount = ''/''
        then Inl (Msg ''filesystems is duplicated or reserved'')
      else check_mounts (clean_path mount # seen) rest)"

fun check_devices :: "string list \<Rightarrow> string list \<Rightarrow> unit result" where
  "check_devices seen [] = Inr ()"
| "check_devices seen (device # rest) =
     (if \<not> is_abs device \<or> clean_path device \<noteq> device \<or> \<not> has_prefix (clean_path device) ''/dev/'' \<or>
         length (clean_path device) > 255
        then Inl (Msg ''smartDevices must be a normalized absolute /dev path'')
      else if clean_path device \<in> set seen then Inl (Msg ''smartDevices is duplicated'')
      else check_devices (clean_path device # seen) rest)"

definition validate_endpoint :: "url_parser \<Rightarrow> string \<Rightarrow> string result" where
  "validate_endpoint parse endpoint =
     (case parse endpoint of
        None \<Rightarrow> Inl (Msg ''endpoint must be an absolute HTTP or HTTPS URL'')
      | Some u \<Rightarrow>
         (if (UScheme u \<noteq> ''http'' \<and> UScheme u \<noteq> ''https'') \<or> UHost u = []
            then Inl (Msg ''endpoint must be an absolute HTTP or HTTPS URL'')
          else if UUser u \<or> UQuery u \<noteq> [] \<or> UFragment u \<noteq> []
            then Inl (Msg ''endpoint cannot contain credentials, a query, or a fragment'')
          else if trim_right_slash (UPath u) \<noteq> [] then Inl (Msg ''endpoint cannot contain a path'')
          else Inr (trim_right_slash (TextWithPath u []))))"

definition validate_config :: "url_parser \<Rightarrow> config \<Rightarrow> config result" where
  "validate_config parse c =
     bind_result (validate_host_ref (ConfHost c)) (\<lambda>_.
     bind_result (validate_endpoint parse (ConfEndpoint c)) (\<lambda>endpoint.
       (if \<not> is_abs (StateDirectory c) then Inl (Msg ''stateDirectory must be an absolute path'')
        else if length (ConfFilesystems c) > 63 then Inl (Msg ''filesystems cannot exceed 63 additional mounts'')
        else bind_result (check_mounts [StateDirectory c] (ConfFilesystems c)) (\<lambda>_.
          (if length (SmartDevices c) > 64 then Inl (Msg ''smartDevices cannot exceed 64 entries'')
           else bind_result (check_devices [] (SmartDevices c)) (\<lambda>_.
             bind_result (validate_containers parse (ConfContainers c)) (\<lambda>containers.
               Inr (c\<lparr>ConfEndpoint := endpoint, ConfContainers := containers\<rparr>))))))))"

definition load_config :: "url_parser \<Rightarrow> string \<Rightarrow> disk \<Rightarrow> config result \<times> disk" where
  "load_config parse path d =
     (case read_file path d of
        (Inl e, d') \<Rightarrow> (Inl (Msg ''read configuration''), d')
      | (Inr body, d') \<Rightarrow>
         ((case Option.bind (first_value body) decode_config of
             None \<Rightarrow> Inl (Msg ''decode configuration'')
           | Some c \<Rightarrow> validate_config parse c), d'))"

section \<open>What an accepted configuration satisfies\<close>

lemma check_mounts_ok:
  "check_mounts seen ms = Inr () \<Longrightarrow>
   (\<forall>m \<in> set ms. is_abs m \<and> clean_path m = m \<and> length m \<le> 4096 \<and> m \<noteq> ''/'' \<and> m \<notin> set seen) \<and> distinct ms"
proof (induction seen ms rule: check_mounts.induct)
  case (2 seen mount rest)
  from "2.prems" have ok: "is_abs mount" "clean_path mount = mount" "length mount \<le> 4096" "mount \<notin> set seen" "mount \<noteq> ''/''"
    "check_mounts (mount # seen) rest = Inr ()" by (simp_all add: not_less split: if_split_asm)
  have "\<not> (\<not> is_abs mount \<or> clean_path mount \<noteq> mount \<or> 4096 < length (clean_path mount))"
    "\<not> (clean_path mount \<in> set seen \<or> clean_path mount = ''/'')" using ok by auto
  from "2.IH" [OF this] ok show ?case by auto
qed simp

lemma check_devices_ok:
  "check_devices seen ds = Inr () \<Longrightarrow>
   (\<forall>x \<in> set ds. clean_path x = x \<and> has_prefix x ''/dev/'' \<and> length x \<le> 255 \<and> x \<notin> set seen) \<and> distinct ds"
proof (induction seen ds rule: check_devices.induct)
  case (2 seen device rest)
  from "2.prems" have ok: "clean_path device = device" "has_prefix device ''/dev/''" "length device \<le> 255" "device \<notin> set seen"
    "check_devices (device # seen) rest = Inr ()" by (simp_all add: not_less split: if_split_asm)
  have "\<not> (\<not> is_abs device \<or> clean_path device \<noteq> device \<or> \<not> has_prefix (clean_path device) ''/dev/'' \<or>
      255 < length (clean_path device))" "clean_path device \<notin> set seen" using ok by (auto simp: is_abs_def has_prefix_iff)
  from "2.IH" [OF this] ok show ?case by auto
qed simp

lemma validate_configD:
  assumes "validate_config parse c = Inr c'"
  obtains e k where "validate_endpoint parse (ConfEndpoint c) = Inr e"
    and "validate_containers parse (ConfContainers c) = Inr k"
    and "c' = c\<lparr>ConfEndpoint := e, ConfContainers := k\<rparr>" and "validate_host_ref (ConfHost c) = Inr ()"
    and "is_abs (StateDirectory c)" and "length (ConfFilesystems c) \<le> 63" and "length (SmartDevices c) \<le> 64"
    and "check_mounts [StateDirectory c] (ConfFilesystems c) = Inr ()" and "check_devices [] (SmartDevices c) = Inr ()"
  using assms unfolding validate_config_def bind_result_Inr_iff by (auto simp: bind_result_Inr_iff not_less split: if_splits)

text \<open>A bare URL: what is left of it is scheme and host.\<close>

definition bare_url :: "url_parts \<Rightarrow> bool" where
  "bare_url u \<longleftrightarrow> UHost u \<noteq> [] \<and> \<not> UUser u \<and> UQuery u = [] \<and> UFragment u = [] \<and> set (UPath u) \<subseteq> {CHR ''/''}"

lemma trim_right_slash_Nil: "trim_right_slash p = [] \<Longrightarrow> set p \<subseteq> {CHR ''/''}"
  by (auto simp: trim_right_slash_def dropWhile_eq_Nil_conv)

lemma validate_endpoint_Inr:
  assumes "validate_endpoint parse e = Inr e'"
  shows "\<exists>u. parse e = Some u \<and> (UScheme u = ''http'' \<or> UScheme u = ''https'') \<and> bare_url u \<and>
    e' = trim_right_slash (TextWithPath u [])"
  using assms trim_right_slash_Nil by (auto simp: validate_endpoint_def bare_url_def split: option.splits if_split_asm)

lemma validate_proxy_Inr:
  assumes "validate_proxy parse c = Inr k"
  shows "\<exists>u. parse (CEndpoint c) = Some u \<and> UScheme u = ''http'' \<and> bare_url u \<and>
    UHostname u \<in> {''localhost'', ''127.0.0.1'', ''::1''} \<and> k = c\<lparr>CEndpoint := trim_right_slash (TextWithPath u (UPath u))\<rparr>"
  using assms trim_right_slash_Nil by (auto simp: validate_proxy_def bare_url_def split: option.splits if_split_asm)

lemma user_socket_text:
  assumes "user_socket p"
  shows "\<exists>uid n. parse_uint 32 uid = Some n \<and> p = ''/run/user/'' @ uid @ ''/podman/podman.sock''"
proof -
  define rest where "rest = trim_prefix p ''/run/user/''"
  have again: "has_prefix p x \<Longrightarrow> p = x @ trim_prefix p x" for x
    by (auto simp: has_prefix_iff)
  have p: "p = ''/run/user/'' @ rest"
    unfolding rest_def using assms by (intro again) (simp only: user_socket_def)
  obtain uid where s: "split_on (CHR ''/'') rest = [uid, ''podman'', ''podman.sock'']" and n: "parse_uint 32 uid \<noteq> None"
    using assms by (auto simp: user_socket_def rest_def [symmetric] split: list.splits)
  have "rest = uid @ ''/podman/podman.sock''" using join_split_on [of "CHR ''/''" rest] by (simp add: s)
  with p n show ?thesis by auto
qed

text \<open>Where an accepted configuration reads containers from, against the endpoint that was given.\<close>

definition confined_containers :: "url_parser \<Rightarrow> string \<Rightarrow> containers_config \<Rightarrow> bool" where
  "confined_containers parse given k \<longleftrightarrow>
     CMode k = ''disabled'' \<and> CEndpoint k = [] \<or>
     CMode k = ''proxy'' \<and> (\<exists>u. parse given = Some u \<and> UScheme u = ''http'' \<and> bare_url u \<and>
        UHostname u \<in> {''localhost'', ''127.0.0.1'', ''::1''} \<and> CEndpoint k = trim_right_slash (TextWithPath u (UPath u))) \<or>
     CMode k = ''socket'' \<and> CEndpoint k = given \<and>
        (given \<in> {''/var/run/docker.sock'', ''/run/docker.sock'', ''/run/podman/podman.sock''} \<or>
         CRuntime k = ''podman'' \<and> (\<exists>uid n. parse_uint 32 uid = Some n \<and> given = ''/run/user/'' @ uid @ ''/podman/podman.sock''))"

lemma validate_containers_Inr:
  assumes "validate_containers parse c = Inr k"
  shows "confined_containers parse (CEndpoint c) k \<and> (CRuntime k = ''docker'' \<or> CRuntime k = ''podman'')"
proof -
  let ?d = "default_containers c"
  have d: "CEndpoint ?d = CEndpoint c" by (simp add: default_containers_def)
  have m: "CMode ?d \<in> set [''disabled'', ''proxy'', ''socket'']" "CRuntime ?d = ''docker'' \<or> CRuntime ?d = ''podman''"
    using assms by (auto simp: validate_containers_def Let_def split: if_split_asm)
  then consider "CMode ?d = ''disabled''" | "CMode ?d = ''proxy''" | "CMode ?d = ''socket''" by auto
  then show ?thesis
  proof cases
    case 1
    with assms m d show ?thesis by (auto simp: validate_containers_def Let_def confined_containers_def split: if_split_asm)
  next
    case 2
    with assms m have "validate_proxy parse ?d = Inr k" by (auto simp: validate_containers_def Let_def split: if_split_asm)
    from validate_proxy_Inr [OF this] 2 m d show ?thesis by (auto simp: confined_containers_def)
  next
    case 3
    with assms m have k: "k = ?d" "allowed_socket (CRuntime ?d) (CEndpoint ?d)"
      by (auto simp: validate_containers_def Let_def split: if_split_asm)
    with 3 m d user_socket_text [of "CEndpoint c"] show ?thesis
      by (auto simp: confined_containers_def allowed_socket_def socket_paths_def)
  qed
qed

text \<open>
  C36: an accepted configuration: the endpoint that was given is an HTTP or HTTPS URL with a host and without
  credentials, query, fragment or path, and the one in force is its text without trailing slashes; the host
  is of a known type with a positive safe id, the state directory absolute; there are at most 63 extra mounts
  and 64 devices, all of them distinct, absolute, in normal form and of bounded length, no mount being the
  root or the state directory and every device below \<open>/dev\<close>; containers are read from nowhere, over HTTP from
  a loopback host, or from one of the known sockets of docker or podman. Nothing else is changed.
\<close>

theorem accepted_config_is_safe:
  assumes "validate_config parse c = Inr c'"
  shows "(\<exists>u. parse (ConfEndpoint c) = Some u \<and> (UScheme u = ''http'' \<or> UScheme u = ''https'') \<and> bare_url u \<and>
      ConfEndpoint c' = trim_right_slash (TextWithPath u [])) \<and>
    HostType (ConfHost c') \<in> {''server'', ''nas'', ''pcBuild''} \<and> 0 < HostID (ConfHost c') \<and> HostID (ConfHost c') \<le> max_safe_id \<and>
    is_abs (StateDirectory c') \<and> length (ConfFilesystems c') \<le> 63 \<and> distinct (ConfFilesystems c') \<and>
    (\<forall>m \<in> set (ConfFilesystems c'). is_abs m \<and> clean_path m = m \<and> length m \<le> 4096 \<and> m \<noteq> ''/'' \<and> m \<noteq> StateDirectory c') \<and>
    length (SmartDevices c') \<le> 64 \<and> distinct (SmartDevices c') \<and>
    (\<forall>x \<in> set (SmartDevices c'). clean_path x = x \<and> has_prefix x ''/dev/'' \<and> length x \<le> 255) \<and>
    confined_containers parse (CEndpoint (ConfContainers c)) (ConfContainers c') \<and>
    CRuntime (ConfContainers c') \<in> {''docker'', ''podman''} \<and>
    c' = c\<lparr>ConfEndpoint := ConfEndpoint c', ConfContainers := ConfContainers c'\<rparr>"
proof (rule validate_configD [OF assms])
  fix e k
  assume a: "validate_endpoint parse (ConfEndpoint c) = Inr e" "validate_containers parse (ConfContainers c) = Inr k"
    "c' = c\<lparr>ConfEndpoint := e, ConfContainers := k\<rparr>"
    "validate_host_ref (ConfHost c) = Inr ()" "is_abs (StateDirectory c)" "length (ConfFilesystems c) \<le> 63"
    "length (SmartDevices c) \<le> 64" "check_mounts [StateDirectory c] (ConfFilesystems c) = Inr ()"
    "check_devices [] (SmartDevices c) = Inr ()"
  have h: "HostType (ConfHost c) \<in> {''server'', ''nas'', ''pcBuild''} \<and> 0 < HostID (ConfHost c) \<and> HostID (ConfHost c) \<le> max_safe_id"
    using a(4) by (auto simp: validate_host_ref_def checks_ok not_less word_gt_0)
  from a(3,5-7) h validate_endpoint_Inr [OF a(1)] validate_containers_Inr [OF a(2)] check_mounts_ok [OF a(8)] check_devices_ok [OF a(9)]
  show ?thesis by auto
qed

section \<open>Validating twice\<close>

text \<open>
  What the code relies on in \<open>net/url\<close>: the text of a plain URL without its path parses to the same
  scheme and host and an empty path, and a path of slashes only adds slashes at the end.
\<close>

definition url_stable :: "url_parser \<Rightarrow> bool" where
  "url_stable parse \<longleftrightarrow> (\<forall>s u. parse s = Some u \<and> UHost u \<noteq> [] \<and> \<not> UUser u \<and> UQuery u = [] \<and> UFragment u = [] \<and>
       trim_right_slash (UPath u) = [] \<longrightarrow>
     trim_right_slash (TextWithPath u (UPath u)) = trim_right_slash (TextWithPath u []) \<and>
     (\<exists>v. parse (trim_right_slash (TextWithPath u [])) = Some v \<and> UScheme v = UScheme u \<and> UHost v = UHost u \<and>
       UHostname v = UHostname u \<and> \<not> UUser v \<and> UQuery v = [] \<and> UFragment v = [] \<and> UPath v = [] \<and>
       trim_right_slash (TextWithPath v []) = trim_right_slash (TextWithPath u [])))"

lemma trim_nothing [simp]: "trim_right_slash [] = []"
  by (simp add: trim_right_slash_def)

lemma validate_endpoint_again:
  assumes "url_stable parse" and "validate_endpoint parse e = Inr e'"
  shows "validate_endpoint parse e' = Inr e'"
proof -
  obtain u where u: "parse e = Some u" "UScheme u = ''http'' \<or> UScheme u = ''https''" "UHost u \<noteq> []" "\<not> UUser u"
    "UQuery u = []" "UFragment u = []" "trim_right_slash (UPath u) = []" "e' = trim_right_slash (TextWithPath u [])"
    using assms(2) by (auto simp: validate_endpoint_def split: option.splits if_split_asm)
  then obtain v where "parse e' = Some v" "UScheme v = UScheme u" "UHost v = UHost u" "\<not> UUser v" "UQuery v = []"
    "UFragment v = []" "UPath v = []" "trim_right_slash (TextWithPath v []) = e'"
    using assms(1) unfolding url_stable_def by metis
  then show ?thesis using u(2,3) by (auto simp: validate_endpoint_def)
qed

lemma validate_proxy_again:
  assumes "url_stable parse" and "validate_proxy parse c = Inr c'"
  shows "validate_proxy parse c' = Inr c'"
proof -
  obtain u where u: "parse (CEndpoint c) = Some u" "UScheme u = ''http''" "UHost u \<noteq> []" "\<not> UUser u"
    "UQuery u = []" "UFragment u = []" "UHostname u \<in> set [''localhost'', ''127.0.0.1'', ''::1'']"
    "trim_right_slash (UPath u) = []" "c' = c\<lparr>CEndpoint := trim_right_slash (TextWithPath u (UPath u))\<rparr>"
    using assms(2) by (auto simp: validate_proxy_def split: option.splits if_split_asm)
  have eq: "trim_right_slash (TextWithPath u (UPath u)) = trim_right_slash (TextWithPath u [])"
    and ex: "\<exists>v. parse (trim_right_slash (TextWithPath u [])) = Some v \<and> UScheme v = UScheme u \<and> UHost v = UHost u \<and>
       UHostname v = UHostname u \<and> \<not> UUser v \<and> UQuery v = [] \<and> UFragment v = [] \<and> UPath v = [] \<and>
       trim_right_slash (TextWithPath v []) = trim_right_slash (TextWithPath u [])"
    using assms(1) u(1,3,4,5,6,8) unfolding url_stable_def by blast+
  then obtain v where "parse (CEndpoint c') = Some v" "UScheme v = UScheme u" "UHost v = UHost u"
    "UHostname v = UHostname u" "\<not> UUser v" "UQuery v = []" "UFragment v = []" "UPath v = []"
    "trim_right_slash (TextWithPath v []) = CEndpoint c'" using u(9) by auto
  then show ?thesis using u(2,3,7) unfolding validate_proxy_def by simp
qed

lemma validate_containers_again:
  assumes "url_stable parse" and "validate_containers parse c = Inr c'"
  shows "validate_containers parse c' = Inr c'"
proof -
  let ?d = "default_containers c"
  have d: "default_containers x = x" if "CMode x \<noteq> []" "CRuntime x \<noteq> []" for x
    using that by (simp add: default_containers_def)
  have ne: "CMode ?d \<noteq> []" "CRuntime ?d \<noteq> []" by (simp_all add: default_containers_def)
  show ?thesis
  proof (cases "CMode ?d = ''proxy''")
    case True
    then have p: "validate_proxy parse ?d = Inr c'" "CRuntime ?d = ''docker'' \<or> CRuntime ?d = ''podman''"
      using assms(2) by (auto simp: validate_containers_def Let_def split: if_split_asm)
    then have f: "CMode c' = ''proxy''" "CRuntime c' = CRuntime ?d" using True
      by (auto simp: validate_proxy_def split: option.splits if_split_asm)
    have "default_containers c' = c'" using d [of c'] f ne by simp
    then show ?thesis using validate_proxy_again [OF assms(1) p(1)] f p(2) by (auto simp: validate_containers_def Let_def)
  next
    case False
    then have "c' = ?d" using assms(2) by (auto simp: validate_containers_def Let_def split: if_split_asm)
    then show ?thesis using assms(2) d [of ?d] ne by (simp add: validate_containers_def Let_def)
  qed
qed

text \<open>
  Validation normalises once: the value it returns validates again, unchanged, as when the
  agent's constructor validates the loaded configuration a second time.
\<close>

theorem validation_is_stable:
  assumes "url_stable parse" and "validate_config parse c = Inr c'"
  shows "validate_config parse c' = Inr c'"
proof (rule validate_configD [OF assms(2)])
  fix e k
  assume a: "validate_endpoint parse (ConfEndpoint c) = Inr e" "validate_containers parse (ConfContainers c) = Inr k"
    and c': "c' = c\<lparr>ConfEndpoint := e, ConfContainers := k\<rparr>" and b: "validate_host_ref (ConfHost c) = Inr ()"
    "is_abs (StateDirectory c)" "length (ConfFilesystems c) \<le> 63" "length (SmartDevices c) \<le> 64"
    "check_mounts [StateDirectory c] (ConfFilesystems c) = Inr ()" "check_devices [] (SmartDevices c) = Inr ()"
  show ?thesis
    using b validate_endpoint_again [OF assms(1) a(1)] validate_containers_again [OF assms(1) a(2)]
    by (simp add: validate_config_def c')
qed

definition plain_url :: "string \<Rightarrow> url_parts option" where
  "plain_url s = (if has_prefix s ''http://'' then
     (let host = takeWhile (\<lambda>c. c \<noteq> CHR ''/'') (drop 7 s) in
      Some \<lparr>UScheme = ''http'', UHost = host, UHostname = host, UUser = False, UQuery = [], UFragment = [],
        UPath = dropWhile (\<lambda>c. c \<noteq> CHR ''/'') (drop 7 s), TextWithPath = (\<lambda>p. ''http://'' @ host @ p)\<rparr>)
     else None)"

lemma trim_slash_append: "trim_right_slash p = [] \<Longrightarrow> trim_right_slash (s @ p) = trim_right_slash s"
  by (simp add: trim_right_slash_def) (simp add: dropWhile_append)

lemma trim_slash_keep: "s \<noteq> [] \<Longrightarrow> CHR ''/'' \<notin> set s \<Longrightarrow> trim_right_slash (t @ s) = t @ s"
  by (cases s rule: rev_cases) (auto simp: trim_right_slash_def)

lemma plain_url_stable: "url_stable plain_url"
proof (unfold url_stable_def, intro allI impI, elim conjE, rule conjI)
  fix s u
  assume u: "plain_url s = Some u" "UHost u \<noteq> []" "trim_right_slash (UPath u) = []"
  have nos: "CHR ''/'' \<notin> set (takeWhile (\<lambda>c. c \<noteq> CHR ''/'') x)" for x by (auto dest: set_takeWhileD)
  obtain h where h: "u = \<lparr>UScheme = ''http'', UHost = h, UHostname = h, UUser = False, UQuery = [], UFragment = [],
      UPath = UPath u, TextWithPath = (\<lambda>p. ''http://'' @ h @ p)\<rparr>" "CHR ''/'' \<notin> set h" "h \<noteq> []"
    using u nos [of "drop 7 s"] by (auto simp: plain_url_def Let_def split: if_split_asm)
  have txt': "TextWithPath u p = (''http://'' @ h) @ p" for p by (subst h(1)) simp
  show "trim_right_slash (TextWithPath u (UPath u)) = trim_right_slash (TextWithPath u [])"
    using trim_slash_append [OF u(3), of "''http://'' @ h"] by (simp only: txt' append_Nil2)
  have t: "trim_right_slash (TextWithPath u []) = ''http://'' @ h"
    using trim_slash_keep [OF h(3,2), of "''http://''"] by (simp only: txt' append_Nil2)
  have tw: "takeWhile (\<lambda>c. c \<noteq> CHR ''/'') h = h" "dropWhile (\<lambda>c. c \<noteq> CHR ''/'') h = []" using h(2) by auto
  have p: "plain_url (''http://'' @ h) = Some (u\<lparr>UPath := []\<rparr>)"
    by (subst h(1)) (simp add: plain_url_def Let_def tw has_prefix_def)
  have q: "UQuery u = []" "UFragment u = []" "\<not> UUser u" by (subst h(1), simp)+
  show "\<exists>v. plain_url (trim_right_slash (TextWithPath u [])) = Some v \<and> UScheme v = UScheme u \<and> UHost v = UHost u \<and>
       UHostname v = UHostname u \<and> \<not> UUser v \<and> UQuery v = [] \<and> UFragment v = [] \<and> UPath v = [] \<and>
       trim_right_slash (TextWithPath v []) = trim_right_slash (TextWithPath u [])"
    unfolding t using p t q by (intro exI [of _ "u\<lparr>UPath := []\<rparr>"]) simp
qed

definition sample_config :: config where
  "sample_config = \<lparr>ConfEndpoint = ''http://hub/'', ConfHost = \<lparr>HostType = ''server'', HostID = 1\<rparr>,
     StateDirectory = ''/var/lib/agent'', ConfFilesystems = [''/srv''], SmartDevices = [''/dev/sda''],
     ConfContainers = zero_containers\<rparr>"

lemma sample_config_valid: "\<exists>c. validate_config plain_url sample_config = Inr c"
proof -
  have "check_mounts [''/var/lib/agent''] [''/srv''] = Inr ()" "check_devices [] [''/dev/sda''] = Inr ()"
    "validate_containers plain_url zero_containers = Inr (default_containers zero_containers)"
    "validate_endpoint plain_url ''http://hub/'' = Inr ''http://hub''"
    "validate_host_ref \<lparr>HostType = ''server'', HostID = 1\<rparr> = Inr ()" "is_abs ''/var/lib/agent''"
    by code_simp+
  then show ?thesis by (simp add: validate_config_def sample_config_def)
qed

lemma validation_is_stable_witness:
  "\<exists>c. validate_config plain_url sample_config = Inr c \<and> validate_config plain_url c = Inr c"
  using sample_config_valid validation_is_stable [OF plain_url_stable] by blast

lemma accepted_config_is_safe_witness:
  "\<exists>c u. validate_config plain_url sample_config = Inr c \<and> plain_url ''http://hub/'' = Some u \<and> bare_url u \<and>
     ConfEndpoint c = trim_right_slash (TextWithPath u [])"
proof -
  obtain c where c: "validate_config plain_url sample_config = Inr c" using sample_config_valid by blast
  have "ConfEndpoint sample_config = ''http://hub/''" by (simp add: sample_config_def)
  with c accepted_config_is_safe [OF c] show ?thesis by auto
qed

text \<open>The state directory is compared as written: the same directory with a slash at the end passes as a mount.\<close>

lemma unclean_state_directory_passes: "check_mounts [''/var/lib/agent/''] [''/var/lib/agent''] = Inr ()"
  by code_simp

end
