(* ===== verification/Heartbeat_Queue.thy ===== *)
theory Heartbeat_Queue
  imports State_File
begin

text \<open>
  The offline heartbeat buffer, \<open>internal/buffer/queue.go\<close>: one file per unsent heartbeat,
  named after its sequence number, and a metadata file that counts the heartbeats dropped to
  stay within the limits. Operations take the directory (with its faults) and return it with
  their result; the mutex serialises them, so each runs to its end.
\<close>

section \<open>Data\<close>

record limits =
  Samples :: int
  Bytes :: int

record entry =
  Sequence :: u64
  Body :: bytes

record queue =
  directory :: disk
  queue_limits :: limits

section \<open>File names\<close>

definition entry_suffix :: string where "entry_suffix = ''.heartbeat.gz''"
definition metadata_name :: string where "metadata_name = ''metadata.json''"
definition queue_temp :: string where "queue_temp = ''.queue-''"

definition entry_path :: "u64 \<Rightarrow> string" where
  "entry_path sequence = pad_zeros 20 (show_u64 sequence) @ entry_suffix"

definition parse_sequence :: "string \<Rightarrow> u64 option" where
  "parse_sequence name =
     (if \<not> has_suffix name entry_suffix then None
      else (case parse_u64 (trim_suffix name entry_suffix) of
         None \<Rightarrow> None | Some s \<Rightarrow> if s = 0 then None else Some s))"

section \<open>The metadata document\<close>

definition encode_metadata :: "u64 \<Rightarrow> bytes" where
  "encode_metadata dropped = json_text (JObj [(''dropped'', JNum (show_u64 dropped))]) @ newline"

definition decode_metadata :: "bytes \<Rightarrow> u64 option" where
  "decode_metadata b = Option.bind (top_members b) (u64_field ''dropped'')"

definition bad_metadata :: error where "bad_metadata = Msg ''buffer metadata is invalid''"

definition read_metadata :: "disk \<Rightarrow> u64 result \<times> disk" where
  "read_metadata = load_document decode_metadata 0 bad_metadata metadata_name"

definition write_metadata :: "u64 \<Rightarrow> disk \<Rightarrow> unit result \<times> disk" where
  "write_metadata dropped = atomic_write queue_temp metadata_name (encode_metadata dropped) mode_600"

section \<open>Listing the entries\<close>

definition skipped_name :: "string \<Rightarrow> bool" where
  "skipped_name name \<longleftrightarrow> name = metadata_name \<or> has_prefix name queue_temp"

fun collect_entries :: "(string \<times> node) list \<Rightarrow> disk \<Rightarrow> entry list result \<times> disk" where
  "collect_entries [] d = (Inr [], d)"
| "collect_entries ((name, item) # items) d =
     (if item = Directory then collect_entries items d
      else case parse_sequence name of
        None \<Rightarrow> (if skipped_name name then collect_entries items d
                 else (Inl (Msg ''unsupported buffer file''), d))
      | Some s \<Rightarrow>
          bind_io (read_file name) (\<lambda>b.
          bind_io (collect_entries items) (\<lambda>rest.
          return_io (\<lparr>Sequence = s, Body = b\<rparr> # rest))) d)"

definition entries_locked :: "disk \<Rightarrow> entry list result \<times> disk" where
  "entries_locked = bind_io read_dir (\<lambda>items.
     bind_io (collect_entries items) (\<lambda>es. return_io (sort_key Sequence es)))"

section \<open>Enforcing the limits\<close>

definition total_bytes :: "entry list \<Rightarrow> int" where
  "total_bytes es = (\<Sum>e\<leftarrow>es. int (length (Body e)))"

definition over_limit :: "limits \<Rightarrow> nat \<Rightarrow> int \<Rightarrow> bool" where
  "over_limit l n tot \<longleftrightarrow> int n > Samples l \<or> tot > Bytes l"

text \<open>
  The loop that removes the oldest entry while a limit is exceeded; it returns how many it
  removed, and the error of the removal that failed. Indexing an empty slice would panic: the
  last equation is that panic, which no positive limits reach.
\<close>

fun drop_oldest :: "limits \<Rightarrow> entry list \<Rightarrow> int \<Rightarrow> u64 \<Rightarrow> disk \<Rightarrow> (u64 \<times> error option) \<times> disk" where
  "drop_oldest l (oldest # rest) tot dropped d =
     (if over_limit l (length (oldest # rest)) tot then
        (case remove_file (entry_path (Sequence oldest)) d of
           (Inl err, d') \<Rightarrow> ((dropped, Some err), d')
         | (Inr _, d') \<Rightarrow> drop_oldest l rest (tot - int (length (Body oldest))) (dropped + 1) d')
      else ((dropped, None), d))"
| "drop_oldest l [] tot dropped d =
     (if over_limit l 0 tot then ((dropped, Some (Msg ''index out of range'')), d)
      else ((dropped, None), d))"

definition count_dropped :: "u64 \<Rightarrow> disk \<Rightarrow> unit result \<times> disk" where
  "count_dropped dropped =
     bind_io read_metadata (\<lambda>meta. write_metadata (meta + dropped))"

definition enforce_limits :: "limits \<Rightarrow> entry list \<Rightarrow> disk \<Rightarrow> (u64 \<times> error option) \<times> disk" where
  "enforce_limits l es d =
     (case drop_oldest l es (total_bytes es) 0 d of
        ((dropped, Some err), d') \<Rightarrow> ((dropped, Some err), d')
      | ((dropped, None), d') \<Rightarrow>
          (if dropped > 0 then
             (case count_dropped dropped d' of
                (Inl err, d'') \<Rightarrow> ((dropped, Some err), d'')
              | (Inr _, d'') \<Rightarrow> ((dropped, None), d''))
           else ((dropped, None), d')))"

section \<open>The operations\<close>

definition positive_limits :: "limits \<Rightarrow> bool" where
  "positive_limits l \<longleftrightarrow> \<not> (Samples l < 1 \<or> Bytes l < 1)"

text \<open>\<open>Open\<close>: the limits are checked, the directory made and its mode set, the files listed once.\<close>

definition open_queue :: "disk \<Rightarrow> limits \<Rightarrow> queue result \<times> disk" where
  "open_queue d l =
     (if \<not> positive_limits l then (Inl (Msg ''buffer limits must be positive''), d)
      else (case bind_io make_directory (\<lambda>_. bind_io chmod_directory (\<lambda>_. entries_locked)) d of
         (Inl e, d') \<Rightarrow> (Inl e, d')
       | (Inr _, d') \<Rightarrow> (Inr \<lparr>directory = d', queue_limits = l\<rparr>, d')))"

definition lift_disk :: "(disk \<Rightarrow> 'r \<times> disk) \<Rightarrow> queue \<Rightarrow> 'r \<times> queue" where
  "lift_disk f q = (case f (directory q) of (r, d) \<Rightarrow> (r, q\<lparr>directory := d\<rparr>))"

definition add_locked :: "limits \<Rightarrow> entry \<Rightarrow> disk \<Rightarrow> (u64 \<times> error option) \<times> disk" where
  "add_locked l e d =
     (case stat_file (entry_path (Sequence e)) d of
        (Inr _, d1) \<Rightarrow> ((0, Some (Msg ''buffer sequence already exists'')), d1)
      | (Inl err, d1) \<Rightarrow>
          (if err \<noteq> NotExist then ((0, Some err), d1)
           else (case atomic_write queue_temp (entry_path (Sequence e)) (Body e) mode_600 d1 of
              (Inl err, d2) \<Rightarrow> ((0, Some err), d2)
            | (Inr _, d2) \<Rightarrow>
                (case entries_locked d2 of
                   (Inl err, d3) \<Rightarrow> ((0, Some err), d3)
                 | (Inr es, d3) \<Rightarrow> enforce_limits l es d3))))"

definition add :: "entry \<Rightarrow> queue \<Rightarrow> (u64 \<times> error option) \<times> queue" where
  "add e q =
     (if Sequence e = 0 \<or> Body e = [] then ((0, Some (Msg ''buffer entry is invalid'')), q)
      else if int (length (Body e)) > Bytes (queue_limits q)
        then ((0, Some (Msg ''buffer entry exceeds the byte limit'')), q)
      else lift_disk (add_locked (queue_limits q) e) q)"

definition set_limits :: "limits \<Rightarrow> queue \<Rightarrow> (u64 \<times> error option) \<times> queue" where
  "set_limits l q =
     (if \<not> positive_limits l then ((0, Some (Msg ''buffer limits must be positive'')), q)
      else lift_disk (\<lambda>d. (case entries_locked d of
              (Inl err, d') \<Rightarrow> ((0, Some err), d')
            | (Inr es, d') \<Rightarrow> enforce_limits l es d')) (q\<lparr>queue_limits := l\<rparr>))"

definition entries :: "queue \<Rightarrow> entry list result \<times> queue" where
  "entries = lift_disk entries_locked"

definition remove_locked :: "u64 \<Rightarrow> disk \<Rightarrow> unit result \<times> disk" where
  "remove_locked s d = (case remove_file (entry_path s) d of
     (Inl err, d') \<Rightarrow> (if err \<noteq> NotExist then (Inl err, d') else (Inr (), d'))
   | (Inr _, d') \<Rightarrow> (Inr (), d'))"

definition remove :: "u64 \<Rightarrow> queue \<Rightarrow> unit result \<times> queue" where
  "remove s = lift_disk (remove_locked s)"

definition dropped :: "queue \<Rightarrow> u64 result \<times> queue" where
  "dropped = lift_disk read_metadata"

definition clear_dropped :: "queue \<Rightarrow> unit result \<times> queue" where
  "clear_dropped = lift_disk (write_metadata 0)"

definition acknowledged :: "u64 \<Rightarrow> u64 \<Rightarrow> u64" where
  "acknowledged n value = (if n \<ge> value then 0 else value - n)"

definition acknowledge_dropped :: "u64 \<Rightarrow> queue \<Rightarrow> unit result \<times> queue" where
  "acknowledge_dropped n q =
     (if n = 0 then (Inr (), q)
      else lift_disk (bind_io read_metadata (\<lambda>value. write_metadata (acknowledged n value))) q)"

section \<open>Names and entries correspond\<close>

lemma parse_sequence_entry_path: "s \<noteq> 0 \<Longrightarrow> parse_sequence (entry_path s) = Some s"
  by (simp add: parse_sequence_def entry_path_def)

lemma entry_path_inj: "entry_path s = entry_path t \<longleftrightarrow> s = t"
proof
  assume "entry_path s = entry_path t"
  then have "pad_zeros 20 (show_u64 s) = pad_zeros 20 (show_u64 t)" by (simp add: entry_path_def)
  then have "parse_u64 (pad_zeros 20 (show_u64 s)) = parse_u64 (pad_zeros 20 (show_u64 t))" by (rule arg_cong)
  then show "s = t" by simp
qed simp

lemma hd_pad_show: "is_digit (hd (pad_zeros k (show_u64 s)))"
  by (cases "k - length (show_u64 s)")
    (auto simp: pad_zeros_def show_u64_def is_digit_def dest: show_nat_digits intro: show_nat_cases [of "unat s"])

lemma entry_path_not_temp: "\<not> has_prefix (entry_path s) queue_temp"
proof
  assume "has_prefix (entry_path s) queue_temp"
  moreover have "pad_zeros 20 (show_u64 s) \<noteq> []" by (simp add: show_u64_def)
  ultimately have "hd (pad_zeros 20 (show_u64 s)) = CHR ''.''"
    by (cases "pad_zeros 20 (show_u64 s)") (auto simp: entry_path_def has_prefix_def queue_temp_def)
  with hd_pad_show [of 20 s] show False by (simp add: is_digit_def)
qed

lemma entry_path_not_metadata: "entry_path s \<noteq> metadata_name"
proof
  assume a: "entry_path s = metadata_name"
  have "last (entry_path s) = CHR ''z''" by (simp add: entry_path_def entry_suffix_def)
  with a show False by (simp add: metadata_name_def)
qed

lemma metadata_not_temp: "\<not> has_prefix metadata_name queue_temp"
  by (simp add: has_prefix_def metadata_name_def queue_temp_def)

lemma parse_sequence_metadata: "parse_sequence metadata_name = None"
  by (simp add: parse_sequence_def has_suffix_def metadata_name_def entry_suffix_def)

lemma parse_sequence_temp: "has_prefix n queue_temp \<Longrightarrow> parse_sequence n = None"
proof -
  assume "has_prefix n queue_temp"
  then obtain t where n: "n = CHR ''.'' # CHR ''q'' # t" by (auto simp: has_prefix_iff queue_temp_def)
  show ?thesis
  proof (cases "has_suffix n entry_suffix")
    case True
    then obtain u where u: "n = u @ entry_suffix" by (auto simp: has_suffix_iff)
    with n have "u = [] \<or> hd u = CHR ''.''" by (cases u) auto
    then have "parse_u64 u = None"
      by (cases u) (auto simp: parse_u64_def parse_uint_def is_digit_def)
    with u show ?thesis by (simp add: parse_sequence_def)
  qed (simp add: parse_sequence_def)
qed

lemmas entry_names [simp] = entry_path_inj entry_path_not_temp entry_path_not_metadata
  entry_path_not_metadata [symmetric] metadata_not_temp parse_sequence_metadata

lemma decode_encode_metadata: "decode_metadata (encode_metadata w) = Some w"
proof -
  have "natural_json (JObj [(''dropped'', JNum (show_u64 w))])" by (auto simp: show_u64_def)
  from parse_json_text [OF this] show ?thesis
    by (simp add: decode_metadata_def encode_metadata_def top_members_def u64_field_def member_values_def
        equal_fold_def)
qed

interpretation metadata: document "\<lambda>_. True" encode_metadata decode_metadata queue_temp metadata_name
  by unfold_locales (simp_all add: decode_encode_metadata)

end
