(* ===== verification/Agent_Identity.thy ===== *)
theory Agent_Identity
  imports State_File Go_Base64
begin

text \<open>
  The device identity, \<open>internal/identity/identity.go\<close>: the Ed25519 key, the device id the hub
  assigned and the heartbeat sequence number, kept in memory and in a file of mode 0600 that is
  replaced atomically. The mutex serialises the methods, so each runs to its end. Key
  generation is outside the model: \<open>LoadOrCreate\<close> takes its result as an argument.
\<close>

unbundle bit_operations_syntax

section \<open>Data\<close>

record identity =
  privateKey :: bytes
  deviceID :: u64
  sequence :: u64

definition identity_name :: string where "identity_name = ''identity.json''"
definition identity_temp :: string where "identity_temp = ''.identity-''"
definition max_safe :: u64 where "max_safe = 2 ^ 53 - 1"
definition key_size :: nat where "key_size = 64"

section \<open>The identity file\<close>

text \<open>\<open>persisted\<close>: \<open>deviceId\<close> is omitted when zero.\<close>

definition encode_identity :: "identity \<Rightarrow> bytes" where
  "encode_identity i = json_text (JObj
     ([(''version'', JNum (show_nat 1)), (''privateKey'', JStr (b64_encode (privateKey i)))]
      @ (if deviceID i = 0 then [] else [(''deviceId'', JNum (show_u64 (deviceID i)))])
      @ [(''sequence'', JNum (show_u64 (sequence i)))])) @ newline"

definition decode_identity :: "bytes \<Rightarrow> identity result" where
  "decode_identity b =
     (case top_members b of
        None \<Rightarrow> Inl (Msg ''decode identity'')
      | Some ms \<Rightarrow>
         (case (int_field ''version'' ms, string_field ''privateKey'' ms,
                u64_field ''deviceId'' ms, u64_field ''sequence'' ms) of
            (Some v, Some k, Some d, Some s) \<Rightarrow>
              (case b64_decode True k of
                 None \<Rightarrow> Inl (Msg ''identity file is invalid'')
               | Some key \<Rightarrow>
                  (if v \<noteq> 1 \<or> length key \<noteq> key_size then Inl (Msg ''identity file is invalid'')
                   else if d > max_safe then Inl (Msg ''identity device id is invalid'')
                   else Inr \<lparr>privateKey = key, deviceID = d, sequence = s\<rparr>))
          | _ \<Rightarrow> Inl (Msg ''decode identity'')))"

definition persist_locked :: "identity \<Rightarrow> disk \<Rightarrow> unit result \<times> disk" where
  "persist_locked i =
     bind_io make_directory (\<lambda>_.
     bind_io (atomic_write identity_temp identity_name (encode_identity i) mode_600) (\<lambda>_.
     chmod_file identity_name mode_600))"

definition private_mode :: "node \<Rightarrow> bool" where
  "private_mode x = (case x of Reg b m \<Rightarrow> m = mode_600 | Directory \<Rightarrow> False)"

definition load_or_create :: "bytes result \<Rightarrow> disk \<Rightarrow> identity result \<times> disk" where
  "load_or_create generated d =
     (case read_file identity_name d of
        (Inl err, d1) \<Rightarrow>
          (if err = NotExist then
             (case generated of
                Inl e \<Rightarrow> (Inl e, d1)
              | Inr key \<Rightarrow>
                 bind_io (persist_locked \<lparr>privateKey = key, deviceID = 0, sequence = 0\<rparr>)
                   (\<lambda>_. return_io \<lparr>privateKey = key, deviceID = 0, sequence = 0\<rparr>) d1)
           else (Inl err, d1))
      | (Inr body, d1) \<Rightarrow>
          (case decode_identity body of
             Inl e \<Rightarrow> (Inl e, d1)
           | Inr i \<Rightarrow>
               (case stat_file identity_name d1 of
                  (Inl e, d2) \<Rightarrow> (Inl (Msg ''identity file permissions must be 0600''), d2)
                | (Inr x, d2) \<Rightarrow>
                    (if private_mode x then (Inr i, d2)
                     else (Inl (Msg ''identity file permissions must be 0600''), d2)))))"

section \<open>The methods\<close>

text \<open>
  The methods take the identity with its directory. \<open>Activate\<close> sets the device id before it
  writes and leaves it set when the write fails; \<open>ReserveSequence\<close> takes its increment back.
\<close>

type_synonym identity_state = "identity \<times> disk"

definition activate :: "u64 \<Rightarrow> identity_state \<Rightarrow> unit result \<times> identity_state" where
  "activate device st = (case st of (i, d) \<Rightarrow>
     (if device = 0 \<or> device > max_safe
        then (Inl (Msg ''device id must be a positive safe integer''), st)
      else if deviceID i \<noteq> 0 \<and> deviceID i \<noteq> device
        then (Inl (Msg ''identity is already bound to another device''), st)
      else (let i' = i\<lparr>deviceID := device\<rparr> in
            case persist_locked i' d of (r, d') \<Rightarrow> (r, (i', d')))))"

definition reserve_sequence :: "identity_state \<Rightarrow> u64 result \<times> identity_state" where
  "reserve_sequence st = (case st of (i, d) \<Rightarrow>
     (if deviceID i = 0 then (Inl (Msg ''identity is not activated''), st)
      else if sequence i = NOT 0 then (Inl (Msg ''identity sequence is exhausted''), st)
      else (let i' = i\<lparr>sequence := sequence i + 1\<rparr> in
            case persist_locked i' d of
              (Inl e, d') \<Rightarrow> (Inl e, (i'\<lparr>sequence := sequence i' - 1\<rparr>, d'))
            | (Inr _, d') \<Rightarrow> (Inr (sequence i'), (i', d')))))"

section \<open>The file round trip\<close>

definition identity_valid :: "identity \<Rightarrow> bool" where
  "identity_valid i \<longleftrightarrow> length (privateKey i) = key_size \<and> deviceID i \<le> max_safe"

lemma decode_encode_identity:
  assumes "identity_valid i"
  shows "decode_identity (encode_identity i) = Inr i"
proof -
  let ?ms = "[(''version'', JNum (show_nat 1)), (''privateKey'', JStr (b64_encode (privateKey i)))]
      @ (if deviceID i = 0 then [] else [(''deviceId'', JNum (show_u64 (deviceID i)))])
      @ [(''sequence'', JNum (show_u64 (sequence i)))]"
  have "natural_json (JObj ?ms)" by (auto simp: show_u64_def)
  from parse_json_text [OF this] have top: "top_members (encode_identity i) = Some ?ms"
    by (simp add: encode_identity_def top_members_def)
  have fields: "int_field ''version'' ?ms = Some 1" "string_field ''privateKey'' ?ms = Some (b64_encode (privateKey i))"
    "u64_field ''deviceId'' ?ms = Some (deviceID i)" "u64_field ''sequence'' ?ms = Some (sequence i)"
    using json_int_show [of 1] by (auto simp: int_field_def string_field_def u64_field_def fold_simps simp del: json_int.simps)
  show ?thesis using assms unfolding decode_identity_def top option.case fields prod.case
    by (simp add: b64_decode_encode identity_valid_def not_less)
qed

end
