(* ===== verification/Agent_Runtime.thy ===== *)
theory Agent_Runtime
  imports Agent_State Agent_Config Heartbeat_Queue Agent_Identity
begin

text \<open>
  The agent, \<open>internal/runtime/agent.go\<close>: fetching the contract, collecting a heartbeat into the
  buffer, flushing the buffer to the hub, and the loop around them. The state is the identity with
  the state directory, the buffer with its directory, the monitoring configuration, the telemetry
  state and the world outside. Collector, network, clock, gzip and the JSON text of a heartbeat are
  arguments.
\<close>

section \<open>State and environment\<close>

record 'w agent =
  Device :: identity_state
  Buffer :: queue
  Monitoring :: monitoring_config
  Telemetry :: telemetry_sync
  Outside :: 'w

record 'w agent_env =
  AgConfig :: config
  AgVersion :: string
  AgCapabilities :: capabilities
  AgClient :: "'w client"
  CollectHeartbeat :: "contract \<Rightarrow> 'w \<Rightarrow> heartbeat result \<times> 'w"
  StartCollector :: "contract \<Rightarrow> 'w \<Rightarrow> 'w"
  Now :: "'w \<Rightarrow> time \<times> 'w"
  Cancelled :: "'w \<Rightarrow> bool"
  ValueHash :: "payload \<Rightarrow> string result"
  Marshal :: "heartbeat \<Rightarrow> bytes result"
  MarshalSnapshot :: "hardware_snapshot \<Rightarrow> bytes result"
  Gzip :: "bytes \<Rightarrow> bytes result"
  Gunzip :: "bytes \<Rightarrow> bytes option"
  PublicKeyText :: "bytes \<Rightarrow> string result"

definition on_device :: "(identity_state \<Rightarrow> 'a result \<times> identity_state) \<Rightarrow> 'w agent \<Rightarrow> 'a result \<times> 'w agent" where
  "on_device f a = (case f (Device a) of (r, s) \<Rightarrow> (r, a\<lparr>Device := s\<rparr>))"

definition on_state :: "(disk \<Rightarrow> 'a result \<times> disk) \<Rightarrow> 'w agent \<Rightarrow> 'a result \<times> 'w agent" where
  "on_state f a = (case f (snd (Device a)) of (r, d) \<Rightarrow> (r, a\<lparr>Device := (fst (Device a), d)\<rparr>))"

definition on_buffer :: "(queue \<Rightarrow> 'a result \<times> queue) \<Rightarrow> 'w agent \<Rightarrow> 'a result \<times> 'w agent" where
  "on_buffer f a = (case f (Buffer a) of (r, q) \<Rightarrow> (r, a\<lparr>Buffer := q\<rparr>))"

definition on_outside :: "('w \<Rightarrow> 'a result \<times> 'w) \<Rightarrow> 'w agent \<Rightarrow> 'a result \<times> 'w agent" where
  "on_outside f a = (case f (Outside a) of (r, w) \<Rightarrow> (r, a\<lparr>Outside := w\<rparr>))"

definition pure_io :: "'a result \<Rightarrow> 's \<Rightarrow> 'a result \<times> 's" where
  "pure_io r s = (r, s)"

text \<open>The operations of the buffer that return a count beside an error.\<close>

definition counted :: "(queue \<Rightarrow> (u64 \<times> error option) \<times> queue) \<Rightarrow> queue \<Rightarrow> u64 result \<times> queue" where
  "counted f q = (case f q of ((n, e), q') \<Rightarrow> ((case e of None \<Rightarrow> Inr n | Some x \<Rightarrow> Inl x), q'))"

section \<open>Starting\<close>

definition new_agent :: "url_parser \<Rightarrow> 'w agent_env \<Rightarrow> identity_state \<Rightarrow> queue \<Rightarrow> 'w \<Rightarrow> ('w agent_env \<times> 'w agent) result" where
  "new_agent parse env device buffer w =
     bind_result (validate_config parse (AgConfig env)) (\<lambda>configuration.
       if AgVersion env = [] then Inl (Msg ''agent runtime dependencies are incomplete'')
       else (case load_monitoring (snd device) of
          (Inl e, d1) \<Rightarrow> Inl (Msg ''load monitoring config'')
        | (Inr m, d1) \<Rightarrow>
            (case load_telemetry d1 of
               (Inl e, d2) \<Rightarrow> Inl (Msg ''load telemetry sync state'')
             | (Inr t, d2) \<Rightarrow> Inr (env\<lparr>AgConfig := configuration\<rparr>,
                 \<lparr>Device = (fst device, d2), Buffer = buffer, Monitoring = m, Telemetry = t, Outside = w\<rparr>))))"

section \<open>Monitoring\<close>

definition effective_contract :: "'w agent \<Rightarrow> contract \<Rightarrow> contract" where
  "effective_contract a c =
     (if MonRevision (Monitoring a) > 0 \<and> MonEnabled (Monitoring a)
      then c\<lparr>Collection := (Collection c)\<lparr>ServiceIntervalSeconds := MonServiceInterval (Monitoring a)\<rparr>\<rparr> else c)"

definition apply_monitoring :: "monitoring_config \<Rightarrow> 'w agent \<Rightarrow> unit result \<times> 'w agent" where
  "apply_monitoring m a =
     bind_io (pure_io (validate_monitoring_config m)) (\<lambda>_ a.
       if MonRevision m \<le> MonRevision (Monitoring a) then (Inr (), a)
       else bind_io (on_state (write_monitoring m)) (\<lambda>_ a. (Inr (), a\<lparr>Monitoring := m\<rparr>)) a) a"

section \<open>Activation\<close>

definition activate_agent :: "'w agent_env \<Rightarrow> string \<Rightarrow> 'w agent \<Rightarrow> unit result \<times> 'w agent" where
  "activate_agent env token a =
     (if deviceID (fst (Device a)) \<noteq> 0 then (Inr (), a)
      else bind_io (pure_io (PublicKeyText env (privateKey (fst (Device a))))) (\<lambda>key.
           bind_io (on_outside (activate_device (AgClient env) (ConfHost (AgConfig env)) token
             \<lparr>ActivationMajor = 1, ActivationVersion = AgVersion env, PublicKey = key,
              ActivationCapabilities = AgCapabilities env\<rparr>)) (\<lambda>r.
           on_device (activate (ActDeviceID r)))) a)"

section \<open>The contract\<close>

definition contract_limits :: "contract \<Rightarrow> limits" where
  "contract_limits c = \<lparr>Samples = OfflineSamples (ContractLimits c), Bytes = OfflineBytes (ContractLimits c)\<rparr>"

definition apply_limits :: "contract \<Rightarrow> 'w agent \<Rightarrow> contract result \<times> 'w agent" where
  "apply_limits c = bind_io (on_buffer (counted (set_limits (contract_limits c)))) (\<lambda>_. return_io c)"

definition is_http :: "error \<Rightarrow> bool" where
  "is_http e = (case e of HttpStatus n c \<Rightarrow> True | _ \<Rightarrow> False)"

definition load_cache :: "'w agent_env \<Rightarrow> disk \<Rightarrow> cached_contract result \<times> disk" where
  "load_cache env d = (case load_contract_cache (SchemaDigest (AgClient env)) d of
     (Inl e, d') \<Rightarrow> ((if e = incompatible_cache then Inr zero_cache else Inl e), d')
   | (Inr v, d') \<Rightarrow> (Inr v, d'))"

definition current_contract :: "'w agent_env \<Rightarrow> 'w agent \<Rightarrow> contract result \<times> 'w agent" where
  "current_contract env =
     bind_io (on_state (load_cache env)) (\<lambda>cached a.
       (case fetch_contract (AgClient env) (CachedETag cached) (Outside a) of
          (Inl e, w) \<Rightarrow>
            (if Cancelled env w then (Inl Canceled, a\<lparr>Outside := w\<rparr>)
             else if ContractMajor (Cached cached) \<noteq> 0 \<and> \<not> is_http e then apply_limits (Cached cached) (a\<lparr>Outside := w\<rparr>)
             else (Inl e, a\<lparr>Outside := w\<rparr>))
        | (Inr Unmodified, w) \<Rightarrow>
            (if ContractMajor (Cached cached) = 0
             then (Inl (Msg ''server returned not-modified without a cached contract''), a\<lparr>Outside := w\<rparr>)
             else apply_limits (Cached cached) (a\<lparr>Outside := w\<rparr>))
        | (Inr (Fetched c etag), w) \<Rightarrow>
            bind_io (on_state (write_contract_cache \<lparr>CachedETag = etag, Cached = c\<rparr>)) (\<lambda>_. apply_limits c)
              (a\<lparr>Outside := w\<rparr>)))"

section \<open>Collecting\<close>

definition compress_heartbeat :: "'w agent_env \<Rightarrow> heartbeat \<Rightarrow> (bytes \<times> nat) result" where
  "compress_heartbeat env h = bind_result (Marshal env h) (\<lambda>body.
     bind_result (Gzip env body) (\<lambda>z. Inr (z, length body)))"

definition decode_dropped :: "json \<Rightarrow> u64 option" where
  "decode_dropped = json_struct None 0 (u64_field ''droppedSamples'')"

definition reported_dropped :: "'w agent_env \<Rightarrow> bytes \<Rightarrow> u64" where
  "reported_dropped env body = (case Gunzip env body of
     None \<Rightarrow> 0
   | Some text \<Rightarrow> (case Option.bind (first_value (take (1024 * 1024) text)) decode_dropped of None \<Rightarrow> 0 | Some n \<Rightarrow> n))"

definition own_capability :: capability where
  "own_capability = \<lparr>CapState = Available, CapDetail = ''revisioned heartbeat-response policy''\<rparr>"

definition merge_capabilities :: "capabilities \<Rightarrow> capabilities \<Rightarrow> capabilities" where
  "merge_capabilities agent given =
     AList.update ''notifications.monitoring-policy'' own_capability (fold (\<lambda>(k, c). AList.update k c) agent given)"

text \<open>The fields \<open>Collect\<close> fills in before the heartbeat is made compact.\<close>

definition stamp_heartbeat :: "'w agent_env \<Rightarrow> u64 \<Rightarrow> u64 \<Rightarrow> u64 option \<Rightarrow> time \<Rightarrow> heartbeat \<Rightarrow> heartbeat" where
  "stamp_heartbeat env n lost revision now h = h
     \<lparr>HbMajor := 1, HbSequence := n, AgentVersion := AgVersion env, HbHost := ConfHost (AgConfig env),
      DroppedSamples := lost,
      MonitoringRevision := (case revision of None \<Rightarrow> MonitoringRevision h | Some r \<Rightarrow> r),
      CollectedAt := now,
      Capabilities := merge_capabilities (AgCapabilities env) (Capabilities h)\<rparr>"

text \<open>\<open>buildCompactHeartbeat\<close> on the agent's state: the map of families it assigns into is the agent's.\<close>

definition make_compact :: "'w agent_env \<Rightarrow> heartbeat \<Rightarrow> 'w agent \<Rightarrow> (heartbeat \<times> telemetry_sync) result \<times> 'w agent" where
  "make_compact env h a = (case build_compact_heartbeat (ValueHash env) 0 h (Telemetry a) of
     (r, previous) \<Rightarrow> (r, a\<lparr>Telemetry := previous\<rparr>))"

text \<open>What \<open>Collect\<close> does with the heartbeat to send and the telemetry state that goes with it.\<close>

definition store_heartbeat :: "'w agent_env \<Rightarrow> contract \<Rightarrow> u64 \<Rightarrow> heartbeat \<Rightarrow> 'w agent \<Rightarrow> unit result \<times> 'w agent" where
  "store_heartbeat env c n h =
     bind_io (pure_io (validate_heartbeat h)) (\<lambda>_.
     bind_io (pure_io (compress_heartbeat env h)) (\<lambda>(body, decompressed).
       (if int decompressed > DecompressedBytes (ContractLimits c)
          then fail_io (Msg ''heartbeat exceeds contract decompressed limit'')
        else if int (length body) > CompressedBytes (ContractLimits c)
          then fail_io (Msg ''compressed heartbeat exceeds contract limit'')
        else bind_io (on_buffer (counted (add \<lparr>Sequence = n, Body = body\<rparr>))) (\<lambda>_. return_io ()))))"

text \<open>The stamped heartbeat is made compact when the contract's schema allows it, and stored.\<close>

definition finish_collect :: "'w agent_env \<Rightarrow> contract \<Rightarrow> u64 \<Rightarrow> heartbeat \<Rightarrow> 'w agent \<Rightarrow> unit result \<times> 'w agent" where
  "finish_collect env c n h =
     bind_io (pure_io (supports_compact (SchemaDigest (AgClient env)) (SchemaBundleDigest c))) (\<lambda>compact.
       if compact then
         bind_io (make_compact env h) (\<lambda>(h', after).
         bind_io (store_heartbeat env c n h') (\<lambda>_.
         bind_io (on_state (write_telemetry after)) (\<lambda>_ a. (Inr (), a\<lparr>Telemetry := after\<rparr>))))
       else store_heartbeat env c n h)"

text \<open>The clock is read when the collector gave no time.\<close>

definition collection_time :: "'w agent_env \<Rightarrow> heartbeat \<Rightarrow> 'w agent \<Rightarrow> time result \<times> 'w agent" where
  "collection_time env h a =
     (if is_zero (CollectedAt h) then on_outside (\<lambda>w. map_prod Inr id (Now env w)) a else (Inr (CollectedAt h), a))"

definition stamp_collect :: "'w agent_env \<Rightarrow> contract \<Rightarrow> heartbeat \<Rightarrow> u64 \<Rightarrow> u64 \<Rightarrow> 'w agent \<Rightarrow> unit result \<times> 'w agent" where
  "stamp_collect env c given n lost =
     bind_io (pure_io (supports_monitoring (SchemaDigest (AgClient env)) (SchemaBundleDigest c))) (\<lambda>monitored.
     bind_io (collection_time env given) (\<lambda>now a.
       finish_collect env c n (stamp_heartbeat env n lost
         (if monitored then Some (MonRevision (Monitoring a)) else None) now given) a))"

definition collect :: "'w agent_env \<Rightarrow> contract \<Rightarrow> 'w agent \<Rightarrow> unit result \<times> 'w agent" where
  "collect env c a0 =
     bind_io (on_outside (CollectHeartbeat env (effective_contract a0 c))) (\<lambda>given.
     bind_io (on_device reserve_sequence) (\<lambda>n.
     bind_io (on_buffer dropped) (\<lambda>lost.
     stamp_collect env c given n lost))) a0"

section \<open>Flushing\<close>

definition needs_reconcile :: "telemetry_ack \<Rightarrow> bool" where
  "needs_reconcile t \<longleftrightarrow> RequestCapabilities t \<or> Reconcile t \<noteq> []"

text \<open>
  The families the hub asks for are marked for a full copy. Assigning into a nil map would panic;
  the loaded and the computed telemetry states have a map.
\<close>

definition clear_full :: "string \<Rightarrow> families \<Rightarrow> families" where
  "clear_full name fams = AList.update name ((family_of fams name)\<lparr>LastFullAt := 0\<rparr>) fams"

definition reconcile :: "telemetry_ack \<Rightarrow> telemetry_sync \<Rightarrow> telemetry_sync result" where
  "reconcile t s =
     (let s' = (if RequestCapabilities t then s\<lparr>SyncCapabilities := []\<rparr> else s) in
      case SyncFamilies s' of
        None \<Rightarrow> (if Reconcile t = [] then Inr s' else Inl (Msg ''assignment to entry in nil map''))
      | Some fams \<Rightarrow> Inr (s'\<lparr>SyncFamilies := Some (fold clear_full (Reconcile t) fams)\<rparr>))"

definition apply_ack :: "telemetry_ack option \<Rightarrow> 'w agent \<Rightarrow> unit result \<times> 'w agent" where
  "apply_ack ack a = (case ack of
     None \<Rightarrow> (Inr (), a)
   | Some t \<Rightarrow>
      (if \<not> needs_reconcile t then (Inr (), a)
       else (case reconcile t (Telemetry a) of
          Inl e \<Rightarrow> (Inl e, a)
        | Inr s \<Rightarrow> on_state (write_telemetry s) (a\<lparr>Telemetry := s\<rparr>))))"

text \<open>What follows the hub's answer to one entry.\<close>

definition take_monitoring :: "heartbeat_response \<Rightarrow> 'w agent \<Rightarrow> unit result \<times> 'w agent" where
  "take_monitoring response = (case NewMonitoring response of
     None \<Rightarrow> return_io ()
   | Some m \<Rightarrow> (\<lambda>a. (case apply_monitoring m a of
       (Inl x, a') \<Rightarrow> (Inl (Msg ''persist monitoring config''), a') | (Inr _, a') \<Rightarrow> (Inr (), a'))))"

definition settle_entry :: "'w agent_env \<Rightarrow> entry \<Rightarrow> heartbeat_response \<Rightarrow> 'w agent \<Rightarrow> unit result \<times> 'w agent" where
  "settle_entry env e response =
     bind_io (take_monitoring response) (\<lambda>_.
     bind_io (apply_ack (TelemetryAck response)) (\<lambda>_.
     bind_io (on_buffer (remove (Sequence e))) (\<lambda>_.
       (let lost = reported_dropped env (Body e) in
        if lost > 0 then on_buffer (acknowledge_dropped lost) else return_io ()))))"

definition revoked :: "error \<Rightarrow> bool" where
  "revoked e \<longleftrightarrow> e = HttpStatus 410 ''agent-registration-revoked''"

definition replayed :: "error \<Rightarrow> bool" where
  "replayed e \<longleftrightarrow> e = HttpStatus 409 ''replayed-agent-request''"

definition go_dormant :: "'w agent_env \<Rightarrow> 'w agent \<Rightarrow> unit result \<times> 'w agent" where
  "go_dormant env a =
     bind_io (on_outside (\<lambda>w. map_prod Inr id (Now env w))) (\<lambda>now a.
       (case on_state (mark_dormant now) a of
          (Inl x, a') \<Rightarrow> (Inl (Msg ''persist revoked agent state''), a')
        | (Inr _, a') \<Rightarrow> (Inl Revoked, a'))) a"

definition deliver :: "'w agent_env \<Rightarrow> entry \<Rightarrow> 'w agent \<Rightarrow> unit result \<times> 'w agent" where
  "deliver env e a =
     (case send_heartbeat (AgClient env) (ConfHost (AgConfig env)) (deviceID (fst (Device a)))
        (privateKey (fst (Device a))) (Sequence e) (Body e) (Outside a) of
        (Inl err, w) \<Rightarrow>
          (if revoked err then go_dormant env (a\<lparr>Outside := w\<rparr>)
           else if \<not> replayed err then (Inl err, a\<lparr>Outside := w\<rparr>)
           else settle_entry env e zero_response (a\<lparr>Outside := w\<rparr>))
      | (Inr response, w) \<Rightarrow> settle_entry env e response (a\<lparr>Outside := w\<rparr>))"

fun deliver_all :: "'w agent_env \<Rightarrow> entry list \<Rightarrow> 'w agent \<Rightarrow> unit result \<times> 'w agent" where
  "deliver_all env [] a = (Inr (), a)"
| "deliver_all env (e # es) a = bind_io (deliver env e) (\<lambda>_. deliver_all env es) a"

definition flush_buffer :: "'w agent_env \<Rightarrow> 'w agent \<Rightarrow> unit result \<times> 'w agent" where
  "flush_buffer env = bind_io (on_buffer entries) (deliver_all env)"

section \<open>Hardware snapshots\<close>

definition check_dormant :: "'w agent \<Rightarrow> bool \<times> 'w agent" where
  "check_dormant a = (case is_dormant (snd (Device a)) of (b, d) \<Rightarrow> (b, a\<lparr>Device := (fst (Device a), d)\<rparr>))"

definition submit_snapshot :: "'w agent_env \<Rightarrow> hardware_snapshot \<Rightarrow> 'w agent \<Rightarrow> unit result \<times> 'w agent" where
  "submit_snapshot env s a0 =
     (case check_dormant a0 of (asleep, a) \<Rightarrow>
       (if asleep then (Inl Revoked, a)
        else if SnapshotHost s \<noteq> ConfHost (AgConfig env)
          then (Inl (Msg ''hardware snapshot does not match the configured host''), a)
        else bind_io (pure_io (validate_hardware_snapshot s)) (\<lambda>_.
             bind_io (pure_io (MarshalSnapshot env s)) (\<lambda>body.
               if length body > 2 * 1024 * 1024 then fail_io (Msg ''hardware snapshot exceeds the transmission limit'')
               else bind_io (on_device reserve_sequence) (\<lambda>n a.
                 on_outside (send_hardware_snapshot (AgClient env) (ConfHost (AgConfig env)) (deviceID (fst (Device a)))
                   (privateKey (fst (Device a))) n body) a))) a))"

section \<open>The loop\<close>

definition run_once :: "'w agent_env \<Rightarrow> 'w agent \<Rightarrow> unit result \<times> 'w agent" where
  "run_once env a0 =
     (case check_dormant a0 of (asleep, a) \<Rightarrow>
       (if asleep then (Inl Revoked, a)
        else bind_io (current_contract env) (\<lambda>c. bind_io (collect env c) (\<lambda>_. flush_buffer env)) a))"

text \<open>
  \<open>Run\<close>: serving a contract until the context is done, asleep until then after a revocation, or
  ended with a result. A cycle reports the errors it goes on after.
\<close>

datatype mode = Serving contract | Asleep | Ended "unit result"

datatype signal = Tick | Cancel

definition cycle :: "'w agent_env \<Rightarrow> contract \<Rightarrow> 'w agent \<Rightarrow> (mode \<times> error list) \<times> 'w agent" where
  "cycle env c a = (case collect env c a of
     (Inl e, a') \<Rightarrow> ((Serving c, [e]), a')
   | (Inr _, a') \<Rightarrow> (case flush_buffer env a' of
        (Inl e, a'') \<Rightarrow> (if e = Revoked then (Asleep, []) else (Serving c, [e]), a'')
      | (Inr _, a'') \<Rightarrow> ((Serving c, []), a'')))"

definition run_start :: "'w agent_env \<Rightarrow> 'w agent \<Rightarrow> (mode \<times> error list) \<times> 'w agent" where
  "run_start env a0 = (case check_dormant a0 of (asleep, a) \<Rightarrow>
     (if asleep then ((Asleep, []), a)
      else (case current_contract env a of
         (Inl e, a') \<Rightarrow> ((Ended (Inl e), []), a')
       | (Inr c, a') \<Rightarrow> cycle env c (a'\<lparr>Outside := StartCollector env c (Outside a')\<rparr>))))"

fun run_event :: "'w agent_env \<Rightarrow> signal \<Rightarrow> mode \<Rightarrow> 'w agent \<Rightarrow> (mode \<times> error list) \<times> 'w agent" where
  "run_event env Tick (Serving c) a = cycle env c a"
| "run_event env Cancel (Serving c) a = ((Ended (Inl Canceled), []), a)"
| "run_event env Cancel Asleep a = ((Ended (Inr ()), []), a)"
| "run_event env e m a = ((m, []), a)"

fun run_events :: "'w agent_env \<Rightarrow> signal list \<Rightarrow> mode \<Rightarrow> 'w agent \<Rightarrow> mode \<times> 'w agent" where
  "run_events env [] m a = (m, a)"
| "run_events env (e # es) m a = (case run_event env e m a of ((m', errs), a') \<Rightarrow> run_events env es m' a')"

end
