(* ===== verification/Identity_Correct.thy ===== *)
theory Identity_Correct
  imports Agent_Identity
begin

text \<open>
  What the identity promises: the file is replaced all or nothing, a heartbeat sequence number
  is on disk before it is used, and no number is handed out twice, across failing writes and
  restarts. The locale \<open>sequence_source\<close> is what the rest of the agent relies on.
\<close>

section \<open>Sources of sequence numbers\<close>

datatype 'e event = Reserve | Other 'e

text \<open>The numbers a source hands out along a history of events.\<close>

fun issued :: "('s \<Rightarrow> u64 result \<times> 's) \<Rightarrow> ('e \<Rightarrow> 's \<Rightarrow> 's) \<Rightarrow> 'e event list \<Rightarrow> 's \<Rightarrow> u64 list" where
  "issued reserve other [] s = []"
| "issued reserve other (Reserve # es) s = (case reserve s of
     (Inl e, t) \<Rightarrow> issued reserve other es t
   | (Inr n, t) \<Rightarrow> n # issued reserve other es t)"
| "issued reserve other (Other e # es) s = issued reserve other es (other e s)"

locale sequence_source =
  fixes good :: "'s \<Rightarrow> bool" and allowed :: "'e \<Rightarrow> bool" and mark :: "'s \<Rightarrow> nat"
    and reserve :: "'s \<Rightarrow> u64 result \<times> 's" and other :: "'e \<Rightarrow> 's \<Rightarrow> 's"
  assumes reserve_good: "good s \<Longrightarrow> good (snd (reserve s))"
    and reserve_mark: "good s \<Longrightarrow> mark s \<le> mark (snd (reserve s))"
    and reserve_fresh: "good s \<Longrightarrow> reserve s = (Inr n, t) \<Longrightarrow> mark s < unat n \<and> unat n \<le> mark t"
    and other_good: "good s \<Longrightarrow> allowed e \<Longrightarrow> good (other e s)"
    and other_mark: "good s \<Longrightarrow> allowed e \<Longrightarrow> mark s \<le> mark (other e s)"
begin

lemma issued_increasing:
  "good s \<Longrightarrow> (\<forall>e. Other e \<in> set es \<longrightarrow> allowed e) \<Longrightarrow>
   sorted_wrt (<) (issued reserve other es s) \<and> (\<forall>n \<in> set (issued reserve other es s). mark s < unat n)"
proof (induction es arbitrary: s)
  case (Cons ev es)
  show ?case
  proof (cases ev)
    case Reserve
    obtain r t where rt: "reserve s = (r, t)" by (metis surj_pair)
    then have g: "good t" "mark s \<le> mark t"
      using reserve_good [OF Cons.prems(1)] reserve_mark [OF Cons.prems(1)] by simp_all
    have IH: "sorted_wrt (<) (issued reserve other es t) \<and> (\<forall>n \<in> set (issued reserve other es t). mark t < unat n)"
      using Cons.IH [OF g(1)] Cons.prems(2) by simp
    show ?thesis
    proof (cases r)
      case (Inl e)
      then show ?thesis using Reserve rt IH g(2) by fastforce
    next
      case (Inr n)
      then have "mark s < unat n" "unat n \<le> mark t" using reserve_fresh [OF Cons.prems(1)] rt by blast+
      then have "n < m \<and> mark s < unat m" if "m \<in> set (issued reserve other es t)" for m
        using IH that by (fastforce simp: word_less_nat_alt)
      then show ?thesis using Reserve rt Inr IH \<open>mark s < unat n\<close> by simp
    qed
  next
    case (Other e)
    then have "allowed e" using Cons.prems(2) by simp
    with Other Cons.IH [OF other_good [OF Cons.prems(1) this]] Cons.prems other_mark [OF Cons.prems(1) this]
    show ?thesis by fastforce
  qed
qed simp

end

section \<open>The identity file\<close>

definition identity_of_bytes :: "bytes \<Rightarrow> identity option" where
  "identity_of_bytes b = (case decode_identity b of Inl e \<Rightarrow> None | Inr i \<Rightarrow> Some i)"

definition blank_identity :: identity where
  "blank_identity = \<lparr>privateKey = [], deviceID = 0, sequence = 0\<rparr>"

text \<open>The identity a restart would load; a missing file counts as one that has issued nothing.\<close>

definition durable :: "disk \<Rightarrow> identity option" where
  "durable d = stored identity_of_bytes blank_identity identity_name d"

lemma identity_name_not_temp [simp]: "\<not> has_prefix identity_name identity_temp"
  by (simp add: has_prefix_def identity_name_def identity_temp_def)

interpretation identity_file: document identity_valid encode_identity identity_of_bytes identity_temp identity_name
  by unfold_locales (simp_all add: identity_of_bytes_def decode_encode_identity)

lemma durable_cong: "lookup d' identity_name = lookup d identity_name \<Longrightarrow> durable d' = durable d"
  unfolding durable_def by (rule stored_cong)

lemma chmod_identity:
  assumes "chmod_file n m d = (r, d')"
  shows "lookup d' n = lookup d n \<or> (\<exists>b k. lookup d n = Some (Reg b k) \<and> lookup d' n = Some (Reg b m))"
    and "r = Inr () \<Longrightarrow> lookup d n = Some (Reg b k) \<Longrightarrow> lookup d' n = Some (Reg b m)"
  using assms by (auto simp: chmod_file_def split: option.splits node.splits elim!: call_cases)

lemma persist_locked_spec:
  assumes "persist_locked i d = (r, d')" and "identity_valid i"
  shows "(lookup d' identity_name = lookup d identity_name \<or>
          (\<exists>m. lookup d' identity_name = Some (Reg (encode_identity i) m) \<and> durable d' = Some i)) \<and>
    (r = Inr () \<longrightarrow> lookup d' identity_name = Some (Reg (encode_identity i) mode_600) \<and> durable d' = Some i)"
proof -
  have st: "durable e = Some i" if "lookup e identity_name = Some (Reg (encode_identity i) m)" for e m
    using that assms(2) by (simp add: durable_def stored_def identity_of_bytes_def decode_encode_identity)
  obtain r1 d1 where m: "make_directory d = (r1, d1)" by (metis surj_pair)
  obtain r2 d2 where w: "atomic_write identity_temp identity_name (encode_identity i) mode_600 d1 = (r2, d2)"
    by (metis surj_pair)
  obtain r3 d3 where c: "chmod_file identity_name mode_600 d2 = (r3, d3)" by (metis surj_pair)
  have l1: "lookup d1 identity_name = lookup d identity_name" using make_directory_keeps [OF m] by simp
  have l2: "lookup d2 identity_name = (if r2 = Inr () then Some (Reg (encode_identity i) mode_600) else lookup d identity_name)"
    using atomic_write_target [OF w] l1 by simp
  have l3: "r2 = Inr () \<Longrightarrow> lookup d3 identity_name = Some (Reg (encode_identity i) mode_600)"
    using chmod_identity(1) [OF c] l2 by auto
  have "persist_locked i d = (if r1 = Inr () then (if r2 = Inr () then (r3, d3) else (r2, d2)) else (r1, d1))"
    using m w c by (cases r1; cases r2) (auto simp: persist_locked_def bind_io_def)
  with assms(1) l1 l2 l3 st show ?thesis by (auto split: if_splits)
qed

lemma persist_locked_fault_free:
  assumes "fault_free d" and "lookup d identity_name \<noteq> Some Directory"
  shows "\<exists>d'. persist_locked i d = (Inr (), d') \<and> fault_free d'"
proof -
  have m: "make_directory d = (Inr (), d)" using assms(1) by (simp add: make_directory_def call_fault_free)
  obtain d1 where w: "atomic_write identity_temp identity_name (encode_identity i) mode_600 d = (Inr (), d1)"
    and l: "lookup d1 identity_name = Some (Reg (encode_identity i) mode_600)" and f: "fault_free d1"
    using atomic_write_fault_free [OF assms identity_name_not_temp, of "encode_identity i" mode_600] by auto
  have "chmod_file identity_name mode_600 d1 = (Inr (), put_file identity_name (Reg (encode_identity i) mode_600) d1)"
    using f l by (simp add: chmod_file_def call_fault_free)
  with m w f show ?thesis by (auto simp: persist_locked_def bind_io_def)
qed

section \<open>The agent's identity across restarts\<close>

text \<open>
  The agent with its disk: the identity in memory while it runs, none while it is down. A
  restart loses the memory and loads the file (or creates it, with the key generation's result);
  a start that fails leaves the agent down.
\<close>

datatype identity_step = Restart "bytes result" | Activation u64

type_synonym agent_identity = "identity option \<times> disk"

definition reserve_step :: "agent_identity \<Rightarrow> u64 result \<times> agent_identity" where
  "reserve_step st = (case st of
     (None, d) \<Rightarrow> (Inl (Msg ''not running''), (None, d))
   | (Some i, d) \<Rightarrow> (case reserve_sequence (i, d) of (r, (i', d')) \<Rightarrow> (r, (Some i', d'))))"

fun other_step :: "identity_step \<Rightarrow> agent_identity \<Rightarrow> agent_identity" where
  "other_step (Restart generated) (m, d) = (case load_or_create generated d of
     (Inl e, d') \<Rightarrow> (None, d') | (Inr i, d') \<Rightarrow> (Some i, d'))"
| "other_step (Activation device) (m, d) = (case m of
     None \<Rightarrow> (None, d)
   | Some i \<Rightarrow> (case activate device (i, d) of (r, (i', d')) \<Rightarrow> (Some i', d')))"

text \<open>Key generation makes keys of 64 bytes.\<close>

fun proper_step :: "identity_step \<Rightarrow> bool" where
  "proper_step (Restart (Inr key)) \<longleftrightarrow> length key = key_size"
| "proper_step _ \<longleftrightarrow> True"

definition identity_good :: "agent_identity \<Rightarrow> bool" where
  "identity_good st \<longleftrightarrow> (\<exists>p. durable (snd st) = Some p \<and> (case fst st of
      None \<Rightarrow> True
    | Some i \<Rightarrow> identity_valid i \<and> lookup (snd st) identity_name \<noteq> None \<and> privateKey p = privateKey i \<and>
        unat (sequence i) \<le> unat (sequence p) \<and> unat (sequence p) \<le> unat (sequence i) + 1))"

definition identity_mark :: "agent_identity \<Rightarrow> nat" where
  "identity_mark st = (case fst st of
     Some i \<Rightarrow> unat (sequence i) | None \<Rightarrow> unat (sequence (the (durable (snd st)))))"

lemma unat_next: "w \<noteq> NOT 0 \<Longrightarrow> unat (w + 1 :: u64) = unat w + 1"
proof -
  assume "w \<noteq> NOT 0"
  then have "w + 1 \<noteq> 0" by (metis add_eq_0_iff add.commute bit.compl_zero)
  then show ?thesis using unatSuc [of w] by (simp add: add.commute)
qed

lemma persist_good:
  assumes "persist_locked i' d = (r, d')" and "identity_good (Some i, d)" and "identity_valid i'"
    and "privateKey i' = privateKey i" and "unat (sequence i) \<le> unat (sequence i')" and "unat (sequence i') \<le> unat (sequence i) + 1"
  shows "identity_good (Some i, d') \<and> (sequence i' = sequence i \<longrightarrow> identity_good (Some i', d')) \<and>
    (r = Inr () \<longrightarrow> identity_good (Some i', d'))"
proof -
  note s = persist_locked_spec [OF assms(1,3)]
  consider "lookup d' identity_name = lookup d identity_name" "durable d' = durable d" "r \<noteq> Inr ()"
    | "lookup d' identity_name \<noteq> None" "durable d' = Some i'"
    using s durable_cong by (metis option.distinct(1))
  then show ?thesis
    by cases (use assms in \<open>auto simp: identity_good_def\<close>)
qed

lemma reserve_step_spec:
  assumes "identity_good st" and "reserve_step st = (r, st')"
  shows "identity_good st' \<and> identity_mark st \<le> identity_mark st' \<and>
    (\<forall>n. r = Inr n \<longrightarrow> identity_mark st < unat n \<and> unat n = identity_mark st' \<and>
       durable (snd st') = fst st')"
proof (cases "fst st")
  case None
  then have "st' = st" "\<exists>e. r = Inl e" using assms(2) by (cases st; auto simp: reserve_step_def)+
  then show ?thesis using assms(1) by auto
next
  case (Some i)
  obtain d where st: "st = (Some i, d)" using Some by (cases st) simp
  show ?thesis
  proof (cases "deviceID i = 0 \<or> sequence i = NOT 0")
    case True
    then have "st' = st" "\<exists>e. r = Inl e"
      using assms(2) st by (auto simp: reserve_step_def reserve_sequence_def split: if_splits)
    then show ?thesis using assms(1) by auto
  next
    case False
    let ?i = "i\<lparr>sequence := sequence i + 1\<rparr>"
    obtain q d' where p: "persist_locked ?i d = (q, d')" by (metis surj_pair)
    have u: "unat (sequence ?i) = unat (sequence i) + 1" using False unat_next by simp
    have v: "identity_valid ?i" using assms(1) st by (auto simp: identity_good_def identity_valid_def)
    note g = persist_good [OF p assms(1) [unfolded st] v]
    have "?i\<lparr>sequence := sequence ?i - 1\<rparr> = i" by simp
    then show ?thesis using False assms(2) st p g u persist_locked_spec [OF p v]
      by (cases q) (auto simp: reserve_step_def reserve_sequence_def Let_def identity_mark_def)
  qed
qed

lemma load_or_create_spec:
  assumes "identity_good (m, d)" and "load_or_create g d = (r, d')" and "proper_step (Restart g)"
  shows "identity_good (case r of Inl e \<Rightarrow> None | Inr i \<Rightarrow> Some i, d') \<and>
    identity_mark (m, d) \<le> identity_mark (case r of Inl e \<Rightarrow> None | Inr i \<Rightarrow> Some i, d')"
proof -
  obtain q d1 where rd: "read_file identity_name d = (q, d1)" by (metis surj_pair)
  have l1: "lookup d1 = lookup d" using read_file_keeps [OF rd] by blast
  have good1: "identity_good (None, d1)" "identity_mark (m, d) \<le> identity_mark (None, d1)"
    using assms(1) durable_cong [of d1 d] l1
    by (auto simp: identity_good_def identity_mark_def split: option.splits)
  show ?thesis
  proof (cases q)
    case (Inl e)
    show ?thesis
    proof (cases "e = NotExist")
      case False
      then show ?thesis using assms(2) rd Inl good1 by (auto simp: load_or_create_def)
    next
      case missing: True
      then have no: "lookup d identity_name = None" using read_file_NotExist rd Inl by blast
      then have m: "m = None" using assms(1) by (auto simp: identity_good_def split: option.splits)
      have mk: "identity_mark (m, d) = 0" using m no
        by (simp add: identity_mark_def durable_def stored_def blank_identity_def)
      show ?thesis
      proof (cases g)
        case (Inl e')
        then show ?thesis using assms(2) rd \<open>q = Inl e\<close> missing good1 by (auto simp: load_or_create_def)
      next
        case (Inr key)
        let ?i = "\<lparr>privateKey = key, deviceID = 0, sequence = 0\<rparr>"
        have v: "identity_valid ?i" using assms(3) Inr by (simp add: identity_valid_def max_safe_def)
        obtain p d2 where pl: "persist_locked ?i d1 = (p, d2)" by (metis surj_pair)
        note s = persist_locked_spec [OF pl v]
        have "durable d2 \<noteq> None" using s durable_cong [of d2 d1] good1 by (auto simp: identity_good_def)
        then have "identity_good (None, d2)" by (auto simp: identity_good_def)
        moreover have "p = Inr () \<Longrightarrow> identity_good (Some ?i, d2)" using s v by (auto simp: identity_good_def)
        ultimately show ?thesis using assms(2) rd \<open>q = Inl e\<close> missing Inr pl mk
          by (cases p) (auto simp: load_or_create_def return_io_def)
      qed
    qed
  next
    case (Inr body)
    obtain k where lk: "lookup d identity_name = Some (Reg body k)" using read_file_Inr rd Inr by blast
    show ?thesis
    proof (cases "decode_identity body")
      case (Inl e)
      then have "r = Inl e" "d' = d1" using assms(2) rd Inr by (simp_all add: load_or_create_def)
      then show ?thesis using good1 by simp
    next
      case dec: (Inr i)
      obtain x d2 where st: "stat_file identity_name d1 = (x, d2)" by (metis surj_pair)
      have l2: "lookup d2 = lookup d" using stat_file_keeps [OF st] l1 by simp
      have du: "durable d2 = Some i" "durable d = Some i"
        using lk l2 dec by (auto simp: durable_def stored_def identity_of_bytes_def)
      have "identity_valid i" using dec by (auto simp: decode_identity_def identity_valid_def
          split: option.splits if_splits prod.splits)
      then have "identity_good (Some i, d2)" "identity_good (None, d2)"
        using du l2 lk by (auto simp: identity_good_def)
      moreover have "identity_mark (m, d) \<le> unat (sequence i)"
        using assms(1) du by (auto simp: identity_good_def identity_mark_def split: option.splits)
      moreover have "r = Inr i \<and> d' = d2 \<or> (\<exists>e. r = Inl e) \<and> d' = d2"
        using assms(2) rd Inr dec st by (cases x) (auto simp: load_or_create_def split: if_splits)
      ultimately show ?thesis using du by (auto simp: identity_mark_def)
    qed
  qed
qed

lemma activate_step_spec:
  assumes "identity_good (m, d)"
  shows "identity_good (other_step (Activation device) (m, d)) \<and>
    identity_mark (m, d) \<le> identity_mark (other_step (Activation device) (m, d))"
proof (cases m)
  case (Some i)
  obtain r i' d' where a: "activate device (i, d) = (r, (i', d'))" by (metis surj_pair)
  have "identity_good (Some i', d') \<and> sequence i' = sequence i"
  proof (cases "d' = d \<and> i' = i")
    case True
    then show ?thesis using assms Some by simp
  next
    case False
    then have i': "i' = i\<lparr>deviceID := device\<rparr>" and p: "persist_locked (i\<lparr>deviceID := device\<rparr>) d = (r, d')"
      and dev: "device \<le> max_safe"
      using a by (auto simp: activate_def Let_def not_less split: if_splits prod.splits)
    have "identity_valid (i\<lparr>deviceID := device\<rparr>)" using dev assms Some by (auto simp: identity_good_def identity_valid_def)
    from persist_good [OF p assms [unfolded Some] this] i' show ?thesis by simp
  qed
  then show ?thesis using a Some by (simp add: identity_mark_def)
qed (use assms in simp)

lemma other_step_spec:
  assumes "identity_good st" and "proper_step e"
  shows "identity_good (other_step e st) \<and> identity_mark st \<le> identity_mark (other_step e st)"
proof (cases e)
  case (Restart g)
  obtain m d where st: "st = (m, d)" by (cases st)
  obtain r d' where l: "load_or_create g d = (r, d')" by (metis surj_pair)
  have "other_step e st = (case r of Inl e \<Rightarrow> None | Inr i \<Rightarrow> Some i, d')"
    using Restart st l by (cases r) auto
  with load_or_create_spec [OF assms(1) [unfolded st] l] assms(2) Restart st show ?thesis by simp
next
  case (Activation device)
  with activate_step_spec assms(1) show ?thesis by (cases st) auto
qed

interpretation numbers: sequence_source identity_good proper_step identity_mark reserve_step other_step
proof
  fix s t n
  show "identity_good s \<Longrightarrow> identity_good (snd (reserve_step s))"
    using reserve_step_spec [of s] by (metis surjective_pairing)
  show "identity_good s \<Longrightarrow> identity_mark s \<le> identity_mark (snd (reserve_step s))"
    using reserve_step_spec [of s] by (metis surjective_pairing)
  show "identity_good s \<Longrightarrow> reserve_step s = (Inr n, t) \<Longrightarrow> identity_mark s < unat n \<and> unat n \<le> identity_mark t"
    using reserve_step_spec [of s "Inr n" t] by simp
qed (simp_all add: other_step_spec)

section \<open>Properties\<close>

text \<open>
  C2: no heartbeat sequence number is used twice: along any history of reservations,
  activations, restarts and failing disk operations, the numbers handed out are strictly
  increasing, and all above those handed out before.
\<close>

theorem sequence_numbers_increase:
  assumes "identity_good st" and "\<forall>e. Other e \<in> set es \<longrightarrow> proper_step e"
  shows "sorted_wrt (<) (issued reserve_step other_step es st) \<and>
    (\<forall>n \<in> set (issued reserve_step other_step es st). identity_mark st < unat n)"
  using assms by (rule numbers.issued_increasing)

definition sample_identity :: identity where
  "sample_identity = \<lparr>privateKey = replicate 64 (CHR ''k''), deviceID = 7, sequence = 41\<rparr>"

definition sample_disk :: disk where
  "sample_disk = \<lparr>files = [(identity_name, Reg (encode_identity sample_identity) mode_600)], faults = [], seeds = []\<rparr>"

lemma sample_identity_good: "identity_good (Some sample_identity, sample_disk)" "identity_valid sample_identity"
proof -
  show v: "identity_valid sample_identity"
    by (simp add: identity_valid_def sample_identity_def key_size_def max_safe_def)
  show "identity_good (Some sample_identity, sample_disk)"
    using v by (simp add: identity_good_def durable_def stored_def sample_disk_def lookup_def
        identity_of_bytes_def decode_encode_identity)
qed

lemma sequence_numbers_increase_witness:
  "sorted_wrt (<) (issued reserve_step other_step [Reserve, Other (Restart (Inl IoFault)), Reserve]
     (Some sample_identity, sample_disk))"
  using sequence_numbers_increase [OF sample_identity_good(1), of "[Reserve, Other (Restart (Inl IoFault)), Reserve]"]
  by (simp del: issued.simps)

text \<open>
  C15: \<open>ReserveSequence\<close> returns the next number, without wrapping around, only after the file on
  disk holds it; when it fails, whatever the reason, the identity in memory is unchanged; on a
  working disk an activated identity with numbers left always gets one.
\<close>

theorem reserve_persists_first:
  assumes "reserve_sequence (i, d) = (r, (i', d'))" and "identity_valid i"
  shows "(\<forall>n. r = Inr n \<longrightarrow> unat n = unat (sequence i) + 1 \<and> i' = i\<lparr>sequence := n\<rparr> \<and> deviceID i \<noteq> 0 \<and>
      lookup d' identity_name = Some (Reg (encode_identity i') mode_600)) \<and>
    (\<forall>e. r = Inl e \<longrightarrow> i' = i) \<and>
    (fault_free d \<and> lookup d identity_name \<noteq> Some Directory \<and> deviceID i \<noteq> 0 \<and> sequence i \<noteq> NOT 0 \<longrightarrow>
      (\<exists>n. r = Inr n))"
proof (cases "deviceID i = 0 \<or> sequence i = NOT 0")
  case True
  then show ?thesis using assms(1) by (auto simp: reserve_sequence_def split: if_splits)
next
  case False
  let ?i = "i\<lparr>sequence := sequence i + 1\<rparr>"
  obtain q d1 where p: "persist_locked ?i d = (q, d1)" by (metis surj_pair)
  have v: "identity_valid ?i" using assms(2) by (simp add: identity_valid_def)
  have "q = Inr ()" if "fault_free d" "lookup d identity_name \<noteq> Some Directory"
    using persist_locked_fault_free [OF that, of ?i] p by auto
  then show ?thesis using False assms(1) p persist_locked_spec [OF p v] unat_next [of "sequence i"]
    by (cases q) (auto simp: reserve_sequence_def Let_def)
qed

lemma reserve_persists_first_witness:
  "\<exists>n i' d'. reserve_sequence (sample_identity, sample_disk) = (Inr n, (i', d')) \<and> unat n = 42"
proof -
  obtain r i' d' where r: "reserve_sequence (sample_identity, sample_disk) = (r, (i', d'))" by (metis surj_pair)
  from reserve_persists_first [OF this sample_identity_good(2)] obtain n where "r = Inr n"
    by (auto simp: fault_free_def sample_disk_def lookup_def sample_identity_def)
  moreover from this reserve_persists_first [OF r sample_identity_good(2)] have "unat n = 42"
    by (simp add: sample_identity_def)
  ultimately show ?thesis using r by blast
qed

text \<open>
  The device binding: \<open>Activate\<close> accepts only a positive id of at most 2^53-1 and only the id
  already bound, if one is; refusing, it changes nothing. A successful call leaves the binding
  on disk; an accepted one whose write fails still binds the identity in memory, so another
  device is refused from then on until a restart.
\<close>

theorem activation_binds:
  assumes "activate device (i, d) = (r, (i', d'))" and "identity_valid i"
  shows "(if device = 0 \<or> device > max_safe \<or> (deviceID i \<noteq> 0 \<and> deviceID i \<noteq> device)
      then (\<exists>e. r = Inl e) \<and> i' = i \<and> d' = d
      else i' = i\<lparr>deviceID := device\<rparr> \<and> (durable d' = Some i' \<or> durable d' = durable d) \<and>
        (r = Inr () \<longrightarrow> durable d' = Some i')) \<and>
    (deviceID i' \<noteq> 0 \<and> other \<noteq> deviceID i' \<longrightarrow> (\<exists>e. activate other (i', d') = (Inl e, (i', d'))))"
proof -
  have "\<exists>e. activate other (i', d') = (Inl e, (i', d'))" if "deviceID i' \<noteq> 0" "other \<noteq> deviceID i'"
    using that by (auto simp: activate_def)
  moreover have "if device = 0 \<or> device > max_safe \<or> (deviceID i \<noteq> 0 \<and> deviceID i \<noteq> device)
      then (\<exists>e. r = Inl e) \<and> i' = i \<and> d' = d
      else i' = i\<lparr>deviceID := device\<rparr> \<and> (durable d' = Some i' \<or> durable d' = durable d) \<and>
        (r = Inr () \<longrightarrow> durable d' = Some i')"
  proof (cases "device = 0 \<or> device > max_safe \<or> (deviceID i \<noteq> 0 \<and> deviceID i \<noteq> device)")
    case True
    then show ?thesis using assms(1) by (auto simp: activate_def split: if_splits)
  next
    case False
    then have p: "persist_locked (i\<lparr>deviceID := device\<rparr>) d = (r, d')" and i': "i' = i\<lparr>deviceID := device\<rparr>"
      using assms(1) by (auto simp: activate_def Let_def split: if_splits prod.splits)
    have "identity_valid (i\<lparr>deviceID := device\<rparr>)" using False assms(2) by (simp add: identity_valid_def not_less)
    from persist_locked_spec [OF p this] False i' durable_cong [of d' d] show ?thesis by auto
  qed
  ultimately show ?thesis by blast
qed

lemma activation_binds_witness:
  "\<exists>e. activate 8 (sample_identity, sample_disk) = (Inl e, (sample_identity, sample_disk))"
proof -
  obtain r i' d' where a: "activate 8 (sample_identity, sample_disk) = (r, (i', d'))" by (metis surj_pair)
  from activation_binds [OF this sample_identity_good(2), of 0] a show ?thesis
    by (auto simp: sample_identity_def)
qed

text \<open>
  A restart: after a method that wrote the file, \<open>LoadOrCreate\<close> on a working disk loads that
  identity and changes nothing; a file with any other mode than 0600 is refused.
\<close>

theorem restart_loads:
  assumes "identity_valid i" and "lookup d identity_name = Some (Reg (encode_identity i) m)"
  shows "(fault_free d \<and> m = mode_600 \<longrightarrow> load_or_create generated d = (Inr i, d)) \<and>
    (m \<noteq> mode_600 \<longrightarrow> (\<exists>e d'. load_or_create generated d = (Inl e, d') \<and> lookup d' = lookup d))"
proof -
  obtain q d1 where rd: "read_file identity_name d = (q, d1)" by (metis surj_pair)
  obtain x d2 where st: "stat_file identity_name d1 = (x, d2)" by (metis surj_pair)
  note k1 = read_file_keeps [OF rd] and k2 = stat_file_keeps [OF st]
  have q: "q = Inr (encode_identity i) \<or> (\<exists>e. q = Inl e \<and> e \<noteq> NotExist)"
    using read_file_NotExist [of identity_name d d1] read_file_Inr [of identity_name d _ d1] rd assms(2)
    by (cases q) auto
  have x: "x = Inr (Reg (encode_identity i) m) \<or> (\<exists>e. x = Inl e)"
    using st k1 assms(2) by (cases x) (auto simp: stat_file_def elim!: call_cases split: option.splits)
  have "load_or_create generated d = (Inr i, d)" if "fault_free d" "m = mode_600"
    using that assms by (simp add: load_or_create_def read_file_def stat_file_def call_fault_free
        decode_encode_identity private_mode_def)
  moreover have "\<exists>e d'. load_or_create generated d = (Inl e, d') \<and> lookup d' = lookup d" if "m \<noteq> mode_600"
    using that rd st k1 k2 q x assms(1)
    by (auto simp: load_or_create_def decode_encode_identity private_mode_def)
  ultimately show ?thesis by blast
qed

lemma restart_loads_witness:
  "load_or_create (Inl IoFault) sample_disk = (Inr sample_identity, sample_disk)"
  using restart_loads [OF sample_identity_good(2), of sample_disk mode_600]
  by (simp add: sample_disk_def lookup_def fault_free_def)

end
