(* ===== verification/Agent_Files.thy ===== *)
theory Agent_Files
  imports Agent_Runtime Identity_Correct
begin

text \<open>
  What each write of the runtime does to the state directory: which names it may change, and what
  the file it replaces stands for afterwards, whichever call fails.
\<close>

section \<open>The names in the state directory\<close>

lemmas state_name_defs = identity_name_def contract_name_def monitoring_name_def telemetry_name_def dormant_name_def

lemmas state_temp_defs = identity_temp_def contract_temp_def monitoring_temp_def

lemma state_names [simp]:
  "identity_name \<noteq> contract_name" "identity_name \<noteq> monitoring_name" "identity_name \<noteq> telemetry_name"
  "identity_name \<noteq> dormant_name" "monitoring_name \<noteq> identity_name" "monitoring_name \<noteq> contract_name"
  "monitoring_name \<noteq> telemetry_name" "monitoring_name \<noteq> dormant_name" "dormant_name \<noteq> identity_name"
  "dormant_name \<noteq> contract_name" "dormant_name \<noteq> monitoring_name" "dormant_name \<noteq> telemetry_name"
  "contract_name \<noteq> identity_name" "contract_name \<noteq> monitoring_name" "contract_name \<noteq> telemetry_name"
  "contract_name \<noteq> dormant_name" "telemetry_name \<noteq> identity_name" "telemetry_name \<noteq> monitoring_name"
  "telemetry_name \<noteq> contract_name" "telemetry_name \<noteq> dormant_name"
  by (simp_all add: state_name_defs)

lemma whole_temps [simp]:
  "identity_name \<noteq> telemetry_name @ ''.tmp''" "identity_name \<noteq> dormant_name @ ''.tmp''"
  "monitoring_name \<noteq> telemetry_name @ ''.tmp''" "monitoring_name \<noteq> dormant_name @ ''.tmp''"
  "contract_name \<noteq> telemetry_name @ ''.tmp''" "contract_name \<noteq> dormant_name @ ''.tmp''"
  "telemetry_name \<noteq> dormant_name @ ''.tmp''" "dormant_name \<noteq> telemetry_name @ ''.tmp''"
  by (simp_all add: state_name_defs)

lemma state_temps [simp]:
  "\<not> has_prefix identity_name identity_temp" "\<not> has_prefix identity_name contract_temp"
  "\<not> has_prefix identity_name monitoring_temp" "\<not> has_prefix contract_name identity_temp"
  "\<not> has_prefix contract_name contract_temp" "\<not> has_prefix contract_name monitoring_temp"
  "\<not> has_prefix monitoring_name identity_temp" "\<not> has_prefix monitoring_name contract_temp"
  "\<not> has_prefix monitoring_name monitoring_temp" "\<not> has_prefix telemetry_name identity_temp"
  "\<not> has_prefix telemetry_name contract_temp" "\<not> has_prefix telemetry_name monitoring_temp"
  "\<not> has_prefix dormant_name identity_temp" "\<not> has_prefix dormant_name contract_temp"
  "\<not> has_prefix dormant_name monitoring_temp"
  by (simp_all add: state_name_defs state_temp_defs has_prefix_def)

section \<open>Which names a write may change\<close>

definition changes_only :: "(string \<Rightarrow> bool) \<Rightarrow> disk \<Rightarrow> disk \<Rightarrow> bool" where
  "changes_only own d d' \<longleftrightarrow> (\<forall>n. \<not> own n \<longrightarrow> lookup d' n = lookup d n)"

definition owned :: "string \<Rightarrow> string \<Rightarrow> string \<Rightarrow> bool" where
  "owned pre target n \<longleftrightarrow> n = target \<or> has_prefix n pre"

definition replaced :: "string \<Rightarrow> string \<Rightarrow> bool" where
  "replaced target n \<longleftrightarrow> n = target \<or> n = target @ ''.tmp''"

lemma changes_onlyD: "changes_only own d d' \<Longrightarrow> \<not> own n \<Longrightarrow> lookup d' n = lookup d n"
  by (simp add: changes_only_def)

lemma changes_only_same: "lookup d' = lookup d \<Longrightarrow> changes_only own d d'"
  by (simp add: changes_only_def)

lemma changes_only_trans: "changes_only own d d1 \<Longrightarrow> changes_only own d1 d2 \<Longrightarrow> changes_only own d d2"
  by (simp add: changes_only_def)

lemma changes_only_bind:
  assumes "bind_io m f d = (r, d')" and "\<And>r d d'. m d = (r, d') \<Longrightarrow> changes_only own d d'"
    and "\<And>x r d d'. f x d = (r, d') \<Longrightarrow> changes_only own d d'"
  shows "changes_only own d d'"
  using assms by (fastforce simp: bind_io_def split: prod.splits sum.splits intro: changes_only_trans)

lemma atomic_write_only:
  "atomic_write pre target b m d = (r, d') \<Longrightarrow> \<not> has_prefix target pre \<Longrightarrow> changes_only (owned pre target) d d'"
  using atomic_write_other by (fastforce simp: changes_only_def owned_def)

lemma make_directory_only: "make_directory d = (r, d') \<Longrightarrow> changes_only own d d'"
  using make_directory_keeps by (blast intro: changes_only_same)

lemma chmod_file_only: "chmod_file n m d = (r, d') \<Longrightarrow> own n \<Longrightarrow> changes_only own d d'"
  by (auto simp: chmod_file_def changes_only_def split: option.splits node.splits elim!: call_cases)

lemma persist_locked_only: "persist_locked i d = (r, d') \<Longrightarrow> changes_only (owned identity_temp identity_name) d d'"
  unfolding persist_locked_def
  by (elim changes_only_bind) (auto intro: make_directory_only atomic_write_only chmod_file_only simp: owned_def)

lemma write_monitoring_only: "write_monitoring m d = (r, d') \<Longrightarrow> changes_only (owned monitoring_temp monitoring_name) d d'"
  unfolding write_monitoring_def
  by (elim changes_only_bind) (auto intro: atomic_write_only changes_only_same)

lemma write_contract_cache_only:
  "write_contract_cache v d = (r, d') \<Longrightarrow> changes_only (owned contract_temp contract_name) d d'"
  unfolding write_contract_cache_def
  by (elim changes_only_bind)
    (auto intro: make_directory_only atomic_write_only changes_only_same simp: fail_io_def split: if_splits)

lemma write_whole_only: "write_whole n b m d = (r, d') \<Longrightarrow> own n \<Longrightarrow> changes_only own d d'"
  by (auto simp: write_whole_def bind_io_def write_file_def flush_file_def changes_only_def
      split: prod.splits sum.splits if_splits list.splits option.splits elim!: call_cases)

lemma replace_file_only: "replace_file name b d = (r, d') \<Longrightarrow> changes_only (replaced name) d d'"
  unfolding replace_file_def
proof (elim changes_only_bind)
  fix r d d' assume "write_whole (name @ ''.tmp'') b mode_600 d = (r, d')"
  then show "changes_only (replaced name) d d'" by (rule write_whole_only) (simp add: replaced_def)
next
  fix x :: unit and r d d'
  assume a: "(case rename_file (name @ ''.tmp'') name d of
      (Inl e, d') \<Rightarrow> (Inl e, snd (remove_file (name @ ''.tmp'') d')) | (Inr _, d') \<Rightarrow> (Inr (), d')) = (r, d')"
  obtain q e where q: "rename_file (name @ ''.tmp'') name d = (q, e)" by (metis surj_pair)
  then have 1: "changes_only (replaced name) d e"
    by (auto simp: rename_file_def changes_only_def replaced_def elim!: call_cases split: option.splits if_splits)
  obtain r' e' where r': "remove_file (name @ ''.tmp'') e = (r', e')" by (metis surj_pair)
  from remove_file_cases [OF this] have "changes_only (replaced name) e e'"
    by (auto simp: changes_only_def replaced_def)
  with 1 have "changes_only (replaced name) d e'" by (rule changes_only_trans)
  with 1 a q r' show "changes_only (replaced name) d d'" by (auto split: sum.splits)
qed

lemma write_telemetry_only: "write_telemetry s d = (r, d') \<Longrightarrow> changes_only (replaced telemetry_name) d d'"
  unfolding write_telemetry_def
  by (elim changes_only_bind)
    (auto intro: make_directory_only replace_file_only chmod_file_only changes_only_same
      simp: fail_io_def replaced_def split: if_splits elim!: changes_only_bind)

lemma mark_dormant_only: "mark_dormant now d = (r, d') \<Longrightarrow> changes_only (replaced dormant_name) d d'"
  unfolding mark_dormant_def by (rule replace_file_only)

section \<open>Replacing a file by way of a fixed name\<close>

lemma write_whole_Inr: "write_whole n b m d = (Inr (), d') \<Longrightarrow> \<exists>k. lookup d' = (lookup d)(n \<mapsto> Reg b k)"
  by (auto simp: write_whole_def bind_io_def write_file_def flush_file_def
      split: prod.splits sum.splits if_splits list.splits option.splits elim!: call_cases)

lemma write_whole_other: "write_whole n b m d = (r, d') \<Longrightarrow> x \<noteq> n \<Longrightarrow> lookup d' x = lookup d x"
  using write_whole_only [of n b m d r d' "\<lambda>x. x = n"] by (simp add: changes_only_def)

lemma replace_file_target:
  assumes "replace_file name b d = (r, d')"
  shows "(r = Inr () \<longrightarrow> (\<exists>k. lookup d' name = Some (Reg b k))) \<and> (r \<noteq> Inr () \<longrightarrow> lookup d' name = lookup d name)"
proof -
  have nm: "name \<noteq> name @ ''.tmp''" by simp
  obtain q d1 where w: "write_whole (name @ ''.tmp'') b mode_600 d = (q, d1)" by (metis surj_pair)
  have other: "lookup d1 name = lookup d name" using write_whole_other [OF w] nm by blast
  show ?thesis
  proof (cases q)
    case (Inl e)
    then show ?thesis using assms w other by (auto simp: replace_file_def bind_io_def)
  next
    case (Inr u)
    obtain p d2 where n: "rename_file (name @ ''.tmp'') name d1 = (p, d2)" by (metis surj_pair)
    obtain v d3 where m: "remove_file (name @ ''.tmp'') d2 = (v, d3)" by (metis surj_pair)
    obtain k where k: "lookup d1 (name @ ''.tmp'') = Some (Reg b k)"
      using write_whole_Inr [of "name @ ''.tmp''" b mode_600 d d1] w Inr by auto
    have r: "r = (case p of Inl e \<Rightarrow> Inl e | Inr _ \<Rightarrow> Inr ())" "d' = (case p of Inl e \<Rightarrow> d3 | Inr _ \<Rightarrow> d2)"
      using assms w n m Inr by (auto simp: replace_file_def bind_io_def split: sum.splits)
    have "p = Inr () \<longrightarrow> lookup d2 name = Some (Reg b k)" "p \<noteq> Inr () \<longrightarrow> lookup d2 name = lookup d1 name"
      using n k nm by (auto simp: rename_file_def elim!: call_cases split: option.splits if_splits)
    moreover have "lookup d3 name = lookup d2 name" using remove_file_cases [OF m] nm by auto
    ultimately show ?thesis using r other by (cases p) auto
  qed
qed

lemma write_whole_fault_free:
  assumes "fault_free d" and "lookup d n \<noteq> Some Directory"
  shows "\<exists>k d'. write_whole n b m d = (Inr (), d') \<and> fault_free d' \<and> lookup d' = (lookup d)(n \<mapsto> Reg b k)"
  using assms
  by (auto simp: write_whole_def bind_io_def call_fault_free write_file_fault_free flush_file_def)

lemma replace_file_fault_free:
  assumes "fault_free d" and "lookup d name \<noteq> Some Directory" and "lookup d (name @ ''.tmp'') \<noteq> Some Directory"
  shows "\<exists>d' k. replace_file name b d = (Inr (), d') \<and> fault_free d' \<and> lookup d' name = Some (Reg b k) \<and>
    lookup d' (name @ ''.tmp'') = None"
proof -
  obtain k d1 where w: "write_whole (name @ ''.tmp'') b mode_600 d = (Inr (), d1)" "fault_free d1"
    "lookup d1 = (lookup d)(name @ ''.tmp'' \<mapsto> Reg b k)"
    using write_whole_fault_free [OF assms(1,3)] by blast
  have "rename_file (name @ ''.tmp'') name d1 = (Inr (), put_file name (Reg b k) (drop_file (name @ ''.tmp'') d1))"
    using w(2,3) assms(2) by (simp add: rename_file_def call_fault_free)
  then have "replace_file name b d = (Inr (), put_file name (Reg b k) (drop_file (name @ ''.tmp'') d1))"
    using w(1) by (simp add: replace_file_def bind_io_def)
  with w(2) show ?thesis by simp
qed

section \<open>The monitoring configuration on disk\<close>

definition saved_monitoring :: "disk \<Rightarrow> monitoring_config option" where
  "saved_monitoring = stored (\<lambda>b. Option.bind (parse_json b) decode_monitoring) zero_monitoring monitoring_name"

lemma saved_monitoring_cong: "lookup d' monitoring_name = lookup d monitoring_name \<Longrightarrow> saved_monitoring d' = saved_monitoring d"
  unfolding saved_monitoring_def by (rule stored_cong)

lemma write_monitoring_saved:
  assumes "write_monitoring m d = (r, d')"
  shows "saved_monitoring d' = (if r = Inr () then Some m else saved_monitoring d)"
proof (cases "validate_monitoring_config m")
  case (Inl e)
  then show ?thesis using assms by (auto simp: write_monitoring_def bind_io_def)
next
  case (Inr u)
  then show ?thesis
    using assms monitoring_file.save_all_or_nothing [of m mode_600 d r d']
    by (simp add: write_monitoring_def bind_io_def saved_monitoring_def)
qed

lemma write_monitoring_fault_free:
  assumes "fault_free d" and "lookup d monitoring_name \<noteq> Some Directory" and "validate_monitoring_config m = Inr ()"
  shows "\<exists>d'. write_monitoring m d = (Inr (), d') \<and> fault_free d'"
proof -
  obtain d' where "atomic_write monitoring_temp monitoring_name (encode_monitoring m) mode_600 d = (Inr (), d')" "fault_free d'"
    using atomic_write_fault_free [OF assms(1,2), of monitoring_temp "encode_monitoring m" mode_600] by auto
  with assms(3) show ?thesis by (simp add: write_monitoring_def bind_io_def)
qed

lemma load_monitoring_spec:
  assumes "load_monitoring d = (r, d')"
  shows "lookup d' = lookup d \<and> files d' = files d \<and> (\<forall>m. r = Inr m \<longrightarrow> saved_monitoring d = Some m)"
proof -
  obtain q e where q: "read_file monitoring_name d = (q, e)" by (metis surj_pair)
  have e: "d' = e" using assms q by (cases q) (auto simp: load_monitoring_def)
  have "saved_monitoring d = Some m" if "r = Inr m" for m
  proof (cases q)
    case (Inl x)
    then have "x = NotExist" "m = zero_monitoring" using assms q that by (auto simp: load_monitoring_def split: if_splits)
    then show ?thesis using read_file_NotExist [of monitoring_name d e] q Inl by (simp add: saved_monitoring_def stored_def)
  next
    case (Inr b)
    then have "Option.bind (parse_json b) decode_monitoring = Some m"
      using assms q that by (auto simp: load_monitoring_def bind_result_Inr_iff split: option.splits)
    moreover obtain k where "lookup d monitoring_name = Some (Reg b k)" using read_file_Inr [of monitoring_name d b e] q Inr by auto
    ultimately show ?thesis by (simp add: saved_monitoring_def stored_def)
  qed
  with read_file_keeps [OF q] e show ?thesis by simp
qed

section \<open>The telemetry state on disk\<close>

lemma load_telemetry_spec:
  assumes "load_telemetry d = (r, d')"
  shows "lookup d' = lookup d \<and> files d' = files d \<and> (\<forall>s. r = Inr s \<longrightarrow> SyncFamilies s \<noteq> None)"
proof -
  obtain q e where q: "read_file telemetry_name d = (q, e)" by (metis surj_pair)
  have "d' = e" using assms q by (cases q) (auto simp: load_telemetry_def)
  moreover have "SyncFamilies s \<noteq> None" if "r = Inr s" for s
    using assms q that by (cases q) (auto simp: load_telemetry_def empty_sync_def split: if_splits option.splits)
  ultimately show ?thesis using read_file_keeps [OF q] by simp
qed

section \<open>The dormant marker\<close>

definition marked :: "disk \<Rightarrow> bool" where
  "marked d \<longleftrightarrow> (\<exists>b m. lookup d dormant_name = Some (Reg b m))"

lemma is_dormant_spec:
  assumes "is_dormant d = (x, d')"
  shows "lookup d' = lookup d \<and> files d' = files d \<and> (x \<longrightarrow> marked d) \<and> (fault_free d \<longrightarrow> x = marked d \<and> d' = d)"
proof -
  obtain q e where q: "stat_file dormant_name d = (q, e)" by (metis surj_pair)
  have e: "d' = e" and x: "x \<longleftrightarrow> (\<exists>b m. q = Inr (Reg b m))"
    using assms q by (auto simp: is_dormant_def split: sum.splits node.splits)
  have "marked d" if "q = Inr (Reg b m)" for b m
    using q that by (auto simp: stat_file_def marked_def elim!: call_cases split: option.splits)
  moreover have "fault_free d \<Longrightarrow> e = d \<and> (marked d \<longrightarrow> (\<exists>b m. q = Inr (Reg b m)))"
    using q by (auto simp: stat_file_def call_fault_free marked_def)
  ultimately show ?thesis using x e stat_file_keeps [OF q] by blast
qed

lemma mark_dormant_marks:
  assumes "mark_dormant now d = (r, d')"
  shows "(r = Inr () \<longrightarrow> marked d') \<and> (marked d \<longrightarrow> marked d')"
  using replace_file_target [OF assms [unfolded mark_dormant_def]] by (auto simp: marked_def)

lemma marked_cong: "lookup d' dormant_name = lookup d dormant_name \<Longrightarrow> marked d' = marked d"
  by (simp add: marked_def)

end
