(* ===== verification/Queue_Correct.thy ===== *)
theory Queue_Correct
  imports Heartbeat_Queue
begin

text \<open>
  What the offline buffer keeps and promises: the invariant of its directory, the list of
  pending heartbeats a directory stands for, and each operation of
  \<^theory_text>\<open>Heartbeat_Queue\<close> against an abstract buffer that is a list ordered by sequence
  number and a counter of dropped heartbeats.
\<close>

section \<open>The invariant of the directory\<close>

definition good_file :: "string \<Rightarrow> node \<Rightarrow> bool" where
  "good_file n x \<longleftrightarrow> (\<exists>b m. x = Reg b m \<and>
     (n = metadata_name \<and> decode_metadata b \<noteq> None \<or> has_prefix n queue_temp \<or>
      (\<exists>s. s \<noteq> 0 \<and> n = entry_path s \<and> b \<noteq> [])))"

definition queue_files_ok :: "disk \<Rightarrow> bool" where
  "queue_files_ok d \<longleftrightarrow> disk_ok d \<and> (\<forall>n x. lookup d n = Some x \<longrightarrow> good_file n x)"

definition pending :: "disk \<Rightarrow> u64 \<Rightarrow> bytes option" where
  "pending d s = (if s = 0 then None else
     (case lookup d (entry_path s) of Some (Reg b m) \<Rightarrow> Some b | _ \<Rightarrow> None))"

definition dropped_count :: "disk \<Rightarrow> u64 option" where
  "dropped_count d = stored decode_metadata 0 metadata_name d"

definition queue_ok :: "queue \<Rightarrow> bool" where
  "queue_ok q \<longleftrightarrow> queue_files_ok (directory q) \<and> positive_limits (queue_limits q)"

lemma good_file_temp: "has_prefix n queue_temp \<Longrightarrow> good_file n (Reg b m)"
  by (auto simp: good_file_def)

lemma good_file_entry: "s \<noteq> 0 \<Longrightarrow> b \<noteq> [] \<Longrightarrow> good_file (entry_path s) (Reg b m)"
  by (auto simp: good_file_def)

lemma good_file_metadata: "good_file metadata_name (Reg (encode_metadata w) m)"
  by (simp add: good_file_def decode_encode_metadata)

lemma good_file_entryD: "good_file (entry_path s) x \<Longrightarrow> s \<noteq> 0 \<and> (\<exists>b m. x = Reg b m \<and> b \<noteq> [])"
  by (auto simp: good_file_def)

lemma dropped_count_ok: "queue_files_ok d \<Longrightarrow> \<exists>w. dropped_count d = Some w"
  by (fastforce simp: queue_files_ok_def good_file_def dropped_count_def stored_def
      split: option.splits node.splits)

lemma files_ok_keeps: "queue_files_ok d \<Longrightarrow> lookup d' = lookup d \<Longrightarrow> files d' = files d \<Longrightarrow> queue_files_ok d'"
  by (simp add: queue_files_ok_def disk_ok_def)

lemma pending_cong: "lookup d' (entry_path s) = lookup d (entry_path s) \<Longrightarrow> pending d' s = pending d s"
  by (simp add: pending_def)

text \<open>An atomic write of a good file keeps the invariant, whatever fails in it.\<close>

lemma atomic_write_files_ok:
  assumes "atomic_write queue_temp n b m d = (r, d')" and "\<not> has_prefix n queue_temp"
    and "queue_files_ok d" and "good_file n (Reg b m)"
  shows "queue_files_ok d'"
proof -
  have ok: "disk_ok d'" using assms by (meson atomic_write_disk_ok queue_files_ok_def)
  consider (no) t x where "has_prefix t queue_temp" "lookup d' = (lookup d)(t := x)" "x \<noteq> Some Directory"
    | (yes) "lookup d' = (lookup d)(n \<mapsto> Reg b m)"
    using atomic_write_spec [OF assms(1,2)] by (auto simp: upto_temp_def)
  then show ?thesis
  proof cases
    case no
    have "good_file k y" if "lookup d' k = Some y" for k y
    proof (cases "k = t")
      case True
      then show ?thesis using no that by (cases y) (auto intro: good_file_temp)
    qed (use no that assms(3) in \<open>auto simp: queue_files_ok_def\<close>)
    with ok show ?thesis by (simp add: queue_files_ok_def)
  next
    case yes
    then show ?thesis using ok assms(3,4) by (auto simp: queue_files_ok_def)
  qed
qed

section \<open>The entries a directory holds\<close>

definition entry_of :: "(string \<Rightarrow> node option) \<Rightarrow> string \<times> node \<Rightarrow> entry option" where
  "entry_of contents item = (case item of (n, x) \<Rightarrow>
     (if x = Directory then None
      else (case parse_sequence n of
         None \<Rightarrow> None
       | Some s \<Rightarrow> (case contents n of Some (Reg b m) \<Rightarrow> Some \<lparr>Sequence = s, Body = b\<rparr> | _ \<Rightarrow> None))))"

definition pending_list :: "disk \<Rightarrow> entry list" where
  "pending_list d = sort_key Sequence (List.map_filter (entry_of (lookup d)) (sort_key fst (files d)))"

lemma pending_list_cong: "lookup d' = lookup d \<Longrightarrow> files d' = files d \<Longrightarrow> pending_list d' = pending_list d"
  by (simp add: pending_list_def)

lemma collect_entries_keeps:
  "collect_entries items d = (r, d') \<Longrightarrow> lookup d' = lookup d \<and> files d' = files d"
proof (induction items d arbitrary: r d' rule: collect_entries.induct)
  case (2 name item items d)
  show ?case
  proof (cases "item = Directory \<or> parse_sequence name = None")
    case True
    then consider "item = Directory" "collect_entries items d = (r, d')"
      | "item \<noteq> Directory" "parse_sequence name = None" "skipped_name name" "collect_entries items d = (r, d')"
      | "d' = d"
      using "2.prems" by (cases "item = Directory"; cases "skipped_name name") auto
    then show ?thesis using "2.IH"(1,2) by cases blast+
  next
    case False
    then obtain s where s: "parse_sequence name = Some s" by auto
    obtain q d1 where rd: "read_file name d = (q, d1)" by (metis surj_pair)
    obtain q2 d2 where c: "collect_entries items d1 = (q2, d2)" by (metis surj_pair)
    note k1 = read_file_keeps [OF rd]
    show ?thesis
    proof (cases q)
      case (Inl e)
      then show ?thesis using "2.prems" False s rd k1 by (auto simp: bind_io_def)
    next
      case (Inr b)
      then have "lookup d2 = lookup d1 \<and> files d2 = files d1" using "2.IH"(3) False s c by blast
      then show ?thesis using "2.prems" False s rd k1 c Inr
        by (cases q2) (auto simp: bind_io_def return_io_def)
    qed
  qed
qed simp

lemma collect_entries_Inr:
  "collect_entries items d = (Inr es, d') \<Longrightarrow> es = List.map_filter (entry_of (lookup d)) items"
proof (induction items d arbitrary: es d' rule: collect_entries.induct)
  case (2 name item items d)
  show ?case
  proof (cases "item = Directory \<or> parse_sequence name = None")
    case True
    then show ?thesis using "2.prems" "2.IH"(1,2)
      by (cases "item = Directory"; cases "skipped_name name") (auto simp: map_filter_simps entry_of_def)
  next
    case False
    then obtain s where s: "parse_sequence name = Some s" by auto
    with "2.prems" False obtain b d1 rest d2 where rd: "read_file name d = (Inr b, d1)"
      and c: "collect_entries items d1 = (Inr rest, d2)" and es: "es = \<lparr>Sequence = s, Body = b\<rparr> # rest"
      by (auto elim!: bind_io_InrE simp: return_io_def)
    have "rest = List.map_filter (entry_of (lookup d1)) items" using "2.IH"(3) False s c by blast
    moreover have "lookup d1 = lookup d" using read_file_keeps [OF rd] by blast
    moreover have "entry_of (lookup d) (name, item) = Some \<lparr>Sequence = s, Body = b\<rparr>"
      using False s read_file_Inr [OF rd] by (auto simp: entry_of_def)
    ultimately show ?thesis using es by (simp add: map_filter_simps)
  qed
qed (simp add: map_filter_simps)

lemma entries_locked_keeps:
  "entries_locked d = (r, d') \<Longrightarrow> lookup d' = lookup d \<and> files d' = files d"
  unfolding entries_locked_def bind_io_def return_io_def
  using read_dir_keeps [of d] collect_entries_keeps
  by (fastforce split: prod.splits sum.splits)

lemma entries_locked_Inr: "entries_locked d = (Inr es, d') \<Longrightarrow> es = pending_list d"
proof -
  assume "entries_locked d = (Inr es, d')"
  then obtain items d1 es1 where r: "read_dir d = (Inr items, d1)"
    and c: "collect_entries items d1 = (Inr es1, d')" and es: "es = sort_key Sequence es1"
    unfolding entries_locked_def by (auto elim!: bind_io_InrE simp: return_io_def)
  have "lookup d1 = lookup d" using read_dir_keeps [OF r] by blast
  then show ?thesis using es collect_entries_Inr [OF c] read_dir_Inr [OF r] by (simp add: pending_list_def)
qed

lemma collect_entries_fault_free:
  assumes "fault_free d" and "queue_files_ok d" and "set items \<subseteq> set (files d)"
  shows "\<exists>es. collect_entries items d = (Inr es, d)"
  using assms(3)
proof (induction items)
  case (Cons i items)
  obtain n x where i: "i = (n, x)" by (cases i)
  with Cons.prems have l: "lookup d n = Some x" using assms(2) lookup_in_files
    by (auto simp: queue_files_ok_def)
  then obtain b m where x: "x = Reg b m" and g: "good_file n x"
    using assms(2) unfolding queue_files_ok_def good_file_def by blast
  then have "read_file n d = (Inr b, d)" using l assms(1) by (simp add: read_file_def call_fault_free)
  moreover have "parse_sequence n \<noteq> None \<or> skipped_name n"
    using g by (auto simp: good_file_def skipped_name_def parse_sequence_entry_path)
  ultimately show ?case using Cons i x by (auto simp: bind_io_def return_io_def split: option.split)
qed simp

lemma entries_locked_fault_free:
  assumes "fault_free d" and "queue_files_ok d"
  shows "entries_locked d = (Inr (pending_list d), d)"
proof -
  have "read_dir d = (Inr (sort_key fst (files d)), d)"
    using assms(1) by (simp add: read_dir_def call_fault_free)
  moreover obtain es where "collect_entries (sort_key fst (files d)) d = (Inr es, d)"
    using collect_entries_fault_free [OF assms, of "sort_key fst (files d)"] by auto
  ultimately have "entries_locked d = (Inr (sort_key Sequence es), d)"
    by (simp add: entries_locked_def bind_io_def return_io_def)
  then show ?thesis using entries_locked_Inr [of d "sort_key Sequence es" d] by simp
qed

section \<open>The pending list, characterised\<close>

lemma set_map_filter_Some: "y \<in> set (List.map_filter f xs) \<longleftrightarrow> (\<exists>x \<in> set xs. f x = Some y)"
  by (induction xs) (auto simp: map_filter_simps split: option.splits)

lemma entry_of_Some:
  assumes "queue_files_ok d" and "lookup d n = Some x" and "entry_of (lookup d) (n, x) = Some e"
  shows "n = entry_path (Sequence e) \<and> pending d (Sequence e) = Some (Body e)"
proof -
  from assms(2,3) obtain s b m where p: "parse_sequence n = Some s" and x: "x = Reg b m"
    and e: "e = \<lparr>Sequence = s, Body = b\<rparr>"
    by (cases x) (auto simp: entry_of_def split: option.splits)
  have "good_file n x" using assms(1,2) by (simp add: queue_files_ok_def)
  then obtain t where "t \<noteq> 0" and "n = entry_path t"
    using p parse_sequence_temp by (auto simp: good_file_def)
  with p e assms(2) x show ?thesis by (auto simp: parse_sequence_entry_path pending_def)
qed

lemma pending_list_set:
  assumes "queue_files_ok d"
  shows "e \<in> set (pending_list d) \<longleftrightarrow> pending d (Sequence e) = Some (Body e)"
proof -
  have ok: "disk_ok d" using assms by (simp add: queue_files_ok_def)
  have "e \<in> set (pending_list d) \<longleftrightarrow> (\<exists>(n, x) \<in> set (files d). entry_of (lookup d) (n, x) = Some e)"
    by (auto simp: pending_list_def set_map_filter_Some)
  also have "\<dots> \<longleftrightarrow> pending d (Sequence e) = Some (Body e)"
  proof
    assume "\<exists>(n, x) \<in> set (files d). entry_of (lookup d) (n, x) = Some e"
    then show "pending d (Sequence e) = Some (Body e)"
      using entry_of_Some [OF assms] lookup_in_files [OF ok] by blast
  next
    assume a: "pending d (Sequence e) = Some (Body e)"
    then obtain m where l: "lookup d (entry_path (Sequence e)) = Some (Reg (Body e) m)" and "Sequence e \<noteq> 0"
      by (auto simp: pending_def split: if_splits option.splits node.splits)
    then have "entry_of (lookup d) (entry_path (Sequence e), Reg (Body e) m) = Some e"
      by (simp add: entry_of_def parse_sequence_entry_path)
    then show "\<exists>(n, x) \<in> set (files d). entry_of (lookup d) (n, x) = Some e"
      using l lookup_in_files [OF ok] by blast
  qed
  finally show ?thesis .
qed

lemma entries_distinct:
  assumes "queue_files_ok d" and "distinct (map fst items)" and "set items \<subseteq> set (files d)"
  shows "distinct (map Sequence (List.map_filter (entry_of (lookup d)) items))"
  using assms(2,3)
proof (induction items)
  case (Cons i items)
  have ok: "disk_ok d" using assms(1) by (simp add: queue_files_ok_def)
  obtain n x where i: "i = (n, x)" by (cases i)
  have l: "lookup d n = Some x" using Cons.prems i lookup_in_files [OF ok] by auto
  show ?case
  proof (cases "entry_of (lookup d) i")
    case (Some e)
    have "Sequence f \<noteq> Sequence e" if "f \<in> set (List.map_filter (entry_of (lookup d)) items)" for f
    proof
      assume "Sequence f = Sequence e"
      from that obtain k y where k: "(k, y) \<in> set items" "entry_of (lookup d) (k, y) = Some f"
        by (auto simp: set_map_filter_Some)
      then have "lookup d k = Some y" using Cons.prems lookup_in_files [OF ok] by auto
      then have "k = entry_path (Sequence f)" using entry_of_Some [OF assms(1)] k by blast
      moreover have "n = entry_path (Sequence e)" using entry_of_Some [OF assms(1) l] Some i by blast
      ultimately have "n \<in> fst ` set items" using k(1) \<open>Sequence f = Sequence e\<close> by force
      then show False using Cons.prems i by simp
    qed
    then have "Sequence e \<notin> Sequence ` set (List.map_filter (entry_of (lookup d)) items)" by force
    then show ?thesis using Cons Some by (simp add: map_filter_simps)
  qed (use Cons in \<open>simp add: map_filter_simps\<close>)
qed (simp add: map_filter_simps)

lemma pending_list_distinct: "queue_files_ok d \<Longrightarrow> distinct (map Sequence (pending_list d))"
  unfolding pending_list_def distinct_map_sort_key
  by (rule entries_distinct) (auto simp: queue_files_ok_def disk_ok_def)

lemma pending_list_sorted: "sorted (map Sequence (pending_list d))"
  by (simp add: pending_list_def)

lemma pending_list_unique:
  assumes "queue_files_ok d" and "sorted (map Sequence es)" and "distinct (map Sequence es)"
    and "\<And>e. e \<in> set es \<longleftrightarrow> pending d (Sequence e) = Some (Body e)"
  shows "pending_list d = es"
proof (rule map_sorted_distinct_set_unique [where f = Sequence])
  have s: "set (pending_list d) = set es" using pending_list_set [OF assms(1)] assms(4) by blast
  then show "set (pending_list d) = set es" .
  show "inj_on Sequence (set (pending_list d) \<union> set es)" using assms(3) s by (simp add: distinct_map)
qed (use assms(2,3) pending_list_sorted pending_list_distinct [OF assms(1)] in \<open>simp_all add: distinct_map\<close>)

lemma pending_put:
  "lookup d' = (lookup d)(entry_path s \<mapsto> Reg b m) \<Longrightarrow> s \<noteq> 0 \<Longrightarrow> pending d' = (pending d)(s \<mapsto> b)"
  by (auto simp: pending_def fun_eq_iff)

lemma pending_list_put:
  assumes "queue_files_ok d" and "queue_files_ok d'" and "lookup d' = (lookup d)(entry_path (Sequence e) \<mapsto> Reg (Body e) m)"
    and "Sequence e \<noteq> 0" and "pending d (Sequence e) = None"
  shows "pending_list d' = insort_key Sequence e (pending_list d)"
proof (rule pending_list_unique [OF assms(2)])
  have new: "Sequence e \<notin> Sequence ` set (pending_list d)"
    using assms(1,5) by (auto simp: pending_list_set)
  then show "distinct (map Sequence (insort_key Sequence e (pending_list d)))"
    using pending_list_distinct [OF assms(1)] by (auto simp: distinct_map distinct_insort set_insort_key)
  show "sorted (map Sequence (insort_key Sequence e (pending_list d)))"
    by (simp add: sorted_insort_key pending_list_sorted)
  show "f \<in> set (insort_key Sequence e (pending_list d)) \<longleftrightarrow> pending d' (Sequence f) = Some (Body f)" for f
    using pending_put [OF assms(3,4)] pending_list_set [OF assms(1)] assms(5)
    by (cases e; cases f) (auto simp: set_insort_key)
qed

text \<open>Taking the files of the first \<open>k\<close> entries away leaves the others.\<close>

definition without_files :: "string set \<Rightarrow> (string \<Rightarrow> node option) \<Rightarrow> string \<Rightarrow> node option" where
  "without_files ns f = (\<lambda>n. if n \<in> ns then None else f n)"

definition entry_files :: "entry list \<Rightarrow> string set" where
  "entry_files es = (\<lambda>e. entry_path (Sequence e)) ` set es"

lemma files_ok_without:
  "queue_files_ok d \<Longrightarrow> disk_ok d' \<Longrightarrow> lookup d' = without_files ns (lookup d) \<Longrightarrow> queue_files_ok d'"
  by (auto simp: queue_files_ok_def without_files_def)

lemma pending_list_drop:
  assumes "queue_files_ok d" and "queue_files_ok d'"
    and "lookup d' = without_files (entry_files (take k (pending_list d))) (lookup d)"
  shows "pending_list d' = drop k (pending_list d)"
proof (rule pending_list_unique [OF assms(2)])
  let ?es = "pending_list d"
  have d: "distinct (map Sequence ?es)" by (rule pending_list_distinct [OF assms(1)])
  then show "distinct (map Sequence (drop k ?es))" by (simp add: drop_map [symmetric])
  show "sorted (map Sequence (drop k ?es))" by (simp add: drop_map [symmetric] sorted_wrt_drop pending_list_sorted)
  have "distinct (map Sequence (take k ?es) @ map Sequence (drop k ?es))"
    using d by (simp flip: map_append)
  then have dis: "Sequence ` set (take k ?es) \<inter> Sequence ` set (drop k ?es) = {}" by simp
  have un: "set ?es = set (take k ?es) \<union> set (drop k ?es)" by (metis append_take_drop_id set_append)
  fix f :: entry
  have "pending d' (Sequence f) = (if Sequence f \<in> Sequence ` set (take k ?es) then None else pending d (Sequence f))"
    using assms(3) by (auto simp: pending_def without_files_def entry_files_def)
  then show "f \<in> set (drop k ?es) \<longleftrightarrow> pending d' (Sequence f) = Some (Body f)"
    using pending_list_set [OF assms(1), of f] un dis by auto
qed

lemma pending_list_same:
  assumes "queue_files_ok d" and "queue_files_ok d'" and "pending d' = pending d"
  shows "pending_list d' = pending_list d"
  by (rule pending_list_unique [OF assms(2)])
    (simp_all add: pending_list_sorted pending_list_distinct assms pending_list_set)

lemma pending_list_length: "queue_files_ok d \<Longrightarrow> length (pending_list d) < 2 ^ 64"
proof -
  assume ok: "queue_files_ok d"
  have "0 \<notin> Sequence ` set (pending_list d)" by (auto simp: pending_list_set [OF ok] pending_def)
  then have "Sequence ` set (pending_list d) \<subset> (UNIV :: u64 set)" by blast
  then have "card (Sequence ` set (pending_list d)) < card (UNIV :: u64 set)" by (intro psubset_card_mono) auto
  moreover have "card (Sequence ` set (pending_list d)) = length (pending_list d)"
    using pending_list_distinct [OF ok] by (metis distinct_card length_map set_map)
  ultimately show ?thesis by (simp add: card_word)
qed

section \<open>The abstract buffer\<close>

text \<open>Dropping the oldest entries until the limits hold.\<close>

fun trim :: "limits \<Rightarrow> entry list \<Rightarrow> entry list" where
  "trim l [] = []"
| "trim l (e # es) = (if over_limit l (length (e # es)) (total_bytes (e # es)) then trim l es else e # es)"

definition excess :: "limits \<Rightarrow> entry list \<Rightarrow> nat" where
  "excess l es = length es - length (trim l es)"

lemma length_trim: "length (trim l es) \<le> length es"
  by (induction es) auto

lemma excess_le: "excess l es \<le> length es"
  by (simp add: excess_def)

lemma trim_drop: "trim l es = drop (excess l es) es"
  by (induction es) (auto simp: excess_def Suc_diff_le length_trim)

lemma trim_within:
  "positive_limits l \<Longrightarrow> \<not> over_limit l (length (trim l es)) (total_bytes (trim l es))"
  by (induction es) (auto simp: over_limit_def total_bytes_def positive_limits_def)

text \<open>No more is dropped than the limits ask for.\<close>

lemma trim_minimal:
  "k < excess l es \<Longrightarrow> over_limit l (length (drop k es)) (total_bytes (drop k es))"
proof (induction es arbitrary: k)
  case (Cons e es)
  then show ?case using length_trim [of l es]
    by (cases k) (auto simp: excess_def split: if_splits)
qed (simp add: excess_def)

lemma trim_keeps_newest:
  assumes "positive_limits l" and "es \<noteq> []" and "int (length (Body (last es))) \<le> Bytes l"
  shows "trim l es \<noteq> [] \<and> last (trim l es) = last es"
  using assms(2,3)
proof (induction es)
  case (Cons e es)
  then show ?case using assms(1)
    by (cases es) (auto simp: over_limit_def total_bytes_def positive_limits_def)
qed simp

section \<open>The loop that drops\<close>

lemma entry_files_simps [simp]:
  "entry_files [] = {}" "entry_files (e # es) = insert (entry_path (Sequence e)) (entry_files es)"
  by (simp_all add: entry_files_def)

lemma without_none [simp]: "without_files {} f = f"
  by (simp add: without_files_def)

lemma without_insert: "without_files ns (f(n := None)) = without_files (insert n ns) f"
  by (auto simp: without_files_def)

lemma drop_oldest_spec:
  assumes "drop_oldest l es (total_bytes es) dr d = ((n, err), d')"
  shows "\<exists>k \<le> length es. n = dr + of_nat k \<and>
      lookup d' = without_files (entry_files (take k es)) (lookup d) \<and>
      (err = None \<longrightarrow> k = excess l es) \<and> (disk_ok d \<longrightarrow> disk_ok d')"
  using assms
proof (induction es arbitrary: dr d)
  case Nil
  then show ?case by (auto simp: excess_def split: if_splits)
next
  case (Cons e es)
  have tb: "total_bytes (e # es) - int (length (Body e)) = total_bytes es" by (simp add: total_bytes_def)
  show ?case
  proof (cases "over_limit l (length (e # es)) (total_bytes (e # es))")
    case False
    with Cons.prems have "n = dr" and "d' = d" and "err = None" by auto
    with False show ?thesis by (intro exI [of _ 0]) (simp add: excess_def)
  next
    case over: True
    obtain q d1 where r: "remove_file (entry_path (Sequence e)) d = (q, d1)" by (metis surj_pair)
    show ?thesis
    proof (cases q)
      case (Inl x)
      with Cons.prems over r have "n = dr" and "d' = d1" and "err = Some x" by auto
      then show ?thesis using remove_file_Inl [OF r [unfolded Inl]] remove_file_ok [OF r]
        by (intro exI [of _ 0]) simp
    next
      case (Inr u)
      have "drop_oldest l es (total_bytes es) (dr + 1) d1 = ((n, err), d')"
        using Cons.prems over r Inr tb by simp
      then obtain k where k: "k \<le> length es" "n = dr + 1 + of_nat k"
          "lookup d' = without_files (entry_files (take k es)) (lookup d1)"
          "err = None \<longrightarrow> k = excess l es" "disk_ok d1 \<longrightarrow> disk_ok d'"
        using Cons.IH by blast
      have "lookup d1 = (lookup d)(entry_path (Sequence e) := None)" using remove_file_Inr [of _ d d1] r Inr by simp
      moreover have "excess l (e # es) = Suc (excess l es)"
        using over length_trim [of l es] by (simp add: excess_def Suc_diff_le)
      ultimately show ?thesis using k remove_file_ok [OF r]
        by (intro exI [of _ "Suc k"]) (simp add: without_insert)
    qed
  qed
qed

lemma drop_oldest_fault_free:
  assumes "fault_free d" and "positive_limits l" and "distinct (map Sequence es)"
    and "\<forall>e \<in> set es. lookup d (entry_path (Sequence e)) \<noteq> None"
  shows "\<exists>n d'. drop_oldest l es (total_bytes es) dr d = ((n, None), d') \<and> fault_free d'"
  using assms(1,3,4)
proof (induction es arbitrary: dr d)
  case Nil
  then show ?case using assms(2) by (simp add: over_limit_def positive_limits_def total_bytes_def)
next
  case (Cons e es)
  have tb: "total_bytes (e # es) - int (length (Body e)) = total_bytes es" by (simp add: total_bytes_def)
  let ?d1 = "drop_file (entry_path (Sequence e)) d"
  have "remove_file (entry_path (Sequence e)) d = (Inr (), ?d1)"
    using Cons.prems by (auto simp: remove_file_def call_fault_free)
  moreover have "\<exists>n d'. drop_oldest l es (total_bytes es) (dr + 1) ?d1 = ((n, None), d') \<and> fault_free d'"
  proof (rule Cons.IH)
    have n: "Sequence e \<notin> Sequence ` set es" using Cons.prems(2) by simp
    show "\<forall>f \<in> set es. lookup ?d1 (entry_path (Sequence f)) \<noteq> None"
    proof
      fix f :: entry
      assume f: "f \<in> set es"
      with n have "Sequence f \<noteq> Sequence e" by (metis imageI)
      with f Cons.prems(3) show "lookup ?d1 (entry_path (Sequence f)) \<noteq> None" by simp
    qed
  qed (use Cons.prems in auto)
  ultimately show ?case using Cons.prems tb by auto
qed

section \<open>Enforcing the limits\<close>

lemma write_metadata_spec:
  assumes "write_metadata w d = (r, d')" and "queue_files_ok d"
  shows "queue_files_ok d' \<and> pending d' = pending d \<and>
    dropped_count d' = (if r = Inr () then Some w else dropped_count d)"
proof -
  note aw = assms(1) [unfolded write_metadata_def]
  have "lookup d' (entry_path s) = lookup d (entry_path s)" for s
    by (rule atomic_write_other [OF aw]) simp_all
  then have "pending d' = pending d" by (simp add: fun_eq_iff pending_def)
  moreover have "queue_files_ok d'"
    by (rule atomic_write_files_ok [OF aw _ assms(2)]) (simp_all add: good_file_metadata)
  ultimately show ?thesis
    using metadata.save_all_or_nothing [OF aw TrueI] by (simp add: dropped_count_def)
qed

lemma write_metadata_fault_free:
  assumes "fault_free d" and "queue_files_ok d"
  shows "\<exists>d'. write_metadata w d = (Inr (), d') \<and> fault_free d'"
proof -
  have "lookup d metadata_name \<noteq> Some Directory"
    using assms(2) by (auto simp: queue_files_ok_def good_file_def)
  from atomic_write_fault_free [OF assms(1) this metadata_not_temp] show ?thesis
    unfolding write_metadata_def by blast
qed

lemma read_metadata_keeps: "read_metadata d = (r, d') \<Longrightarrow> lookup d' = lookup d \<and> files d' = files d"
  by (auto simp: read_metadata_def dest: load_document_keeps)

lemma read_metadata_Inr: "read_metadata d = (Inr w, d') \<Longrightarrow> dropped_count d = Some w"
  by (auto simp: read_metadata_def dropped_count_def dest: load_document_Inr)

lemma read_metadata_fault_free:
  "fault_free d \<Longrightarrow> dropped_count d = Some w \<Longrightarrow> read_metadata d = (Inr w, d)"
  by (simp add: read_metadata_def dropped_count_def load_document_fault_free)

text \<open>Reading the counter and writing a function of it back.\<close>

definition update_count :: "(u64 \<Rightarrow> u64) \<Rightarrow> disk \<Rightarrow> unit result \<times> disk" where
  "update_count f = bind_io read_metadata (\<lambda>w. write_metadata (f w))"

lemma update_count_spec:
  assumes "update_count f d = (r, d')" and "queue_files_ok d"
  shows "queue_files_ok d' \<and> pending d' = pending d \<and>
    dropped_count d' = (if r = Inr () then map_option f (dropped_count d) else dropped_count d)"
proof -
  obtain q d1 where rd: "read_metadata d = (q, d1)" by (metis surj_pair)
  note k = read_metadata_keeps [OF rd]
  have ok1: "queue_files_ok d1" using files_ok_keeps [OF assms(2)] k by blast
  have same: "pending d1 = pending d" "dropped_count d1 = dropped_count d"
    using k by (simp_all add: fun_eq_iff pending_def dropped_count_def stored_def)
  show ?thesis
  proof (cases q)
    case (Inl e)
    with assms(1) rd ok1 same show ?thesis by (auto simp: update_count_def bind_io_def)
  next
    case (Inr w)
    then have "write_metadata (f w) d1 = (r, d')" using assms(1) rd by (simp add: update_count_def bind_io_def)
    from write_metadata_spec [OF this ok1] read_metadata_Inr rd Inr same show ?thesis by auto
  qed
qed

lemma update_count_fault_free:
  assumes "fault_free d" and "queue_files_ok d"
  shows "\<exists>d'. update_count f d = (Inr (), d') \<and> fault_free d'"
proof -
  obtain w where "dropped_count d = Some w" using dropped_count_ok [OF assms(2)] by blast
  then have "update_count f d = write_metadata (f w) d"
    using read_metadata_fault_free [OF assms(1)] by (simp add: update_count_def bind_io_def)
  with write_metadata_fault_free [OF assms] show ?thesis by simp
qed

lemma count_dropped_update: "count_dropped n = update_count (\<lambda>w. w + n)"
  by (simp add: count_dropped_def update_count_def)

lemma drop_oldest_pending:
  assumes "drop_oldest l (pending_list d) (total_bytes (pending_list d)) 0 d = ((n, err), d')"
    and "queue_files_ok d"
  obtains k where "k \<le> length (pending_list d)" and "n = of_nat k" and "queue_files_ok d'"
    and "pending_list d' = drop k (pending_list d)" and "dropped_count d' = dropped_count d"
    and "err = None \<Longrightarrow> k = excess l (pending_list d)"
proof -
  obtain k where k: "k \<le> length (pending_list d)" "n = of_nat k"
      and l: "lookup d' = without_files (entry_files (take k (pending_list d))) (lookup d)"
      and e: "err = None \<Longrightarrow> k = excess l (pending_list d)" and dk: "disk_ok d'"
    using drop_oldest_spec [OF assms(1)] assms(2) by (auto simp: queue_files_ok_def)
  have ok: "queue_files_ok d'" by (rule files_ok_without [OF assms(2) dk l])
  have "dropped_count d' = dropped_count d"
    unfolding dropped_count_def by (rule stored_cong) (auto simp: l without_files_def entry_files_def)
  with that k e ok pending_list_drop [OF assms(2) ok l] show thesis by blast
qed

text \<open>
  Whatever fails, enforcing the limits keeps the invariant and removes a run of the oldest
  entries; without an error it removes exactly what the limits ask for and counts it.
\<close>

lemma enforce_limits_spec:
  assumes "enforce_limits l (pending_list d) d = ((n, err), d')" and "queue_files_ok d"
  shows "queue_files_ok d' \<and> (\<exists>k. pending_list d' = drop k (pending_list d)) \<and>
    (err = None \<longrightarrow> n = of_nat (excess l (pending_list d)) \<and> pending_list d' = trim l (pending_list d) \<and>
       dropped_count d' = map_option (\<lambda>w. w + n) (dropped_count d))"
proof -
  let ?es = "pending_list d"
  obtain n1 err1 d1 where dr: "drop_oldest l ?es (total_bytes ?es) 0 d = ((n1, err1), d1)" by (metis surj_pair)
  obtain k where k: "k \<le> length ?es" "n1 = of_nat k" and ok1: "queue_files_ok d1"
      and pl: "pending_list d1 = drop k ?es" and dc: "dropped_count d1 = dropped_count d"
      and ex: "err1 = None \<Longrightarrow> k = excess l ?es"
    using drop_oldest_pending [OF dr assms(2)] by blast
  show ?thesis
  proof (cases err1)
    case (Some e)
    with assms(1) dr have "d' = d1" "err = Some e" by (auto simp: enforce_limits_def)
    with ok1 pl show ?thesis by blast
  next
    case None
    have tr: "pending_list d1 = trim l ?es" using pl ex [OF None] trim_drop [of l ?es] by simp
    show ?thesis
    proof (cases "n1 > 0")
      case False
      then have "n1 = 0" by (simp add: word_gt_0)
      with assms(1) dr None have "d' = d1" "err = None" "n = n1" "n1 = 0" by (auto simp: enforce_limits_def)
      moreover have "\<exists>k. pending_list d1 = drop k ?es" using pl by blast
      ultimately show ?thesis using ok1 tr dc k(2) ex [OF None] by (simp add: option.map_ident)
    next
      case True
      obtain q d2 where c: "update_count (\<lambda>w. w + n1) d1 = (q, d2)" by (metis surj_pair)
      have "d' = d2" "n = n1" "err = None \<longleftrightarrow> q = Inr ()"
        using assms(1) dr None True c by (auto simp: enforce_limits_def count_dropped_update split: sum.splits)
      moreover note uc = update_count_spec [OF c ok1]
      moreover have "pending_list d2 = pending_list d1" using uc pending_list_same [OF ok1] by blast
      moreover have "\<exists>k. pending_list d1 = drop k ?es" using pl by blast
      ultimately show ?thesis using tr dc k(2) ex [OF None] by auto
    qed
  qed
qed

lemma enforce_limits_fault_free:
  assumes "fault_free d" and "queue_files_ok d" and "positive_limits l"
  shows "\<exists>n d'. enforce_limits l (pending_list d) d = ((n, None), d') \<and> fault_free d'"
proof -
  let ?es = "pending_list d"
  have "\<forall>e \<in> set ?es. lookup d (entry_path (Sequence e)) \<noteq> None"
    by (auto simp: pending_list_set [OF assms(2)] pending_def split: if_splits option.splits)
  then obtain n d1 where dr: "drop_oldest l ?es (total_bytes ?es) 0 d = ((n, None), d1)" "fault_free d1"
    using drop_oldest_fault_free [OF assms(1,3) pending_list_distinct [OF assms(2)], of 0] by blast
  moreover have "queue_files_ok d1" using drop_oldest_pending [OF dr(1) assms(2)] by blast
  ultimately show ?thesis
    using update_count_fault_free [of d1 "\<lambda>w. w + n"]
    by (cases "n > 0") (auto simp: enforce_limits_def count_dropped_update)
qed

end
