(* ===== verification/Queue_Contract.thy ===== *)
theory Queue_Contract
  imports Queue_Correct
begin

text \<open>
  The offline buffer against its abstract contract: a buffer is a list of entries ordered by
  sequence number, a counter of lost entries and the limits. Without faults every operation of
  \<^theory_text>\<open>Heartbeat_Queue\<close> is the abstract operation seen through \<open>abs_queue\<close>, errors included;
  with arbitrary faults the invariant stays and only the oldest entries can disappear.
\<close>

section \<open>The abstract buffer and its operations\<close>

record buffer =
  Kept :: "entry list"
  Lost :: u64
  Held :: limits

definition abs_queue :: "queue \<Rightarrow> buffer" where
  "abs_queue q = \<lparr>Kept = pending_list (directory q), Lost = the (dropped_count (directory q)),
                  Held = queue_limits q\<rparr>"

definition settle :: "entry list \<Rightarrow> buffer \<Rightarrow> (u64 \<times> error option) \<times> buffer" where
  "settle es b = (let n = of_nat (excess (Held b) es)
     in ((n, None), b\<lparr>Kept := trim (Held b) es, Lost := Lost b + n\<rparr>))"

definition buffer_add :: "entry \<Rightarrow> buffer \<Rightarrow> (u64 \<times> error option) \<times> buffer" where
  "buffer_add e b =
     (if Sequence e = 0 \<or> Body e = [] then ((0, Some (Msg ''buffer entry is invalid'')), b)
      else if int (length (Body e)) > Bytes (Held b)
        then ((0, Some (Msg ''buffer entry exceeds the byte limit'')), b)
      else if Sequence e \<in> set (map Sequence (Kept b))
        then ((0, Some (Msg ''buffer sequence already exists'')), b)
      else settle (insort_key Sequence e (Kept b)) b)"

definition buffer_set_limits :: "limits \<Rightarrow> buffer \<Rightarrow> (u64 \<times> error option) \<times> buffer" where
  "buffer_set_limits l b =
     (if \<not> positive_limits l then ((0, Some (Msg ''buffer limits must be positive'')), b)
      else settle (Kept b) (b\<lparr>Held := l\<rparr>))"

definition buffer_remove :: "u64 \<Rightarrow> buffer \<Rightarrow> buffer" where
  "buffer_remove s b = b\<lparr>Kept := filter (\<lambda>e. Sequence e \<noteq> s) (Kept b)\<rparr>"

section \<open>Counting\<close>

lemma count_update: "queue_files_ok d \<Longrightarrow> dropped_count d' = map_option f (dropped_count d) \<Longrightarrow>
    the (dropped_count d') = f (the (dropped_count d))"
  using dropped_count_ok by fastforce

lemma pending_list_member:
  "queue_files_ok d \<Longrightarrow> s \<noteq> 0 \<Longrightarrow>
   s \<in> set (map Sequence (pending_list d)) \<longleftrightarrow> lookup d (entry_path s) \<noteq> None"
proof
  assume ok: "queue_files_ok d" and s: "s \<noteq> 0" and "s \<in> set (map Sequence (pending_list d))"
  then obtain e where "e \<in> set (pending_list d)" "Sequence e = s" by auto
  then show "lookup d (entry_path s) \<noteq> None"
    using pending_list_set [OF ok, of e] by (auto simp: pending_def split: if_splits option.splits)
next
  assume ok: "queue_files_ok d" and s: "s \<noteq> 0" and "lookup d (entry_path s) \<noteq> None"
  then obtain x where x: "lookup d (entry_path s) = Some x" by auto
  with ok have "good_file (entry_path s) x" by (auto simp: queue_files_ok_def)
  then obtain b m where "x = Reg b m" using good_file_entryD by blast
  then have "pending d s = Some b" using x s by (simp add: pending_def)
  then have "\<lparr>Sequence = s, Body = b\<rparr> \<in> set (pending_list d)" by (simp add: pending_list_set [OF ok])
  then show "s \<in> set (map Sequence (pending_list d))" by force
qed

section \<open>Settling: list, enforce\<close>

text \<open>The second half of \<open>Add\<close> and \<open>SetLimits\<close>: list the entries and enforce the limits.\<close>

definition resettle :: "limits \<Rightarrow> disk \<Rightarrow> (u64 \<times> error option) \<times> disk" where
  "resettle l d = (case entries_locked d of
     (Inl err, d') \<Rightarrow> ((0, Some err), d') | (Inr es, d') \<Rightarrow> enforce_limits l es d')"

lemma resettle_spec:
  assumes "resettle l d = ((n, err), d')" and "queue_files_ok d"
  shows "queue_files_ok d' \<and> (\<exists>k. pending_list d' = drop k (pending_list d)) \<and>
    (err = None \<longrightarrow> n = of_nat (excess l (pending_list d)) \<and> pending_list d' = trim l (pending_list d) \<and>
       dropped_count d' = map_option (\<lambda>w. w + n) (dropped_count d))"
proof -
  obtain q d1 where el: "entries_locked d = (q, d1)" by (metis surj_pair)
  have k: "lookup d1 = lookup d" "files d1 = files d" using entries_locked_keeps [OF el] by auto
  have ok1: "queue_files_ok d1" using files_ok_keeps [OF assms(2)] k by blast
  have pl: "pending_list d1 = pending_list d" using k by (rule pending_list_cong)
  have dc: "dropped_count d1 = dropped_count d" using k by (simp add: dropped_count_def stored_def)
  show ?thesis
  proof (cases q)
    case (Inl e)
    with assms(1) el have "d' = d1" "err = Some e" by (auto simp: resettle_def)
    moreover have "pending_list d1 = drop 0 (pending_list d)" using pl by simp
    ultimately show ?thesis using ok1 by blast
  next
    case (Inr es)
    then have "es = pending_list d1" using entries_locked_Inr el pl by auto
    then have "enforce_limits l (pending_list d1) d1 = ((n, err), d')" using assms(1) el Inr by (simp add: resettle_def)
    from enforce_limits_spec [OF this ok1] show ?thesis by (simp add: pl dc)
  qed
qed

lemma resettle_fault_free:
  assumes "fault_free d" and "queue_files_ok d" and "positive_limits l"
  shows "\<exists>d'. resettle l d = ((of_nat (excess l (pending_list d)), None), d') \<and> fault_free d' \<and>
    queue_files_ok d' \<and> pending_list d' = trim l (pending_list d) \<and>
    the (dropped_count d') = the (dropped_count d) + of_nat (excess l (pending_list d))"
proof -
  have r: "resettle l d = enforce_limits l (pending_list d) d"
    by (simp add: resettle_def entries_locked_fault_free [OF assms(1,2)])
  obtain n d' where e: "enforce_limits l (pending_list d) d = ((n, None), d')" and f: "fault_free d'"
    using enforce_limits_fault_free [OF assms] by blast
  with r have rs: "resettle l d = ((n, None), d')" by simp
  note s = resettle_spec [OF rs assms(2)]
  then have "the (dropped_count d') = the (dropped_count d) + n"
    by (intro count_update [OF assms(2)]) simp
  with s f rs show ?thesis by simp
qed

lemma add_locked_resettle:
  "add_locked l e d =
     (case stat_file (entry_path (Sequence e)) d of
        (Inr _, d1) \<Rightarrow> ((0, Some (Msg ''buffer sequence already exists'')), d1)
      | (Inl err, d1) \<Rightarrow>
          (if err \<noteq> NotExist then ((0, Some err), d1)
           else (case atomic_write queue_temp (entry_path (Sequence e)) (Body e) mode_600 d1 of
              (Inl err, d2) \<Rightarrow> ((0, Some err), d2)
            | (Inr _, d2) \<Rightarrow> resettle l d2)))"
  unfolding add_locked_def resettle_def by (rule refl)

lemma atomic_write_entry:
  assumes "atomic_write queue_temp (entry_path (Sequence e)) (Body e) m d = (r, d')"
    and "queue_files_ok d" and "Sequence e \<noteq> 0" and "Body e \<noteq> []"
    and "lookup d (entry_path (Sequence e)) = None"
  shows "queue_files_ok d' \<and> dropped_count d' = dropped_count d \<and>
    pending_list d' = (if r = Inr () then insort_key Sequence e (pending_list d) else pending_list d)"
proof -
  have ok: "queue_files_ok d'"
    by (rule atomic_write_files_ok [OF assms(1) _ assms(2)]) (simp_all add: assms good_file_entry)
  have "lookup d' metadata_name = lookup d metadata_name"
    by (rule atomic_write_other [OF assms(1)]) simp_all
  then have dc: "dropped_count d' = dropped_count d" unfolding dropped_count_def by (rule stored_cong)
  have pd: "pending d (Sequence e) = None" using assms(5) by (simp add: pending_def)
  have "pending_list d' = (if r = Inr () then insort_key Sequence e (pending_list d) else pending_list d)"
  proof (cases "r = Inr ()")
    case True
    then have "lookup d' = (lookup d)(entry_path (Sequence e) \<mapsto> Reg (Body e) m)"
      using atomic_write_spec [OF assms(1)] by simp
    from pending_list_put [OF assms(2) ok this assms(3) pd] True show ?thesis by simp
  next
    case False
    have "lookup d' (entry_path s) = lookup d (entry_path s)" for s
      using atomic_write_other [OF assms(1), of "entry_path s"] atomic_write_target [OF assms(1)] False
      by (cases "s = Sequence e") simp_all
    then have "pending d' = pending d" by (simp add: fun_eq_iff pending_def)
    with pending_list_same [OF assms(2) ok] False show ?thesis by simp
  qed
  with ok dc show ?thesis by blast
qed


section \<open>Adding an entry\<close>

text \<open>Whatever fails, \<open>Add\<close> keeps the invariant and loses only a run of the oldest entries.\<close>

lemma add_locked_any:
  assumes "add_locked l e d = ((n, err), d')" and "queue_files_ok d" and "Sequence e \<noteq> 0" and "Body e \<noteq> []"
  shows "queue_files_ok d' \<and> (\<exists>k. pending_list d' = drop k (pending_list d) \<or>
      pending_list d' = drop k (insort_key Sequence e (pending_list d))) \<and>
    (err = None \<longrightarrow> Sequence e \<notin> set (map Sequence (pending_list d)) \<and>
       n = of_nat (excess l (insort_key Sequence e (pending_list d))) \<and>
       pending_list d' = trim l (insort_key Sequence e (pending_list d)) \<and>
       dropped_count d' = map_option (\<lambda>w. w + n) (dropped_count d))"
proof -
  obtain q1 d1 where st: "stat_file (entry_path (Sequence e)) d = (q1, d1)" by (metis surj_pair)
  have k1: "lookup d1 = lookup d" "files d1 = files d" using stat_file_keeps [OF st] by auto
  have ok1: "queue_files_ok d1" using files_ok_keeps [OF assms(2)] k1 by blast
  have pl1: "pending_list d1 = pending_list d" using k1 by (rule pending_list_cong)
  have dc1: "dropped_count d1 = dropped_count d" using k1 by (simp add: dropped_count_def stored_def)
  have zero: "pending_list d1 = drop 0 (pending_list d)" using pl1 by simp
  show ?thesis
  proof (cases "q1 = Inl NotExist")
    case False
    with assms(1) st have "d' = d1" "err \<noteq> None" by (auto simp: add_locked_def split: sum.splits if_splits)
    with ok1 zero show ?thesis by blast
  next
    case True
    have new: "lookup d1 (entry_path (Sequence e)) = None" using stat_file_Inl st True k1 by simp
    obtain q2 d2 where aw: "atomic_write queue_temp (entry_path (Sequence e)) (Body e) mode_600 d1 = (q2, d2)"
      by (metis surj_pair)
    note w = atomic_write_entry [OF aw ok1 assms(3,4) new]
    show ?thesis
    proof (cases q2)
      case (Inl x)
      with assms(1) st True aw have "d' = d2" "err \<noteq> None" by (auto simp: add_locked_def)
      moreover have "pending_list d2 = drop 0 (pending_list d)" using w Inl pl1 by simp
      ultimately show ?thesis using w by blast
    next
      case (Inr u)
      then have "resettle l d2 = ((n, err), d')" using assms(1) st True aw by (simp add: add_locked_resettle)
      note r = resettle_spec [OF this]
      have "Sequence e \<notin> set (map Sequence (pending_list d))"
        using pending_list_member [OF assms(2,3)] new k1 by simp
      then show ?thesis using r w Inr pl1 dc1 by simp blast
    qed
  qed
qed

lemma add_locked_fault_free:
  assumes "fault_free d" and "queue_files_ok d" and "positive_limits l" and "Sequence e \<noteq> 0" and "Body e \<noteq> []"
    and "Sequence e \<notin> set (map Sequence (pending_list d))"
  shows "\<exists>n d'. add_locked l e d = ((n, None), d') \<and> fault_free d'"
proof -
  have l: "lookup d (entry_path (Sequence e)) = None"
    using assms(6) pending_list_member [OF assms(2,4)] by simp
  then have st: "stat_file (entry_path (Sequence e)) d = (Inl NotExist, d)"
    using assms(1) by (simp add: stat_file_def call_fault_free)
  have "lookup d (entry_path (Sequence e)) \<noteq> Some Directory" using l by simp
  from atomic_write_fault_free [OF assms(1) this] obtain d2 where
    aw: "atomic_write queue_temp (entry_path (Sequence e)) (Body e) mode_600 d = (Inr (), d2)" and f2: "fault_free d2"
    by (metis entry_path_not_temp)
  have ok2: "queue_files_ok d2" using atomic_write_entry [OF aw assms(2,4,5) l] by blast
  have "add_locked l e d = resettle l d2" by (simp add: add_locked_resettle st aw)
  with resettle_fault_free [OF f2 ok2 assms(3)] show ?thesis by auto
qed

lemma add_locked_exists:
  assumes "fault_free d" and "queue_files_ok d" and "Sequence e \<noteq> 0"
    and "Sequence e \<in> set (map Sequence (pending_list d))"
  shows "add_locked l e d = ((0, Some (Msg ''buffer sequence already exists'')), d)"
proof -
  obtain x where "lookup d (entry_path (Sequence e)) = Some x"
    using assms(4) pending_list_member [OF assms(2,3)] by auto
  then have "stat_file (entry_path (Sequence e)) d = (Inr x, d)"
    using assms(1) by (simp add: stat_file_def call_fault_free)
  then show ?thesis by (simp add: add_locked_def)
qed

lemma lift_disk_unfold: "lift_disk f q = (fst (f (directory q)), q\<lparr>directory := snd (f (directory q))\<rparr>)"
  by (simp add: lift_disk_def split: prod.split)

text \<open>
  C6: without faults, \<open>Add\<close> is the abstract \<open>buffer_add\<close>: it refuses an empty or zero-numbered
  entry, one above the byte limit and a number already queued, and otherwise inserts the entry
  in sequence order and drops the oldest entries until both limits hold, counting them.
\<close>

theorem add_refines:
  assumes "queue_ok q" and "fault_free (directory q)"
  shows "map_prod id abs_queue (add e q) = buffer_add e (abs_queue q)"
proof (cases "(Sequence e = 0 \<or> Body e = []) \<or> int (length (Body e)) > Bytes (queue_limits q)")
  case True
  then show ?thesis by (auto simp: add_def buffer_add_def abs_queue_def)
next
  case False
  let ?d = "directory q" and ?l = "queue_limits q"
  have ok: "queue_files_ok ?d" "positive_limits ?l" using assms(1) by (auto simp: queue_ok_def)
  show ?thesis
  proof (cases "Sequence e \<in> set (map Sequence (pending_list ?d))")
    case True
    then show ?thesis using False add_locked_exists [OF assms(2) ok(1) _ True]
      by (simp add: add_def buffer_add_def abs_queue_def lift_disk_unfold)
  next
    case new: False
    obtain n d' where a: "add_locked ?l e ?d = ((n, None), d')"
      using add_locked_fault_free [OF assms(2) ok _ _ new] False by blast
    note s = add_locked_any [OF a ok(1)]
    then have "the (dropped_count d') = the (dropped_count ?d) + n"
      using False by (intro count_update [OF ok(1)]) simp
    then show ?thesis using False new a s
      by (simp add: add_def buffer_add_def abs_queue_def lift_disk_unfold settle_def Let_def)
  qed
qed

lemma add_any:
  assumes "add e q = ((n, err), q')" and "queue_ok q"
  shows "queue_ok q' \<and>
    (\<exists>k. pending_list (directory q') = drop k (pending_list (directory q)) \<or>
         pending_list (directory q') = drop k (insort_key Sequence e (pending_list (directory q)))) \<and>
    (err = None \<longrightarrow> abs_queue q' = snd (settle (insort_key Sequence e (pending_list (directory q))) (abs_queue q)))"
proof (cases "(Sequence e = 0 \<or> Body e = []) \<or> int (length (Body e)) > Bytes (queue_limits q)")
  case True
  then have q: "q' = q" "err \<noteq> None" using assms(1) by (auto simp: add_def split: if_splits)
  have "pending_list (directory q) = drop 0 (pending_list (directory q))" by simp
  with q assms(2) show ?thesis by blast
next
  case False
  have ok: "queue_files_ok (directory q)" using assms(2) by (simp add: queue_ok_def)
  obtain d' where a: "add_locked (queue_limits q) e (directory q) = ((n, err), d')" and q: "q' = q\<lparr>directory := d'\<rparr>"
    using assms(1) False by (cases "add_locked (queue_limits q) e (directory q)") (auto simp: add_def lift_disk_unfold)
  note s = add_locked_any [OF a ok]
  have "err = None \<Longrightarrow> the (dropped_count d') = the (dropped_count (directory q)) + n"
    using s False by (intro count_update [OF ok]) simp
  then show ?thesis using s False assms(2) q by (auto simp: queue_ok_def abs_queue_def settle_def Let_def)
qed

text \<open>
  C5: whatever the file system fails, \<open>Add\<close> keeps the directory well formed, and afterwards the
  buffer holds either the old entries or the old entries and the new one, less a run of the
  oldest; an \<open>Add\<close> that returns no error has stored the entry, trimmed to the limits and
  counted every entry it dropped.
\<close>

theorem add_crash_safe:
  assumes "add e q = ((n, err), q')" and "queue_ok q"
  shows "queue_ok q' \<and>
    (\<exists>k. pending_list (directory q') = drop k (pending_list (directory q)) \<or>
         pending_list (directory q') = drop k (insort_key Sequence e (pending_list (directory q)))) \<and>
    (err = None \<longrightarrow> abs_queue q' = snd (settle (insort_key Sequence e (pending_list (directory q))) (abs_queue q)))"
  by (rule add_any [OF assms])

text \<open>A queue to run the theorems on: an empty directory, two samples at most.\<close>

definition sample_queue :: queue where
  "sample_queue = \<lparr>directory = \<lparr>files = [], faults = [], seeds = []\<rparr>,
                   queue_limits = \<lparr>Samples = 2, Bytes = 100\<rparr>\<rparr>"

lemma sample_queue_ok: "queue_ok sample_queue" "fault_free (directory sample_queue)"
    "pending_list (directory sample_queue) = []"
  by (simp_all add: sample_queue_def queue_ok_def queue_files_ok_def disk_ok_def lookup_def
      positive_limits_def fault_free_def pending_list_def map_filter_simps)

lemma add_refines_witness:
  "map_prod id abs_queue (add \<lparr>Sequence = 1, Body = ''x''\<rparr> sample_queue)
     = buffer_add \<lparr>Sequence = 1, Body = ''x''\<rparr> (abs_queue sample_queue)"
  by (rule add_refines [OF sample_queue_ok(1,2)])

lemma add_crash_safe_witness:
  "queue_ok (snd (add \<lparr>Sequence = 1, Body = ''x''\<rparr> sample_queue))"
  using add_crash_safe [of "\<lparr>Sequence = 1, Body = ''x''\<rparr>" sample_queue] sample_queue_ok(1)
  by (metis surj_pair snd_conv)

section \<open>The other operations\<close>

lemma set_limits_resettle:
  "set_limits l q =
     (if \<not> positive_limits l then ((0, Some (Msg ''buffer limits must be positive'')), q)
      else lift_disk (resettle l) (q\<lparr>queue_limits := l\<rparr>))"
  unfolding set_limits_def resettle_def by (rule refl)

text \<open>
  Without faults, \<open>SetLimits\<close> is the abstract operation: limits below one are refused and
  change nothing; others take effect at once, dropping and counting the oldest entries.
\<close>

theorem set_limits_refines:
  assumes "queue_ok q" and "fault_free (directory q)"
  shows "map_prod id abs_queue (set_limits l q) = buffer_set_limits l (abs_queue q)"
proof (cases "positive_limits l")
  case False
  then show ?thesis by (simp add: set_limits_def buffer_set_limits_def)
next
  case True
  have ok: "queue_files_ok (directory q)" using assms(1) by (simp add: queue_ok_def)
  from resettle_fault_free [OF assms(2) ok True] True show ?thesis
    by (auto simp: set_limits_resettle buffer_set_limits_def lift_disk_unfold abs_queue_def settle_def Let_def)
qed

lemma set_limits_refines_witness:
  "map_prod id abs_queue (set_limits \<lparr>Samples = 1, Bytes = 5\<rparr> sample_queue)
     = buffer_set_limits \<lparr>Samples = 1, Bytes = 5\<rparr> (abs_queue sample_queue)"
  by (rule set_limits_refines [OF sample_queue_ok(1,2)])

lemma set_limits_ok: "queue_ok q \<Longrightarrow> set_limits l q = ((n, err), q') \<Longrightarrow> queue_ok q'"
  using resettle_spec [of l "directory q"]
  by (cases "resettle l (directory q)")
    (auto simp: set_limits_resettle lift_disk_unfold queue_ok_def split: if_splits)

lemma remove_locked_any:
  assumes "remove_locked s d = (r, d')" and "queue_files_ok d" and "s \<noteq> 0"
  shows "queue_files_ok d' \<and> dropped_count d' = dropped_count d \<and>
    (pending_list d' = pending_list d \<or> pending_list d' = filter (\<lambda>e. Sequence e \<noteq> s) (pending_list d)) \<and>
    (r = Inr () \<longrightarrow> pending_list d' = filter (\<lambda>e. Sequence e \<noteq> s) (pending_list d))"
proof -
  obtain q d1 where rm: "remove_file (entry_path s) d = (q, d1)" by (metis surj_pair)
  have d: "d' = d1" and r: "r = Inr () \<longleftrightarrow> q = Inr () \<or> q = Inl NotExist"
    using assms(1) rm by (auto simp: remove_locked_def split: sum.splits if_splits)
  have dk: "disk_ok d1" using remove_file_ok [OF rm] assms(2) by (simp add: queue_files_ok_def)
  have lk: "lookup d1 = lookup d \<or> lookup d1 = without_files {entry_path s} (lookup d)"
    using remove_file_cases [OF rm] by (auto simp: without_files_def fun_eq_iff)
  have ok: "queue_files_ok d1"
  proof (cases "lookup d1 = lookup d")
    case True
    with dk assms(2) show ?thesis by (simp add: queue_files_ok_def)
  qed (use lk files_ok_without [OF assms(2) dk] in blast)
  have dc: "dropped_count d1 = dropped_count d"
    unfolding dropped_count_def using lk by (intro stored_cong) (auto simp: without_files_def)
  have gone: "pending_list d1 = filter (\<lambda>e. Sequence e \<noteq> s) (pending_list d)"
    if w: "lookup d1 (entry_path s) = None"
  proof (rule pending_list_unique [OF ok])
    show "sorted (map Sequence (filter (\<lambda>e. Sequence e \<noteq> s) (pending_list d)))"
      by (rule sorted_filter) (rule pending_list_sorted)
    show "distinct (map Sequence (filter (\<lambda>e. Sequence e \<noteq> s) (pending_list d)))"
      by (rule distinct_map_filter) (rule pending_list_distinct [OF assms(2)])
    have "pending d1 t = (if t = s then None else pending d t)" for t
      using lk w by (auto simp: pending_def without_files_def)
    then show "f \<in> set (filter (\<lambda>e. Sequence e \<noteq> s) (pending_list d)) \<longleftrightarrow> pending d1 (Sequence f) = Some (Body f)" for f
      by (simp add: pending_list_set [OF assms(2)])
  qed
  have "pending_list d1 = pending_list d" if "lookup d1 = lookup d"
    using that by (intro pending_list_same [OF assms(2) ok]) (simp add: fun_eq_iff pending_def)
  moreover have "lookup d1 (entry_path s) = None" if "r = Inr ()"
    using that r rm remove_file_Inr [of "entry_path s" d d1] remove_file_Inl [of "entry_path s" d NotExist d1]
    by (metis fun_upd_same)
  moreover have "lookup d1 (entry_path s) = None" if "lookup d1 \<noteq> lookup d"
    using that lk by (simp add: without_files_def)
  ultimately show ?thesis using ok dc gone unfolding d by blast
qed

lemma remove_ok:
  assumes "remove s q = (r, q')" and "queue_ok q" and "s \<noteq> 0"
  shows "queue_ok q' \<and> Lost (abs_queue q') = Lost (abs_queue q) \<and> Held (abs_queue q') = Held (abs_queue q) \<and>
    (Kept (abs_queue q') = Kept (abs_queue q) \<or> abs_queue q' = buffer_remove s (abs_queue q)) \<and>
    (r = Inr () \<longrightarrow> abs_queue q' = buffer_remove s (abs_queue q))"
proof -
  obtain d' where "remove_locked s (directory q) = (r, d')" and "q' = q\<lparr>directory := d'\<rparr>"
    using assms(1) by (cases "remove_locked s (directory q)") (auto simp: remove_def lift_disk_unfold)
  with remove_locked_any [of s "directory q" r d'] assms(2,3) show ?thesis
    by (auto simp: queue_ok_def abs_queue_def buffer_remove_def)
qed

lemma remove_fault_free:
  assumes "queue_ok q" and "fault_free (directory q)" and "s \<noteq> 0"
  shows "\<exists>q'. remove s q = (Inr (), q') \<and> fault_free (directory q')"
  using assms
  by (cases "lookup (directory q) (entry_path s)")
    (auto simp: remove_def lift_disk_unfold remove_locked_def remove_file_def call_fault_free)

text \<open>
  Without faults, \<open>Entries\<close> returns the queued entries in sequence order and changes nothing,
  and \<open>Remove\<close> takes exactly the entry of that sequence number out, succeeding also when there
  is none.
\<close>

theorem entries_and_remove_refine:
  assumes "queue_ok q" and "fault_free (directory q)" and "s \<noteq> 0"
  shows "entries q = (Inr (Kept (abs_queue q)), q) \<and> sorted (map Sequence (Kept (abs_queue q))) \<and>
    distinct (map Sequence (Kept (abs_queue q))) \<and>
    map_prod id abs_queue (remove s q) = (Inr (), buffer_remove s (abs_queue q))"
proof -
  have ok: "queue_files_ok (directory q)" using assms(1) by (simp add: queue_ok_def)
  have "entries q = (Inr (Kept (abs_queue q)), q)"
    by (simp add: entries_def lift_disk_unfold entries_locked_fault_free [OF assms(2) ok] abs_queue_def)
  moreover obtain q' where r: "remove s q = (Inr (), q')" using remove_fault_free [OF assms] by blast
  moreover have "abs_queue q' = buffer_remove s (abs_queue q)" using remove_ok [OF r assms(1,3)] by blast
  moreover have "Kept (abs_queue q) = pending_list (directory q)" by (simp add: abs_queue_def)
  ultimately show ?thesis
    using pending_list_sorted pending_list_distinct [OF ok] by simp
qed

lemma entries_and_remove_refine_witness:
  "entries sample_queue = (Inr [], sample_queue) \<and> fst (remove 7 sample_queue) = Inr ()"
  using entries_and_remove_refine [OF sample_queue_ok(1,2), of 7]
  by (cases "remove 7 sample_queue") (simp add: abs_queue_def sample_queue_ok(3))

section \<open>The counter of lost entries\<close>

lemma acknowledge_update:
  "acknowledge_dropped n q = (if n = 0 then (Inr (), q) else lift_disk (update_count (acknowledged n)) q)"
  by (simp add: acknowledge_dropped_def update_count_def)

lemma acknowledged_unat: "unat (acknowledged n v) = unat v - unat n"
  by (auto simp: acknowledged_def word_le_nat_alt unat_sub)

lemma acknowledge_ok:
  assumes "acknowledge_dropped n q = (r, q')" and "queue_ok q"
  shows "queue_ok q' \<and> Kept (abs_queue q') = Kept (abs_queue q) \<and> Held (abs_queue q') = Held (abs_queue q) \<and>
    Lost (abs_queue q') = (if r = Inr () then acknowledged n (Lost (abs_queue q)) else Lost (abs_queue q))"
proof (cases "n = 0")
  case True
  then show ?thesis using assms by (auto simp: acknowledge_dropped_def acknowledged_def)
next
  case False
  obtain d' where u: "update_count (acknowledged n) (directory q) = (r, d')" and q: "q' = q\<lparr>directory := d'\<rparr>"
    using assms(1) False by (cases "update_count (acknowledged n) (directory q)") (auto simp: acknowledge_update lift_disk_unfold)
  have ok: "queue_files_ok (directory q)" using assms(2) by (simp add: queue_ok_def)
  note s = update_count_spec [OF u ok]
  have "pending_list d' = pending_list (directory q)" using s pending_list_same [OF ok] by blast
  moreover have "r = Inr () \<Longrightarrow> the (dropped_count d') = acknowledged n (the (dropped_count (directory q)))"
    using s by (intro count_update [OF ok]) simp
  ultimately show ?thesis using s assms(2) q by (auto simp: queue_ok_def abs_queue_def)
qed

text \<open>
  The dropped counter, whatever fails: \<open>AcknowledgeDropped n\<close> either fails and leaves the
  counter as it was, or subtracts \<open>n\<close> from it, stopping at zero instead of wrapping around; the
  queued entries are not touched. Reading the counter afterwards, without faults, returns it.
\<close>

theorem acknowledge_saturates:
  assumes "acknowledge_dropped n q = (r, q')" and "queue_ok q"
  shows "queue_ok q' \<and> Kept (abs_queue q') = Kept (abs_queue q) \<and>
    unat (Lost (abs_queue q')) = unat (Lost (abs_queue q)) - (if r = Inr () then unat n else 0) \<and>
    (fault_free (directory q') \<longrightarrow> dropped q' = (Inr (Lost (abs_queue q')), q'))"
proof -
  note s = acknowledge_ok [OF assms]
  then obtain w where "dropped_count (directory q') = Some w"
    using dropped_count_ok [of "directory q'"] by (auto simp: queue_ok_def)
  then have "fault_free (directory q') \<Longrightarrow> dropped q' = (Inr (Lost (abs_queue q')), q')"
    by (simp add: dropped_def lift_disk_unfold read_metadata_fault_free abs_queue_def)
  with s show ?thesis by (simp add: acknowledged_unat)
qed

lemma acknowledge_saturates_witness:
  "Kept (abs_queue (snd (acknowledge_dropped 3 sample_queue))) = Kept (abs_queue sample_queue)"
  using acknowledge_saturates [OF _ sample_queue_ok(1), of 3] by (metis surj_pair snd_conv)

section \<open>Bounds\<close>

text \<open>
  C19: after an \<open>Add\<close> that returned no error, whatever failed before, the queue is what remains of the old
  entries and the new one in sequence order when the oldest few are taken off: with what remains both limits
  hold, with any one fewer taken off a limit is exceeded, and exactly those taken off are counted as lost. If
  the new entry has the highest sequence number it is among what remains.
\<close>

theorem add_bounds:
  assumes "add e q = ((n, None), q')" and "queue_ok q"
  defines "es \<equiv> insort_key Sequence e (Kept (abs_queue q))"
  shows "\<exists>j \<le> length es. Kept (abs_queue q') = drop j es \<and>
    int (length (drop j es)) \<le> Samples (queue_limits q) \<and> total_bytes (drop j es) \<le> Bytes (queue_limits q) \<and>
    (\<forall>k < j. Samples (queue_limits q) < int (length (drop k es)) \<or> Bytes (queue_limits q) < total_bytes (drop k es)) \<and>
    Lost (abs_queue q') = Lost (abs_queue q) + of_nat j \<and>
    ((\<forall>f \<in> set (Kept (abs_queue q)). Sequence f < Sequence e) \<longrightarrow> e \<in> set (Kept (abs_queue q')))"
proof -
  let ?l = "queue_limits q"
  have pos: "positive_limits ?l" using assms(2) by (simp add: queue_ok_def)
  have small: "int (length (Body e)) \<le> Bytes ?l" using assms(1) by (auto simp: add_def split: if_splits)
  have kept: "Kept (abs_queue q') = trim ?l es" and lost: "Lost (abs_queue q') = Lost (abs_queue q) + of_nat (excess ?l es)"
    using add_any [OF assms(1,2)] by (simp_all add: es_def settle_def abs_queue_def Let_def)
  have "e \<in> set (trim ?l es)" if "\<forall>f \<in> set (Kept (abs_queue q)). Sequence f < Sequence e"
  proof -
    have "es = Kept (abs_queue q) @ [e]"
      unfolding es_def using that by (rule insort_key_snoc)
    with small trim_keeps_newest [OF pos, of es] show ?thesis by (metis last_in_set last_snoc snoc_eq_iff_butlast)
  qed
  moreover have "Samples ?l < int (length (drop k es)) \<or> Bytes ?l < total_bytes (drop k es)" if "k < excess ?l es" for k
    using trim_minimal [OF that] by (simp add: over_limit_def)
  moreover have "int (length (trim ?l es)) \<le> Samples ?l" "total_bytes (trim ?l es) \<le> Bytes ?l"
    using trim_within [OF pos, of es] by (simp_all add: over_limit_def)
  ultimately show ?thesis
    using kept lost by (intro exI [of _ "excess ?l es"]) (simp add: excess_le trim_drop [symmetric])
qed

lemma sample_queue_add:
  "\<exists>n q'. add \<lparr>Sequence = 1, Body = ''x''\<rparr> sample_queue = ((n, None), q')"
proof -
  let ?e = "\<lparr>Sequence = 1, Body = ''x''\<rparr>" and ?l = "queue_limits sample_queue"
  obtain n d where "add_locked ?l ?e (directory sample_queue) = ((n, None), d)"
    using add_locked_fault_free [OF sample_queue_ok(2), of ?l ?e] sample_queue_ok
    by (auto simp: queue_ok_def)
  then show ?thesis by (simp add: add_def lift_disk_unfold) (simp add: sample_queue_def)
qed

lemma add_bounds_witness:
  "\<exists>n q'. add \<lparr>Sequence = 1, Body = ''x''\<rparr> sample_queue = ((n, None), q') \<and>
     \<lparr>Sequence = 1, Body = ''x''\<rparr> \<in> set (Kept (abs_queue q')) \<and> int (length (Kept (abs_queue q'))) \<le> 2"
proof -
  obtain n q' where a: "add \<lparr>Sequence = 1, Body = ''x''\<rparr> sample_queue = ((n, None), q')"
    using sample_queue_add by blast
  have "Kept (abs_queue sample_queue) = []" by (simp add: abs_queue_def sample_queue_ok(3))
  with add_bounds [OF a sample_queue_ok(1)]
  have "int (length (Kept (abs_queue q'))) \<le> Samples (queue_limits sample_queue)" "\<lparr>Sequence = 1, Body = ''x''\<rparr> \<in> set (Kept (abs_queue q'))"
    by auto
  with a show ?thesis by (simp add: sample_queue_def)
qed

section \<open>Opening the directory again\<close>

lemma collect_entries_known:
  "collect_entries items d = (Inr es, d') \<Longrightarrow> (n, x) \<in> set items \<Longrightarrow>
   x = Directory \<or> parse_sequence n \<noteq> None \<or> skipped_name n"
proof (induction items d arbitrary: es d' rule: collect_entries.induct)
  case (2 name item items d)
  show ?case
  proof (cases "item = Directory \<or> parse_sequence name = None")
    case True
    then show ?thesis using "2.prems" "2.IH"(1,2)
      by (cases "item = Directory"; cases "skipped_name name") auto
  next
    case False
    then obtain s where s: "parse_sequence name = Some s" by auto
    with "2.prems"(1) False obtain d1 rest d2 where "collect_entries items d1 = (Inr rest, d2)"
      by (auto elim!: bind_io_InrE)
    with "2.IH"(3) False s "2.prems"(2) show ?thesis by auto
  qed
qed simp

lemma entries_locked_known:
  assumes "entries_locked d = (Inr es, d')" and "(n, x) \<in> set (files d)"
  shows "x = Directory \<or> parse_sequence n \<noteq> None \<or> skipped_name n"
proof -
  obtain items d1 es1 where r: "read_dir d = (Inr items, d1)" and c: "collect_entries items d1 = (Inr es1, d')"
    using assms(1) unfolding entries_locked_def by (auto elim!: bind_io_InrE simp: return_io_def)
  have "(n, x) \<in> set items" using read_dir_Inr [OF r] assms(2) by simp
  with collect_entries_known [OF c] show ?thesis by blast
qed

text \<open>
  C33: a restart loses nothing: on a well-formed directory, without faults, \<open>Open\<close> with positive
  limits gives a well-formed queue with the entries and the dropped counter of the files, and
  changes no file; whatever the file system does, limits below one are refused, and so is a
  directory that holds a regular file the buffer does not know.
\<close>

theorem open_restores:
  "(fault_free d \<and> queue_files_ok d \<and> positive_limits l \<longrightarrow>
      open_queue d l = (Inr \<lparr>directory = d, queue_limits = l\<rparr>, d) \<and> queue_ok \<lparr>directory = d, queue_limits = l\<rparr>) \<and>
   (\<not> positive_limits l \<longrightarrow> open_queue d l = (Inl (Msg ''buffer limits must be positive''), d)) \<and>
   ((n, Reg b m) \<in> set (files d) \<and> parse_sequence n = None \<and> \<not> skipped_name n \<longrightarrow>
      (\<exists>err. fst (open_queue d l) = Inl err))"
proof -
  have "\<exists>err. fst (open_queue d l) = Inl err"
    if "(n, Reg b m) \<in> set (files d)" "parse_sequence n = None" "\<not> skipped_name n"
  proof (rule ccontr)
    assume "\<nexists>err. fst (open_queue d l) = Inl err"
    then obtain es d' where "bind_io make_directory (\<lambda>_. bind_io chmod_directory (\<lambda>_. entries_locked)) d = (Inr es, d')"
      by (auto simp: open_queue_def split: if_splits prod.splits sum.splits)
    then obtain u1 d1 u2 d2 where "make_directory d = (Inr u1, d1)" "chmod_directory d1 = (Inr u2, d2)"
      and l: "entries_locked d2 = (Inr es, d')" by (auto elim!: bind_io_InrE)
    then have "files d2 = files d" using make_directory_keeps chmod_directory_keeps by metis
    with entries_locked_known [OF l, of n "Reg b m"] that show False by simp
  qed
  moreover have "make_directory d = (Inr (), d)" "chmod_directory d = (Inr (), d)" if "fault_free d"
    using that by (simp_all add: make_directory_def chmod_directory_def call_fault_free)
  ultimately show ?thesis using entries_locked_fault_free [of d] by (auto simp: open_queue_def queue_ok_def)
qed

lemma open_restores_witness:
  "open_queue (directory sample_queue) \<lparr>Samples = 2, Bytes = 100\<rparr> = (Inr sample_queue, directory sample_queue) \<and>
   (\<exists>err. fst (open_queue \<lparr>files = [(''notes.txt'', Reg ''x'' 420)], faults = [], seeds = []\<rparr>
      \<lparr>Samples = 2, Bytes = 100\<rparr>) = Inl err)"
proof
  have q: "\<lparr>directory = directory sample_queue, queue_limits = \<lparr>Samples = 2, Bytes = 100\<rparr>\<rparr> = sample_queue"
    by (simp add: sample_queue_def)
  show "open_queue (directory sample_queue) \<lparr>Samples = 2, Bytes = 100\<rparr> = (Inr sample_queue, directory sample_queue)"
    using open_restores [of "directory sample_queue" "\<lparr>Samples = 2, Bytes = 100\<rparr>"] sample_queue_ok(1,2)
    by (simp add: q queue_ok_def positive_limits_def)
  have "parse_sequence ''notes.txt'' = None" and "\<not> skipped_name ''notes.txt''" by code_simp+
  with open_restores [of _ _ "''notes.txt''" "''x''" 420]
  show "\<exists>err. fst (open_queue \<lparr>files = [(''notes.txt'', Reg ''x'' 420)], faults = [], seeds = []\<rparr>
      \<lparr>Samples = 2, Bytes = 100\<rparr>) = Inl err"
    by simp
qed

end
