(* ===== verification/Agent_Correct.thy ===== *)
theory Agent_Correct
  imports Agent_Files Queue_Contract
begin

text \<open>
  The invariant of the running agent: the identity, the buffer, the telemetry state, the monitoring
  configuration and their files agree, whichever file operation, request or answer goes wrong.
  The locale \<open>progress\<close> is the contract of the operations: each keeps the invariant and only moves
  the state forward.
\<close>

section \<open>Operations that only move forward\<close>

definition advances :: "('s \<Rightarrow> bool) \<Rightarrow> ('s \<Rightarrow> 's \<Rightarrow> bool) \<Rightarrow> ('s \<Rightarrow> 'a \<times> 's) \<Rightarrow> 's \<Rightarrow> bool" where
  "advances good moves f s \<longleftrightarrow> good (snd (f s)) \<and> moves s (snd (f s))"

locale progress =
  fixes good :: "'s \<Rightarrow> bool" and moves :: "'s \<Rightarrow> 's \<Rightarrow> bool"
  assumes moves_refl: "moves s s"
    and moves_trans: "moves s t \<Longrightarrow> moves t u \<Longrightarrow> moves s u"
begin

lemma advances_same: "good s \<Longrightarrow> snd (f s) = s \<Longrightarrow> advances good moves f s"
  by (simp add: advances_def moves_refl)

lemma advances_bind:
  assumes "advances good moves m s"
    and "\<And>x t. m s = (Inr x, t) \<Longrightarrow> good t \<Longrightarrow> moves s t \<Longrightarrow> advances good moves (f x) t"
  shows "advances good moves (bind_io m f) s"
proof -
  obtain r t where rt: "m s = (r, t)" by (metis surj_pair)
  with assms(1) have t: "good t" "moves s t" by (simp_all add: advances_def)
  show ?thesis
    using assms(2) [OF _ t] rt t moves_trans [OF t(2)] by (cases r) (auto simp: advances_def)
qed

lemma advances_then:
  assumes "advances good moves m s" and "m s = (r, t)" and "advances good moves f t"
  shows "good (snd (f t)) \<and> moves s (snd (f t))"
  using assms moves_trans by (auto simp: advances_def)

lemma advances_steps:
  assumes "good s" and "\<And>t x. good t \<Longrightarrow> x \<in> set xs \<Longrightarrow> advances good moves (step x) t"
  shows "good (fold (\<lambda>x t. snd (step x t)) xs s) \<and> moves s (fold (\<lambda>x t. snd (step x t)) xs s)"
  using assms
proof (induction xs arbitrary: s)
  case (Cons x xs)
  have x: "good (snd (step x s))" "moves s (snd (step x s))" using Cons.prems by (auto simp: advances_def)
  with Cons.IH [OF x(1)] Cons.prems(2) moves_trans show ?case by fastforce
qed (simp add: moves_refl)

lemma advances_star:
  assumes "rel\<^sup>*\<^sup>* s t" and "good s" and "\<And>s t. rel s t \<Longrightarrow> good s \<Longrightarrow> good t \<and> moves s t"
  shows "good t \<and> moves s t"
  using assms by (induction rule: rtranclp_induct) (auto intro: moves_refl moves_trans)

end

section \<open>The invariant\<close>

definition held_identity :: "'w agent \<Rightarrow> agent_identity" where
  "held_identity a = (Some (fst (Device a)), snd (Device a))"

definition waiting :: "'w agent \<Rightarrow> entry list" where
  "waiting a = pending_list (directory (Buffer a))"

definition agent_ok :: "'w agent \<Rightarrow> bool" where
  "agent_ok a \<longleftrightarrow> identity_good (held_identity a) \<and> queue_ok (Buffer a) \<and>
     (\<forall>e \<in> set (waiting a). Sequence e \<le> sequence (fst (Device a))) \<and>
     SyncFamilies (Telemetry a) \<noteq> None \<and> saved_monitoring (snd (Device a)) = Some (Monitoring a)"

definition agent_moves :: "'w agent \<Rightarrow> 'w agent \<Rightarrow> bool" where
  "agent_moves a b \<longleftrightarrow> sequence (fst (Device a)) \<le> sequence (fst (Device b)) \<and>
     privateKey (fst (Device b)) = privateKey (fst (Device a)) \<and>
     MonRevision (Monitoring a) \<le> MonRevision (Monitoring b) \<and>
     (marked (snd (Device a)) \<longrightarrow> marked (snd (Device b)))"

interpretation agents: progress agent_ok agent_moves
  by unfold_locales (auto simp: agent_moves_def)

abbreviation agent_advances :: "('w agent \<Rightarrow> 'a \<times> 'w agent) \<Rightarrow> 'w agent \<Rightarrow> bool" where
  "agent_advances \<equiv> advances agent_ok agent_moves"

lemma identity_good_cong:
  "lookup d' identity_name = lookup d identity_name \<Longrightarrow> identity_good (m, d') = identity_good (m, d)"
  using durable_cong [of d' d] by (cases m) (simp_all add: identity_good_def)

lemma agent_outside [simp]:
  "agent_ok (a\<lparr>Outside := w\<rparr>) = agent_ok a" "agent_moves a (a\<lparr>Outside := w\<rparr>)"
  by (simp_all add: agent_ok_def agent_moves_def held_identity_def waiting_def)

section \<open>Effects on one part of the state\<close>

lemma advances_outside: "agent_ok a \<Longrightarrow> agent_advances (on_outside f) a"
  by (simp add: advances_def on_outside_def split: prod.split)

lemma advances_pure: "agent_ok a \<Longrightarrow> agent_advances (pure_io r) a"
  by (rule agents.advances_same) (simp_all add: pure_io_def)

lemma advances_return: "agent_ok a \<Longrightarrow> agent_advances (return_io x) a"
  by (rule agents.advances_same) (simp_all add: return_io_def)

lemma advances_fail: "agent_ok a \<Longrightarrow> agent_advances (fail_io x) a"
  by (rule agents.advances_same) (simp_all add: fail_io_def)

lemma advances_buffer:
  assumes "agent_ok a" and "queue_ok (snd (f (Buffer a)))"
    and "\<forall>e \<in> set (pending_list (directory (snd (f (Buffer a))))). e \<in> set (waiting a) \<or> Sequence e \<le> sequence (fst (Device a))"
  shows "agent_advances (on_buffer f) a"
  using assms by (cases "f (Buffer a)")
    (auto simp: advances_def on_buffer_def agent_ok_def agent_moves_def held_identity_def waiting_def)

lemma advances_state:
  assumes "agent_ok a" and "f (snd (Device a)) = (r, d)"
    and "lookup d identity_name = lookup (snd (Device a)) identity_name"
    and "saved_monitoring d = saved_monitoring (snd (Device a))"
    and "marked (snd (Device a)) \<longrightarrow> marked d"
  shows "agent_advances (on_state f) a"
  using assms identity_good_cong [OF assms(3)]
  by (auto simp: advances_def on_state_def agent_ok_def agent_moves_def held_identity_def waiting_def)

lemma advances_state_same:
  assumes "agent_ok a" and "\<And>r d. f (snd (Device a)) = (r, d) \<Longrightarrow> lookup d = lookup (snd (Device a))"
  shows "agent_advances (on_state f) a"
proof -
  obtain r d where f: "f (snd (Device a)) = (r, d)" by (metis surj_pair)
  show ?thesis
    by (rule advances_state [of a f r d]) (use assms f in \<open>auto simp: marked_def intro: saved_monitoring_cong\<close>)
qed

lemma advances_telemetry:
  assumes "agent_advances f a" and "f a = (r, b)" and "SyncFamilies t \<noteq> None"
  shows "agent_ok (b\<lparr>Telemetry := t\<rparr>) \<and> agent_moves a (b\<lparr>Telemetry := t\<rparr>)"
  using assms by (auto simp: advances_def agent_ok_def agent_moves_def held_identity_def waiting_def)

section \<open>Each operation keeps the invariant\<close>

lemma reserve_advances:
  assumes "agent_ok a"
  shows "agent_advances (on_device reserve_sequence) a \<and>
    (\<forall>n b. on_device reserve_sequence a = (Inr n, b) \<longrightarrow> n = sequence (fst (Device b)) \<and>
       sequence (fst (Device a)) < n \<and> n \<noteq> 0)"
proof -
  obtain i d where dev: "Device a = (i, d)" by (metis surj_pair)
  obtain r i' d' where r: "reserve_sequence (i, d) = (r, (i', d'))" by (metis surj_pair)
  have good: "identity_good (Some i, d)" using assms dev by (simp add: agent_ok_def held_identity_def)
  have step: "reserve_step (Some i, d) = (r, (Some i', d'))" using r by (simp add: reserve_step_def)
  note s = reserve_step_spec [OF good step]
  have "changes_only (owned identity_temp identity_name) d d' \<and> privateKey i' = privateKey i"
    using r persist_locked_only
    by (auto simp: reserve_sequence_def Let_def intro: changes_only_same split: if_splits prod.splits sum.splits)
  then have k: "lookup d' monitoring_name = lookup d monitoring_name" "lookup d' dormant_name = lookup d dormant_name"
    "privateKey i' = privateKey i" by (simp_all add: changes_only_def owned_def)
  have le: "sequence i \<le> sequence i'" using s by (simp add: identity_mark_def word_le_nat_alt)
  have num: "n = sequence i' \<and> sequence i < n \<and> n \<noteq> 0" if "r = Inr n" for n
  proof -
    have "unat n = unat (sequence i')" "unat (sequence i) < unat n" using s that by (simp_all add: identity_mark_def)
    then show ?thesis by (auto simp: word_less_nat_alt word_unat_eq_iff)
  qed
  have "agent_advances (on_device reserve_sequence) a"
    using assms s k le dev r marked_cong [OF k(2)] saved_monitoring_cong [OF k(1)] order_trans [OF _ le]
    by (auto simp: advances_def on_device_def agent_ok_def agent_moves_def held_identity_def waiting_def)
  with num dev r show ?thesis by (auto simp: on_device_def)
qed

lemma activate_advances:
  assumes "agent_ok a"
  shows "agent_advances (on_device (activate device)) a"
proof -
  obtain i d where dev: "Device a = (i, d)" by (metis surj_pair)
  obtain r i' d' where r: "activate device (i, d) = (r, (i', d'))" by (metis surj_pair)
  have good: "identity_good (Some i, d)" using assms dev by (simp add: agent_ok_def held_identity_def)
  note s = activate_step_spec [OF good, of device]
  have c: "changes_only (owned identity_temp identity_name) d d' \<and> privateKey i' = privateKey i \<and> sequence i' = sequence i"
    using r persist_locked_only
    by (auto simp: activate_def Let_def intro: changes_only_same split: if_splits prod.splits sum.splits)
  then have k: "lookup d' monitoring_name = lookup d monitoring_name" "lookup d' dormant_name = lookup d dormant_name"
    by (simp_all add: changes_only_def owned_def)
  show ?thesis
    using assms s c dev r marked_cong [OF k(2)] saved_monitoring_cong [OF k(1)]
    by (simp add: advances_def on_device_def agent_ok_def agent_moves_def held_identity_def waiting_def)
qed

subsection \<open>The buffer\<close>

lemma counted_snd [simp]: "snd (counted f q) = snd (f q)"
  by (simp add: counted_def split: prod.split)

lemma counted_cases:
  assumes "counted f q = (r, q')"
  obtains n err where "f q = ((n, err), q')" and "r = (case err of None \<Rightarrow> Inr n | Some x \<Rightarrow> Inl x)"
  using assms by (auto simp: counted_def split: prod.splits)

lemma drop_insort_member: "x \<in> set (drop k (insort_key Sequence e es)) \<Longrightarrow> x = e \<or> x \<in> set es"
  using in_set_dropD [of x k "insort_key Sequence e es"] by (auto simp: set_insort_key)

lemma add_advances:
  assumes "agent_ok a" and "Sequence e \<le> sequence (fst (Device a))"
  shows "agent_advances (on_buffer (counted (add e))) a"
proof -
  obtain n err q where q: "add e (Buffer a) = ((n, err), q)" by (metis surj_pair)
  have ok: "queue_ok (Buffer a)" using assms(1) by (simp add: agent_ok_def)
  note any = add_any [OF q ok]
  have "x = e \<or> x \<in> set (waiting a)" if "x \<in> set (pending_list (directory q))" for x
  proof -
    from any obtain k where "pending_list (directory q) = drop k (waiting a) \<or>
        pending_list (directory q) = drop k (insort_key Sequence e (waiting a))" unfolding waiting_def by blast
    with that show ?thesis using in_set_dropD [of x k "waiting a"] drop_insort_member [of x k e "waiting a"] by auto
  qed
  then show ?thesis using any q assms(2) by (intro advances_buffer [OF assms(1)]) auto
qed

lemma set_limits_pending:
  assumes "set_limits l q = ((n, err), q')" and "queue_ok q"
  shows "queue_ok q' \<and> (\<exists>k. pending_list (directory q') = drop k (pending_list (directory q)))"
proof (cases "positive_limits l")
  case True
  then have s: "resettle l (directory q) = ((n, err), directory q')"
    using assms(1) by (auto simp: set_limits_resettle lift_disk_unfold prod_eq_iff)
  show ?thesis using resettle_spec [OF s] set_limits_ok [OF assms(2,1)] assms(2) by (simp add: queue_ok_def)
next
  case False
  then have "q' = q" using assms(1) by (simp add: set_limits_resettle)
  then show ?thesis using assms(2) by (auto intro: exI [of _ 0])
qed

lemma set_limits_advances:
  assumes "agent_ok a"
  shows "agent_advances (on_buffer (counted (set_limits l))) a"
proof -
  obtain n err q where q: "set_limits l (Buffer a) = ((n, err), q)" by (metis surj_pair)
  have ok: "queue_ok (Buffer a)" using assms(1) by (simp add: agent_ok_def)
  show ?thesis
    by (rule advances_buffer [OF assms(1)])
      (use set_limits_pending [OF q ok] q in \<open>auto simp: waiting_def dest: in_set_dropD\<close>)
qed

lemma same_files_queue:
  assumes "queue_ok q" and "lookup d = lookup (directory q)" and "files d = files (directory q)"
  shows "queue_ok (q\<lparr>directory := d\<rparr>)" "abs_queue (q\<lparr>directory := d\<rparr>) = abs_queue q"
proof -
  have f: "queue_files_ok (directory q)" using assms(1) by (simp add: queue_ok_def)
  show "queue_ok (q\<lparr>directory := d\<rparr>)" using assms files_ok_keeps [OF f] by (simp add: queue_ok_def)
  show "abs_queue (q\<lparr>directory := d\<rparr>) = abs_queue q"
    using assms pending_list_cong [of d "directory q"] by (simp add: abs_queue_def dropped_count_def stored_def)
qed

lemma dropped_spec:
  assumes "dropped q = (r, q')" and "queue_ok q"
  shows "queue_ok q'" "abs_queue q' = abs_queue q" "r = Inr n \<Longrightarrow> n = Lost (abs_queue q)"
    "fault_free (directory q) \<Longrightarrow> r = Inr (Lost (abs_queue q)) \<and> q' = q"
proof -
  obtain d where d: "read_metadata (directory q) = (r, d)" "q' = q\<lparr>directory := d\<rparr>"
    using assms(1) by (auto simp: dropped_def lift_disk_def split: prod.splits)
  note k = read_metadata_keeps [OF d(1)]
  show "queue_ok q'" "abs_queue q' = abs_queue q" using same_files_queue [OF assms(2)] k d(2) by simp_all
  obtain w where w: "dropped_count (directory q) = Some w" using dropped_count_ok assms(2) by (auto simp: queue_ok_def)
  show "r = Inr n \<Longrightarrow> n = Lost (abs_queue q)" using read_metadata_Inr [of "directory q" n d] d(1) w by (simp add: abs_queue_def)
  show "r = Inr (Lost (abs_queue q)) \<and> q' = q" if f: "fault_free (directory q)"
    using read_metadata_fault_free [OF f w] d w by (simp add: abs_queue_def)
qed

lemma entries_spec:
  assumes "entries q = (r, q')" and "queue_ok q"
  shows "queue_ok q'" "abs_queue q' = abs_queue q" "r = Inr es \<Longrightarrow> es = pending_list (directory q)"
    "fault_free (directory q) \<Longrightarrow> r = Inr (pending_list (directory q)) \<and> q' = q"
proof -
  obtain d where d: "entries_locked (directory q) = (r, d)" "q' = q\<lparr>directory := d\<rparr>"
    using assms(1) by (auto simp: entries_def lift_disk_def split: prod.splits)
  note k = entries_locked_keeps [OF d(1)]
  show "queue_ok q'" "abs_queue q' = abs_queue q" using same_files_queue [OF assms(2)] k d(2) by simp_all
  show "r = Inr es \<Longrightarrow> es = pending_list (directory q)" using entries_locked_Inr [of "directory q" es d] d(1) by simp
  show "r = Inr (pending_list (directory q)) \<and> q' = q" if f: "fault_free (directory q)"
    using entries_locked_fault_free [OF f] d assms(2) by (simp add: queue_ok_def)
qed

lemma same_pending_advances:
  assumes "agent_ok a" and "\<And>r q. f (Buffer a) = (r, q) \<Longrightarrow> queue_ok (Buffer a) \<Longrightarrow>
      queue_ok q \<and> Kept (abs_queue q) = Kept (abs_queue (Buffer a))"
  shows "agent_advances (on_buffer f) a"
proof -
  obtain r q where q: "f (Buffer a) = (r, q)" by (metis surj_pair)
  have "queue_ok (Buffer a)" using assms(1) by (simp add: agent_ok_def)
  from assms(2) [OF q this] q show ?thesis
    by (intro advances_buffer [OF assms(1)]) (simp_all add: waiting_def abs_queue_def)
qed

lemma dropped_advances: "agent_ok a \<Longrightarrow> agent_advances (on_buffer dropped) a"
  by (erule same_pending_advances) (simp add: dropped_spec)

lemma entries_advances: "agent_ok a \<Longrightarrow> agent_advances (on_buffer entries) a"
  by (erule same_pending_advances) (simp add: entries_spec)

lemma acknowledge_advances: "agent_ok a \<Longrightarrow> agent_advances (on_buffer (acknowledge_dropped n)) a"
  by (erule same_pending_advances) (simp add: acknowledge_ok)

lemma remove_zero:
  assumes "queue_ok q" and "remove 0 q = (r, q')"
  shows "queue_ok q' \<and> abs_queue q' = abs_queue q"
proof -
  obtain d where d: "remove_locked 0 (directory q) = (r, d)" "q' = q\<lparr>directory := d\<rparr>"
    using assms(2) by (auto simp: remove_def lift_disk_def split: prod.splits)
  have f: "queue_files_ok (directory q)" using assms(1) by (simp add: queue_ok_def)
  have n: "lookup (directory q) (entry_path 0) = None"
    using f good_file_entryD [of 0] unfolding queue_files_ok_def by (metis not_Some_eq)
  obtain p e where p: "remove_file (entry_path 0) (directory q) = (p, e)" by (metis surj_pair)
  have l: "files e = files (directory q) \<and> lookup e = lookup (directory q)"
    using p n by (auto simp: remove_file_def lookup_def elim!: call_cases split: option.splits)
  have "d = e" using d(1) p by (cases p) (auto simp: remove_locked_def split: if_splits)
  then show ?thesis using d(2) l f assms(1) files_ok_keeps [OF f, of e] pending_list_cong [of e "directory q"]
    by (simp add: abs_queue_def queue_ok_def dropped_count_def stored_def)
qed

lemma remove_advances:
  assumes "agent_ok a"
  shows "agent_advances (on_buffer (remove s)) a"
proof -
  have ok: "queue_ok (Buffer a)" using assms(1) by (simp add: agent_ok_def)
  obtain r q where q: "remove s (Buffer a) = (r, q)" by (metis surj_pair)
  have "queue_ok q \<and> set (Kept (abs_queue q)) \<subseteq> set (Kept (abs_queue (Buffer a)))"
    using remove_ok [OF q ok] remove_zero [OF ok] q by (cases "s = 0") (auto simp: buffer_remove_def)
  with q show ?thesis by (intro advances_buffer [OF assms]) (auto simp: waiting_def abs_queue_def)
qed

subsection \<open>The files\<close>

lemma state_file_advances:
  assumes "agent_ok a" and "\<And>r d. f (snd (Device a)) = (r, d) \<Longrightarrow> changes_only own (snd (Device a)) d"
    and "\<not> own identity_name" and "\<not> own monitoring_name" and "\<not> own dormant_name"
  shows "agent_advances (on_state f) a"
proof -
  obtain r d where f: "f (snd (Device a)) = (r, d)" by (metis surj_pair)
  note c = changes_onlyD [OF assms(2) [OF f]]
  show ?thesis
    by (rule advances_state [of a f r d]) (use assms(1) f c assms(3-5) marked_cong saved_monitoring_cong in \<open>blast+\<close>)
qed

lemma write_telemetry_advances: "agent_ok a \<Longrightarrow> agent_advances (on_state (write_telemetry s)) a"
  by (erule state_file_advances [where own = "replaced telemetry_name"]) (auto intro: write_telemetry_only simp: replaced_def)

lemma write_cache_advances: "agent_ok a \<Longrightarrow> agent_advances (on_state (write_contract_cache v)) a"
  by (erule state_file_advances [where own = "owned contract_temp contract_name"])
    (auto intro: write_contract_cache_only simp: owned_def)

lemma load_contract_cache_keeps: "load_contract_cache digest d = (r, d') \<Longrightarrow> lookup d' = lookup d \<and> files d' = files d"
  using read_file_keeps [of contract_name d] by (auto simp: load_contract_cache_def split: prod.splits sum.splits)

lemma load_cache_keeps: "load_cache env d = (r, d') \<Longrightarrow> lookup d' = lookup d \<and> files d' = files d"
  using load_contract_cache_keeps [of "SchemaDigest (AgClient env)" d]
  by (auto simp: load_cache_def split: prod.splits sum.splits)

lemma load_cache_advances: "agent_ok a \<Longrightarrow> agent_advances (on_state (load_cache env)) a"
  by (erule advances_state_same) (simp add: load_cache_keeps)

lemma mark_dormant_advances:
  assumes "agent_ok a"
  shows "agent_advances (on_state (mark_dormant now)) a"
proof -
  obtain r d where f: "mark_dormant now (snd (Device a)) = (r, d)" by (metis surj_pair)
  note c = changes_onlyD [OF mark_dormant_only [OF f], unfolded replaced_def]
  have "lookup d identity_name = lookup (snd (Device a)) identity_name" "lookup d monitoring_name = lookup (snd (Device a)) monitoring_name"
    using c by simp_all
  then show ?thesis using mark_dormant_marks [OF f] saved_monitoring_cong [of d "snd (Device a)"] f
    by (intro advances_state [of a "mark_dormant now" r d] assms) simp_all
qed

lemma check_dormant_advances:
  assumes "agent_ok a"
  shows "agent_advances check_dormant a"
proof -
  obtain x d where f: "is_dormant (snd (Device a)) = (x, d)" by (metis surj_pair)
  note k = is_dormant_spec [OF f]
  then have l: "lookup d = lookup (snd (Device a))" by simp
  show ?thesis
    using assms f identity_good_cong [of d "snd (Device a)"] saved_monitoring_cong [of d "snd (Device a)"] marked_cong [of d "snd (Device a)"] l
    by (simp add: advances_def check_dormant_def agent_ok_def agent_moves_def held_identity_def waiting_def)
qed

text \<open>The monitoring configuration: applied when it is valid and newer, and written before it counts.\<close>

lemma apply_monitoring_cases:
  assumes "apply_monitoring m a = (r, b)"
  obtains (invalid) e where "validate_monitoring_config m = Inl e" and "r = Inl e" and "b = a"
    | (old) "validate_monitoring_config m = Inr ()" and "MonRevision m \<le> MonRevision (Monitoring a)" and "r = Inr ()" and "b = a"
    | (failed) e where "validate_monitoring_config m = Inr ()" and "MonRevision (Monitoring a) < MonRevision m"
        and "on_state (write_monitoring m) a = (Inl e, b)" and "r = Inl e"
    | (applied) c where "validate_monitoring_config m = Inr ()" and "MonRevision (Monitoring a) < MonRevision m"
        and "on_state (write_monitoring m) a = (Inr (), c)" and "r = Inr ()" and "b = c\<lparr>Monitoring := m\<rparr>"
proof (cases "validate_monitoring_config m")
  case (Inl e)
  then have "apply_monitoring m a = (Inl e, a)" by (simp add: apply_monitoring_def pure_io_def)
  with assms have "r = Inl e" "b = a" by simp_all
  with Inl show ?thesis by (rule invalid)
next
  case (Inr u)
  obtain q c where q: "on_state (write_monitoring m) a = (q, c)" by (metis surj_pair)
  show ?thesis
  proof (cases "MonRevision m \<le> MonRevision (Monitoring a)")
    case True
    then have "apply_monitoring m a = (Inr (), a)" using Inr by (simp add: apply_monitoring_def pure_io_def)
    with assms have "r = Inr ()" "b = a" by simp_all
    with Inr True show ?thesis by (intro old) simp_all
  next
    case False
    then have new: "MonRevision (Monitoring a) < MonRevision m" and v: "validate_monitoring_config m = Inr ()" using Inr by simp_all
    have "apply_monitoring m a = (case q of Inl e \<Rightarrow> (Inl e, c) | Inr _ \<Rightarrow> (Inr (), c\<lparr>Monitoring := m\<rparr>))"
      using v False q by (cases q) (simp_all add: apply_monitoring_def pure_io_def)
    with assms have "(r, b) = (case q of Inl e \<Rightarrow> (Inl e, c) | Inr _ \<Rightarrow> (Inr (), c\<lparr>Monitoring := m\<rparr>))" by simp
    then show ?thesis using failed [OF v new] applied [OF v new] q by (cases q) simp_all
  qed
qed

lemma apply_monitoring_advances:
  assumes "agent_ok a"
  shows "agent_advances (apply_monitoring m) a"
proof -
  obtain r b where b: "apply_monitoring m a = (r, b)" by (metis surj_pair)
  show ?thesis using b
  proof (cases rule: apply_monitoring_cases)
    case (failed e)
    then obtain d where d: "write_monitoring m (snd (Device a)) = (Inl e, d)" "b = a\<lparr>Device := (fst (Device a), d)\<rparr>"
      by (auto simp: on_state_def split: prod.splits)
    note c = changes_onlyD [OF write_monitoring_only [OF d(1)], unfolded owned_def]
    have "agent_advances (on_state (write_monitoring m)) a"
      by (rule advances_state [of a _ "Inl e" d])
        (use assms d(1) c write_monitoring_saved [OF d(1)] marked_cong [of d "snd (Device a)"] in simp_all)
    with failed b show ?thesis by (simp add: advances_def)
  next
    case (applied c)
    then obtain d where d: "write_monitoring m (snd (Device a)) = (Inr (), d)" "b = a\<lparr>Device := (fst (Device a), d), Monitoring := m\<rparr>"
      by (auto simp: on_state_def split: prod.splits)
    note c = changes_onlyD [OF write_monitoring_only [OF d(1)], unfolded owned_def]
    have l: "lookup d identity_name = lookup (snd (Device a)) identity_name" "lookup d dormant_name = lookup (snd (Device a)) dormant_name"
      using c by simp_all
    have "agent_ok b \<and> agent_moves a b"
      using assms d(2) write_monitoring_saved [OF d(1)] identity_good_cong [OF l(1)] marked_cong [OF l(2)] applied(2)
      by (simp add: agent_ok_def agent_moves_def held_identity_def waiting_def)
    with b show ?thesis by (simp add: advances_def)
  qed (use assms b in \<open>simp_all add: advances_def agents.moves_refl\<close>)
qed

section \<open>The methods\<close>

lemma build_keeps_families:
  assumes "build_compact_heartbeat h clock input previous = (r, previous')"
  shows "(SyncFamilies previous \<noteq> None \<longrightarrow> SyncFamilies previous' \<noteq> None) \<and>
    (\<forall>b next. r = Inr (b, next) \<longrightarrow> SyncFamilies next \<noteq> None)"
  using assms by (auto simp: build_compact_heartbeat_def Let_def split: sum.splits prod.splits if_splits)

lemma make_compact_advances:
  assumes "agent_ok a"
  shows "agent_advances (make_compact env h) a \<and>
    (\<forall>h' next b. make_compact env h a = (Inr (h', next), b) \<longrightarrow> SyncFamilies next \<noteq> None)"
proof -
  obtain r p where b: "build_compact_heartbeat (ValueHash env) 0 h (Telemetry a) = (r, p)" by (metis surj_pair)
  show ?thesis using assms b build_keeps_families [OF b]
    by (auto simp: make_compact_def advances_def agent_ok_def agent_moves_def held_identity_def waiting_def)
qed

lemma pure_io_Inr: "pure_io r a = (Inr x, t) \<longleftrightarrow> r = Inr x \<and> t = a"
  by (auto simp: pure_io_def)

lemma advances_bind_pure:
  assumes "agent_ok a" and "\<And>x. r = Inr x \<Longrightarrow> agent_advances (f x) a"
  shows "agent_advances (bind_io (pure_io r) f) a"
  by (rule agents.advances_bind [OF advances_pure [OF assms(1)]]) (use assms(2) in \<open>simp add: pure_io_Inr\<close>)

lemma store_heartbeat_advances:
  assumes "agent_ok a" and "n \<le> sequence (fst (Device a))"
  shows "agent_advances (store_heartbeat env c n h) a"
  unfolding store_heartbeat_def
proof (intro advances_bind_pure assms(1))
  fix p :: "bytes \<times> nat"
  obtain body size where p: "p = (body, size)" by (metis surj_pair)
  have "agent_advances (bind_io (on_buffer (counted (add \<lparr>Sequence = n, Body = body\<rparr>))) (\<lambda>_. return_io ())) a"
    using add_advances [OF assms(1)] assms(2) by (intro agents.advances_bind) (auto intro: advances_return)
  then show "agent_advances (case p of (body, decompressed) \<Rightarrow>
       if int decompressed > DecompressedBytes (ContractLimits c)
          then fail_io (Msg ''heartbeat exceeds contract decompressed limit'')
        else if int (length body) > CompressedBytes (ContractLimits c)
          then fail_io (Msg ''compressed heartbeat exceeds contract limit'')
        else bind_io (on_buffer (counted (add \<lparr>Sequence = n, Body = body\<rparr>))) (\<lambda>_. return_io ())) a"
    by (simp add: p advances_fail [OF assms(1)])
qed

lemma set_telemetry_advances:
  assumes "agent_ok a" and "SyncFamilies t \<noteq> None"
  shows "agent_advances (bind_io (on_state (write_telemetry t)) (\<lambda>_ a. (Inr (), a\<lparr>Telemetry := t\<rparr>))) a"
proof (rule agents.advances_bind [OF write_telemetry_advances [OF assms(1)]])
  fix x b assume "agent_ok b"
  then show "agent_advances (\<lambda>a. (Inr (), a\<lparr>Telemetry := t\<rparr>)) b"
    using assms(2) by (simp add: advances_def agent_ok_def agent_moves_def held_identity_def waiting_def)
qed

lemma finish_collect_advances:
  assumes "agent_ok a" and "n \<le> sequence (fst (Device a))"
  shows "agent_advances (finish_collect env c n h) a"
  unfolding finish_collect_def
proof (rule advances_bind_pure [OF assms(1)])
  fix compact
  have "agent_advances (bind_io (make_compact env h) (\<lambda>(h', after). bind_io (store_heartbeat env c n h') (\<lambda>_.
      bind_io (on_state (write_telemetry after)) (\<lambda>_ a. (Inr (), a\<lparr>Telemetry := after\<rparr>))))) a"
  proof (rule agents.advances_bind [OF conjunct1 [OF make_compact_advances [OF assms(1)]]])
    fix p b assume b: "make_compact env h a = (Inr p, b)" "agent_ok b" "agent_moves a b"
    obtain h' after where p: "p = (h', after)" by (metis surj_pair)
    have n: "n \<le> sequence (fst (Device b))" using b(3) assms(2) by (auto simp: agent_moves_def)
    have s: "SyncFamilies after \<noteq> None" using make_compact_advances [OF assms(1), of env h] b(1) p by blast
    show "agent_advances (case p of (h', after) \<Rightarrow> bind_io (store_heartbeat env c n h') (\<lambda>_.
        bind_io (on_state (write_telemetry after)) (\<lambda>_ a. (Inr (), a\<lparr>Telemetry := after\<rparr>)))) b"
      unfolding p prod.case using s
      by (intro agents.advances_bind [OF store_heartbeat_advances [OF b(2) n]]) (rule set_telemetry_advances)
  qed
  then show "agent_advances (if compact then bind_io (make_compact env h) (\<lambda>(h', after).
         bind_io (store_heartbeat env c n h') (\<lambda>_.
         bind_io (on_state (write_telemetry after)) (\<lambda>_ a. (Inr (), a\<lparr>Telemetry := after\<rparr>))))
       else store_heartbeat env c n h) a"
    using store_heartbeat_advances [OF assms] by simp
qed

lemma collection_time_advances: "agent_ok a \<Longrightarrow> agent_advances (collection_time env h) a"
  using advances_outside by (auto simp: collection_time_def advances_def agents.moves_refl)

lemma stamp_collect_advances:
  assumes "agent_ok a" and "n \<le> sequence (fst (Device a))"
  shows "agent_advances (stamp_collect env c given n lost) a"
  unfolding stamp_collect_def
proof (rule advances_bind_pure [OF assms(1)])
  fix monitored
  show "agent_advances (bind_io (collection_time env given) (\<lambda>now a. finish_collect env c n (stamp_heartbeat env n lost
         (if monitored then Some (MonRevision (Monitoring a)) else None) now given) a)) a"
  proof (rule agents.advances_bind [OF collection_time_advances [OF assms(1)]])
    fix now b assume b: "agent_ok b" "agent_moves a b"
    have "n \<le> sequence (fst (Device b))" using b(2) assms(2) by (auto simp: agent_moves_def)
    from finish_collect_advances [OF b(1) this]
    show "agent_advances (\<lambda>a. finish_collect env c n (stamp_heartbeat env n lost
         (if monitored then Some (MonRevision (Monitoring a)) else None) now given) a) b"
      by (simp add: advances_def)
  qed
qed

lemma collect_advances:
  fixes a :: "'w agent"
  assumes "agent_ok a"
  shows "agent_advances (collect env c) a"
proof -
  have "agent_advances (bind_io (on_outside (CollectHeartbeat env (effective_contract a c))) (\<lambda>given.
     bind_io (on_device reserve_sequence) (\<lambda>n. bind_io (on_buffer dropped) (\<lambda>lost.
     stamp_collect env c given n lost)))) a"
  proof (rule agents.advances_bind [OF advances_outside [OF assms]])
    fix given and t :: "'w agent" assume t: "agent_ok t"
    show "agent_advances (bind_io (on_device reserve_sequence) (\<lambda>n. bind_io (on_buffer dropped) (\<lambda>lost.
       stamp_collect env c given n lost))) t"
    proof (rule agents.advances_bind [OF conjunct1 [OF reserve_advances [OF t]]])
      fix n b assume b: "on_device reserve_sequence t = (Inr n, b)" "agent_ok b"
      then have n: "n \<le> sequence (fst (Device b))" using reserve_advances [OF t] by blast
      show "agent_advances (bind_io (on_buffer dropped) (\<lambda>lost. stamp_collect env c given n lost)) b"
      proof (rule agents.advances_bind [OF dropped_advances [OF b(2)]])
        fix lost b' assume b': "agent_ok b'" "agent_moves b b'"
        have "n \<le> sequence (fst (Device b'))" using n b'(2) by (auto simp: agent_moves_def)
        then show "agent_advances (stamp_collect env c given n lost) b'" by (rule stamp_collect_advances [OF b'(1)])
      qed
    qed
  qed
  then show ?thesis by (simp add: advances_def collect_def)
qed

lemma reconcile_families: "reconcile t s = Inr s' \<Longrightarrow> SyncFamilies s \<noteq> None \<Longrightarrow> SyncFamilies s' \<noteq> None"
  by (auto simp: reconcile_def Let_def split: if_splits option.splits)

lemma apply_ack_advances:
  assumes "agent_ok a"
  shows "agent_advances (apply_ack ack) a"
proof (cases "\<exists>t. ack = Some t \<and> needs_reconcile t \<and> (\<exists>s. reconcile t (Telemetry a) = Inr s)")
  case True
  then obtain t s where t: "ack = Some t" "needs_reconcile t" "reconcile t (Telemetry a) = Inr s" by blast
  let ?a = "a\<lparr>Telemetry := s\<rparr>"
  have "SyncFamilies s \<noteq> None" using reconcile_families [OF t(3)] assms by (simp add: agent_ok_def)
  then have ok: "agent_ok ?a" "agent_moves a ?a"
    using assms by (simp_all add: agent_ok_def agent_moves_def held_identity_def waiting_def)
  have "apply_ack ack a = on_state (write_telemetry s) ?a" using t by (simp add: apply_ack_def)
  with write_telemetry_advances [OF ok(1), of s] ok(2) show ?thesis
    by (auto simp: advances_def intro: agents.moves_trans)
next
  case False
  then have "snd (apply_ack ack a) = a" by (auto simp: apply_ack_def split: option.split sum.split)
  with assms show ?thesis by (rule agents.advances_same)
qed

lemma take_monitoring_advances:
  assumes "agent_ok a"
  shows "agent_advances (take_monitoring response) a"
proof (cases "NewMonitoring response")
  case None
  then show ?thesis using advances_return [OF assms] by (simp add: take_monitoring_def)
next
  case (Some m)
  then have "snd (take_monitoring response a) = snd (apply_monitoring m a)"
    by (simp add: take_monitoring_def split: prod.split sum.split)
  with apply_monitoring_advances [OF assms, of m] show ?thesis by (simp add: advances_def)
qed

lemma settle_entry_advances:
  assumes "agent_ok a"
  shows "agent_advances (settle_entry env e response) a"
  unfolding settle_entry_def Let_def
  by (intro agents.advances_bind take_monitoring_advances apply_ack_advances remove_advances assms)
    (simp_all add: acknowledge_advances advances_return)

lemma go_dormant_advances:
  assumes "agent_ok a"
  shows "agent_advances (go_dormant env) a"
proof -
  have "agent_advances (\<lambda>a. case on_state (mark_dormant now) a of
      (Inl x, a') \<Rightarrow> (Inl (Msg ''persist revoked agent state''), a') | (Inr _, a') \<Rightarrow> (Inl Revoked, a')) b"
    if "agent_ok b" for now and b :: "'b agent"
  proof -
    obtain r b' where "on_state (mark_dormant now) b = (r, b')" by (metis surj_pair)
    with mark_dormant_advances [OF that, of now] show ?thesis by (cases r) (simp_all add: advances_def)
  qed
  then have "agent_advances (bind_io (on_outside (\<lambda>w. map_prod Inr id (Now env w))) (\<lambda>now a.
      case on_state (mark_dormant now) a of
        (Inl x, a') \<Rightarrow> (Inl (Msg ''persist revoked agent state''), a') | (Inr _, a') \<Rightarrow> (Inl Revoked, a'))) a"
    by (intro agents.advances_bind advances_outside assms)
  then show ?thesis by (simp add: advances_def go_dormant_def)
qed

lemma deliver_advances:
  assumes "agent_ok a"
  shows "agent_advances (deliver env e) a"
proof -
  obtain r w where s: "send_heartbeat (AgClient env) (ConfHost (AgConfig env)) (deviceID (fst (Device a)))
        (privateKey (fst (Device a))) (Sequence e) (Body e) (Outside a) = (r, w)" by (metis surj_pair)
  let ?a = "a\<lparr>Outside := w\<rparr>"
  have ok: "agent_ok ?a" "agent_moves a ?a" using assms by simp_all
  have "agent_advances f ?a \<Longrightarrow> deliver env e a = f ?a \<Longrightarrow> ?thesis" for f
    using agents.moves_trans [OF ok(2)] by (auto simp: advances_def)
  note via = this
  show ?thesis
  proof (cases r)
    case (Inr response)
    then show ?thesis by (intro via [OF settle_entry_advances [OF ok(1)]]) (simp add: deliver_def s)
  next
    case (Inl err)
    consider "deliver env e a = go_dormant env ?a" | "deliver env e a = fail_io err ?a"
      | "deliver env e a = settle_entry env e zero_response ?a"
      using Inl by (cases "revoked err"; cases "replayed err") (simp_all add: deliver_def s fail_io_def)
    then show ?thesis
      using via [OF go_dormant_advances [OF ok(1)]] via [OF settle_entry_advances [OF ok(1)]] via [OF advances_fail [OF ok(1)]]
      by cases
  qed
qed

lemma deliver_all_advances: "agent_ok a \<Longrightarrow> agent_advances (deliver_all env es) a"
proof (induction es arbitrary: a)
  case Nil
  then show ?case by (intro agents.advances_same) simp_all
next
  case (Cons e es)
  have "agent_advances (bind_io (deliver env e) (\<lambda>_. deliver_all env es)) a"
    by (intro agents.advances_bind deliver_advances Cons)
  then show ?case by (simp add: advances_def)
qed

lemma flush_advances: "agent_ok a \<Longrightarrow> agent_advances (flush_buffer env) a"
  unfolding flush_buffer_def by (intro agents.advances_bind entries_advances deliver_all_advances)

lemma apply_limits_advances: "agent_ok a \<Longrightarrow> agent_advances (apply_limits c) a"
  unfolding apply_limits_def by (intro agents.advances_bind set_limits_advances advances_return)

lemma current_contract_advances:
  fixes a :: "'w agent"
  assumes "agent_ok a"
  shows "agent_advances (current_contract env) a"
  unfolding current_contract_def
proof (rule agents.advances_bind [OF load_cache_advances [OF assms]])
  fix cached and t :: "'w agent" assume t: "agent_ok t"
  let ?f = "\<lambda>a. case fetch_contract (AgClient env) (CachedETag cached) (Outside a) of
          (Inl e, w) \<Rightarrow>
            (if Cancelled env w then (Inl Canceled, a\<lparr>Outside := w\<rparr>)
             else if ContractMajor (Cached cached) \<noteq> 0 \<and> \<not> is_http e then apply_limits (Cached cached) (a\<lparr>Outside := w\<rparr>)
             else (Inl e, a\<lparr>Outside := w\<rparr>))
        | (Inr Unmodified, w) \<Rightarrow>
            (if ContractMajor (Cached cached) = 0
             then (Inl (Msg ''server returned not-modified without a cached contract''), a\<lparr>Outside := w\<rparr>)
             else apply_limits (Cached cached) (a\<lparr>Outside := w\<rparr>))
        | (Inr (Fetched c etag), w) \<Rightarrow>
            bind_io (on_state (write_contract_cache \<lparr>CachedETag = etag, Cached = c\<rparr>)) (\<lambda>_. apply_limits c)
              (a\<lparr>Outside := w\<rparr>)"
  obtain r w where s: "fetch_contract (AgClient env) (CachedETag cached) (Outside t) = (r, w)" by (metis surj_pair)
  let ?t = "t\<lparr>Outside := w\<rparr>"
  have ok: "agent_ok ?t" "agent_moves t ?t" using t by simp_all
  have via: "agent_advances f ?t \<Longrightarrow> ?f t = f ?t \<Longrightarrow> agent_advances ?f t" for f
    using agents.moves_trans [OF ok(2)] by (simp add: advances_def)
  have stored: "agent_advances (bind_io (on_state (write_contract_cache v)) (\<lambda>_. apply_limits c)) ?t" for v c
    by (intro agents.advances_bind write_cache_advances ok(1) apply_limits_advances)
  show "agent_advances ?f t"
  proof (cases r)
    case (Inl e)
    then consider "\<exists>x. ?f t = fail_io x ?t" | "?f t = apply_limits (Cached cached) ?t"
      using s by (cases "Cancelled env w"; cases "ContractMajor (Cached cached) \<noteq> 0 \<and> \<not> is_http e") (auto simp: fail_io_def)
    then show ?thesis using via [OF advances_fail [OF ok(1)]] via [OF apply_limits_advances [OF ok(1)]] by cases blast+
  next
    case (Inr f)
    then consider "\<exists>x. ?f t = fail_io x ?t" | "?f t = apply_limits (Cached cached) ?t"
      | c v where "?f t = bind_io (on_state (write_contract_cache v)) (\<lambda>_. apply_limits c) ?t"
      using s by (cases f; cases "ContractMajor (Cached cached) = 0") (auto simp: fail_io_def)
    then show ?thesis
      using via [OF advances_fail [OF ok(1)]] via [OF apply_limits_advances [OF ok(1)]] via [OF stored] by cases blast+
  qed
qed

lemma activate_agent_advances:
  assumes "agent_ok a"
  shows "agent_advances (activate_agent env token) a"
proof -
  have "agent_advances (bind_io (pure_io (PublicKeyText env (privateKey (fst (Device a))))) (\<lambda>key.
           bind_io (on_outside (activate_device (AgClient env) (ConfHost (AgConfig env)) token
             \<lparr>ActivationMajor = 1, ActivationVersion = AgVersion env, PublicKey = key,
              ActivationCapabilities = AgCapabilities env\<rparr>)) (\<lambda>r. on_device (activate (ActDeviceID r))))) a"
    by (intro advances_bind_pure agents.advances_bind advances_outside activate_advances assms)
  then show ?thesis using assms by (simp add: advances_def activate_agent_def agents.moves_refl)
qed

lemma submit_snapshot_advances:
  assumes "agent_ok a"
  shows "agent_advances (submit_snapshot env s) a"
proof -
  obtain asleep b where d: "check_dormant a = (asleep, b)" by (metis surj_pair)
  with check_dormant_advances [OF assms] have b: "agent_ok b" "agent_moves a b" by (simp_all add: advances_def)
  let ?f = "bind_io (pure_io (validate_hardware_snapshot s)) (\<lambda>_. bind_io (pure_io (MarshalSnapshot env s)) (\<lambda>body.
      if length body > 2 * 1024 * 1024 then fail_io (Msg ''hardware snapshot exceeds the transmission limit'')
      else bind_io (on_device reserve_sequence) (\<lambda>n a.
        on_outside (send_hardware_snapshot (AgClient env) (ConfHost (AgConfig env)) (deviceID (fst (Device a)))
          (privateKey (fst (Device a))) n body) a)))"
  have send: "agent_advances (\<lambda>a. on_outside (g (fst (Device a))) a) t" if "agent_ok t" for g :: "identity \<Rightarrow> 'b \<Rightarrow> unit result \<times> 'b" and t
    using advances_outside [OF that, of "g (fst (Device t))"] by (simp add: advances_def)
  have "agent_advances (if length body > 2 * 1024 * 1024 then fail_io (Msg ''hardware snapshot exceeds the transmission limit'')
      else bind_io (on_device reserve_sequence) (\<lambda>n a.
        on_outside (send_hardware_snapshot (AgClient env) (ConfHost (AgConfig env)) (deviceID (fst (Device a)))
          (privateKey (fst (Device a))) n body) a)) b" for body
    by (simp add: advances_fail [OF b(1)] agents.advances_bind [OF conjunct1 [OF reserve_advances [OF b(1)]]]
        send [of _ "\<lambda>i. send_hardware_snapshot (AgClient env) (ConfHost (AgConfig env)) (deviceID i) (privateKey i) _ body"])
  then have f: "agent_advances ?f b" by (intro advances_bind_pure b(1))
  consider "\<exists>x. submit_snapshot env s a = (Inl x, b)" | "submit_snapshot env s a = ?f b"
    using d by (cases asleep; cases "SnapshotHost s \<noteq> ConfHost (AgConfig env)") (auto simp: submit_snapshot_def)
  then show ?thesis using f b agents.moves_trans [OF b(2)] by cases (auto simp: advances_def)
qed

lemma run_once_advances:
  assumes "agent_ok a"
  shows "agent_advances (run_once env) a"
proof -
  obtain asleep b where d: "check_dormant a = (asleep, b)" by (metis surj_pair)
  with check_dormant_advances [OF assms] have b: "agent_ok b" "agent_moves a b" by (simp_all add: advances_def)
  have "agent_advances (bind_io (current_contract env) (\<lambda>c. bind_io (collect env c) (\<lambda>_. flush_buffer env))) b"
    by (intro agents.advances_bind current_contract_advances collect_advances flush_advances b(1))
  then show ?thesis using d b agents.moves_trans [OF b(2)] by (cases asleep) (auto simp: run_once_def advances_def)
qed

lemma cycle_advances:
  assumes "agent_ok a"
  shows "agent_advances (cycle env c) a"
proof -
  obtain r b where c: "collect env c a = (r, b)" by (metis surj_pair)
  obtain q d where f: "flush_buffer env b = (q, d)" by (metis surj_pair)
  have b: "agent_ok b" "agent_moves a b" using collect_advances [OF assms, of env c] c by (simp_all add: advances_def)
  have d: "agent_ok d" "agent_moves b d" using flush_advances [OF b(1), of env] f by (simp_all add: advances_def)
  show ?thesis using c f b d agents.moves_trans [OF b(2) d(2)]
    by (cases r; cases q) (simp_all add: cycle_def advances_def)
qed

lemma run_start_advances:
  assumes "agent_ok a"
  shows "agent_advances (run_start env) a"
proof -
  obtain asleep b where d: "check_dormant a = (asleep, b)" by (metis surj_pair)
  with check_dormant_advances [OF assms] have b: "agent_ok b" "agent_moves a b" by (simp_all add: advances_def)
  obtain r t where c: "current_contract env b = (r, t)" by (metis surj_pair)
  have t: "agent_ok t" "agent_moves a t"
    using current_contract_advances [OF b(1), of env] c agents.moves_trans [OF b(2)] by (auto simp: advances_def)
  let ?t = "\<lambda>w. t\<lparr>Outside := w\<rparr>"
  have cyc: "agent_ok (snd (cycle env x (?t w))) \<and> agent_moves a (snd (cycle env x (?t w)))" for x w
  proof -
    have ok: "agent_ok (?t w)" "agent_moves a (?t w)"
      using t(1) agents.moves_trans [OF t(2) agent_outside(2)] by simp_all
    show ?thesis using cycle_advances [OF ok(1), of env x] agents.moves_trans [OF ok(2)] by (simp add: advances_def)
  qed
  have "snd (run_start env a) = b \<or> snd (run_start env a) = t \<or>
      (\<exists>x w. snd (run_start env a) = snd (cycle env x (?t w)))"
    using d c by (cases asleep; cases r) (auto simp: run_start_def)
  then show ?thesis unfolding advances_def using b t cyc by auto
qed

lemma run_event_advances:
  assumes "agent_ok a"
  shows "agent_advances (run_event env e m) a"
  using cycle_advances [OF assms] assms
  by (cases "(env, e, m, a)" rule: run_event.cases) (simp_all add: advances_def agents.moves_refl)

section \<open>Restarting\<close>

lemma load_existing:
  assumes "lookup d identity_name \<noteq> None" and "load_or_create g d = (r, d')"
  shows "load_or_create (Inl IoFault) d = (r, d') \<and> lookup d' = lookup d"
proof -
  obtain q d1 where q: "read_file identity_name d = (q, d1)" by (metis surj_pair)
  have n: "q \<noteq> Inl NotExist" using read_file_NotExist [of identity_name d d1] q assms(1) by auto
  note k = read_file_keeps [OF q]
  obtain x d2 where x: "stat_file identity_name d1 = (x, d2)" by (metis surj_pair)
  note k2 = stat_file_keeps [OF x]
  show ?thesis using assms(2) q n x k k2
    by (auto simp: load_or_create_def split: sum.splits if_splits)
qed

lemma open_queue_Inr:
  assumes "open_queue d l = (Inr q, d')" and "queue_files_ok d"
  shows "queue_ok q \<and> pending_list (directory q) = pending_list d"
proof -
  have pos: "positive_limits l" using assms(1) by (auto simp: open_queue_def split: if_splits)
  obtain es e where b: "bind_io make_directory (\<lambda>_. bind_io chmod_directory (\<lambda>_. entries_locked)) d = (Inr es, e)"
      "q = \<lparr>directory = e, queue_limits = l\<rparr>"
    using assms(1) pos by (auto simp: open_queue_def split: prod.splits sum.splits)
  have k: "lookup e = lookup d" "files e = files d"
    using b(1) make_directory_keeps chmod_directory_keeps entries_locked_keeps
    by (auto elim!: bind_io_InrE)
  show ?thesis using b(2) files_ok_keeps [OF assms(2) k] pending_list_cong [OF k] pos by (simp add: queue_ok_def)
qed

text \<open>A new process on the files of the old one: the identity and the buffer are opened, the agent is made.\<close>

lemma restart_advances:
  assumes "agent_ok a" and l: "load_or_create g (snd (Device a)) = (Inr i, d)"
    and o: "open_queue (directory (Buffer a)) l = (Inr q, dq)" and n: "new_agent parse env (i, d) q w = Inr (env', b)"
  shows "agent_ok b \<and> agent_moves a b"
proof -
  have good: "identity_good (Some (fst (Device a)), snd (Device a))" and qok: "queue_files_ok (directory (Buffer a))"
    using assms(1) by (simp_all add: agent_ok_def held_identity_def queue_ok_def)
  then have ex: "lookup (snd (Device a)) identity_name \<noteq> None" by (auto simp: identity_good_def)
  note le = load_existing [OF ex l]
  have id: "identity_good (Some i, d) \<and> sequence (fst (Device a)) \<le> sequence i"
    using load_or_create_spec [OF good conjunct1 [OF le]] by (simp add: identity_mark_def word_le_nat_alt)
  have key: "privateKey i = privateKey (fst (Device a))"
    using id good durable_cong [of d "snd (Device a)"] le by (auto simp: identity_good_def)
  obtain m d1 t d2 where m: "load_monitoring d = (Inr m, d1)" and t: "load_telemetry d1 = (Inr t, d2)"
    and b: "b = \<lparr>Device = (i, d2), Buffer = q, Monitoring = m, Telemetry = t, Outside = w\<rparr>"
    using n by (auto simp: new_agent_def bind_result_Inr_iff split: if_splits prod.splits sum.splits)
  note ms = load_monitoring_spec [OF m] and ts = load_telemetry_spec [OF t]
  have k: "lookup d2 = lookup (snd (Device a))" using ms ts le by simp
  have mon: "saved_monitoring d2 = Some m" "m = Monitoring a"
    using ms k le assms(1) saved_monitoring_cong [of d2 "snd (Device a)"] saved_monitoring_cong [of d "snd (Device a)"]
    by (simp_all add: agent_ok_def)
  show ?thesis
    using b id key mon ts open_queue_Inr [OF o qok] assms(1) k le identity_good_cong [of d2 d] marked_cong [of d2 "snd (Device a)"]
    by (auto simp: agent_ok_def agent_moves_def held_identity_def waiting_def intro: order_trans)
qed

section \<open>Every history\<close>

text \<open>
  One step of a history: an operation of the agent in any environment, an event of its loop, a
  change of the world outside, or a restart of the process. File operations may fail in all of them.
\<close>

inductive agent_step :: "'w agent \<Rightarrow> 'w agent \<Rightarrow> bool" where
  world: "agent_step a (a\<lparr>Outside := w\<rparr>)"
| activating: "activate_agent env token a = (r, b) \<Longrightarrow> agent_step a b"
| contract: "current_contract env a = (q, b) \<Longrightarrow> agent_step a b"
| collecting: "collect env c a = (r, b) \<Longrightarrow> agent_step a b"
| flushing: "flush_buffer env a = (r, b) \<Longrightarrow> agent_step a b"
| snapshot: "submit_snapshot env s a = (r, b) \<Longrightarrow> agent_step a b"
| once: "run_once env a = (r, b) \<Longrightarrow> agent_step a b"
| starting: "run_start env a = (x, b) \<Longrightarrow> agent_step a b"
| looping: "run_event env e m a = (x, b) \<Longrightarrow> agent_step a b"
| restart: "load_or_create g (snd (Device a)) = (Inr i, d) \<Longrightarrow> open_queue (directory (Buffer a)) l = (Inr bf, db) \<Longrightarrow>
    new_agent parse env (i, d) bf w = Inr (env', b) \<Longrightarrow> agent_step a b"

lemma advancesD: "agent_advances f a \<Longrightarrow> f a = (r, b) \<Longrightarrow> agent_ok b \<and> agent_moves a b"
  by (simp add: advances_def)

lemmas methods_advance = activate_agent_advances [THEN advancesD] current_contract_advances [THEN advancesD]
  collect_advances [THEN advancesD] flush_advances [THEN advancesD] submit_snapshot_advances [THEN advancesD]
  run_once_advances [THEN advancesD] run_start_advances [THEN advancesD] run_event_advances [THEN advancesD]

lemma agent_step_advances: "agent_step a b \<Longrightarrow> agent_ok a \<Longrightarrow> agent_ok b \<and> agent_moves a b"
proof (induction rule: agent_step.induct)
  case (restart g a i d l bf db parse env w env' b)
  then show ?case by (intro restart_advances)
qed (simp, (erule (1) methods_advance [rotated])+)

lemma agent_steps_advance: "agent_step\<^sup>*\<^sup>* a b \<Longrightarrow> agent_ok a \<Longrightarrow> agent_ok b \<and> agent_moves a b"
  by (erule agents.advances_star) (auto dest: agent_step_advances)

end
