(* ===== verification/Protocol_Correct.thy ===== *)
theory Protocol_Correct
  imports Protocol_Check
begin

text \<open>
  What the validators of \<open>protocol/v1/models.go\<close> accept: the recursive check of a metric value says
  exactly that no part of it lies too deep or is out of bounds by itself, and no verdict depends on
  the order in which Go happens to range over a map.
\<close>

section \<open>Parts of a value\<close>

text \<open>The parts of a value with their depth; unexported struct fields are not visited.\<close>

fun subvalues :: "any \<Rightarrow> any list" where
  "subvalues (GMap ms) = map snd ms"
| "subvalues (GSlice xs) = xs"
| "subvalues (GPointer (Some x)) = [x]"
| "subvalues (GStruct fs) = map snd (filter fst fs)"
| "subvalues _ = []"

inductive part :: "any \<Rightarrow> nat \<Rightarrow> any \<Rightarrow> bool" where
  self: "part v 0 v"
| inside: "x \<in> set (subvalues v) \<Longrightarrow> part x k y \<Longrightarrow> part v (Suc k) y"

inductive_simps part_0 [simp]: "part v 0 y"
inductive_simps part_Suc [simp]: "part v (Suc k) y"

fun part_ok :: "any \<Rightarrow> bool" where
  "part_ok (GString s) = (length s \<le> 2048)"
| "part_ok (GFloat32 x) = (\<not> nonfinite x)"
| "part_ok (GFloat64 x) = (\<not> nonfinite x)"
| "part_ok (GMap ms) = (length ms \<le> 128 \<and> (\<forall>k \<in> set (map fst ms). \<exists>s. k = StringKey s \<and> s \<notin> set unsafe_keys))"
| "part_ok (GSlice xs) = (length xs \<le> 1024)"
| "part_ok GOther = False"
| "part_ok _ = True"

definition parts_ok :: "any \<Rightarrow> nat \<Rightarrow> bool" where
  "parts_ok v depth \<longleftrightarrow> (\<forall>k y. part v k y \<longrightarrow> depth + k \<le> 6 \<and> part_ok y)"

lemma parts_ok_step:
  "parts_ok v depth \<longleftrightarrow> depth \<le> 6 \<and> part_ok v \<and> (\<forall>x \<in> set (subvalues v). parts_ok x (depth + 1))"
proof -
  have "(\<forall>k y. part v k y \<longrightarrow> depth + k \<le> 6 \<and> part_ok y) \<longleftrightarrow>
      (\<forall>y. part v 0 y \<longrightarrow> depth + 0 \<le> 6 \<and> part_ok y) \<and>
      (\<forall>k y. part v (Suc k) y \<longrightarrow> depth + Suc k \<le> 6 \<and> part_ok y)" by (metis not0_implies_Suc)
  also have "\<dots> \<longleftrightarrow> depth \<le> 6 \<and> part_ok v \<and>
      (\<forall>x \<in> set (subvalues v). \<forall>k y. part x k y \<longrightarrow> depth + 1 + k \<le> 6 \<and> part_ok y)" by auto
  finally show ?thesis unfolding parts_ok_def .
qed

lemma check_key_ok: "check_key k = Inr () \<longleftrightarrow> (\<exists>s. k = StringKey s \<and> s \<notin> set unsafe_keys)"
  by (cases k) auto

lemma validate_bounded_iff: "validate_bounded_value v depth = Inr () \<longleftrightarrow> parts_ok v depth"
proof (induction v depth rule: validate_bounded_value.induct)
  case (1 v depth)
  show ?case
  proof (cases "depth > 6")
    case True
    then show ?thesis by (simp add: validate_bounded_value.simps [of v depth] parts_ok_step [of v depth])
  next
    case False
    show ?thesis
    proof (cases v)
      case (GMap ms)
      have ih: "validate_bounded_value x (depth + 1) = Inr () \<longleftrightarrow> parts_ok x (depth + 1)"
        if "(k, x) \<in> set ms" "length ms \<le> 128" for k x
        using 1(1) [OF False GMap _ that(1) refl] that(2) by simp
      have "validate_bounded_value v depth = Inr () \<longleftrightarrow> length ms \<le> 128 \<and>
          (\<forall>(k, x) \<in> set ms. check_key k = Inr () \<and> validate_bounded_value x (depth + 1) = Inr ())"
        using False by (simp add: GMap validate_bounded_value.simps [of "GMap ms"] bind_result_Inr_iff split_beta)
      also have "\<dots> \<longleftrightarrow> part_ok v \<and> (\<forall>x \<in> set (subvalues v). parts_ok x (depth + 1))"
        using ih by (auto simp: GMap check_key_ok)
      finally show ?thesis using False by (simp add: parts_ok_step [of v depth])
    next
      case (GSlice xs)
      have ih: "validate_bounded_value x (depth + 1) = Inr () \<longleftrightarrow> parts_ok x (depth + 1)"
        if "x \<in> set xs" "length xs \<le> 1024" for x
        using 1(2) [OF False GSlice _ that(1)] that(2) by simp
      have "validate_bounded_value v depth = Inr () \<longleftrightarrow> length xs \<le> 1024 \<and>
          (\<forall>x \<in> set xs. validate_bounded_value x (depth + 1) = Inr ())"
        using False by (simp add: GSlice validate_bounded_value.simps [of "GSlice xs"])
      also have "\<dots> \<longleftrightarrow> part_ok v \<and> (\<forall>x \<in> set (subvalues v). parts_ok x (depth + 1))"
        using ih by (auto simp: GSlice)
      finally show ?thesis using False by (simp add: parts_ok_step [of v depth])
    next
      case (GPointer p)
      show ?thesis
      proof (cases p)
        case (Some x)
        then show ?thesis using False 1(3) [OF False GPointer Some]
          by (simp add: GPointer validate_bounded_value.simps [of "GPointer (Some x)"] parts_ok_step [of "GPointer (Some x)"])
      qed (use False in \<open>simp add: GPointer validate_bounded_value.simps [of "GPointer None"] parts_ok_step [of "GPointer None"]\<close>)
    next
      case (GStruct fs)
      have ih: "validate_bounded_value x (depth + 1) = Inr () \<longleftrightarrow> parts_ok x (depth + 1)"
        if "(True, x) \<in> set fs" for x using 1(4) [OF False GStruct that refl] by simp
      have "validate_bounded_value v depth = Inr () \<longleftrightarrow>
          (\<forall>(exported, x) \<in> set fs. exported \<longrightarrow> validate_bounded_value x (depth + 1) = Inr ())"
        using False by (simp add: GStruct validate_bounded_value.simps [of "GStruct fs"] split_beta)
      also have "\<dots> \<longleftrightarrow> part_ok v \<and> (\<forall>x \<in> set (subvalues v). parts_ok x (depth + 1))"
        using ih by (auto simp: GStruct)
      finally show ?thesis using False by (simp add: parts_ok_step [of v depth])
    qed (use False in \<open>simp_all add: validate_bounded_value.simps [of _ depth] parts_ok_step [of _ depth] not_less\<close>)
  qed
qed

text \<open>
  C35: a metric value is accepted exactly when none of its parts lies deeper than six levels and
  each is fine by itself: strings of at most 2048 bytes, finite numbers, maps of at most 128
  entries with safe string keys, slices of at most 1024 elements, no unsupported type.
\<close>

theorem bounded_value_exact:
  "validate_bounded_value v 0 = Inr () \<longleftrightarrow> (\<forall>k y. part v k y \<longrightarrow> k \<le> 6 \<and> part_ok y)"
  by (simp add: validate_bounded_iff parts_ok_def)

lemma bounded_value_exact_witness:
  "(\<Union>k. {y. part (GMap [(StringKey ''cpu'', GSlice [GFloat64 (Finite 1)])]) k y} - {y. k \<le> 6 \<and> part_ok y}) = {} \<and>
   (\<exists>k y. part (GMap [(StringKey ''cpu'', GSlice [GFloat64 NaN])]) k y \<and> \<not> (k \<le> 6 \<and> part_ok y))"
proof -
  have ok: "validate_bounded_value (GMap [(StringKey ''cpu'', GSlice [GFloat64 (Finite 1)])]) 0 = Inr ()"
    and bad: "validate_bounded_value (GMap [(StringKey ''cpu'', GSlice [GFloat64 NaN])]) 0 \<noteq> Inr ()"
    by (simp_all add: validate_bounded_value.simps unsafe_keys_def nonfinite_def fail_if_def bind_result_def)
  show ?thesis
    using ok bad unfolding bounded_value_exact by blast
qed

section \<open>Ranging over maps\<close>

text \<open>The same value with the entries of some of its maps met in another order.\<close>

inductive reordered :: "any \<Rightarrow> any \<Rightarrow> bool" where
  same: "reordered v v"
| swap: "mset ms = mset ns \<Longrightarrow> reordered (GMap ms) (GMap ns)"
| inner: "map fst ms = map fst ns \<Longrightarrow> list_all2 reordered (map snd ms) (map snd ns) \<Longrightarrow> reordered (GMap ms) (GMap ns)"
| slice: "list_all2 reordered xs ys \<Longrightarrow> reordered (GSlice xs) (GSlice ys)"
| pointer: "reordered x y \<Longrightarrow> reordered (GPointer (Some x)) (GPointer (Some y))"
| struct: "map fst fs = map fst gs \<Longrightarrow> list_all2 reordered (map snd fs) (map snd gs) \<Longrightarrow> reordered (GStruct fs) (GStruct gs)"
| chain: "reordered v w \<Longrightarrow> reordered w x \<Longrightarrow> reordered v x"

lemma list_all2_filter_fst:
  assumes "map fst fs = map fst gs" and "list_all2 R (map snd fs) (map snd gs)"
  shows "list_all2 R (map snd (filter fst fs)) (map snd (filter fst gs))"
  using assms by (induction fs arbitrary: gs) (auto simp: Cons_eq_map_conv)

lemma list_all2_ball:
  "list_all2 (\<lambda>x y. P x = P y) xs ys \<Longrightarrow> (\<forall>x \<in> set xs. P x) = (\<forall>y \<in> set ys. P y)"
  by (induction xs ys rule: list_all2_induct) auto

lemma list_all2_parts:
  "list_all2 (\<lambda>x y. reordered x y \<and> (\<forall>d. parts_ok x d = parts_ok y d)) xs ys \<Longrightarrow>
   (\<forall>x \<in> set xs. parts_ok x d) = (\<forall>y \<in> set ys. parts_ok y d)"
  by (rule list_all2_ball) (auto elim: list_all2_mono)

lemma reordered_parts: "reordered v w \<Longrightarrow> parts_ok v d = parts_ok w d"
proof (induction arbitrary: d rule: reordered.induct)
  case (swap ms ns)
  then have "set ms = set ns" "length ms = length ns" by (metis set_mset_mset, metis size_mset)
  then show ?case by (simp add: parts_ok_step [of "GMap _"])
next
  case (inner ms ns)
  have "length ms = length ns" "fst ` set ms = fst ` set ns" using inner(1) by (metis length_map, metis set_map)
  then show ?case using list_all2_parts [OF inner(2), of "d + 1"] by (simp add: parts_ok_step [of "GMap _"])
next
  case (slice xs ys)
  then show ?case using list_all2_parts [OF slice, of "d + 1"] list_all2_lengthD [OF slice]
    by (simp add: parts_ok_step [of "GSlice _"])
next
  case (pointer x y)
  then show ?case by (simp add: parts_ok_step [of "GPointer _"])
next
  case (struct fs gs)
  then show ?case using list_all2_parts [OF list_all2_filter_fst [OF struct], of "d + 1"]
    by (simp add: parts_ok_step [of "GStruct _"])
qed simp_all

lemma reordered_check: "reordered v w \<Longrightarrow> validate_bounded_value v d = Inr () \<longleftrightarrow> validate_bounded_value w d = Inr ()"
  by (simp add: validate_bounded_iff reordered_parts)

definition reordered_maps :: "metric_map list \<Rightarrow> metric_map list \<Rightarrow> bool" where
  "reordered_maps = list_all2 (\<lambda>a b. reordered (GMap a) (GMap b))"

definition reordered_metrics :: "metrics \<Rightarrow> metrics \<Rightarrow> bool" where
  "reordered_metrics m n \<longleftrightarrow> UptimeSeconds m = UptimeSeconds n \<and> LoadAverage m = LoadAverage n \<and>
     reordered (GMap (MSystem m)) (GMap (MSystem n)) \<and> reordered (GMap (MCPU m)) (GMap (MCPU n)) \<and>
     reordered (GMap (MMemory m)) (GMap (MMemory n)) \<and> reordered_maps (Filesystems m) (Filesystems n) \<and>
     reordered_maps (DiskIO m) (DiskIO n) \<and> reordered_maps (Network m) (Network n) \<and>
     reordered_maps (MSensors m) (MSensors n) \<and> reordered_maps (Batteries m) (Batteries n) \<and>
     reordered_maps (MGPUs m) (MGPUs n)"

definition reordered_storage :: "storage_health \<Rightarrow> storage_health \<Rightarrow> bool" where
  "reordered_storage s t \<longleftrightarrow> reordered (GMap (StorageMetrics s)) (GMap (StorageMetrics t)) \<and>
     t = s\<lparr>StorageMetrics := StorageMetrics t\<rparr>"

lemma reordered_maps_value: "reordered_maps ms ns \<Longrightarrow> reordered (maps_value ms) (maps_value ns)"
  unfolding maps_value_def reordered_maps_def
  by (rule reordered.slice) (simp add: list_all2_map1 list_all2_map2)

lemma reordered_metrics_value: "reordered_metrics m n \<Longrightarrow> reordered (metrics_value m) (metrics_value n)"
  unfolding metrics_value_def reordered_metrics_def
  by (rule reordered.struct) (auto intro: reordered.same reordered_maps_value)

lemma reordered_collections: "reordered_metrics m n \<Longrightarrow> metric_collections m = metric_collections n"
  by (auto simp: reordered_metrics_def reordered_maps_def metric_collections_def dest: list_all2_lengthD)

lemma reordered_storage_check: "reordered_storage s t \<Longrightarrow> (validate_storage s = Inr ()) = (validate_storage t = Inr ())"
  unfolding reordered_storage_def validate_storage_def checks_ok
  using reordered_check [of "GMap (StorageMetrics s)" "GMap (StorageMetrics t)" 0] by (cases s; cases t) auto

text \<open>
  Whether a heartbeat is accepted does not depend on the order in which the validator ranges
  over its maps: its capabilities, and the metric maps at any depth.
\<close>

theorem heartbeat_verdict_stable:
  assumes "mset cs = mset (Capabilities h)" and "reordered_metrics (HbMetrics h) mt"
    and "list_all2 reordered_storage (HbStorage h) sh"
  shows "validate_heartbeat h = Inr () \<longleftrightarrow>
    validate_heartbeat (h\<lparr>Capabilities := cs, HbMetrics := mt, HbStorage := sh\<rparr>) = Inr ()"
proof -
  have c: "set cs = set (Capabilities h)" "length cs = length (Capabilities h)" "cs = [] \<longleftrightarrow> Capabilities h = []"
    using assms(1) by (metis set_mset_mset, metis size_mset, metis mset_zero_iff)
  have l: "LoadAverage mt = LoadAverage (HbMetrics h)" using assms(2) by (simp add: reordered_metrics_def)
  have s: "(\<forall>s \<in> set (HbStorage h). validate_storage s = Inr ()) = (\<forall>s \<in> set sh. validate_storage s = Inr ())"
    by (rule list_all2_ball, rule list_all2_mono [OF assms(3)]) (rule reordered_storage_check)
  note m = reordered_check [OF reordered_metrics_value [OF assms(2)], of 0] reordered_collections [OF assms(2)]
  show ?thesis unfolding validate_heartbeat_def checks_ok
    using c l s m list_all2_lengthD [OF assms(3)] by simp
qed

definition sample_metrics :: "metric_map \<Rightarrow> metrics" where
  "sample_metrics ms = \<lparr>UptimeSeconds = None, LoadAverage = [], MSystem = ms, MCPU = [], MMemory = [],
     Filesystems = [], DiskIO = [], Network = [], MSensors = [], Batteries = [], MGPUs = []\<rparr>"

definition sample_heartbeat :: heartbeat where
  "sample_heartbeat = \<lparr>HbMajor = 1, HbSequence = 1, AgentVersion = ''1.0.0'', CollectedAt = 1,
     HbHost = \<lparr>HostType = ''server'', HostID = 1\<rparr>, Hostname = ''host'', DroppedSamples = 0, MonitoringRevision = 0,
     Capabilities = [(''a'', \<lparr>CapState = Available, CapDetail = []\<rparr>), (''b'', \<lparr>CapState = Disabled, CapDetail = []\<rparr>)],
     CapabilitiesHash = [], HbMetrics = sample_metrics [(StringKey ''a'', GInt KInt 1), (StringKey ''b'', GNil)],
     HbState = None, HbServices = [], HbContainers = [], HbStorage = []\<rparr>"

lemma heartbeat_verdict_stable_witness:
  "validate_heartbeat sample_heartbeat = Inr () \<longleftrightarrow>
   validate_heartbeat (sample_heartbeat\<lparr>Capabilities := rev (Capabilities sample_heartbeat),
     HbMetrics := sample_metrics [(StringKey ''b'', GNil), (StringKey ''a'', GInt KInt 1)], HbStorage := []\<rparr>) = Inr ()"
proof (rule heartbeat_verdict_stable)
  show "mset (rev (Capabilities sample_heartbeat)) = mset (Capabilities sample_heartbeat)" by simp
  show "list_all2 reordered_storage (HbStorage sample_heartbeat) []" by (simp add: sample_heartbeat_def)
  show "reordered_metrics (HbMetrics sample_heartbeat)
      (sample_metrics [(StringKey ''b'', GNil), (StringKey ''a'', GInt KInt 1)])"
    by (auto simp: reordered_metrics_def sample_heartbeat_def sample_metrics_def reordered_maps_def
        intro: reordered.same reordered.swap)
qed

end
