(* ===== verification/Transport_Sample.thy ===== *)
theory Transport_Sample
  imports Agent_Transport
begin

text \<open>
  A hub that acknowledges every heartbeat and cannot be asked for a contract, for the witnesses of the
  transport and of the runtime.
\<close>

section \<open>A hub that acknowledges\<close>

definition sample_reply :: "http_request \<Rightarrow> bytes" where
  "sample_reply request = (case map_of (Headers request) ''X-Homelab-Agent-Sequence'' of
     None \<Rightarrow> [] | Some n \<Rightarrow> json_text (JObj [(''ok'', JBool True), (''sequence'', JNum n)]) @ newline)"

definition sample_hub :: "unit server" where
  "sample_hub request w =
     (if Method request = ''GET'' then (Inl IoFault, w)
      else (Inr \<lparr>StatusCode = 200, RespBody = Inr (sample_reply request), ETag = []\<rparr>, w))"

definition sample_client :: "unit client" where
  "sample_client = \<lparr>ClientEndpoint = ''http://hub'', Server = sample_hub, Clock = (\<lambda>w. (0, w)), Sha = (\<lambda>b. ''digest''),
     Sign = (\<lambda>k b. ''signature''), SchemaDigest = Inr (replicate 64 (CHR ''0''))\<rparr>"

definition acknowledgement :: "u64 \<Rightarrow> heartbeat_response" where
  "acknowledgement n = \<lparr>ResponseOK = True, ReceivedAt = [], ResponseSequence = n, NewMonitoring = None, TelemetryAck = None\<rparr>"

definition sample_host :: host_ref where
  "sample_host = \<lparr>HostType = ''server'', HostID = 1\<rparr>"

lemma sample_host_valid: "validate_host_ref sample_host = Inr ()"
  by code_simp

lemma sample_check: "check_response n (json_text (JObj [(''ok'', JBool True), (''sequence'', JNum (show_u64 n))]) @ newline)
    = Inr (acknowledgement n)"
proof -
  have "natural_json (JObj [(''ok'', JBool True), (''sequence'', JNum (show_u64 n))])" by (auto simp: show_u64_def)
  note p = parse_json_text [OF this]
  show ?thesis
    by (simp add: check_response_def p decode_response_body_def json_struct_def bool_field_def string_field_def u64_field_def
        fold_simps acknowledgement_def del: json_text.simps)
qed

lemma length_show_u64: "length (show_u64 n) \<le> 20"
proof -
  have "unat n < 2 ^ 64" using unsigned_less [of n] by simp
  then have "unat n < 10 ^ 20" by simp
  then show ?thesis unfolding show_u64_def by (rule length_show_nat) simp
qed

lemma length_sample_reply:
  "length (json_text (JObj [(''ok'', JBool True), (''sequence'', JNum (show_u64 n))]) @ newline) \<le> max_response_bytes"
proof -
  have "length (json_quote ''ok'') = 4" "length (json_quote ''sequence'') = 10" by code_simp+
  then show ?thesis using length_show_u64 [of n] by (simp add: max_response_bytes_def newline_def)
qed

lemma sample_sends:
  assumes "device \<noteq> 0" and "n \<noteq> 0" and "length key = private_key_size" and "body \<noteq> []"
  shows "send_heartbeat sample_client sample_host device key n body w = (Inr (acknowledgement n), w)"
proof -
  let ?r = "json_text (JObj [(''ok'', JBool True), (''sequence'', JNum (show_u64 n))]) @ newline"
  have reply: "read_response \<lparr>StatusCode = 200, RespBody = Inr ?r, ETag = []\<rparr> = Inr ?r"
    using length_sample_reply [of n]
    by (simp add: read_response_def read_limited_def success_status_def del: json_text.simps)
  have "sample_reply \<lparr>Method = ''POST'', Url = u, Headers = signed_headers sample_client p c e device key n body t, Content = body\<rparr> = ?r"
    for u p c e t by (simp add: sample_reply_def signed_headers_def Let_def del: json_text.simps)
  then have "send_signed sample_client p c e device key n body w = (Inr ?r, w)" for p c e
    using assms reply by (simp add: send_signed_def sample_client_def sample_hub_def del: json_text.simps)
  then show ?thesis
    by (simp add: send_heartbeat_def sample_host_valid sample_check del: json_text.simps)
qed

end
