(* ===== verification/Agent_Sample.thy ===== *)
theory Agent_Sample
  imports Agent_Correct Protocol_Correct Transport_Sample
begin

text \<open>
  One small installation: an activated agent with an empty buffer and with one waiting entry, the hub
  of the transport's witnesses, and a collector that gives the same heartbeat each time. The witnesses
  of the runtime's properties are about it.
\<close>

section \<open>The installation\<close>

definition sample_contract :: contract where
  "sample_contract = \<lparr>ContractMajor = 1, ContractRevision = 1, IssuedAt = 1, SchemaBundleDigest = legacy_digest,
     Collection = \<lparr>HostIntervalSeconds = 60, ServiceIntervalSeconds = 300, StorageHealthIntervalSeconds = 3600,
        GPUSampleIntervalSeconds = 10\<rparr>,
     ContractLimits = \<lparr>CompressedBytes = 1048576, DecompressedBytes = 4194304, OfflineSamples = 2, OfflineBytes = 1048576\<rparr>,
     Privacy = \<lparr>ContainersEnabled = False, SMARTEnabled = False, RawHardwareIdentifiers = False\<rparr>\<rparr>"

lemma sample_contract_valid: "validate_contract sample_contract = Inr ()"
  by (simp add: validate_contract_def checks_ok sample_contract_def outside_def is_zero_def legacy_digest_def)

definition sample_env :: "unit agent_env" where
  "sample_env = \<lparr>AgConfig = sample_config\<lparr>ConfHost := sample_host\<rparr>, AgVersion = ''1.0.0'', AgCapabilities = [],
     AgClient = sample_client, CollectHeartbeat = (\<lambda>c w. (Inr sample_heartbeat, w)), StartCollector = (\<lambda>c w. w),
     Now = (\<lambda>w. (1, w)), Cancelled = (\<lambda>w. False), ValueHash = (\<lambda>p. Inr (replicate 64 (CHR ''a''))), Marshal = (\<lambda>h. Inr ''{}''),
     MarshalSnapshot = (\<lambda>s. Inr ''{}''), Gzip = Inr, Gunzip = Some, PublicKeyText = (\<lambda>k. Inr ''key'')\<rparr>"

definition sample_agent :: "unit agent" where
  "sample_agent = \<lparr>Device = (sample_identity, sample_disk), Buffer = sample_queue\<lparr>queue_limits := contract_limits sample_contract\<rparr>,
     Monitoring = zero_monitoring, Telemetry = empty_sync, Outside = ()\<rparr>"

lemma sample_agent_ok: "agent_ok sample_agent"
proof -
  have "queue_ok (sample_queue\<lparr>queue_limits := contract_limits sample_contract\<rparr>)"
    using sample_queue_ok(1) by (simp add: queue_ok_def positive_limits_def contract_limits_def sample_contract_def)
  moreover have "saved_monitoring sample_disk = Some zero_monitoring"
    by (simp add: saved_monitoring_def stored_def sample_disk_def lookup_def)
  ultimately show ?thesis
    using sample_identity_good(1) sample_queue_ok(3)
    by (simp add: agent_ok_def sample_agent_def held_identity_def waiting_def empty_sync_def)
qed

text \<open>The same installation with one heartbeat waiting.\<close>

definition busy_directory :: disk where
  "busy_directory = \<lparr>files = [(entry_path 3, Reg ''x'' mode_600)], faults = [], seeds = []\<rparr>"

definition busy_agent :: "unit agent" where
  "busy_agent = sample_agent\<lparr>Buffer := \<lparr>directory = busy_directory, queue_limits = contract_limits sample_contract\<rparr>\<rparr>"

lemma busy_directory_ok: "queue_files_ok busy_directory" "pending_list busy_directory = [\<lparr>Sequence = 3, Body = ''x''\<rparr>]"
proof -
  have l: "lookup busy_directory = [entry_path 3 \<mapsto> Reg ''x'' mode_600]"
    by (simp add: lookup_def busy_directory_def)
  show ok: "queue_files_ok busy_directory"
    using good_file_entry [of 3 "''x''"] by (simp add: queue_files_ok_def disk_ok_def l) (simp add: busy_directory_def)
  show "pending_list busy_directory = [\<lparr>Sequence = 3, Body = ''x''\<rparr>]"
    by (rule pending_list_unique [OF ok]) (auto simp: pending_def l)
qed

lemma busy_agent_ok: "agent_ok busy_agent" "waiting busy_agent = [\<lparr>Sequence = 3, Body = ''x''\<rparr>]"
proof -
  show w: "waiting busy_agent = [\<lparr>Sequence = 3, Body = ''x''\<rparr>]"
    by (simp add: waiting_def busy_agent_def busy_directory_ok)
  have "queue_ok (Buffer busy_agent)"
    using busy_directory_ok(1) by (simp add: queue_ok_def busy_agent_def positive_limits_def contract_limits_def sample_contract_def)
  then show "agent_ok busy_agent"
    using sample_agent_ok w
    by (simp add: agent_ok_def busy_agent_def held_identity_def sample_agent_def sample_identity_def)
qed

end
