(* ===== verification/Agent_Delivery.thy ===== *)
theory Agent_Delivery
  imports Agent_Sample
begin

text \<open>
  What the runtime promises about heartbeats: the invariant of every history, what a successful
  collection puts into the buffer, that an entry leaves the buffer only when the hub has answered for it
  and in order, and that a heartbeat within the contract is stored.
\<close>

section \<open>Every history\<close>



section \<open>Parts of the state an operation leaves alone\<close>

lemma on_state_frame [simp]:
  "Buffer (snd (on_state f a)) = Buffer a" "Outside (snd (on_state f a)) = Outside a"
  "Telemetry (snd (on_state f a)) = Telemetry a" "Monitoring (snd (on_state f a)) = Monitoring a"
  "fst (Device (snd (on_state f a))) = fst (Device a)"
  by (simp_all add: on_state_def split: prod.split)

lemma on_outside_frame [simp]:
  "Buffer (snd (on_outside f a)) = Buffer a" "Device (snd (on_outside f a)) = Device a"
  "Telemetry (snd (on_outside f a)) = Telemetry a" "Monitoring (snd (on_outside f a)) = Monitoring a"
  by (simp_all add: on_outside_def split: prod.split)

lemma on_device_frame [simp]:
  "Buffer (snd (on_device f a)) = Buffer a" "Outside (snd (on_device f a)) = Outside a"
  "Telemetry (snd (on_device f a)) = Telemetry a" "Monitoring (snd (on_device f a)) = Monitoring a"
  by (simp_all add: on_device_def split: prod.split)

lemma on_buffer_frame [simp]:
  "Device (snd (on_buffer f a)) = Device a" "Outside (snd (on_buffer f a)) = Outside a"
  "Telemetry (snd (on_buffer f a)) = Telemetry a" "Monitoring (snd (on_buffer f a)) = Monitoring a"
  "Buffer (snd (on_buffer f a)) = snd (f (Buffer a))" "fst (on_buffer f a) = fst (f (Buffer a))"
  by (simp_all add: on_buffer_def split: prod.split)

lemma apply_monitoring_buffer [simp]: "Buffer (snd (apply_monitoring m a)) = Buffer a"
proof -
  obtain r b where b: "apply_monitoring m a = (r, b)" by (metis surj_pair)
  then show ?thesis
    by (cases rule: apply_monitoring_cases) (use on_state_frame(1) [of "write_monitoring m" a] b in auto)
qed

lemma take_monitoring_buffer [simp]: "Buffer (snd (take_monitoring response a)) = Buffer a"
proof (cases "NewMonitoring response")
  case (Some m)
  obtain r b where "apply_monitoring m a = (r, b)" by (metis surj_pair)
  with Some apply_monitoring_buffer [of m a] show ?thesis by (cases r) (simp_all add: take_monitoring_def)
qed (simp add: take_monitoring_def return_io_def)

lemma apply_ack_buffer [simp]: "Buffer (snd (apply_ack ack a)) = Buffer a"
  by (simp add: apply_ack_def split: option.split sum.split)

lemma go_dormant_buffer [simp]: "Buffer (snd (go_dormant env a)) = Buffer a"
  by (simp add: go_dormant_def bind_io_def on_outside_def on_state_def split: prod.split sum.split)

section \<open>Flushing the buffer\<close>

lemma waiting_member: "agent_ok a \<Longrightarrow> e \<in> set (waiting a) \<Longrightarrow> Sequence e \<noteq> 0"
  using pending_list_set [of "directory (Buffer a)" e]
  by (auto simp: agent_ok_def queue_ok_def waiting_def pending_def split: if_splits)

lemma waiting_distinct: "agent_ok a \<Longrightarrow> distinct (map Sequence (waiting a))"
  using pending_list_distinct by (auto simp: agent_ok_def queue_ok_def waiting_def)

lemma kept_waiting: "Kept (abs_queue (Buffer a)) = waiting a"
  by (simp add: abs_queue_def waiting_def)

definition taken_out :: "u64 \<Rightarrow> 'w agent \<Rightarrow> entry list" where
  "taken_out s a = filter (\<lambda>e. Sequence e \<noteq> s) (waiting a)"

lemma settle_entry_waiting:
  assumes "settle_entry env e response a = (r, b)" and "agent_ok a" and "Sequence e \<noteq> 0"
  shows "(waiting b = waiting a \<or> waiting b = taken_out (Sequence e) a) \<and>
    (r = Inr () \<longrightarrow> waiting b = taken_out (Sequence e) a)"
proof -
  obtain r1 a1 where 1: "take_monitoring response a = (r1, a1)" by (metis surj_pair)
  obtain r2 a2 where 2: "apply_ack (TelemetryAck response) a1 = (r2, a2)" by (metis surj_pair)
  obtain r3 a3 where 3: "on_buffer (remove (Sequence e)) a2 = (r3, a3)" by (metis surj_pair)
  let ?last = "if reported_dropped env (Body e) > 0 then on_buffer (acknowledge_dropped (reported_dropped env (Body e))) else return_io ()"
  obtain r4 a4 where 4: "?last a3 = (r4, a4)" by (metis surj_pair)
  have b: "Buffer a1 = Buffer a" "Buffer a2 = Buffer a1"
    using take_monitoring_buffer [of response a] 1 apply_ack_buffer [of "TelemetryAck response" a1] 2 by simp_all
  have ok: "queue_ok (Buffer a)" using assms(2) by (simp add: agent_ok_def)
  have rm: "remove (Sequence e) (Buffer a) = (r3, Buffer a3)"
    using on_buffer_frame(5,6) [of "remove (Sequence e)" a2] 3 b by (simp add: prod_eq_iff)
  note rs = remove_ok [OF rm ok assms(3)]
  have w3: "waiting a3 = waiting a \<or> waiting a3 = taken_out (Sequence e) a"
    "r3 = Inr () \<Longrightarrow> waiting a3 = taken_out (Sequence e) a"
    using rs by (auto simp: kept_waiting [symmetric] buffer_remove_def taken_out_def)
  have w4: "waiting a4 = waiting a3"
  proof (cases "reported_dropped env (Body e) > 0")
    case True
    obtain q where q: "acknowledge_dropped (reported_dropped env (Body e)) (Buffer a3) = (r4, q)" "Buffer a4 = q"
      using 4 True on_buffer_frame(5,6) [of "acknowledge_dropped (reported_dropped env (Body e))" a3] by (simp add: prod_eq_iff)
    show ?thesis using acknowledge_ok [OF q(1)] rs q(2) by (simp add: kept_waiting [symmetric])
  next
    case False
    then show ?thesis using 4 by (simp add: return_io_def)
  qed
  have "(r, b) = (case r1 of Inl x \<Rightarrow> (Inl x, a1) | Inr _ \<Rightarrow> (case r2 of Inl x \<Rightarrow> (Inl x, a2) | Inr _ \<Rightarrow>
      (case r3 of Inl x \<Rightarrow> (Inl x, a3) | Inr _ \<Rightarrow> (r4, a4))))"
    using assms(1) 1 2 3 4 unfolding settle_entry_def Let_def
    by (auto simp: bind_io_def split: sum.splits)
  then show ?thesis using w3 w4 b by (auto simp: waiting_def split: sum.splits)
qed

text \<open>The hub has answered for an entry: with its sequence number, or that it already has it.\<close>

definition answered :: "'w agent_env \<Rightarrow> entry \<Rightarrow> 'w agent \<Rightarrow> bool" where
  "answered env e a \<longleftrightarrow> (case fst (send_heartbeat (AgClient env) (ConfHost (AgConfig env)) (deviceID (fst (Device a)))
     (privateKey (fst (Device a))) (Sequence e) (Body e) (Outside a)) of Inr _ \<Rightarrow> True | Inl err \<Rightarrow> replayed err)"

lemma deliver_waiting:
  assumes "deliver env e a = (r, b)" and "agent_ok a" and "Sequence e \<noteq> 0"
  shows "(waiting b = waiting a \<and> r \<noteq> Inr ()) \<or> (waiting b = taken_out (Sequence e) a \<and> answered env e a)"
proof -
  obtain q w where s: "send_heartbeat (AgClient env) (ConfHost (AgConfig env)) (deviceID (fst (Device a)))
        (privateKey (fst (Device a))) (Sequence e) (Body e) (Outside a) = (q, w)" by (metis surj_pair)
  let ?a = "a\<lparr>Outside := w\<rparr>"
  have ok: "agent_ok ?a" and same: "waiting ?a = waiting a" "taken_out (Sequence e) ?a = taken_out (Sequence e) a"
    using assms(2) by (simp_all add: waiting_def taken_out_def)
  have settled: ?thesis if "settle_entry env e response ?a = (r, b)" "answered env e a" for response
    using settle_entry_waiting [OF that(1) ok assms(3)] that(2) same by auto
  show ?thesis
  proof (cases q)
    case (Inr response)
    then have "answered env e a" using s by (simp add: answered_def)
    with settled show ?thesis using assms(1) s Inr by (simp add: deliver_def)
  next
    case (Inl err)
    consider "revoked err" | "\<not> revoked err" "\<not> replayed err" | "\<not> revoked err" "replayed err" by blast
    then show ?thesis
    proof cases
      case 1
      then have g: "go_dormant env ?a = (r, b)" using assms(1) s Inl by (simp add: deliver_def)
      then have "r \<noteq> Inr ()"
        by (auto simp: go_dormant_def bind_io_def on_outside_def split: prod.splits sum.splits)
      moreover have "waiting b = waiting a" using go_dormant_buffer [of env ?a] g by (simp add: waiting_def)
      ultimately show ?thesis by simp
    next
      case 2
      then have "r = Inl err" "b = ?a" using assms(1) s Inl by (auto simp: deliver_def)
      with same show ?thesis by simp
    next
      case 3
      then have "answered env e a" using s Inl by (simp add: answered_def)
      with settled show ?thesis using assms(1) s Inl 3 by (simp add: deliver_def)
    qed
  qed
qed

lemma taken_out_head:
  "agent_ok a \<Longrightarrow> waiting a = e # es \<Longrightarrow> taken_out (Sequence e) a = es"
  using waiting_distinct [of a] by (auto simp: taken_out_def filter_id_conv image_iff)

text \<open>The state in which the \<open>i\<close>-th entry of a list is sent.\<close>

definition sending_state :: "'w agent_env \<Rightarrow> entry list \<Rightarrow> nat \<Rightarrow> 'w agent \<Rightarrow> 'w agent" where
  "sending_state env es i a = snd (deliver_all env (take i es) a)"

lemma sending_state_simps [simp]:
  "sending_state env es 0 a = a"
  "deliver env e a = (Inr u, t) \<Longrightarrow> sending_state env (e # es) (Suc i) a = sending_state env es i t"
  by (simp_all add: sending_state_def)

lemma deliver_all_waiting:
  assumes "deliver_all env (waiting a) a = (r, b)" and "agent_ok a"
  shows "\<exists>k \<le> length (waiting a). waiting b = drop k (waiting a) \<and>
    (\<forall>i < k. answered env (waiting a ! i) (sending_state env (waiting a) i a)) \<and> (r = Inr () \<longrightarrow> k = length (waiting a))"
  using assms
proof (induction "waiting a" arbitrary: a)
  case Nil
  then show ?case by auto
next
  case (Cons e es)
  obtain q t where d: "deliver env e a = (q, t)" by (metis surj_pair)
  have t: "agent_ok t" using deliver_advances [OF Cons.prems(2), of env e] d by (simp add: advances_def)
  have nz: "Sequence e \<noteq> 0" using waiting_member [OF Cons.prems(2)] Cons.hyps(2) by (metis list.set_intros(1))
  have out: "taken_out (Sequence e) a = es" using taken_out_head [OF Cons.prems(2)] Cons.hyps(2) by simp
  have w: "waiting a = e # es" using Cons.hyps(2) by simp
  have step: "(r, b) = (case q of Inl x \<Rightarrow> (Inl x, t) | Inr _ \<Rightarrow> deliver_all env es t)"
    using Cons.prems(1) d unfolding w by (auto simp: bind_io_def split: sum.splits)
  consider "waiting t = waiting a" "q \<noteq> Inr ()" | "waiting t = es" "answered env e a"
    using deliver_waiting [OF d Cons.prems(2) nz] out by blast
  then show ?case
  proof cases
    case 1
    then have "b = t" "r \<noteq> Inr ()" using step by (auto split: sum.splits)
    with 1 show ?thesis by (intro exI [of _ 0]) simp
  next
    case 2
    show ?thesis
    proof (cases q)
      case (Inl x)
      then have "b = t" "r \<noteq> Inr ()" using step by auto
      with 2 show ?thesis unfolding w by (intro exI [of _ 1]) simp
    next
      case (Inr u)
      then have "deliver_all env (waiting t) t = (r, b)" using step 2 by simp
      from Cons.hyps(1) [OF 2(1) [symmetric] this t] obtain k where k: "k \<le> length es" "waiting b = drop k es"
        "\<forall>i < k. answered env (es ! i) (sending_state env es i t)" "r = Inr () \<longrightarrow> k = length es" using 2(1) by auto
      have "answered env ((e # es) ! i) (sending_state env (e # es) i a)" if "i < Suc k" for i
        using that 2(2) k(3) d Inr by (cases i) auto
      with k show ?thesis unfolding w by (intro exI [of _ "Suc k"]) auto
    qed
  qed
qed

text \<open>
  C3: at least once, in order: a flush takes entries out of the buffer from the oldest on, and takes
  one out only when the hub has answered for it with its sequence number or says it has it already;
  whatever goes wrong, the others stay; a flush that succeeds leaves the buffer empty.
\<close>

theorem flush_in_order:
  assumes "flush_buffer env a = (r, b)" and "agent_ok a"
  shows "\<exists>k \<le> length (waiting a). waiting b = drop k (waiting a) \<and> (r = Inr () \<longrightarrow> waiting b = []) \<and>
    (\<forall>i < k. answered env (waiting a ! i) (sending_state env (waiting a) i (snd (on_buffer entries a))))"
proof -
  obtain q t where e: "on_buffer entries a = (q, t)" by (metis surj_pair)
  have ok: "queue_ok (Buffer a)" using assms(2) by (simp add: agent_ok_def)
  have en: "entries (Buffer a) = (q, Buffer t)" using on_buffer_frame(5,6) [of entries a] e by (simp add: prod_eq_iff)
  have t: "agent_ok t" "waiting t = waiting a"
    using entries_advances [OF assms(2)] e entries_spec(2) [OF en ok] by (simp_all add: advances_def kept_waiting [symmetric])
  show ?thesis
  proof (cases q)
    case (Inl x)
    then have "r = Inl x" "b = t" using assms(1) e by (auto simp: flush_buffer_def bind_io_def)
    with t show ?thesis by (intro exI [of _ 0]) simp
  next
    case (Inr es)
    then have "es = waiting t" using entries_spec(3) [OF en ok] t(2) by (simp add: waiting_def)
    then have "deliver_all env (waiting t) t = (r, b)" using assms(1) e Inr by (simp add: flush_buffer_def)
    from deliver_all_waiting [OF this t(1)] t(2) e show ?thesis by fastforce
  qed
qed

section \<open>Collecting a heartbeat\<close>

lemma add_newest:
  assumes "add e q = ((n, None), q')" and "queue_ok q" and "\<forall>x \<in> set (pending_list (directory q)). Sequence x < Sequence e"
  shows "Kept (abs_queue q') = trim (queue_limits q) (Kept (abs_queue q) @ [e]) \<and> e \<in> set (Kept (abs_queue q')) \<and>
    Lost (abs_queue q') = Lost (abs_queue q) + of_nat (excess (queue_limits q) (Kept (abs_queue q) @ [e])) \<and>
    queue_limits q' = queue_limits q"
proof -
  note any = add_any [OF assms(1,2)]
  have ins: "insort_key Sequence e (pending_list (directory q)) = pending_list (directory q) @ [e]"
    using assms(3) by (rule insort_key_snoc)
  have s: "abs_queue q' = snd (settle (Kept (abs_queue q) @ [e]) (abs_queue q))" using any ins by (simp add: abs_queue_def)
  have len: "int (length (Body e)) \<le> Bytes (queue_limits q)" using assms(1) by (auto simp: add_def split: if_splits)
  have pos: "positive_limits (queue_limits q)" using assms(2) by (simp add: queue_ok_def)
  have "last (trim (queue_limits q) (Kept (abs_queue q) @ [e])) = e \<and> trim (queue_limits q) (Kept (abs_queue q) @ [e]) \<noteq> []"
    using trim_keeps_newest [OF pos, of "Kept (abs_queue q) @ [e]"] len by simp
  then have "e \<in> set (trim (queue_limits q) (Kept (abs_queue q) @ [e]))" by (metis last_in_set)
  with s show ?thesis by (simp add: settle_def Let_def abs_queue_def)
qed

text \<open>What a stored heartbeat is: its bytes, with their sizes within the contract's limits.\<close>

definition fits :: "'w agent_env \<Rightarrow> contract \<Rightarrow> heartbeat \<Rightarrow> bytes \<Rightarrow> bool" where
  "fits env c h body \<longleftrightarrow> validate_heartbeat h = Inr () \<and>
     (\<exists>size. compress_heartbeat env h = Inr (body, size) \<and> int size \<le> DecompressedBytes (ContractLimits c) \<and>
        int (length body) \<le> CompressedBytes (ContractLimits c))"

definition queued :: "'w agent \<Rightarrow> entry \<Rightarrow> 'w agent \<Rightarrow> bool" where
  "queued a e b \<longleftrightarrow> (let l = queue_limits (Buffer a); es = waiting a @ [e] in
     waiting b = trim l es \<and> e \<in> set (waiting b) \<and>
     Lost (abs_queue (Buffer b)) = Lost (abs_queue (Buffer a)) + of_nat (excess l es) \<and> queue_limits (Buffer b) = l)"

lemma queued_cong:
  "queued a e b \<Longrightarrow> abs_queue (Buffer a') = abs_queue (Buffer a) \<Longrightarrow> abs_queue (Buffer b') = abs_queue (Buffer b) \<Longrightarrow> queued a' e b'"
  by (auto simp: queued_def Let_def abs_queue_def waiting_def)

lemma store_heartbeat_Inr:
  assumes "store_heartbeat env c n h a = (Inr (), b)" and "agent_ok a" and "\<forall>x \<in> set (waiting a). Sequence x < n"
  shows "\<exists>body. fits env c h body \<and> queued a \<lparr>Sequence = n, Body = body\<rparr> b"
proof -
  obtain body size u t where v: "validate_heartbeat h = Inr ()" "compress_heartbeat env h = Inr (body, size)"
    "\<not> int size > DecompressedBytes (ContractLimits c)" "\<not> int (length body) > CompressedBytes (ContractLimits c)"
    and add: "on_buffer (counted (add \<lparr>Sequence = n, Body = body\<rparr>)) a = (Inr u, t)" and b: "b = t"
    using assms(1) unfolding store_heartbeat_def
    by (auto elim!: bind_io_InrE simp: pure_io_Inr fail_io_def return_io_def split: if_splits)
  let ?e = "\<lparr>Sequence = n, Body = body\<rparr>"
  have "counted (add ?e) (Buffer a) = (Inr u, Buffer b)"
    using on_buffer_frame(5,6) [of "counted (add ?e)" a] add b by (simp add: prod_eq_iff)
  then obtain k err where "add ?e (Buffer a) = ((k, err), Buffer b)" "Inr u = (case err of None \<Rightarrow> Inr k | Some x \<Rightarrow> Inl x)"
    by (rule counted_cases)
  then have "add ?e (Buffer a) = ((k, None), Buffer b)" by (cases err) simp_all
  from add_newest [OF this] assms(2,3) have "queued a ?e b"
    by (auto simp: queued_def Let_def agent_ok_def waiting_def kept_waiting [symmetric] abs_queue_def)
  with v show ?thesis by (auto simp: fits_def not_less)
qed

text \<open>What the compact form keeps of a heartbeat.\<close>

definition same_header :: "heartbeat \<Rightarrow> heartbeat \<Rightarrow> bool" where
  "same_header h h' \<longleftrightarrow> HbMajor h' = HbMajor h \<and> HbSequence h' = HbSequence h \<and> AgentVersion h' = AgentVersion h \<and>
     HbHost h' = HbHost h \<and> DroppedSamples h' = DroppedSamples h \<and> MonitoringRevision h' = MonitoringRevision h \<and>
     CollectedAt h' = CollectedAt h"

lemma build_header:
  "build_compact_heartbeat g clock h s = (Inr (h', after), s') \<Longrightarrow> same_header h h'"
  by (auto simp: build_compact_heartbeat_def same_header_def Let_def split: sum.splits prod.splits if_splits)

lemma finish_collect_Inr:
  assumes "finish_collect env c n h a = (Inr (), b)" and "agent_ok a" and "\<forall>x \<in> set (waiting a). Sequence x < n"
  shows "\<exists>h' body. same_header h h' \<and> fits env c h' body \<and> queued a \<lparr>Sequence = n, Body = body\<rparr> b"
proof -
  obtain compact where c: "(if compact then bind_io (make_compact env h) (\<lambda>(h', after). bind_io (store_heartbeat env c n h') (\<lambda>_.
         bind_io (on_state (write_telemetry after)) (\<lambda>_ a. (Inr (), a\<lparr>Telemetry := after\<rparr>))))
       else store_heartbeat env c n h) a = (Inr (), b)"
    using assms(1) unfolding finish_collect_def by (elim bind_io_InrE) (simp add: pure_io_Inr)
  show ?thesis
  proof (cases compact)
    case False
    with c have "store_heartbeat env c n h a = (Inr (), b)" by simp
    from store_heartbeat_Inr [OF this assms(2,3)] show ?thesis by (auto simp: same_header_def)
  next
    case True
    with c obtain h' after t u v where m: "make_compact env h a = (Inr (h', after), t)"
      and s: "store_heartbeat env c n h' t = (Inr (), u)" and w: "on_state (write_telemetry after) u = (Inr (), v)"
      and b: "b = v\<lparr>Telemetry := after\<rparr>"
      by (auto elim!: bind_io_InrE)
    have t: "agent_ok t" using make_compact_advances [OF assms(2), of env h] m by (auto simp: advances_def)
    have bufs: "Buffer t = Buffer a" "Buffer b = Buffer u"
      using m b on_state_frame(1) [of "write_telemetry after" u] w by (auto simp: make_compact_def split: prod.splits)
    have "same_header h h'" using m build_header by (auto simp: make_compact_def split: prod.splits)
    moreover obtain body where "fits env c h' body" "queued t \<lparr>Sequence = n, Body = body\<rparr> u"
      using store_heartbeat_Inr [OF s t] assms(3) bufs by (auto simp: waiting_def)
    moreover from this(2) have "queued a \<lparr>Sequence = n, Body = body\<rparr> b" by (rule queued_cong) (simp_all add: bufs)
    ultimately show ?thesis by blast
  qed
qed

lemma store_heartbeat_device [simp]: "Device (snd (store_heartbeat env c n h a)) = Device a"
  by (auto simp: store_heartbeat_def bind_io_def pure_io_def fail_io_def return_io_def on_buffer_def
      split: prod.splits sum.splits)

lemma finish_collect_device: "fst (Device (snd (finish_collect env c n h a))) = fst (Device a)"
proof -
  let ?R = "\<lambda>a b. fst (Device b) = fst (Device a)"
  have written: "?R t (snd (bind_io (on_state (write_telemetry after)) (\<lambda>_ a. (Inr (), a\<lparr>Telemetry := after\<rparr>)) t))" for after t
    by (rule bind_io_rel [where R = ?R]) simp_all
  have store: "?R t (snd (bind_io (store_heartbeat env c n h') (\<lambda>_. bind_io (on_state (write_telemetry after))
      (\<lambda>_ a. (Inr (), a\<lparr>Telemetry := after\<rparr>))) t))" for h' after t
    by (rule bind_io_rel [where R = ?R]) (simp_all add: written)
  have compact: "?R t (snd (bind_io (make_compact env h) (\<lambda>(h', after). bind_io (store_heartbeat env c n h') (\<lambda>_.
      bind_io (on_state (write_telemetry after)) (\<lambda>_ a. (Inr (), a\<lparr>Telemetry := after\<rparr>)))) t))" for t
    by (rule bind_io_rel [where R = ?R]) (simp_all add: store make_compact_def split: prod.split)
  show ?thesis unfolding finish_collect_def
    by (rule bind_io_rel [where R = ?R]) (simp_all add: compact pure_io_def)
qed

text \<open>The heartbeat \<open>Collect\<close> makes, before its compact form.\<close>

definition stamped :: "'w agent_env \<Rightarrow> 'w agent \<Rightarrow> heartbeat \<Rightarrow> bool" where
  "stamped env a h \<longleftrightarrow> HbMajor h = 1 \<and> unat (HbSequence h) = unat (sequence (fst (Device a))) + 1 \<and>
     AgentVersion h = AgVersion env \<and> HbHost h = ConfHost (AgConfig env) \<and>
     DroppedSamples h = Lost (abs_queue (Buffer a))"

lemma reserve_next:
  assumes "on_device reserve_sequence a = (Inr n, b)"
  shows "unat n = unat (sequence (fst (Device a))) + 1 \<and> sequence (fst (Device b)) = n"
  using assms unat_next [of "sequence (fst (Device a))"]
  by (auto simp: on_device_def reserve_sequence_def Let_def split: prod.splits if_splits sum.splits)

lemma collection_time_frame:
  "Buffer (snd (collection_time env h a)) = Buffer a" "Device (snd (collection_time env h a)) = Device a"
  by (simp_all add: collection_time_def)

lemma collect_steps:
  assumes "collect env c a = (Inr (), b)" and "agent_ok a"
  obtains h t n where "finish_collect env c n h t = (Inr (), b)" and "agent_ok t" and "stamped env a h"
    and "n = HbSequence h" and "abs_queue (Buffer t) = abs_queue (Buffer a)" and "sequence (fst (Device t)) = n"
    and "\<forall>x \<in> set (waiting t). Sequence x < n"
proof -
  obtain given t1 n t2 lost t3 where 1: "on_outside (CollectHeartbeat env (effective_contract a c)) a = (Inr given, t1)"
    and 2: "on_device reserve_sequence t1 = (Inr n, t2)" and 3: "on_buffer dropped t2 = (Inr lost, t3)"
    and s: "stamp_collect env c given n lost t3 = (Inr (), b)"
    using assms(1) unfolding collect_def by (auto elim!: bind_io_InrE)
  obtain monitored now t4 where 4: "collection_time env given t3 = (Inr now, t4)"
    and f: "finish_collect env c n (stamp_heartbeat env n lost
         (if monitored then Some (MonRevision (Monitoring t4)) else None) now given) t4 = (Inr (), b)"
    using s unfolding stamp_collect_def by (auto elim!: bind_io_InrE simp: pure_io_Inr)
  have ok1: "agent_ok t1" using advances_outside [OF assms(2)] 1 by (metis advances_def snd_conv)
  have ok2: "agent_ok t2" using reserve_advances [OF ok1] 2 by (metis advances_def snd_conv)
  have ok3: "agent_ok t3" using dropped_advances [OF ok2] 3 by (metis advances_def snd_conv)
  have ok4: "agent_ok t4" using collection_time_advances [OF ok3, of env given] 4 by (metis advances_def snd_conv)
  have frame: "Buffer t1 = Buffer a" "Device t1 = Device a" "Buffer t2 = Buffer t1" "Device t3 = Device t2"
    using on_outside_frame [of "CollectHeartbeat env (effective_contract a c)" a] 1 on_device_frame(1) [of reserve_sequence t1] 2
      on_buffer_frame(1) [of dropped t2] 3 by simp_all
  have frame4: "Buffer t4 = Buffer t3" "Device t4 = Device t3"
    using collection_time_frame [of env given t3] 4 by simp_all
  have ok: "queue_ok (Buffer t2)" using ok2 by (simp add: agent_ok_def)
  have "dropped (Buffer t2) = (Inr lost, Buffer t3)"
    using on_buffer_frame(5,6) [of dropped t2] 3 by (simp add: prod_eq_iff)
  note d = dropped_spec(2,3) [OF this ok]
  have q: "abs_queue (Buffer t4) = abs_queue (Buffer a)" "lost = Lost (abs_queue (Buffer a))" using d frame frame4 by simp_all
  note n = reserve_next [OF 2]
  have fresh: "\<forall>x \<in> set (waiting t4). Sequence x < n"
  proof
    fix x assume "x \<in> set (waiting t4)"
    then have "x \<in> set (waiting t1)" using q(1) frame(1) by (simp add: kept_waiting [symmetric])
    then have "Sequence x \<le> sequence (fst (Device t1))" using ok1 by (simp add: agent_ok_def)
    moreover have "sequence (fst (Device t1)) < n" using n by (simp add: word_less_nat_alt)
    ultimately show "Sequence x < n" by simp
  qed
  show thesis
    by (rule that [OF f ok4 _ _ q(1) _ fresh]) (use q(2) n frame frame4 in \<open>simp_all add: stamped_def stamp_heartbeat_def\<close>)
qed

text \<open>
  C4: a successful \<open>Collect\<close>: the heartbeat carries the next sequence number, the configured host,
  this version and the number of heartbeats lost so far; it is valid, its two sizes are within the
  contract's limits; it is the newest entry of the buffer, the others stay but for the oldest ones
  the limits force out, and those are counted; the identity's number is the heartbeat's.
\<close>

theorem collect_queues_heartbeat:
  assumes "collect env c a = (Inr (), b)" and "agent_ok a"
  shows "\<exists>h body. stamped env a h \<and> fits env c h body \<and> queued a \<lparr>Sequence = HbSequence h, Body = body\<rparr> b \<and>
    sequence (fst (Device b)) = HbSequence h"
proof -
  obtain h t n where f: "finish_collect env c n h t = (Inr (), b)" and t: "agent_ok t" "stamped env a h" "n = HbSequence h"
    "abs_queue (Buffer t) = abs_queue (Buffer a)" "sequence (fst (Device t)) = n" "\<forall>x \<in> set (waiting t). Sequence x < n"
    by (rule collect_steps [OF assms]) (rule that, assumption+)
  obtain h' body where h: "same_header h h'" "fits env c h' body" "queued t \<lparr>Sequence = n, Body = body\<rparr> b"
    using finish_collect_Inr [OF f t(1,6)] by blast
  have "queued a \<lparr>Sequence = n, Body = body\<rparr> b" by (rule queued_cong [OF h(3)]) (simp_all add: t(4))
  then have "queued a \<lparr>Sequence = HbSequence h', Body = body\<rparr> b" using t(3) h(1) by (simp add: same_header_def)
  moreover have "stamped env a h'" using t(2) h(1) by (simp add: stamped_def same_header_def)
  moreover have "sequence (fst (Device b)) = HbSequence h'"
    using f t(3,5) h(1) finish_collect_device [of env c n h t] by (simp add: same_header_def)
  ultimately show ?thesis using h(2) by blast
qed

lemma flush_in_order_witness:
  "\<exists>r b. flush_buffer sample_env busy_agent = (r, b) \<and> (r = Inr () \<longrightarrow> waiting b = [])"
proof -
  obtain r b where f: "flush_buffer sample_env busy_agent = (r, b)" by (metis surj_pair)
  from flush_in_order [OF f busy_agent_ok(1)] f show ?thesis by blast
qed

section \<open>A heartbeat that fits is stored\<close>

lemma add_newest_fault_free:
  assumes "queue_ok q" and "fault_free (directory q)" and "Sequence e \<noteq> 0" and "Body e \<noteq> []"
    and "int (length (Body e)) \<le> Bytes (queue_limits q)" and "\<forall>x \<in> set (pending_list (directory q)). Sequence x < Sequence e"
  shows "\<exists>n q'. add e q = ((n, None), q') \<and> fault_free (directory q')"
proof -
  have "Sequence e \<notin> set (map Sequence (pending_list (directory q)))" using assms(6) by auto
  then obtain n d where "add_locked (queue_limits q) e (directory q) = ((n, None), d)" "fault_free d"
    using add_locked_fault_free [OF assms(2), of "queue_limits q" e] assms(1,3,4) by (auto simp: queue_ok_def)
  then show ?thesis using assms(3-5) by (auto simp: add_def lift_disk_def)
qed

lemma contract_sizes:
  assumes "validate_contract c = Inr ()"
  shows "CompressedBytes (ContractLimits c) \<le> OfflineBytes (ContractLimits c)" "positive_limits (contract_limits c)"
  using assms by (auto simp: validate_contract_def checks_ok outside_def Let_def positive_limits_def contract_limits_def)

lemma store_fitting:
  assumes "agent_ok a" and "fault_free (directory (Buffer a))" and "validate_contract c = Inr ()"
    and "queue_limits (Buffer a) = contract_limits c" and "fits env c h body" and "body \<noteq> []" and "n \<noteq> 0"
    and "\<forall>x \<in> set (waiting a). Sequence x < n"
  shows "\<exists>b. store_heartbeat env c n h a = (Inr (), b) \<and> fault_free (directory (Buffer b))"
proof -
  let ?e = "\<lparr>Sequence = n, Body = body\<rparr>"
  obtain size where f: "validate_heartbeat h = Inr ()" "compress_heartbeat env h = Inr (body, size)"
    "int size \<le> DecompressedBytes (ContractLimits c)" "int (length body) \<le> CompressedBytes (ContractLimits c)"
    using assms(5) by (auto simp: fits_def)
  have "int (length (Body ?e)) \<le> Bytes (queue_limits (Buffer a))"
    using f(4) contract_sizes(1) [OF assms(3)] assms(4) by (simp add: contract_limits_def)
  then obtain k q where q: "add ?e (Buffer a) = ((k, None), q)" "fault_free (directory q)"
    using add_newest_fault_free [of "Buffer a" ?e] assms by (auto simp: agent_ok_def waiting_def)
  then have "counted (add ?e) (Buffer a) = (Inr k, q)" by (simp add: counted_def)
  then have "on_buffer (counted (add ?e)) a = (Inr k, a\<lparr>Buffer := q\<rparr>)" by (simp add: on_buffer_def)
  with f q(2) show ?thesis by (simp add: store_heartbeat_def pure_io_def not_less return_io_def)
qed

text \<open>
  C9: the number just reserved is free in the buffer and the limits of a validated contract agree
  with each other: once the contract's limits are applied, a heartbeat that fits the contract is
  never refused by a working buffer, neither as a duplicate nor for its size.
\<close>

theorem fitting_heartbeat_is_stored:
  assumes "agent_ok a" and "on_device reserve_sequence a = (Inr n, t)" and "validate_contract c = Inr ()"
    and "queue_limits (Buffer a) = contract_limits c" and "fault_free (directory (Buffer a))"
    and "fits env c h body" and "body \<noteq> []"
  shows "\<exists>b. store_heartbeat env c n h t = (Inr (), b) \<and> queued a \<lparr>Sequence = n, Body = body\<rparr> b"
proof -
  have t: "agent_ok t" and n: "sequence (fst (Device a)) < n" "n \<noteq> 0"
    using reserve_advances [OF assms(1)] assms(2) by (auto simp: advances_def)
  have bf: "Buffer t = Buffer a" using on_device_frame(1) [of reserve_sequence a] assms(2) by simp
  have fresh: "\<forall>x \<in> set (waiting t). Sequence x < n"
    using assms(1) n(1) bf by (fastforce simp: agent_ok_def waiting_def)
  obtain b where b: "store_heartbeat env c n h t = (Inr (), b)"
    using store_fitting [OF t _ assms(3) _ assms(6,7) n(2) fresh] bf assms(4,5) by auto
  obtain body' where "fits env c h body'" "queued t \<lparr>Sequence = n, Body = body'\<rparr> b"
    using store_heartbeat_Inr [OF b t fresh] by blast
  moreover from this(1) assms(6) have "body' = body" by (auto simp: fits_def)
  moreover have "queued t e b \<Longrightarrow> queued a e b" for e by (erule queued_cong) (simp_all add: bf)
  ultimately show ?thesis using b by blast
qed

definition sample_stamped :: heartbeat where
  "sample_stamped = stamp_heartbeat sample_env 42 0 None 1 sample_heartbeat"

lemma sample_fits: "fits sample_env sample_contract sample_stamped ''{}''"
proof -
  have "validate_heartbeat sample_stamped = Inr ()" by code_simp
  then show ?thesis by (simp add: fits_def compress_heartbeat_def sample_env_def sample_contract_def)
qed

lemma sample_reserve:
  "\<exists>t d. on_device reserve_sequence sample_agent = (Inr 42, t) \<and> t = sample_agent\<lparr>Device := (sample_identity\<lparr>sequence := 42\<rparr>, d)\<rparr> \<and>
     persist_locked (sample_identity\<lparr>sequence := 42\<rparr>) sample_disk = (Inr (), d) \<and> fault_free d"
proof -
  have "fault_free sample_disk" "lookup sample_disk identity_name \<noteq> Some Directory"
    by (simp_all add: fault_free_def sample_disk_def lookup_def)
  then obtain d where "persist_locked (sample_identity\<lparr>sequence := 42\<rparr>) sample_disk = (Inr (), d)" "fault_free d"
    using persist_locked_fault_free by blast
  then show ?thesis
    by (simp add: on_device_def reserve_sequence_def sample_agent_def sample_identity_def)
qed

lemma sample_limits: "queue_limits (Buffer sample_agent) = contract_limits sample_contract"
    "fault_free (directory (Buffer sample_agent))" "abs_queue (Buffer sample_agent) =
      \<lparr>Kept = [], Lost = 0, Held = contract_limits sample_contract\<rparr>"
  using sample_queue_ok
  by (simp_all add: sample_agent_def abs_queue_def dropped_count_def stored_def sample_queue_def lookup_def)

lemma fitting_heartbeat_is_stored_witness:
  "\<exists>t b. on_device reserve_sequence sample_agent = (Inr 42, t) \<and>
     store_heartbeat sample_env sample_contract 42 sample_stamped t = (Inr (), b) \<and>
     \<lparr>Sequence = 42, Body = ''{}''\<rparr> \<in> set (waiting b)"
proof -
  obtain t where t: "on_device reserve_sequence sample_agent = (Inr 42, t)" using sample_reserve by blast
  from fitting_heartbeat_is_stored [OF sample_agent_ok t sample_contract_valid sample_limits(1,2) sample_fits]
  show ?thesis using t by (auto simp: queued_def Let_def)
qed

lemma sample_supports:
  "supports_monitoring (SchemaDigest (AgClient sample_env)) (SchemaBundleDigest sample_contract) = Inr False"
  "supports_compact (SchemaDigest (AgClient sample_env)) (SchemaBundleDigest sample_contract) = Inr False"
  by (simp_all add: supports_monitoring_def supports_compact_def sample_env_def sample_client_def sample_contract_def
      legacy_digest_def intermediate_digest_def previous_digest_def pre_openrc_digest_def numeral_eq_Suc)

lemma bind_io_pure [simp]:
  "bind_io (pure_io (Inr x)) f s = f x s" "bind_io (pure_io (Inl e)) f s = (Inl e, s)"
  by (simp_all add: bind_io_def pure_io_def)

lemma sample_collects:
  "\<exists>b d. collect sample_env sample_contract sample_agent = (Inr (), b) \<and> agent_ok b \<and> fault_free (directory (Buffer b)) \<and>
     waiting b = [\<lparr>Sequence = 42, Body = ''{}''\<rparr>] \<and> Device b = (sample_identity\<lparr>sequence := 42\<rparr>, d) \<and>
     persist_locked (sample_identity\<lparr>sequence := 42\<rparr>) sample_disk = (Inr (), d) \<and> fault_free d"
proof -
  obtain t d where t: "on_device reserve_sequence sample_agent = (Inr 42, t)"
    and d: "Device t = (sample_identity\<lparr>sequence := 42\<rparr>, d)" "fault_free d"
      "persist_locked (sample_identity\<lparr>sequence := 42\<rparr>) sample_disk = (Inr (), d)"
    using sample_reserve by auto
  have bt: "Buffer t = Buffer sample_agent" using on_device_frame(1) [of reserve_sequence sample_agent] t by simp
  have ok: "agent_ok t" using reserve_advances [OF sample_agent_ok] t by (auto simp: advances_def)
  have lost: "on_buffer dropped t = (Inr 0, t)"
  proof -
    obtain r q where q: "dropped (Buffer t) = (r, q)" by (metis surj_pair)
    have "queue_ok (Buffer t)" using ok by (simp add: agent_ok_def)
    from dropped_spec(4) [OF q this] have "r = Inr 0 \<and> q = Buffer t" using sample_limits(2,3) bt by simp
    with q show ?thesis by (simp add: on_buffer_def)
  qed
  have w: "waiting t = []" using sample_limits(3) bt by (simp add: waiting_def abs_queue_def)
  then obtain b where b: "store_heartbeat sample_env sample_contract 42 sample_stamped t = (Inr (), b)"
    and fb: "fault_free (directory (Buffer b))"
    using store_fitting [OF ok _ sample_contract_valid _ sample_fits, where n = 42] sample_limits(1,2) bt by auto
  obtain body where "fits sample_env sample_contract sample_stamped body" "queued t \<lparr>Sequence = 42, Body = body\<rparr> b"
    using store_heartbeat_Inr [OF b ok] w by auto
  then have wb: "waiting b = [\<lparr>Sequence = 42, Body = ''{}''\<rparr>]"
    using sample_fits w by (auto simp: queued_def Let_def fits_def split: if_splits)
  have db: "Device b = (sample_identity\<lparr>sequence := 42\<rparr>, d)"
    using store_heartbeat_device [of sample_env sample_contract 42 sample_stamped t] b d(1) by simp
  have given: "on_outside (CollectHeartbeat sample_env (effective_contract sample_agent sample_contract)) sample_agent
      = (Inr sample_heartbeat, sample_agent)"
    by (simp add: on_outside_def sample_env_def sample_agent_def)
  have now: "collection_time sample_env sample_heartbeat t = (Inr 1, t)"
    by (simp add: collection_time_def sample_heartbeat_def is_zero_def)
  have "finish_collect sample_env sample_contract 42 sample_stamped t = (Inr (), b)"
    using b by (simp add: finish_collect_def sample_supports)
  then have "stamp_collect sample_env sample_contract sample_heartbeat 42 0 t = (Inr (), b)"
    by (simp add: stamp_collect_def sample_supports now sample_stamped_def)
  then have c: "collect sample_env sample_contract sample_agent = (Inr (), b)" by (simp add: collect_def given t lost)
  have "agent_ok b" using collect_advances [OF sample_agent_ok, of sample_env sample_contract] c by (simp add: advances_def)
  with c fb wb db d(2,3) show ?thesis by blast
qed

lemma collect_queues_heartbeat_witness:
  "\<exists>b (h :: heartbeat) body. collect sample_env sample_contract sample_agent = (Inr (), b) \<and> unat (HbSequence h) = 42 \<and>
     \<lparr>Sequence = HbSequence h, Body = body\<rparr> \<in> set (waiting b)"
proof -
  obtain b where b: "collect sample_env sample_contract sample_agent = (Inr (), b)" using sample_collects by blast
  from collect_queues_heartbeat [OF b sample_agent_ok] obtain h body where
    "stamped sample_env sample_agent h" "queued sample_agent \<lparr>Sequence = HbSequence h, Body = body\<rparr> b" by blast
  moreover have "unat (sequence (fst (Device sample_agent))) = 41" by (simp add: sample_agent_def sample_identity_def)
  ultimately have "unat (HbSequence h) = 42" "\<lparr>Sequence = HbSequence h, Body = body\<rparr> \<in> set (waiting b)"
    by (auto simp: stamped_def queued_def Let_def)
  with b show ?thesis by blast
qed

end
