(* ===== verification/Agent_Working.thy ===== *)
theory Agent_Working
  imports Agent_Delivery
begin

text \<open>
  The runtime on a state directory that works: the files an answer of the hub makes it write can be
  written, so that every accepted answer settles its entry.
\<close>

section \<open>A working state directory\<close>

definition state_files :: "string list" where
  "state_files = [monitoring_name, telemetry_name, telemetry_name @ ''.tmp'', dormant_name, dormant_name @ ''.tmp'']"

definition writable :: "disk \<Rightarrow> bool" where
  "writable d \<longleftrightarrow> fault_free d \<and> (\<forall>n \<in> set state_files. lookup d n \<noteq> Some Directory)"

lemma state_files_apart:
  "\<not> has_prefix (telemetry_name @ ''.tmp'') monitoring_temp" "\<not> has_prefix (dormant_name @ ''.tmp'') monitoring_temp"
  "telemetry_name @ ''.tmp'' \<noteq> dormant_name" "telemetry_name @ ''.tmp'' \<noteq> monitoring_name"
  "dormant_name @ ''.tmp'' \<noteq> monitoring_name" "dormant_name @ ''.tmp'' \<noteq> telemetry_name"
  "dormant_name @ ''.tmp'' \<noteq> telemetry_name @ ''.tmp''"
  by (simp_all add: state_name_defs state_temp_defs has_prefix_def)

lemma write_monitoring_works:
  assumes "writable d" and "validate_monitoring_config m = Inr ()"
  shows "\<exists>d'. write_monitoring m d = (Inr (), d') \<and> writable d'"
proof -
  have d: "fault_free d" "lookup d monitoring_name \<noteq> Some Directory" using assms(1) by (simp_all add: writable_def state_files_def)
  obtain d' where w: "write_monitoring m d = (Inr (), d')" "fault_free d'"
    using write_monitoring_fault_free [OF d assms(2)] by blast
  have "atomic_write monitoring_temp monitoring_name (encode_monitoring m) mode_600 d = (Inr (), d')"
    using w(1) assms(2) by (simp add: write_monitoring_def)
  then have "lookup d' monitoring_name \<noteq> Some Directory" using atomic_write_target by fastforce
  moreover have "lookup d' n = lookup d n" if "n \<in> set state_files" "n \<noteq> monitoring_name" for n
    using changes_onlyD [OF write_monitoring_only [OF w(1)], of n] that state_files_apart
    by (auto simp: owned_def state_files_def)
  ultimately show ?thesis using w assms(1) unfolding writable_def by metis
qed

lemma write_telemetry_works:
  assumes "writable d" and "times_in_range s"
  shows "\<exists>d'. write_telemetry s d = (Inr (), d') \<and> writable d'"
proof -
  have d: "fault_free d" "lookup d telemetry_name \<noteq> Some Directory" "lookup d (telemetry_name @ ''.tmp'') \<noteq> Some Directory"
    using assms(1) by (simp_all add: writable_def state_files_def)
  obtain e k where r: "replace_file telemetry_name (encode_telemetry s) d = (Inr (), e)" "fault_free e"
    "lookup e telemetry_name = Some (Reg (encode_telemetry s) k)" "lookup e (telemetry_name @ ''.tmp'') = None"
    using replace_file_fault_free [OF d] by blast
  define d' where "d' = put_file telemetry_name (Reg (encode_telemetry s) mode_600) e"
  have "make_directory d = (Inr (), d)" using d(1) by (simp add: make_directory_def call_fault_free)
  moreover have "chmod_file telemetry_name mode_600 e = (Inr (), d')"
    using r(2,3) by (simp add: chmod_file_def call_fault_free d'_def)
  ultimately have w: "write_telemetry s d = (Inr (), d')"
    using r(1) assms(2) by (simp add: write_telemetry_def)
  have "lookup d' telemetry_name \<noteq> Some Directory" "lookup d' (telemetry_name @ ''.tmp'') \<noteq> Some Directory"
    using r(4) by (simp_all add: d'_def)
  moreover have "lookup d' n = lookup d n" if "n \<noteq> telemetry_name" "n \<noteq> telemetry_name @ ''.tmp''" for n
    using changes_onlyD [OF write_telemetry_only [OF w], of n] that by (simp add: replaced_def)
  moreover have "fault_free d'" using r(2) by (simp add: d'_def)
  ultimately show ?thesis using w assms(1) unfolding writable_def by metis
qed

lemma mark_dormant_works:
  assumes "writable d"
  shows "\<exists>d'. mark_dormant now d = (Inr (), d')"
  using assms replace_file_fault_free [of d dormant_name]
  by (fastforce simp: mark_dormant_def writable_def state_files_def)

section \<open>Settling an entry\<close>

text \<open>The agent between two entries of a flush on a working installation.\<close>

definition flush_ready :: "'w agent \<Rightarrow> bool" where
  "flush_ready a \<longleftrightarrow> agent_ok a \<and> fault_free (directory (Buffer a)) \<and> writable (snd (Device a)) \<and> times_in_range (Telemetry a)"

text \<open>What a step of the settling keeps.\<close>

definition keeps_ready :: "'w agent \<Rightarrow> 'w agent \<Rightarrow> bool" where
  "keeps_ready a b \<longleftrightarrow> flush_ready b \<and> fst (Device b) = fst (Device a)"

definition acceptable_answer :: "heartbeat_response \<Rightarrow> bool" where
  "acceptable_answer response \<longleftrightarrow> (\<forall>m. NewMonitoring response = Some m \<longrightarrow> validate_monitoring_config m = Inr ())"

lemma take_monitoring_works:
  assumes "flush_ready a" and "acceptable_answer response"
  shows "\<exists>b. take_monitoring response a = (Inr (), b) \<and> keeps_ready a b"
proof -
  obtain r b where b: "take_monitoring response a = (r, b)" by (metis surj_pair)
  have ok: "agent_ok b"
    using take_monitoring_advances [of a response] assms(1) b by (simp add: flush_ready_def advances_def)
  have "r = Inr () \<and> Buffer b = Buffer a \<and> Telemetry b = Telemetry a \<and> writable (snd (Device b)) \<and> fst (Device b) = fst (Device a)"
  proof (cases "NewMonitoring response")
    case None
    then show ?thesis using b assms(1) by (auto simp: take_monitoring_def return_io_def flush_ready_def)
  next
    case (Some m)
    have v: "validate_monitoring_config m = Inr ()" using assms(2) Some by (simp add: acceptable_answer_def)
    obtain q c where c: "apply_monitoring m a = (q, c)" by (metis surj_pair)
    obtain d where d: "write_monitoring m (snd (Device a)) = (Inr (), d)" "writable d"
      using write_monitoring_works [OF _ v] assms(1) by (auto simp: flush_ready_def)
    have s: "on_state (write_monitoring m) a = (Inr (), a\<lparr>Device := (fst (Device a), d)\<rparr>)" using d(1) by (simp add: on_state_def)
    from c have "q = Inr () \<and> Buffer c = Buffer a \<and> Telemetry c = Telemetry a \<and> writable (snd (Device c)) \<and>
        fst (Device c) = fst (Device a)"
      by (cases rule: apply_monitoring_cases) (use v s d(2) assms(1) in \<open>auto simp: flush_ready_def\<close>)
    then show ?thesis using b c Some by (auto simp: take_monitoring_def)
  qed
  with ok b assms(1) show ?thesis by (simp add: keeps_ready_def flush_ready_def)
qed

lemma time_zero: "time_in_range 0"
  by code_simp

lemma update_member: "x \<in> set (AList.update k v m) \<Longrightarrow> x = (k, v) \<or> x \<in> set m"
  by (induction m) (auto split: if_splits)

lemma reconcile_in_range:
  assumes "times_in_range s" and "SyncFamilies s \<noteq> None"
  shows "\<exists>s'. reconcile t s = Inr s' \<and> times_in_range s'"
proof -
  obtain fams where f: "SyncFamilies s = Some fams" using assms(2) by blast
  have "\<forall>(k, g) \<in> set (fold clear_full ns gs). time_in_range (LastFullAt g)"
    if "\<forall>(k, g) \<in> set gs. time_in_range (LastFullAt g)" for ns gs
    using that
  proof (induction ns arbitrary: gs)
    case (Cons n ns)
    have "\<forall>(k, g) \<in> set (clear_full n gs). time_in_range (LastFullAt g)"
      using Cons.prems time_zero by (auto simp: clear_full_def dest!: update_member)
    from Cons.IH [OF this] show ?case by simp
  qed simp
  with f assms(1) show ?thesis by (auto simp: reconcile_def times_in_range_def)
qed

lemma apply_ack_works:
  assumes "flush_ready a"
  shows "\<exists>b. apply_ack ack a = (Inr (), b) \<and> keeps_ready a b"
proof (cases "\<exists>t. ack = Some t \<and> needs_reconcile t")
  case True
  then obtain t where t: "ack = Some t" "needs_reconcile t" by blast
  obtain s where s: "reconcile t (Telemetry a) = Inr s" "times_in_range s"
    using reconcile_in_range [of "Telemetry a" t] assms by (auto simp: flush_ready_def agent_ok_def)
  obtain d where d: "write_telemetry s (snd (Device a)) = (Inr (), d)" "writable d"
    using write_telemetry_works [OF _ s(2)] assms by (auto simp: flush_ready_def)
  let ?b = "a\<lparr>Telemetry := s, Device := (fst (Device a), d)\<rparr>"
  have b: "apply_ack ack a = (Inr (), ?b)" using t s(1) d(1) by (simp add: apply_ack_def on_state_def)
  have "agent_ok ?b" using apply_ack_advances [of a ack] assms b by (simp add: flush_ready_def advances_def)
  then show ?thesis using b d(2) s(2) assms by (simp add: keeps_ready_def flush_ready_def)
next
  case False
  then have "apply_ack ack a = (Inr (), a)" by (auto simp: apply_ack_def split: option.split)
  with assms show ?thesis by (simp add: keeps_ready_def)
qed

lemma settle_works:
  assumes "flush_ready a" and "acceptable_answer response" and "Sequence e \<noteq> 0"
  shows "\<exists>b. settle_entry env e response a = (Inr (), b) \<and> keeps_ready a b"
proof -
  obtain b where b: "take_monitoring response a = (Inr (), b)" "keeps_ready a b"
    using take_monitoring_works [OF assms(1,2)] by blast
  then have "flush_ready b" by (simp add: keeps_ready_def)
  then obtain c where c: "apply_ack (TelemetryAck response) b = (Inr (), c)" "keeps_ready b c"
    using apply_ack_works by blast
  then have cr: "agent_ok c" "fault_free (directory (Buffer c))" "writable (snd (Device c))" "times_in_range (Telemetry c)"
    "fst (Device c) = fst (Device a)" using b(2) by (simp_all add: keeps_ready_def flush_ready_def)
  then have cq: "queue_ok (Buffer c)" by (simp add: agent_ok_def)
  obtain q where q: "remove (Sequence e) (Buffer c) = (Inr (), q)" "fault_free (directory q)"
    using remove_fault_free [OF cq cr(2) assms(3)] by blast
  have qok: "queue_ok q" using remove_ok [OF q(1) cq assms(3)] by simp
  have "\<exists>q'. acknowledge_dropped n q = (Inr (), q') \<and> fault_free (directory q')" for n
    using update_count_fault_free [OF q(2), of "acknowledged n"] qok q(2)
    by (auto simp: acknowledge_update lift_disk_def queue_ok_def)
  then obtain q' where q': "acknowledge_dropped (reported_dropped env (Body e)) q = (Inr (), q')" "fault_free (directory q')" by blast
  have "\<exists>q''. settle_entry env e response a = (Inr (), c\<lparr>Buffer := q''\<rparr>) \<and> fault_free (directory q'')"
    using b(1) c(1) q q'
    by (cases "reported_dropped env (Body e) > 0")
      (fastforce simp: settle_entry_def return_io_def bind_io_def on_buffer_def)+
  then obtain q'' where s: "settle_entry env e response a = (Inr (), c\<lparr>Buffer := q''\<rparr>)" "fault_free (directory q'')" by blast
  have "agent_ok (c\<lparr>Buffer := q''\<rparr>)"
    using settle_entry_advances [of a env e response] assms(1) s(1) by (simp add: flush_ready_def advances_def)
  with s cr show ?thesis by (simp add: keeps_ready_def flush_ready_def)
qed

text \<open>The client hands on only answers whose monitoring configuration is valid.\<close>

lemma sent_acceptable: "send_heartbeat c host device key n body w = (Inr response, w') \<Longrightarrow> acceptable_answer response"
  by (auto simp: send_heartbeat_def check_response_def bind_result_Inr_iff acceptable_answer_def
      elim!: bind_io_InrE split: option.splits if_splits)

lemma deliver_works:
  assumes "flush_ready a" and "Sequence e \<noteq> 0" and "answered env e a"
  shows "\<exists>b. deliver env e a = (Inr (), b) \<and> keeps_ready a b"
proof -
  obtain q w where s: "send_heartbeat (AgClient env) (ConfHost (AgConfig env)) (deviceID (fst (Device a)))
        (privateKey (fst (Device a))) (Sequence e) (Body e) (Outside a) = (q, w)" by (metis surj_pair)
  have r: "flush_ready (a\<lparr>Outside := w\<rparr>)" using assms(1) by (simp add: flush_ready_def)
  have k: "keeps_ready (a\<lparr>Outside := w\<rparr>) b \<Longrightarrow> keeps_ready a b" for b by (simp add: keeps_ready_def)
  show ?thesis
  proof (cases q)
    case (Inr response)
    with settle_works [OF r sent_acceptable assms(2)] s k show ?thesis by (fastforce simp: deliver_def)
  next
    case (Inl err)
    then have "replayed err" "\<not> revoked err" using assms(3) s by (auto simp: answered_def replayed_def revoked_def)
    moreover have "acceptable_answer zero_response" by (simp add: acceptable_answer_def zero_response_def)
    ultimately show ?thesis using settle_works [OF r _ assms(2)] s Inl k by (fastforce simp: deliver_def)
  qed
qed

end
