(* ===== verification/Agent_Process.thy ===== *)
theory Agent_Process
  imports Agent_Working
begin

text \<open>
  The process of a revoked agent: the loop with its mode, the other entries into the runtime, and restarts
  that open the same files. From the moment the loop has fallen asleep nothing is sent any more.
\<close>

section \<open>Falling asleep\<close>

lemma go_dormant_spec:
  assumes "go_dormant env a = (r, b)"
  shows "(r = Inl Revoked \<longrightarrow> marked (snd (Device b))) \<and> r \<noteq> Inr () \<and> fst (Device b) = fst (Device a)"
proof -
  obtain q w where n: "Now env (Outside a) = (q, w)" by (metis surj_pair)
  obtain x d where m: "mark_dormant q (snd (Device a)) = (x, d)" by (metis surj_pair)
  have "(r, b) = ((case x of Inl _ \<Rightarrow> Inl (Msg ''persist revoked agent state'') | Inr _ \<Rightarrow> Inl Revoked),
      a\<lparr>Outside := w, Device := (fst (Device a), d)\<rparr>)"
    using assms n m by (cases x) (auto simp: go_dormant_def bind_io_def on_outside_def on_state_def)
  with mark_dormant_marks [OF m] show ?thesis by (cases x) auto
qed

lemma go_dormant_cases:
  assumes "go_dormant env a = (r, b)"
  shows "r = Inl Revoked \<or> r = Inl (Msg ''persist revoked agent state'')"
    and "writable (snd (Device a)) \<Longrightarrow> r = Inl Revoked"
proof -
  obtain q w where n: "Now env (Outside a) = (q, w)" by (metis surj_pair)
  obtain x d where m: "mark_dormant q (snd (Device a)) = (x, d)" by (metis surj_pair)
  have r: "r = (case x of Inl _ \<Rightarrow> Inl (Msg ''persist revoked agent state'') | Inr _ \<Rightarrow> Inl Revoked)"
    using assms n m by (cases x) (auto simp: go_dormant_def bind_io_def on_outside_def on_state_def)
  show "r = Inl Revoked \<or> r = Inl (Msg ''persist revoked agent state'')" unfolding r by (cases x) simp_all
  show "r = Inl Revoked" if "writable (snd (Device a))"
    unfolding r using mark_dormant_works [OF that, of q] m by auto
qed

lemma asleep_check:
  assumes "marked (snd (Device a))" and "fault_free (snd (Device a))"
  shows "check_dormant a = (True, a)"
proof -
  obtain x d where d: "is_dormant (snd (Device a)) = (x, d)" by (metis surj_pair)
  from is_dormant_spec [OF d] assms have "x" "d = snd (Device a)" by simp_all
  with d show ?thesis by (simp add: check_dormant_def)
qed

lemma asleep_silent:
  assumes "marked (snd (Device a))" and "fault_free (snd (Device a))"
  shows "run_once env a = (Inl Revoked, a)" "submit_snapshot env s a = (Inl Revoked, a)" "run_start env a = ((Asleep, []), a)"
  using asleep_check [OF assms] by (simp_all add: run_once_def submit_snapshot_def run_start_def)

section \<open>The process\<close>

text \<open>
  One step of the process beside the mode of its loop: the world or the faults of the state directory
  change, the loop takes an event, one cycle or a hardware snapshot is run beside it, or the process starts
  again on its files. The marker is read by the last three, on a directory that can be read.
\<close>

inductive process_step :: "mode \<times> 'w agent \<Rightarrow> mode \<times> 'w agent \<Rightarrow> bool" where
  world: "process_step (m, a) (m, a\<lparr>Outside := w\<rparr>)"
| disturbed: "process_step (m, a) (m, a\<lparr>Device := (fst (Device a), (snd (Device a))\<lparr>faults := fs\<rparr>)\<rparr>)"
| event: "run_event env s m a = ((m', errs), b) \<Longrightarrow> process_step (m, a) (m', b)"
| once: "run_once env a = (r, b) \<Longrightarrow> fault_free (snd (Device a)) \<Longrightarrow> process_step (m, a) (m, b)"
| snapshot: "submit_snapshot env hw a = (r, b) \<Longrightarrow> fault_free (snd (Device a)) \<Longrightarrow> process_step (m, a) (m, b)"
| restart: "load_or_create g (snd (Device a)) = (Inr i, d) \<Longrightarrow> open_queue (directory (Buffer a)) l = (Inr bf, db) \<Longrightarrow>
    new_agent parse env (i, d) bf w = Inr (env', b) \<Longrightarrow> fault_free (snd (Device b)) \<Longrightarrow>
    run_start env' b = ((m', errs), c) \<Longrightarrow> process_step (m, a) (m', c)"

definition dormant_process :: "entry list \<Rightarrow> mode \<times> 'w agent \<Rightarrow> bool" where
  "dormant_process es p \<longleftrightarrow> (fst p = Asleep \<or> fst p = Ended (Inr ())) \<and> agent_ok (snd p) \<and>
     marked (snd (Device (snd p))) \<and> waiting (snd p) = es"

lemma event_asleep:
  assumes "m = Asleep \<or> m = Ended (Inr ())" and "run_event env s m a = ((m', errs), b)"
  shows "(m' = Asleep \<or> m' = Ended (Inr ())) \<and> errs = [] \<and> b = a"
  using assms by (cases s) auto

lemma new_agent_buffer: "new_agent parse env device q w = Inr (env', b) \<Longrightarrow> Buffer b = q"
  by (auto simp: new_agent_def bind_result_Inr_iff split: if_splits prod.splits sum.splits)

lemma disturbed_same:
  assumes "agent_ok a"
  shows "agent_ok (a\<lparr>Device := (fst (Device a), (snd (Device a))\<lparr>faults := fs\<rparr>)\<rparr>)"
    and "marked ((snd (Device a))\<lparr>faults := fs\<rparr>) = marked (snd (Device a))"
proof -
  have l: "lookup ((snd (Device a))\<lparr>faults := fs\<rparr>) = lookup (snd (Device a))" by (simp add: lookup_def fun_eq_iff)
  show "marked ((snd (Device a))\<lparr>faults := fs\<rparr>) = marked (snd (Device a))" by (rule marked_cong) (simp add: l)
  show "agent_ok (a\<lparr>Device := (fst (Device a), (snd (Device a))\<lparr>faults := fs\<rparr>)\<rparr>)"
    using assms identity_good_cong [of "(snd (Device a))\<lparr>faults := fs\<rparr>" "snd (Device a)"]
      saved_monitoring_cong [of "(snd (Device a))\<lparr>faults := fs\<rparr>" "snd (Device a)"]
    by (simp add: agent_ok_def held_identity_def waiting_def l)
qed

lemma dormant_step:
  assumes "process_step p q" and "dormant_process es p"
  shows "dormant_process es q"
  using assms
proof (induction rule: process_step.induct)
  case (world m a w)
  then show ?case by (simp add: dormant_process_def waiting_def)
next
  case (disturbed m a fs)
  then show ?case using disturbed_same [of a fs] by (simp add: dormant_process_def waiting_def)
next
  case (event env s m a m' errs b)
  then show ?case using event_asleep [of m env s a m' errs b] by (simp add: dormant_process_def)
next
  case (once env a r b m)
  then show ?case using asleep_silent(1) [of a env] by (simp add: dormant_process_def)
next
  case (snapshot env hw a r b m)
  then show ?case using asleep_silent(2) [of a env hw] by (simp add: dormant_process_def)
next
  case (restart g a i d l bf db parse env w env' b m' errs c m)
  then have a: "agent_ok a" "marked (snd (Device a))" "waiting a = es" by (simp_all add: dormant_process_def)
  have b: "agent_ok b" "marked (snd (Device b))"
    using restart_advances [OF a(1) restart.hyps(1-3)] a(2) by (simp_all add: agent_moves_def)
  have "queue_files_ok (directory (Buffer a))" using a(1) by (simp add: agent_ok_def queue_ok_def)
  then have "waiting b = es"
    using open_queue_Inr [OF restart.hyps(2)] new_agent_buffer [OF restart.hyps(3)] a(3) by (simp add: waiting_def)
  moreover have "m' = Asleep" "c = b" using asleep_silent(3) [OF b(2) restart.hyps(4), of env'] restart.hyps(5) by simp_all
  ultimately show ?case using b by (simp add: dormant_process_def)
qed

lemma dormant_steps: "process_step\<^sup>*\<^sup>* p q \<Longrightarrow> dormant_process es p \<Longrightarrow> dormant_process es q"
  by (induction rule: rtranclp_induct) (auto intro: dormant_step)

section \<open>The flush that is revoked\<close>

lemma deliver_all_append: "deliver_all env (es @ fs) a = bind_io (deliver_all env es) (\<lambda>_. deliver_all env fs) a"
proof (induction es arbitrary: a)
  case (Cons e es)
  obtain r b where "deliver env e a = (r, b)" by fastforce
  with Cons [of b] show ?case by (cases r) (simp_all add: bind_io_def)
qed (simp add: bind_io_def)

lemma delivered_part:
  assumes "deliver_all env es a = (Inr (), b)" and "agent_ok a" and "waiting a = es @ rest"
  shows "waiting b = rest \<and> agent_ok b"
  using assms
proof (induction es arbitrary: a)
  case (Cons e es)
  obtain q t where d: "deliver env e a = (q, t)" by fastforce
  with Cons.prems(1) have q: "q = Inr ()" "deliver_all env es t = (Inr (), b)" by (auto simp: bind_io_def split: sum.splits)
  have nz: "Sequence e \<noteq> 0" using waiting_member [OF Cons.prems(2), of e] Cons.prems(3) by simp
  have "waiting t = es @ rest"
    using deliver_waiting [OF d Cons.prems(2) nz] q(1) taken_out_head [OF Cons.prems(2), of e "es @ rest"] Cons.prems(3) by simp
  moreover have "agent_ok t" using deliver_advances [OF Cons.prems(2), of env e] d by (simp add: advances_def)
  ultimately show ?case using Cons.IH [OF q(2)] by blast
qed simp

lemma revoked_flush:
  assumes "agent_ok t" and "on_buffer entries t = (Inr (es @ e # later), u)" and "deliver_all env es u = (Inr (), v)"
    and "send_heartbeat (AgClient env) (ConfHost (AgConfig env)) (deviceID (fst (Device v))) (privateKey (fst (Device v)))
      (Sequence e) (Body e) (Outside v) = (Inl err, w)" and "revoked err"
  shows "\<exists>r b. go_dormant env (v\<lparr>Outside := w\<rparr>) = (r, b) \<and> flush_buffer env t = (r, b) \<and> r \<noteq> Inr () \<and> agent_ok b \<and>
    waiting b = e # later"
proof -
  have ok: "queue_ok (Buffer t)" using assms(1) by (simp add: agent_ok_def)
  have en: "entries (Buffer t) = (Inr (es @ e # later), Buffer u)"
    using on_buffer_frame(5,6) [of entries t] assms(2) by (simp add: prod_eq_iff)
  have u: "agent_ok u" "waiting u = es @ e # later"
    using entries_advances [OF assms(1)] assms(2) entries_spec(2,3) [OF en ok]
    by (simp_all add: advances_def waiting_def kept_waiting [symmetric] abs_queue_def)
  note v = delivered_part [OF assms(3) u]
  obtain r b where g: "go_dormant env (v\<lparr>Outside := w\<rparr>) = (r, b)" by fastforce
  have r: "r \<noteq> Inr ()" using go_dormant_spec [OF g] by simp
  have d: "deliver env e v = (r, b)" using assms(4,5) g by (simp add: deliver_def)
  have "flush_buffer env t = (r, b)"
    using assms(2,3) d r by (cases r) (simp_all add: flush_buffer_def deliver_all_append bind_io_def)
  moreover have "agent_ok b" using go_dormant_advances [of "v\<lparr>Outside := w\<rparr>" env] g v by (simp add: advances_def)
  moreover have "waiting b = waiting v" using go_dormant_buffer [of env "v\<lparr>Outside := w\<rparr>"] g by (simp add: waiting_def)
  ultimately show ?thesis using g r v by (intro exI [of _ r] exI [of _ b]) simp
qed

end
