(* ===== verification/Agent_Rules.thy ===== *)
theory Agent_Rules
  imports Agent_Process
begin

text \<open>
  The rules the runtime lives under: a revoked agent stays silent, the contract in force has been
  checked and the buffer obeys it, the monitoring configuration only moves forward, a hub that
  answers empties the buffer, and what a failed collection does to the telemetry state.
\<close>

section \<open>Revocation\<close>


definition revoking_env :: "unit agent_env" where
  "revoking_env = sample_env\<lparr>AgClient := sample_client\<lparr>Server := (\<lambda>request w. (Inr \<lparr>StatusCode = 410,
     RespBody = Inr (json_text (JObj [(''code'', JStr ''agent-registration-revoked'')]) @ newline), ETag = []\<rparr>, w))\<rparr>\<rparr>"

lemma unit_world [simp]: "a\<lparr>Outside := ()\<rparr> = a" for a :: "unit agent"
  by (cases a) simp

lemma revoking_reply:
  "read_response \<lparr>StatusCode = 410, RespBody = Inr (json_text (JObj [(''code'', JStr ''agent-registration-revoked'')]) @ newline),
     ETag = []\<rparr> = Inl (HttpStatus 410 ''agent-registration-revoked'')"
proof -
  have "natural_json (JObj [(''code'', JStr ''agent-registration-revoked'')])" by simp
  note p = parse_json_text [OF this]
  have "length (json_quote ''code'') = 6" "length (json_quote ''agent-registration-revoked'') = 28" by code_simp+
  then have "length (json_text (JObj [(''code'', JStr ''agent-registration-revoked'')]) @ newline) \<le> max_response_bytes"
    by (simp add: max_response_bytes_def newline_def)
  then show ?thesis
    by (simp add: read_response_def read_limited_def success_status_def error_code_def p fold_simps del: json_text.simps)
qed

lemma sample_writable: "writable sample_disk"
  by (simp add: writable_def state_files_def fault_free_def sample_disk_def lookup_def)

lemma collect_other_hub:
  assumes "SchemaDigest cl = SchemaDigest (AgClient env)"
  shows "collect (env\<lparr>AgClient := cl\<rparr>) c a = collect env c a"
proof -
  let ?env = "env\<lparr>AgClient := cl\<rparr>"
  have "collection_time ?env = collection_time env" "make_compact ?env = make_compact env" "store_heartbeat ?env = store_heartbeat env"
    by (simp_all add: fun_eq_iff collection_time_def make_compact_def store_heartbeat_def compress_heartbeat_def)
  with assms show ?thesis by (simp add: collect_def stamp_collect_def finish_collect_def stamp_heartbeat_def cong: if_cong)
qed


section \<open>The contract in force\<close>

lemma load_cache_Inr:
  assumes "load_cache env d = (Inr v, d')" and "ContractMajor (Cached v) \<noteq> 0"
  shows "validate_contract (Cached v) = Inr ()"
    "compatible_digest (SchemaDigest (AgClient env)) (SchemaBundleDigest (Cached v)) = Inr True"
proof -
  have nz: "v \<noteq> zero_cache" using assms(2) by (auto simp: zero_cache_def zero_contract_def)
  obtain q e where q: "read_file contract_name d = (q, e)" by (metis surj_pair)
  have "check_cache (SchemaDigest (AgClient env)) v' = Inr v" if "q = Inr body" "decode_cache body = Some v'" for body v'
    using assms(1) q nz that by (auto simp: load_cache_def load_contract_cache_def split: sum.splits if_splits)
  moreover have "\<exists>body v'. q = Inr body \<and> decode_cache body = Some v'"
    using assms(1) q nz
    by (cases q) (auto simp: load_cache_def load_contract_cache_def incompatible_cache_def split: if_splits option.splits)
  ultimately obtain v' where "check_cache (SchemaDigest (AgClient env)) v' = Inr v" by blast
  then show "validate_contract (Cached v) = Inr ()"
    "compatible_digest (SchemaDigest (AgClient env)) (SchemaBundleDigest (Cached v)) = Inr True"
    by (auto simp: check_cache_def bind_result_Inr_iff split: if_splits)
qed

lemma fetched_checked:
  assumes "fetch_contract cl etag w = (Inr (Fetched c tag), w')"
  shows "validate_contract c = Inr ()" "compatible_digest (SchemaDigest cl) (SchemaBundleDigest c) = Inr True"
  using assms
  by (auto simp: fetch_contract_def bind_result_Inr_iff return_io_def elim!: bind_io_InrE split: if_splits option.splits)

lemma apply_limits_Inr:
  assumes "apply_limits c a = (Inr c', b)" and "agent_ok a"
  shows "c' = c \<and> queue_limits (Buffer b) = contract_limits c \<and>
    \<not> over_limit (contract_limits c) (length (waiting b)) (total_bytes (waiting b)) \<and> (\<exists>k. waiting b = drop k (waiting a))"
proof -
  obtain u t where s: "on_buffer (counted (set_limits (contract_limits c))) a = (Inr u, t)" and b: "c' = c" "b = t"
    using assms(1) by (auto simp: apply_limits_def return_io_def elim!: bind_io_InrE)
  have "counted (set_limits (contract_limits c)) (Buffer a) = (Inr u, Buffer b)"
    using on_buffer_frame(5,6) [of "counted (set_limits (contract_limits c))" a] s b by (simp add: prod_eq_iff)
  then obtain n err where "set_limits (contract_limits c) (Buffer a) = ((n, err), Buffer b)"
    "Inr u = (case err of None \<Rightarrow> Inr n | Some x \<Rightarrow> Inl x)" by (rule counted_cases)
  then have q: "set_limits (contract_limits c) (Buffer a) = ((n, None), Buffer b)" by (cases err) simp_all
  have ok: "queue_ok (Buffer a)" using assms(2) by (simp add: agent_ok_def)
  have pos: "positive_limits (contract_limits c)" using q by (auto simp: set_limits_def split: if_splits)
  then have "lift_disk (resettle (contract_limits c)) ((Buffer a)\<lparr>queue_limits := contract_limits c\<rparr>) = ((n, None), Buffer b)"
    using q by (simp add: set_limits_resettle)
  note q_lift = this [symmetric]
  have r: "resettle (contract_limits c) (directory (Buffer a)) = ((n, None), directory (Buffer b))"
    and l: "queue_limits (Buffer b) = contract_limits c"
    using q_lift by (simp_all add: lift_disk_unfold prod_eq_iff)
  have "waiting b = trim (contract_limits c) (waiting a)"
    using resettle_spec [OF r] ok by (simp add: queue_ok_def waiting_def)
  moreover have "\<exists>k. trim (contract_limits c) (waiting a) = drop k (waiting a)" using trim_drop by blast
  ultimately show ?thesis using b l trim_within [OF pos, of "waiting a"] by simp
qed

text \<open>
  C8: the contract a cycle works under, fetched, confirmed by the hub or taken from the cache when
  the hub cannot be reached, is valid and of a schema this program knows; the buffer has its limits
  and holds no more than they allow, and only the oldest entries were dropped for it.
\<close>

theorem contract_in_force:
  assumes "current_contract env a = (Inr c, b)" and "agent_ok a"
  shows "validate_contract c = Inr () \<and> compatible_digest (SchemaDigest (AgClient env)) (SchemaBundleDigest c) = Inr True \<and>
    queue_limits (Buffer b) = contract_limits c \<and>
    \<not> over_limit (contract_limits c) (length (waiting b)) (total_bytes (waiting b)) \<and> (\<exists>k. waiting b = drop k (waiting a))"
proof -
  obtain cached t where l: "on_state (load_cache env) a = (Inr cached, t)"
    using assms(1) unfolding current_contract_def by (auto elim!: bind_io_InrE)
  obtain d where d: "load_cache env (snd (Device a)) = (Inr cached, d)" using l by (auto simp: on_state_def split: prod.splits)
  have t: "agent_ok t" "Buffer t = Buffer a"
    using load_cache_advances [OF assms(2), of env] on_state_frame(1) [of "load_cache env" a] l by (simp_all add: advances_def)
  obtain r w where f: "fetch_contract (AgClient env) (CachedETag cached) (Outside t) = (r, w)" by (metis surj_pair)
  have limits: ?thesis if "apply_limits c0 s = (Inr c, b)" "agent_ok s" "Buffer s = Buffer a" "validate_contract c0 = Inr ()"
    "compatible_digest (SchemaDigest (AgClient env)) (SchemaBundleDigest c0) = Inr True" for c0 s
    using apply_limits_Inr [OF that(1,2)] that(3-5) by (simp add: waiting_def)
  note run = assms(1) [unfolded current_contract_def bind_io_Inr [where m = "on_state (load_cache env)", OF l]]
  have from_cache: ?thesis if "ContractMajor (Cached cached) \<noteq> 0" "apply_limits (Cached cached) (t\<lparr>Outside := w\<rparr>) = (Inr c, b)"
    using limits [OF that(2)] load_cache_Inr [OF d that(1)] t by simp
  show ?thesis
  proof (cases r)
    case (Inl e)
    with run f from_cache show ?thesis by (auto split: if_splits)
  next
    case (Inr g)
    show ?thesis
    proof (cases g)
      case Unmodified
      with run f Inr from_cache show ?thesis by (auto split: if_splits)
    next
      case (Fetched c0 tag)
      then obtain u s where s: "on_state (write_contract_cache \<lparr>CachedETag = tag, Cached = c0\<rparr>) (t\<lparr>Outside := w\<rparr>) = (Inr u, s)"
        and a: "apply_limits c0 s = (Inr c, b)"
        using run f Inr by (auto elim!: bind_io_InrE)
      have "agent_ok s" "Buffer s = Buffer a"
        using write_cache_advances [of "t\<lparr>Outside := w\<rparr>" "\<lparr>CachedETag = tag, Cached = c0\<rparr>"] t s
          on_state_frame(1) [of "write_contract_cache \<lparr>CachedETag = tag, Cached = c0\<rparr>" "t\<lparr>Outside := w\<rparr>"]
        by (simp_all add: advances_def)
      with limits [OF a] fetched_checked [of "AgClient env" "CachedETag cached" "Outside t" c0 tag w] f Inr Fetched
      show ?thesis by simp
    qed
  qed
qed

definition caching_agent :: "unit agent" where
  "caching_agent = sample_agent\<lparr>Device := (sample_identity,
     sample_disk\<lparr>files := (contract_name, Reg (encode_cache \<lparr>CachedETag = ''v1'', Cached = sample_contract\<rparr>) mode_600) # files sample_disk\<rparr>)\<rparr>"

lemma sample_contract_storable: "contract_storable sample_contract"
proof -
  have "time_in_range (IssuedAt sample_contract)" by code_simp
  with sample_contract_valid show ?thesis by (simp add: contract_storable_def)
qed

lemma set_limits_fault_free:
  assumes "queue_ok q" and "fault_free (directory q)" and "positive_limits l"
  shows "\<exists>n q'. set_limits l q = ((n, None), q')"
  using resettle_fault_free [OF assms(2) _ assms(3)] assms(1,3)
  by (auto simp: set_limits_resettle lift_disk_def queue_ok_def)

lemma caching_agent_ok: "agent_ok caching_agent"
proof -
  let ?d = "snd (Device caching_agent)"
  have l: "lookup ?d identity_name = lookup sample_disk identity_name" "lookup ?d monitoring_name = lookup sample_disk monitoring_name"
    by (simp_all add: caching_agent_def lookup_def)
  have "identity_good (Some sample_identity, ?d)" using identity_good_cong [OF l(1)] sample_identity_good(1) by simp
  moreover have "saved_monitoring ?d = Some zero_monitoring"
    using saved_monitoring_cong [OF l(2)] sample_agent_ok by (simp add: agent_ok_def sample_agent_def)
  ultimately show ?thesis using sample_agent_ok
    by (simp add: agent_ok_def held_identity_def waiting_def caching_agent_def sample_agent_def)
qed

lemma contract_in_force_witness:
  "\<exists>b. current_contract sample_env caching_agent = (Inr sample_contract, b) \<and> queue_limits (Buffer b) = contract_limits sample_contract"
proof -
  let ?v = "\<lparr>CachedETag = ''v1'', Cached = sample_contract\<rparr>" and ?d = "snd (Device caching_agent)"
  have "compatible_digest (SchemaDigest (AgClient sample_env)) (SchemaBundleDigest sample_contract) = Inr True"
    by (simp add: compatible_digest_def sample_env_def sample_client_def sample_contract_def)
  moreover have "read_file contract_name ?d = (Inr (encode_cache ?v), ?d)"
    by (simp add: read_file_def call_fault_free fault_free_def caching_agent_def sample_disk_def lookup_def)
  ultimately have "load_cache sample_env ?d = (Inr ?v, ?d)"
    using decode_encode_cache [of ?v] sample_contract_storable sample_contract_valid
    by (simp add: load_cache_def load_contract_cache_def check_cache_def)
  then have l: "on_state (load_cache sample_env) caching_agent = (Inr ?v, caching_agent)"
    by (simp add: on_state_def caching_agent_def)
  have f: "fetch_contract (AgClient sample_env) ''v1'' () = (Inl IoFault, ())"
    by (simp add: fetch_contract_def bind_io_def sample_env_def sample_client_def sample_hub_def)
  obtain n q where q: "set_limits (contract_limits sample_contract) (Buffer caching_agent) = ((n, None), q)"
    using set_limits_fault_free [of "Buffer caching_agent" "contract_limits sample_contract"] caching_agent_ok sample_limits(2)
      contract_sizes(2) [OF sample_contract_valid]
    by (auto simp: agent_ok_def caching_agent_def)
  have "current_contract sample_env caching_agent = apply_limits sample_contract caching_agent"
    unfolding current_contract_def
    by (simp add: bind_io_Inr [where m = "on_state (load_cache sample_env)", OF l] f)
      (simp add: sample_env_def is_http_def sample_contract_def)
  also have "\<dots> = (Inr sample_contract, caching_agent\<lparr>Buffer := q\<rparr>)"
    using q by (simp add: apply_limits_def bind_io_def on_buffer_def counted_def return_io_def)
  finally have c: "current_contract sample_env caching_agent = (Inr sample_contract, caching_agent\<lparr>Buffer := q\<rparr>)" .
  from contract_in_force [OF c caching_agent_ok] c show ?thesis by blast
qed

section \<open>The monitoring configuration\<close>

text \<open>
  C14: a monitoring configuration from the hub: an invalid one is refused and one that is not newer is
  ignored, both without effect; a newer one is in force exactly when it has been written, which
  always succeeds on a working disk, and memory and file agree either way, so that a restart finds
  the configuration that was in force; its interval replaces the contract's while it is enabled.
\<close>

theorem monitoring_applied:
  assumes "apply_monitoring m a = (r, b)" and "agent_ok a"
  shows "(validate_monitoring_config m \<noteq> Inr () \<longrightarrow> r = validate_monitoring_config m \<and> b = a) \<and>
    (validate_monitoring_config m = Inr () \<and> MonRevision m \<le> MonRevision (Monitoring a) \<longrightarrow> r = Inr () \<and> b = a) \<and>
    (validate_monitoring_config m = Inr () \<and> MonRevision (Monitoring a) < MonRevision m \<longrightarrow>
       Monitoring b = (if r = Inr () then m else Monitoring a) \<and> fst (Device b) = fst (Device a) \<and> Buffer b = Buffer a \<and>
       (fault_free (snd (Device a)) \<and> lookup (snd (Device a)) monitoring_name \<noteq> Some Directory \<longrightarrow> r = Inr ())) \<and>
    saved_monitoring (snd (Device b)) = Some (Monitoring b) \<and>
    (MonEnabled (Monitoring b) \<and> MonRevision (Monitoring b) > 0 \<longrightarrow>
       effective_contract b c = c\<lparr>Collection := (Collection c)\<lparr>ServiceIntervalSeconds := MonServiceInterval (Monitoring b)\<rparr>\<rparr>)"
proof -
  have saved: "saved_monitoring (snd (Device b)) = Some (Monitoring b)"
    using apply_monitoring_advances [OF assms(2), of m] assms(1) by (simp add: advances_def agent_ok_def)
  have works: "fst (on_state (write_monitoring m) a) = Inr ()"
    if "fault_free (snd (Device a))" "lookup (snd (Device a)) monitoring_name \<noteq> Some Directory" "validate_monitoring_config m = Inr ()"
    using write_monitoring_fault_free [OF that] by (auto simp: on_state_def)
  have frame: "Monitoring (snd (on_state (write_monitoring m) a)) = Monitoring a"
    "fst (Device (snd (on_state (write_monitoring m) a))) = fst (Device a)" "Buffer (snd (on_state (write_monitoring m) a)) = Buffer a"
    by simp_all
  show ?thesis using assms(1)
    by (cases rule: apply_monitoring_cases) (use works frame saved in \<open>auto simp: effective_contract_def\<close>)
qed

definition sample_monitoring :: monitoring_config where
  "sample_monitoring = \<lparr>MonRevision = 1, MonEnabled = True, MonServiceInterval = 120, SelectedServices = [''ssh''],
     SelectedContainers = []\<rparr>"

lemma monitoring_applied_witness:
  "Monitoring (snd (apply_monitoring sample_monitoring sample_agent)) = sample_monitoring"
proof -
  have v: "validate_monitoring_config sample_monitoring = Inr ()" by code_simp
  have d: "fault_free (snd (Device sample_agent))" "lookup (snd (Device sample_agent)) monitoring_name \<noteq> Some Directory"
    by (simp_all add: sample_agent_def fault_free_def sample_disk_def lookup_def)
  have n: "MonRevision (Monitoring sample_agent) < MonRevision sample_monitoring"
    by (simp add: sample_agent_def zero_monitoring_def sample_monitoring_def)
  obtain r b where b: "apply_monitoring sample_monitoring sample_agent = (r, b)" by (metis surj_pair)
  from monitoring_applied [OF b sample_agent_ok] v d n have "Monitoring b = sample_monitoring" by simp
  with b show ?thesis by simp
qed

section \<open>A hub that answers empties the buffer\<close>

text \<open>
  C10: a hub that answers is enough: if the hub answers every waiting heartbeat sent under this identity, with
  an answer the client accepts, whatever monitoring configuration or request for telemetry it carries, or
  with the refusal of a number it has already, then one flush sends everything and leaves the buffer empty,
  however many heartbeats are waiting. For this the directories must work: no call on the buffer's or the
  state's directory fails, the files the runtime writes there are not directories, and the times in the
  telemetry state are ones JSON can write.
\<close>

theorem flush_completes:
  assumes "agent_ok a" and "fault_free (directory (Buffer a))" and "writable (snd (Device a))" and "times_in_range (Telemetry a)"
    and "\<And>e w. e \<in> set (waiting a) \<Longrightarrow>
      (case fst (send_heartbeat (AgClient env) (ConfHost (AgConfig env)) (deviceID (fst (Device a))) (privateKey (fst (Device a)))
          (Sequence e) (Body e) w) of Inr response \<Rightarrow> True | Inl err \<Rightarrow> err = HttpStatus 409 ''replayed-agent-request'')"
  shows "\<exists>b. flush_buffer env a = (Inr (), b) \<and> waiting b = []"
proof -
  have all: "\<exists>b. deliver_all env es t = (Inr (), b)" if "flush_ready t" "fst (Device t) = fst (Device a)" "set es \<subseteq> set (waiting a)" for es t
    using that
  proof (induction es arbitrary: t)
    case (Cons e es)
    have e: "e \<in> set (waiting a)" using Cons.prems(3) by simp
    have "answered env e t" using assms(5) [OF e, of "Outside t"] Cons.prems(2)
      by (simp add: answered_def replayed_def split: sum.split sum.split_asm)
    with deliver_works [OF Cons.prems(1) waiting_member [OF assms(1) e]] obtain u where
      u: "deliver env e t = (Inr (), u)" "keeps_ready t u" by blast
    with Cons.IH [of u] Cons.prems show ?case by (simp add: keeps_ready_def)
  qed simp
  have ok: "queue_ok (Buffer a)" using assms(1) by (simp add: agent_ok_def)
  obtain r q where q: "entries (Buffer a) = (r, q)" by (metis surj_pair)
  from entries_spec(4) [OF q ok assms(2)] q have en: "on_buffer entries a = (Inr (waiting a), a)"
    by (simp add: on_buffer_def waiting_def)
  have "flush_ready a" using assms(1-4) by (simp add: flush_ready_def)
  then obtain b where b: "deliver_all env (waiting a) a = (Inr (), b)" using all [of a "waiting a"] by auto
  then have "flush_buffer env a = (Inr (), b)" by (simp add: flush_buffer_def en)
  moreover have "waiting b = []" using deliver_all_waiting [OF b assms(1)] by auto
  ultimately show ?thesis by blast
qed

lemma flush_completes_witness: "\<exists>b. flush_buffer sample_env busy_agent = (Inr (), b) \<and> waiting b = []"
proof (rule flush_completes [OF busy_agent_ok(1)])
  show "fault_free (directory (Buffer busy_agent))" by (simp add: busy_agent_def busy_directory_def fault_free_def)
  show "writable (snd (Device busy_agent))" using sample_writable by (simp add: busy_agent_def sample_agent_def)
  show "times_in_range (Telemetry busy_agent)" by (simp add: busy_agent_def sample_agent_def times_in_range_def empty_sync_def)
  fix e :: entry and w
  assume "e \<in> set (waiting busy_agent)"
  then have e: "Sequence e \<noteq> 0" "Body e \<noteq> []" by (simp_all add: busy_agent_ok(2))
  have "ConfHost (AgConfig sample_env) = sample_host" "AgClient sample_env = sample_client"
    "deviceID (fst (Device busy_agent)) \<noteq> 0" "length (privateKey (fst (Device busy_agent))) = private_key_size"
    by (simp_all add: sample_env_def busy_agent_def sample_agent_def sample_identity_def private_key_size_def)
  then show "case fst (send_heartbeat (AgClient sample_env) (ConfHost (AgConfig sample_env)) (deviceID (fst (Device busy_agent)))
      (privateKey (fst (Device busy_agent))) (Sequence e) (Body e) w) of Inr response \<Rightarrow> True
      | Inl err \<Rightarrow> err = HttpStatus 409 ''replayed-agent-request''"
    using sample_sends [OF _ e(1) _ e(2)] by simp
qed

section \<open>The telemetry state\<close>

lemma build_shares_families:
  assumes "build_compact_heartbeat g clock h s = (Inr (h', after), s')" and "SyncFamilies s \<noteq> None"
  shows "SyncFamilies s' = SyncFamilies after \<and> SyncCapabilities s' = SyncCapabilities s"
  using assms by (auto simp: build_compact_heartbeat_def Let_def split: sum.splits prod.splits if_splits)

lemma store_heartbeat_telemetry [simp]: "Telemetry (snd (store_heartbeat env c n h a)) = Telemetry a"
  by (auto simp: store_heartbeat_def bind_io_def pure_io_def fail_io_def return_io_def on_buffer_def
      split: prod.splits sum.splits)

text \<open>
  C37: the compact form is committed too early: the state after a compact heartbeat shares its map of
  families with the state before, so a heartbeat that then fails to be validated, compressed or
  stored has advanced the revisions and hashes in memory all the same (only the digest of the
  capabilities and the file wait for the commit), and the buffer never saw it.
\<close>

theorem failed_collect_advances_families:
  assumes "agent_ok a" and "supports_compact (SchemaDigest (AgClient env)) (SchemaBundleDigest c) = Inr True"
    and "make_compact env h a = (Inr (h', after), t)" and "store_heartbeat env c n h' t = (Inl err, b)"
  shows "finish_collect env c n h a = (Inl err, b) \<and> SyncFamilies (Telemetry b) = SyncFamilies after \<and>
    SyncCapabilities (Telemetry b) = SyncCapabilities (Telemetry a) \<and> Device b = Device a"
proof -
  have "SyncFamilies (Telemetry a) \<noteq> None" using assms(1) by (simp add: agent_ok_def)
  then have t: "SyncFamilies (Telemetry t) = SyncFamilies after" "SyncCapabilities (Telemetry t) = SyncCapabilities (Telemetry a)"
    "Device t = Device a"
    using assms(3) build_shares_families by (auto simp: make_compact_def split: prod.splits)
  have b: "Telemetry b = Telemetry t" "Device b = Device t"
    using store_heartbeat_telemetry [of env c n h' t] store_heartbeat_device [of env c n h' t] assms(4) by simp_all
  have "finish_collect env c n h a = (Inl err, b)"
    using assms(2-4) by (simp add: finish_collect_def)
  with t b show ?thesis by simp
qed

definition compact_contract :: contract where
  "compact_contract = sample_contract\<lparr>SchemaBundleDigest := pre_openrc_digest,
     ContractLimits := (ContractLimits sample_contract)\<lparr>DecompressedBytes := 1\<rparr>\<rparr>"

definition sample_compact :: "(heartbeat \<times> telemetry_sync) result \<times> telemetry_sync" where
  "sample_compact = build_compact_heartbeat (ValueHash sample_env) 0 sample_stamped empty_sync"

definition sample_compact_ok :: bool where
  "sample_compact_ok = (case fst sample_compact of Inl e \<Rightarrow> False
     | Inr (h', after) \<Rightarrow> validate_heartbeat h' = Inr () \<and> SyncRevision (family_of (the (SyncFamilies after)) ''services'') = 1)"

lemma sample_compact_fine: sample_compact_ok
  by code_simp

lemma failed_collect_advances_families_witness:
  "\<exists>b. finish_collect sample_env compact_contract 42 sample_stamped sample_agent
      = (Inl (Msg ''heartbeat exceeds contract decompressed limit''), b) \<and>
     SyncRevision (family_of (the (SyncFamilies (Telemetry b))) ''services'') = 1 \<and> Device b = Device sample_agent"
proof -
  have c: "supports_compact (SchemaDigest (AgClient sample_env)) (SchemaBundleDigest compact_contract) = Inr True"
    by (simp add: supports_compact_def sample_env_def sample_client_def compact_contract_def)
  obtain h' after s where b: "sample_compact = (Inr (h', after), s)" "validate_heartbeat h' = Inr ()"
      "SyncRevision (family_of (the (SyncFamilies after)) ''services'') = 1"
  proof -
    obtain p s where p: "sample_compact = (p, s)" by (metis surj_pair)
    have f: "fst sample_compact = p" unfolding p by (rule fst_conv)
    obtain h' after where "p = Inr (h', after)" "validate_heartbeat h' = Inr ()"
      "SyncRevision (family_of (the (SyncFamilies after)) ''services'') = 1"
      using sample_compact_fine unfolding sample_compact_ok_def f by (cases p) auto
    with p show thesis by (intro that) simp_all
  qed
  have m: "make_compact sample_env sample_stamped sample_agent = (Inr (h', after), sample_agent\<lparr>Telemetry := s\<rparr>)"
    using b(1) by (simp add: make_compact_def sample_compact_def sample_agent_def)
  have "store_heartbeat sample_env compact_contract 42 h' t = (Inl (Msg ''heartbeat exceeds contract decompressed limit''), t)"
    for t :: "unit agent"
    using b(2) by (simp add: store_heartbeat_def compress_heartbeat_def sample_env_def compact_contract_def fail_io_def)
  from failed_collect_advances_families [OF sample_agent_ok c m this] b(3) show ?thesis by auto
qed

section \<open>The files survive a restart\<close>

lemma write_telemetry_stored:
  assumes "write_telemetry s d = (Inr (), d')"
  shows "\<exists>k. lookup d' telemetry_name = Some (Reg (encode_telemetry s) k)"
proof -
  obtain d1 d2 where r: "replace_file telemetry_name (encode_telemetry s) d1 = (Inr (), d2)"
    and c: "chmod_file telemetry_name mode_600 d2 = (Inr (), d')"
    using assms by (auto simp: write_telemetry_def fail_io_def elim!: bind_io_InrE split: if_splits)
  obtain k where "lookup d2 telemetry_name = Some (Reg (encode_telemetry s) k)" using replace_file_target [OF r] by blast
  with c show ?thesis by (auto simp: chmod_file_def elim!: call_cases split: option.splits node.splits)
qed

text \<open>
  C18: what the runtime writes, a restart reads: the telemetry state up to the order of its maps, the
  monitoring configuration, and the contract with its tag as long as its schema is one this program
  knows (of an unknown schema the cache is passed over, and fetched anew).
\<close>

theorem files_survive_restart:
  "(write_telemetry s d = (Inr (), d') \<and> sync_storable s \<and> fault_free d' \<longrightarrow> load_telemetry d' = (Inr (sorted_sync s), d')) \<and>
   (write_monitoring m d = (Inr (), d') \<and> fault_free d' \<longrightarrow> load_monitoring d' = (Inr m, d')) \<and>
   (write_contract_cache v d = (Inr (), d') \<and> validate_contract (Cached v) = Inr () \<and> fault_free d' \<and>
      compatible_digest (SchemaDigest (AgClient env)) (SchemaBundleDigest (Cached v)) = Inr known \<longrightarrow>
      load_cache env d' = (Inr (if known then v else zero_cache), d'))"
proof (intro conjI impI)
  assume a: "write_telemetry s d = (Inr (), d') \<and> sync_storable s \<and> fault_free d'"
  then obtain k where "lookup d' telemetry_name = Some (Reg (encode_telemetry s) k)" using write_telemetry_stored by blast
  with a show "load_telemetry d' = (Inr (sorted_sync s), d')"
    by (auto simp: load_telemetry_def read_file_def call_fault_free decode_encode_telemetry sync_storable_def sorted_sync_def)
next
  assume a: "write_monitoring m d = (Inr (), d') \<and> fault_free d'"
  then have v: "validate_monitoring_config m = Inr ()" and
    w: "atomic_write monitoring_temp monitoring_name (encode_monitoring m) mode_600 d = (Inr (), d')"
    by (auto simp: write_monitoring_def elim!: bind_io_InrE)
  from atomic_write_target [OF w] a v show "load_monitoring d' = (Inr m, d')"
    by (simp add: load_monitoring_def read_file_def call_fault_free decode_encode_monitoring)
next
  assume a: "write_contract_cache v d = (Inr (), d') \<and> validate_contract (Cached v) = Inr () \<and> fault_free d' \<and>
      compatible_digest (SchemaDigest (AgClient env)) (SchemaBundleDigest (Cached v)) = Inr known"
  then obtain d1 where t: "time_in_range (IssuedAt (Cached v))"
    and w: "atomic_write contract_temp contract_name (encode_cache v) mode_600 d1 = (Inr (), d')"
    by (auto simp: write_contract_cache_def fail_io_def elim!: bind_io_InrE split: if_splits)
  have "contract_storable (Cached v)" using a t by (simp add: contract_storable_def)
  from atomic_write_target [OF w] decode_encode_cache [OF this] a show "load_cache env d' = (Inr (if known then v else zero_cache), d')"
    by (cases known)
      (simp_all add: load_cache_def load_contract_cache_def read_file_def call_fault_free check_cache_def incompatible_cache_def)
qed

lemma files_survive_restart_witness:
  "\<exists>d'. write_monitoring sample_monitoring sample_disk = (Inr (), d') \<and> load_monitoring d' = (Inr sample_monitoring, d')"
proof -
  have "validate_monitoring_config sample_monitoring = Inr ()" by code_simp
  moreover have "fault_free sample_disk" "lookup sample_disk monitoring_name \<noteq> Some Directory"
    by (simp_all add: fault_free_def sample_disk_def lookup_def)
  ultimately obtain d' where "write_monitoring sample_monitoring sample_disk = (Inr (), d')" "fault_free d'"
    using write_monitoring_fault_free by blast
  then show ?thesis
    using files_survive_restart [of empty_sync sample_disk d' sample_monitoring zero_cache sample_env True] by blast
qed

section \<open>Activation\<close>

text \<open>The request for a device id, and the answer of the hub that gives one.\<close>

definition activation_request :: "'w agent_env \<Rightarrow> string \<Rightarrow> string \<Rightarrow> http_request" where
  "activation_request env token public = \<lparr>Method = ''POST'',
     Url = route (AgClient env) (''/api/agent/hosts/'' @ HostType (ConfHost (AgConfig env)) @ ''/'' @
       show_u64 (HostID (ConfHost (AgConfig env))) @ ''/activate''),
     Headers = [(''Authorization'', ''Bearer '' @ token), (''Content-Type'', ''application/json'')],
     Content = activation_body \<lparr>ActivationMajor = 1, ActivationVersion = AgVersion env, PublicKey = public,
       ActivationCapabilities = AgCapabilities env\<rparr>\<rparr>"

definition hub_activates :: "'w agent_env \<Rightarrow> string \<Rightarrow> 'w agent \<Rightarrow> activation_response \<Rightarrow> 'w \<Rightarrow> bool" where
  "hub_activates env token a response w \<longleftrightarrow> validate_host_ref (ConfHost (AgConfig env)) = Inr () \<and>
     (\<exists>public reply body. PublicKeyText env (privateKey (fst (Device a))) = Inr public \<and>
        Server (AgClient env) (activation_request env token public) (Outside a) = (Inr reply, w) \<and>
        read_response reply = Inr body \<and> Option.bind (parse_json body) decode_activation = Some response \<and>
        0 < ActDeviceID response \<and> ActDeviceID response \<le> max_safe \<and> ActMajor response = 1)"

lemma max_safe_same: "max_safe_id = max_safe"
  by (simp add: max_safe_def max_safe_id_def)

lemma activate_device_hub:
  assumes "PublicKeyText env (privateKey (fst (Device a))) = Inr public"
  shows "activate_device (AgClient env) (ConfHost (AgConfig env)) token \<lparr>ActivationMajor = 1, ActivationVersion = AgVersion env,
      PublicKey = public, ActivationCapabilities = AgCapabilities env\<rparr> (Outside a) = (Inr response, w) \<longleftrightarrow>
    hub_activates env token a response w"
  using assms
  by (auto simp: activate_device_def hub_activates_def activation_request_def host_path_def bind_result_Inr_iff not_less word_gt_0
      max_safe_same elim!: bind_io_InrE split: option.split_asm if_split_asm) (auto simp: bind_io_def bind_result_def)

lemma activate_good_disk:
  assumes "identity_good (Some i, d)" and "deviceID i = 0" and "0 < n" and "n \<le> max_safe" and "activate n (i, d) = (r, (i', d'))"
  shows "i' = i\<lparr>deviceID := n\<rparr> \<and> (r = Inr () \<longrightarrow> durable d' = Some i') \<and> (fault_free d \<longrightarrow> r = Inr ())"
proof -
  have a: "i' = i\<lparr>deviceID := n\<rparr>" "persist_locked i' d = (r, d')"
    using assms(2-5) by (auto simp: activate_def Let_def split: prod.splits if_splits)
  have "identity_valid i'" using assms(1,4) by (auto simp: a(1) identity_good_def identity_valid_def)
  note s = persist_locked_spec [OF a(2) this]
  have "lookup d identity_name \<noteq> Some Directory"
    using assms(1) by (auto simp: identity_good_def durable_def stored_def)
  then have "fault_free d \<Longrightarrow> r = Inr ()" using persist_locked_fault_free [of d i'] a(2) by auto
  with a(1) s show ?thesis by simp
qed

text \<open>
  C38: activation: an agent that has a device id does not ask for one and stays as it is. One that has none
  sends one request, to the activation route of its host, with the token, its version, capabilities and
  public key. When the hub's answer to it decodes to a positive safe id under protocol 1, the identity is
  bound to exactly that id, with key and number as they were, and success means that the bound identity is on
  disk, which a working disk always grants; in every other case it fails and identity and files stay as they
  are. Nothing but the identity and the world outside is touched.
\<close>

theorem activation_end_to_end:
  assumes "activate_agent env token a = (r, b)" and "agent_ok a"
  shows "(deviceID (fst (Device a)) \<noteq> 0 \<longrightarrow> r = Inr () \<and> b = a) \<and>
    (deviceID (fst (Device a)) = 0 \<longrightarrow>
      (\<exists>response. hub_activates env token a response (Outside b) \<and>
         fst (Device b) = (fst (Device a))\<lparr>deviceID := ActDeviceID response\<rparr> \<and>
         (r = Inr () \<longrightarrow> durable (snd (Device b)) = Some (fst (Device b))) \<and> (fault_free (snd (Device a)) \<longrightarrow> r = Inr ())) \<or>
      (\<exists>e. r = Inl e) \<and> Device b = Device a \<and> (\<nexists>response w. hub_activates env token a response w)) \<and>
    Buffer b = Buffer a \<and> Monitoring b = Monitoring a \<and> Telemetry b = Telemetry a"
proof (cases "deviceID (fst (Device a)) = 0")
  case False
  with assms(1) show ?thesis by (simp add: activate_agent_def)
next
  case True
  obtain i d where dev: "Device a = (i, d)" by (metis surj_pair)
  have good: "identity_good (Some i, d)" using assms(2) dev by (simp add: agent_ok_def held_identity_def)
  show ?thesis
  proof (cases "PublicKeyText env (privateKey i)")
    case (Inl x)
    then show ?thesis using assms(1) True dev by (auto simp: activate_agent_def hub_activates_def)
  next
    case (Inr public)
    then have pk: "PublicKeyText env (privateKey (fst (Device a))) = Inr public" by (simp add: dev)
    note hub = activate_device_hub [OF pk, of token]
    let ?q = "\<lparr>ActivationMajor = 1, ActivationVersion = AgVersion env, PublicKey = public, ActivationCapabilities = AgCapabilities env\<rparr>"
    obtain q w where q: "activate_device (AgClient env) (ConfHost (AgConfig env)) token ?q (Outside a) = (q, w)" by (metis surj_pair)
    show ?thesis
    proof (cases q)
      case (Inl x)
      then have "(r, b) = (Inl x, a\<lparr>Outside := w\<rparr>)"
        using assms(1) True dev \<open>PublicKeyText env (privateKey i) = Inr public\<close> q
        by (simp add: activate_agent_def bind_io_def on_outside_def pure_io_def)
      moreover have "\<nexists>response w. hub_activates env token a response w" using hub q Inl by auto
      ultimately show ?thesis using True by simp
    next
      case (Inr response)
      have h: "hub_activates env token a response w" using hub q Inr by simp
      then have ids: "0 < ActDeviceID response" "ActDeviceID response \<le> max_safe" by (auto simp: hub_activates_def)
      obtain p i' d' where p: "activate (ActDeviceID response) (i, d) = (p, (i', d'))" by (metis surj_pair)
      have rb: "r = p" "b = a\<lparr>Outside := w, Device := (i', d')\<rparr>"
        using assms(1) True dev \<open>PublicKeyText env (privateKey i) = Inr public\<close> Inr q p
        by (simp_all add: activate_agent_def bind_io_def on_outside_def pure_io_def on_device_def)
      from activate_good_disk [OF good _ ids p] True dev h rb show ?thesis by auto
    qed
  qed
qed

text \<open>An agent without a device id, and a hub that gives it the id 7.\<close>

definition unbound_identity :: identity where
  "unbound_identity = \<lparr>privateKey = replicate 64 (CHR ''k''), deviceID = 0, sequence = 0\<rparr>"

definition unbound_agent :: "unit agent" where
  "unbound_agent = sample_agent\<lparr>Device := (unbound_identity,
     \<lparr>files = [(identity_name, Reg (encode_identity unbound_identity) mode_600)], faults = [], seeds = []\<rparr>)\<rparr>"

definition activation_json :: json where
  "activation_json = JObj [(''deviceId'', JNum (show_nat 7)), (''protocolMajor'', JNum (show_nat 1))]"

definition activating_env :: "unit agent_env" where
  "activating_env = sample_env\<lparr>AgClient := sample_client\<lparr>Server := (\<lambda>request w.
     (Inr \<lparr>StatusCode = 200, RespBody = Inr (json_text activation_json @ newline), ETag = []\<rparr>, w))\<rparr>\<rparr>"

definition activation_answer :: activation_response where
  "activation_answer = zero_activation\<lparr>ActDeviceID := 7, ActMajor := 1\<rparr>"

lemma unbound_agent_ok: "agent_ok unbound_agent"
proof -
  have v: "identity_valid unbound_identity" by (simp add: identity_valid_def unbound_identity_def key_size_def max_safe_def)
  let ?d = "\<lparr>files = [(identity_name, Reg (encode_identity unbound_identity) mode_600)], faults = [], seeds = []\<rparr>"
  have "identity_good (Some unbound_identity, ?d)"
    using v by (simp add: identity_good_def durable_def stored_def lookup_def identity_of_bytes_def decode_encode_identity)
  moreover have "saved_monitoring ?d = Some zero_monitoring" by (simp add: saved_monitoring_def stored_def lookup_def)
  moreover have "waiting sample_agent = []" using sample_limits(3) by (simp add: abs_queue_def waiting_def)
  ultimately show ?thesis using sample_agent_ok
    by (simp add: agent_ok_def held_identity_def waiting_def unbound_agent_def sample_agent_def)
qed

lemma activating_hub: "hub_activates activating_env token unbound_agent activation_answer ()"
proof -
  have "natural_json activation_json" by (auto simp: activation_json_def)
  note p = parse_json_text [OF this]
  have "length (json_quote ''deviceId'') = 10" "length (json_quote ''protocolMajor'') = 15" "length (show_nat 7) \<le> 1" "length (show_nat 1) \<le> 1"
    by (code_simp, code_simp, rule length_show_nat, simp, simp, rule length_show_nat, simp, simp)
  then have "length (json_text activation_json @ newline) \<le> max_response_bytes"
    by (simp add: activation_json_def max_response_bytes_def newline_def del: show_nat.simps)
  then have r: "read_response \<lparr>StatusCode = 200, RespBody = Inr (json_text activation_json @ newline), ETag = []\<rparr>
      = Inr (json_text activation_json @ newline)"
    by (simp add: read_response_def read_limited_def success_status_def)
  have u: "parse_u64 (show_nat 7) = Some 7" using parse_u64_show [of 7] by (simp add: show_u64_def)
  have "decode_activation activation_json = Some activation_answer"
    using json_int_show [of 1] u
    by (simp add: decode_activation_def activation_json_def json_struct_def known_members_def u64_field_def int_field_def
        string_field_def fold_simps activation_answer_def zero_activation_def del: json_int.simps show_nat.simps)
  moreover have "validate_host_ref (ConfHost (AgConfig activating_env)) = Inr ()"
    using sample_host_valid by (simp add: activating_env_def sample_env_def)
  ultimately show ?thesis using p r
    by (simp add: hub_activates_def activating_env_def sample_env_def activation_answer_def zero_activation_def max_safe_def
        del: json_text.simps)
qed

lemma activation_end_to_end_witness:
  "\<exists>b. activate_agent activating_env ''token'' unbound_agent = (Inr (), b) \<and>
     fst (Device b) = unbound_identity\<lparr>deviceID := 7\<rparr> \<and> durable (snd (Device b)) = Some (fst (Device b))"
proof -
  obtain r b where r: "activate_agent activating_env ''token'' unbound_agent = (r, b)" by (metis surj_pair)
  have d: "deviceID (fst (Device unbound_agent)) = 0" "fst (Device unbound_agent) = unbound_identity"
    "fault_free (snd (Device unbound_agent))" by (simp_all add: unbound_agent_def unbound_identity_def fault_free_def)
  have same: "response = activation_answer" if "hub_activates activating_env ''token'' unbound_agent response w" for response w
    using that activating_hub [of "''token''"] by (auto simp: hub_activates_def)
  from activation_end_to_end [OF r unbound_agent_ok] d activating_hub [of "''token''"]
  obtain response where "hub_activates activating_env ''token'' unbound_agent response (Outside b)"
    "fst (Device b) = unbound_identity\<lparr>deviceID := ActDeviceID response\<rparr>"
    "r = Inr ()" "durable (snd (Device b)) = Some (fst (Device b))" by auto
  with same [OF this(1)] r show ?thesis by (simp add: activation_answer_def)
qed

section \<open>Losses reported more than once\<close>

text \<open>A hub that acknowledges a heartbeat and asks for nothing else.\<close>

definition plain_answer :: "heartbeat_response \<Rightarrow> bool" where
  "plain_answer response \<longleftrightarrow> NewMonitoring response = None \<and> TelemetryAck response = None"

text \<open>
  Every heartbeat carries the whole count of losses at its time, and every entry that is answered
  takes its own report off the counter: two entries that report the same losses take them off twice.
\<close>

lemma answered_report_acknowledged:
  assumes "settle_entry env e response a = (Inr (), b)" and "agent_ok a" and "plain_answer response" and "Sequence e \<noteq> 0"
  shows "Lost (abs_queue (Buffer b)) = acknowledged (reported_dropped env (Body e)) (Lost (abs_queue (Buffer a)))"
proof -
  have ok: "queue_ok (Buffer a)" using assms(2) by (simp add: agent_ok_def)
  obtain r q where q: "remove (Sequence e) (Buffer a) = (r, q)" by (metis surj_pair)
  note rm = remove_ok [OF q ok assms(4)]
  obtain r' q' where q': "acknowledge_dropped (reported_dropped env (Body e)) q = (r', q')" by (metis surj_pair)
  have "acknowledged 0 n = n" for n by (simp add: acknowledged_def)
  then show ?thesis
    using assms(1,3) q q' rm acknowledge_ok [OF q']
    by (cases r; cases "reported_dropped env (Body e) > 0")
      (auto simp: settle_entry_def take_monitoring_def apply_ack_def plain_answer_def return_io_def bind_io_def on_buffer_def
        word_gt_0)
qed

lemma losses_taken_off_twice:
  assumes "settle_entry env e1 x1 a = (Inr (), b)" and "settle_entry env e2 x2 b = (Inr (), c)" and "agent_ok a" and "agent_ok b"
    and "plain_answer x1" and "plain_answer x2" and "Sequence e1 \<noteq> 0" and "Sequence e2 \<noteq> 0"
    and "reported_dropped env (Body e1) = n" and "reported_dropped env (Body e2) = n"
  shows "unat (Lost (abs_queue (Buffer c))) = unat (Lost (abs_queue (Buffer a))) - 2 * unat n"
  using answered_report_acknowledged [OF assms(1,3,5,7)] answered_report_acknowledged [OF assms(2,4,6,8)] assms(9,10)
  by (simp add: acknowledged_unat)

end
