(* ===== verification/Transport_Correct.thy ===== *)
theory Transport_Correct
  imports Transport_Sample
begin

text \<open>
  What the client of the hub promises: what is signed determines the request, an answer is accepted
  only after every check, and the digests of the schema bundle agree with each other.
\<close>

section \<open>The signed text\<close>

lemma padded_digits: "\<forall>c \<in> set (padded k n). is_digit c"
  by (auto simp: padded_def pad_zeros_def is_digit_def dest: show_nat_digits)

lemma fraction_chars: "\<forall>c \<in> set (fraction_text n). is_digit c \<or> c = CHR ''.''"
proof -
  have "set (trim_zeros (pad_zeros 9 (show_nat n))) \<subseteq> set (padded 9 n)"
    by (auto simp: trim_zeros_def padded_def dest: set_dropWhileD)
  then show ?thesis using padded_digits [of 9 n] by (auto simp: fraction_text_def)
qed

lemma show_time_no_newline: "CHR 10 \<notin> set (show_time t)"
proof -
  have d: "\<not> is_digit (CHR 10)" by (simp add: is_digit_def)
  have "CHR 10 \<notin> set (padded k n)" "CHR 10 \<notin> set (fraction_text n)" for k n
    using padded_digits [of k n] fraction_chars [of n] d by auto
  then show ?thesis by (simp add: show_time_def Let_def split: prod.split)
qed

lemma show_u64_plain: "c \<in> set (show_u64 n) \<Longrightarrow> is_digit c"
  by (auto simp: show_u64_def dest: show_nat_digits)

lemma host_type_plain: "validate_host_ref h = Inr () \<Longrightarrow> CHR ''/'' \<notin> set (HostType h) \<and> CHR 10 \<notin> set (HostType h)"
  by (auto simp: validate_host_ref_def checks_ok)

definition plain_action :: "string \<Rightarrow> bool" where
  "plain_action action \<longleftrightarrow> action \<in> {''activate'', ''heartbeats'', ''hardware-snapshots''}"

lemma host_path_parts:
  "host_path h action = join_with (CHR ''/'') [[], ''api'', ''agent'', ''hosts'', HostType h, show_u64 (HostID h), action]"
  by (simp add: host_path_def)

lemma host_path_inj:
  assumes "validate_host_ref h = Inr ()" and "validate_host_ref h' = Inr ()" and "plain_action x" and "plain_action y"
    and "host_path h x = host_path h' y"
  shows "h = h' \<and> x = y"
proof -
  have no: "CHR ''/'' \<notin> set (show_u64 n)" for n
    using show_u64_plain [of "CHR ''/''" n] by (auto simp: is_digit_def)
  have split: "split_on (CHR ''/'') (host_path g z) = [[], ''api'', ''agent'', ''hosts'', HostType g, show_u64 (HostID g), z]"
    if "validate_host_ref g = Inr ()" "plain_action z" for g z
    unfolding host_path_parts using host_type_plain [OF that(1)] that(2) no
    by (intro split_on_join) (auto simp: plain_action_def)
  have "HostType h = HostType h'" "HostID h = HostID h'" "x = y"
    using split [OF assms(1,3)] split [OF assms(2,4)] assms(5) by (simp_all add: show_u64_inj)
  then show ?thesis by simp
qed

lemma host_path_no_newline: "validate_host_ref h = Inr () \<Longrightarrow> plain_action x \<Longrightarrow> CHR 10 \<notin> set (host_path h x)"
  using host_type_plain [of h] show_u64_plain [of "CHR 10" "HostID h"]
  by (auto simp: host_path_def plain_action_def is_digit_def)

lemma upper_not_newline:
  assumes "97 \<le> (of_char c :: nat)" and "(of_char c :: nat) \<le> 122"
  shows "(char_of ((of_char c :: nat) - 32) :: char) \<noteq> CHR 10"
proof
  assume "(char_of ((of_char c :: nat) - 32) :: char) = CHR 10"
  then have "of_char (char_of ((of_char c :: nat) - 32) :: char) = (of_char (CHR 10) :: nat)" by (rule arg_cong)
  with assms show False by simp
qed

lemma to_upper_no_newline: "CHR 10 \<notin> set s \<Longrightarrow> CHR 10 \<notin> set (to_upper s)"
  using upper_not_newline by (fastforce simp: to_upper_def split: if_splits)

lemma canonical_request_inj:
  assumes "canonical_request verb path time n digest = canonical_request verb' path' time' n' digest'"
    and "\<forall>x \<in> set [verb, path, time, digest, verb', path', time', digest']. CHR 10 \<notin> set x"
  shows "to_upper verb = to_upper verb' \<and> path = path' \<and> time = time' \<and> n = n' \<and> digest = digest'"
proof -
  have num: "CHR 10 \<notin> set (show_u64 m)" for m using show_u64_plain [of "CHR 10" m] by (auto simp: is_digit_def)
  have split: "split_on (CHR 10) (canonical_request v p t m d) = [signature_prefix, to_upper v, p, t, show_u64 m, d]"
    if "CHR 10 \<notin> set v" "CHR 10 \<notin> set p" "CHR 10 \<notin> set t" "CHR 10 \<notin> set d" for v p t m d
    unfolding canonical_request_def using that to_upper_no_newline [of v] num by (intro split_on_join) (auto simp: signature_prefix_def)
  have "split_on (CHR 10) (canonical_request verb path time n digest) = [signature_prefix, to_upper verb, path, time, show_u64 n, digest]"
    "split_on (CHR 10) (canonical_request verb' path' time' n' digest') = [signature_prefix, to_upper verb', path', time', show_u64 n', digest']"
    using assms(2) by (intro split; simp)+
  with assms(1) show ?thesis by (simp add: show_u64_inj)
qed

text \<open>
  C17: the signed text determines the request: two requests of the client to valid hosts have the
  same text to sign only if they go to the same host for the same action, were made at the same
  instant, carry the same sequence number and a body of the same digest.
\<close>

theorem signed_text_unambiguous:
  assumes "validate_host_ref h = Inr ()" and "validate_host_ref h' = Inr ()" and "plain_action x" and "plain_action x'"
    and "time_in_range t" and "time_in_range t'" and "CHR 10 \<notin> set (Sha c body)" and "CHR 10 \<notin> set (Sha c body')"
  shows "canonical_request ''POST'' (host_path h x) (show_time t) n (Sha c body) =
      canonical_request ''POST'' (host_path h' x') (show_time t') n' (Sha c body') \<longleftrightarrow>
    h = h' \<and> x = x' \<and> t = t' \<and> n = n' \<and> Sha c body = Sha c body'"
proof
  assume e: "canonical_request ''POST'' (host_path h x) (show_time t) n (Sha c body) =
      canonical_request ''POST'' (host_path h' x') (show_time t') n' (Sha c body')"
  have "\<forall>z \<in> set [''POST'', host_path h x, show_time t, Sha c body, ''POST'', host_path h' x', show_time t', Sha c body'].
      CHR 10 \<notin> set z"
    using assms(7,8) host_path_no_newline [OF assms(1,3)] host_path_no_newline [OF assms(2,4)]
      show_time_no_newline [of t] show_time_no_newline [of t'] by simp
  note parts = canonical_request_inj [OF e this]
  have "h = h' \<and> x = x'" by (rule host_path_inj [OF assms(1-4)]) (rule parts [THEN conjunct2, THEN conjunct1])
  moreover have "Some t = Some t'"
    unfolding parse_show_time [OF assms(5), symmetric] parse_show_time [OF assms(6), symmetric] using parts by argo
  ultimately show "h = h' \<and> x = x' \<and> t = t' \<and> n = n' \<and> Sha c body = Sha c body'" using parts by blast
qed simp

lemma signed_text_unambiguous_witness:
  "canonical_request ''POST'' (host_path \<lparr>HostType = ''nas'', HostID = 1\<rparr> ''heartbeats'') (show_time 1) 4 (id ''ab'') \<noteq>
   canonical_request ''POST'' (host_path \<lparr>HostType = ''nas'', HostID = 1\<rparr> ''hardware-snapshots'') (show_time 1) 4 (id ''ab'')"
proof -
  have "validate_host_ref \<lparr>HostType = ''nas'', HostID = 1\<rparr> = Inr ()" "time_in_range 1" by code_simp+
  from signed_text_unambiguous [OF this(1) this(1) _ _ this(2) this(2),
      of "''heartbeats''" "''hardware-snapshots''" "\<lparr>ClientEndpoint = [], Server = (\<lambda>r w. (Inl IoFault, w)),
        Clock = (\<lambda>w. (0, w)), Sha = id, Sign = (\<lambda>k b. b), SchemaDigest = Inl IoFault\<rparr> :: unit client" "''ab''" "''ab''" 4 4]
  show ?thesis by (simp add: plain_action_def)
qed

section \<open>Accepted answers\<close>

definition heartbeat_request :: "'w client \<Rightarrow> host_ref \<Rightarrow> u64 \<Rightarrow> bytes \<Rightarrow> u64 \<Rightarrow> bytes \<Rightarrow> time \<Rightarrow> http_request" where
  "heartbeat_request c host device key n body now =
     \<lparr>Method = ''POST'', Url = ClientEndpoint c @ host_path host ''heartbeats'',
      Headers = signed_headers c (host_path host ''heartbeats'') ''application/json'' ''gzip'' device key n body (show_time now),
      Content = body\<rparr>"

lemma read_response_Inr:
  "read_response r = Inr b \<Longrightarrow> RespBody r = Inr b \<and> length b \<le> max_response_bytes \<and> success_status r"
  by (auto simp: read_response_def read_limited_def bind_result_Inr_iff split: if_splits)

lemma send_signed_Inr:
  assumes "send_signed c path ct enc device key n body w = (Inr b, w')"
  shows "device \<noteq> 0 \<and> n \<noteq> 0 \<and> length key = private_key_size \<and> body \<noteq> [] \<and>
    (\<exists>now w1 reply. Clock c w = (now, w1) \<and>
       Server c \<lparr>Method = ''POST'', Url = route c path, Headers = signed_headers c path ct enc device key n body (show_time now),
         Content = body\<rparr> w1 = (Inr reply, w') \<and> read_response reply = Inr b)"
proof -
  have ok: "\<not> (device = 0 \<or> n = 0 \<or> length key \<noteq> private_key_size \<or> body = [])"
    using assms by (auto simp: send_signed_def split: if_splits)
  obtain now w1 where t: "Clock c w = (now, w1)" by (metis surj_pair)
  obtain r w2 where s: "Server c \<lparr>Method = ''POST'', Url = route c path,
      Headers = signed_headers c path ct enc device key n body (show_time now), Content = body\<rparr> w1 = (r, w2)" by (metis surj_pair)
  from assms ok t s obtain reply where "r = Inr reply" "w2 = w'" "read_response reply = Inr b"
    by (cases r) (simp_all add: send_signed_def)
  with ok t s show ?thesis by auto
qed

text \<open>
  C16: an answer to a heartbeat is accepted only when the host, the identity and the body were fit to
  be sent, the request of exactly this heartbeat went out with its signature, and the hub answered
  with a success status and at most one megabyte, an \<open>ok\<close>, the heartbeat's own sequence number and, if
  any, a valid monitoring configuration.
\<close>

theorem accepted_answer_checked:
  assumes "send_heartbeat c host device key n body w = (Inr response, w')"
  shows "validate_host_ref host = Inr () \<and> device \<noteq> 0 \<and> n \<noteq> 0 \<and> length key = private_key_size \<and> body \<noteq> [] \<and>
    ResponseOK response \<and> ResponseSequence response = n \<and>
    (\<forall>m. NewMonitoring response = Some m \<longrightarrow> validate_monitoring_config m = Inr ()) \<and>
    (\<exists>now w1 reply b. Clock c w = (now, w1) \<and> Server c (heartbeat_request c host device key n body now) w1 = (Inr reply, w') \<and>
       success_status reply \<and> RespBody reply = Inr b \<and> length b \<le> max_response_bytes \<and> check_response n b = Inr response)"
proof -
  obtain b w2 where v: "validate_host_ref host = Inr ()"
    and s: "send_signed c (host_path host ''heartbeats'') ''application/json'' ''gzip'' device key n body w = (Inr b, w2)"
    and r: "check_response n b = Inr response" "w2 = w'"
    using assms by (auto simp: send_heartbeat_def elim!: bind_io_InrE)
  have checked: "ResponseOK response \<and> ResponseSequence response = n \<and>
      (\<forall>m. NewMonitoring response = Some m \<longrightarrow> validate_monitoring_config m = Inr ())"
    using r(1) by (auto simp: check_response_def bind_result_Inr_iff split: option.splits if_splits)
  note sent = send_signed_Inr [OF s]
  obtain now w1 reply where "Clock c w = (now, w1)" "Server c (heartbeat_request c host device key n body now) w1 = (Inr reply, w')"
    "read_response reply = Inr b"
    using sent r(2) by (auto simp: heartbeat_request_def route_def)
  with read_response_Inr [of reply b] v sent checked r(1) show ?thesis by blast
qed

lemma accepted_answer_checked_witness:
  "\<exists>response. send_heartbeat sample_client sample_host 7 (replicate 64 (CHR ''k'')) 3 ''x'' () = (Inr response, ()) \<and>
     ResponseSequence response = 3"
proof -
  have "send_heartbeat sample_client sample_host 7 (replicate 64 (CHR ''k'')) 3 ''x'' () = (Inr (acknowledgement 3), ())"
    by (rule sample_sends) (simp_all add: private_key_size_def)
  from accepted_answer_checked [OF this] this show ?thesis by blast
qed

section \<open>The schema bundle\<close>

definition no_zero :: "(string \<times> bytes) list \<Rightarrow> bool" where
  "no_zero schemas \<longleftrightarrow> (\<forall>(name, content) \<in> set schemas. CHR 0x00 \<notin> set name \<and> CHR 0x00 \<notin> set content)"

fun pair_up :: "string list \<Rightarrow> (string \<times> string) list" where
  "pair_up (a # b # xs) = (a, b) # pair_up xs"
| "pair_up xs = []"

lemma pair_up_split:
  "no_zero ss \<Longrightarrow> pair_up (split_on (CHR 0x00) (concat (map (\<lambda>(name, content). name @ [CHR 0x00] @ content @ [CHR 0x00]) ss))) = ss"
  by (induction ss) (auto simp: no_zero_def split_on_append)

text \<open>
  C39: the bytes hashed for the bundle digest determine the schemas (names and contents hold no zero
  byte), in whatever order the files are listed; and the digests are ordered: what supports compact
  telemetry supports the monitoring policy, and what supports that is compatible.
\<close>

theorem bundle_digest_faithful:
  "(no_zero ss \<and> no_zero ss' \<longrightarrow> (bundle_bytes ss = bundle_bytes ss' \<longleftrightarrow> sort_key fst ss = sort_key fst ss')) \<and>
   (distinct (map fst ss) \<and> mset ss = mset ss' \<longrightarrow> bundle_digest sha (Inr ss) = bundle_digest sha (Inr ss')) \<and>
   (supports_compact current d = Inr True \<longrightarrow> supports_monitoring current d = Inr True) \<and>
   (supports_monitoring current d = Inr True \<longrightarrow> compatible_digest current d = Inr True) \<and>
   (compatible_digest (Inr x) x = Inr True \<and> supports_compact (Inr x) x = Inr True)"
proof (intro conjI impI)
  assume z: "no_zero ss \<and> no_zero ss'"
  have "no_zero (sort_key fst ss)" "no_zero (sort_key fst ss')" using z by (simp_all add: no_zero_def)
  from pair_up_split [OF this(1)] pair_up_split [OF this(2)]
  show "bundle_bytes ss = bundle_bytes ss' \<longleftrightarrow> sort_key fst ss = sort_key fst ss'" unfolding bundle_bytes_def by metis
next
  assume a: "distinct (map fst ss) \<and> mset ss = mset ss'"
  then have "mset (map fst ss) = mset (map fst ss')" by simp
  then have "distinct (map fst ss')" using a mset_eq_imp_distinct_iff by blast
  then have "sort_key fst ss = sort_key fst ss'"
    using a by (intro sort_key_distinct_set) (auto dest: mset_eq_setD)
  then show "bundle_digest sha (Inr ss) = bundle_digest sha (Inr ss')" by (simp add: bundle_digest_def bundle_bytes_def)
qed (auto simp: supports_compact_def supports_monitoring_def compatible_digest_def bind_result_Inr_iff)

lemma bundle_digest_faithful_witness:
  "bundle_digest (\<lambda>t. t) (Inr [(''b'', ''2''), (''a'', ''1'')]) =
   bundle_digest (\<lambda>t. t) (Inr [(''a'', ''1''), (''b'', ''2'')])"
  using bundle_digest_faithful [of "[(''b'', ''2''), (''a'', ''1'')]" "[(''a'', ''1''), (''b'', ''2'')]"
    "\<lambda>t. t" "Inl IoFault" "[]" "[]"]
  by simp

end
