(* ===== verification/Telemetry_Correct.thy ===== *)
theory Telemetry_Correct
  imports Telemetry_Delta
begin

text \<open>
  Compact telemetry as replication: the hub keeps, per family, the values by key and applies the
  deltas it receives. When no delta is lost its copy equals the agent's values after every
  heartbeat. The locale \<open>replication\<close> carries the step to whole runs.
\<close>

section \<open>Replication\<close>

fun replay :: "('i \<Rightarrow> 's \<Rightarrow> 'o \<times> 's) \<Rightarrow> ('o \<Rightarrow> 'm \<Rightarrow> 'm) \<Rightarrow> 'i list \<Rightarrow> 's \<Rightarrow> 'm \<Rightarrow> 's \<times> 'm" where
  "replay send absorb [] s m = (s, m)"
| "replay send absorb (i # is) s m = (case send i s of (out, t) \<Rightarrow> replay send absorb is t (absorb out m))"

locale replication =
  fixes related :: "'s \<Rightarrow> 'm \<Rightarrow> bool" and legal :: "'i \<Rightarrow> bool" and send :: "'i \<Rightarrow> 's \<Rightarrow> 'o \<times> 's"
    and absorb :: "'o \<Rightarrow> 'm \<Rightarrow> 'm" and view :: "'i \<Rightarrow> 'm"
  assumes absorbs: "related s m \<Longrightarrow> legal i \<Longrightarrow> absorb (fst (send i s)) m = view i"
    and relates: "related s m \<Longrightarrow> legal i \<Longrightarrow> related (snd (send i s)) (view i)"
begin

lemma replay_related:
  "related s m \<Longrightarrow> \<forall>i \<in> set is. legal i \<Longrightarrow> related (fst (replay send absorb is s m)) (snd (replay send absorb is s m))"
proof (induction "is" arbitrary: s m)
  case (Cons i "is")
  then show ?case using absorbs [of s m i] relates [of s m i] by (cases "send i s") auto
qed simp

lemma replay_view:
  "related s m \<Longrightarrow> \<forall>i \<in> set is. legal i \<Longrightarrow> is \<noteq> [] \<Longrightarrow> snd (replay send absorb is s m) = view (last is)"
proof (induction "is" arbitrary: s m)
  case (Cons i "is")
  then show ?case using absorbs [of s m i] relates [of s m i]
    by (cases "is = []"; cases "send i s") auto
qed simp

end

section \<open>Digests\<close>

definition digest_of :: "('a \<Rightarrow> string result) \<Rightarrow> 'a \<Rightarrow> string" where
  "digest_of h v = (case h v of Inl e \<Rightarrow> [] | Inr d \<Rightarrow> d)"

text \<open>What the code relies on: the values in play have digests, none is empty and no two share one.\<close>

definition collision_free :: "('a \<Rightarrow> string result) \<Rightarrow> 'a set \<Rightarrow> bool" where
  "collision_free h U \<longleftrightarrow> inj_on (digest_of h) U \<and> (\<forall>v \<in> U. \<exists>d. h v = Inr d \<and> d \<noteq> [])"

lemma collision_freeD:
  assumes "collision_free h U" and "v \<in> U"
  shows "h v = Inr (digest_of h v)" and "digest_of h v \<noteq> []"
  using assms by (auto simp: collision_free_def digest_of_def)

section \<open>The loop over the values\<close>

lemma hash_values_Inr:
  assumes "\<forall>(k, v) \<in> set es. h v = Inr (digest_of h v)"
  shows "hash_values h prev es hs ch =
    Inr (fold (\<lambda>(k, v). AList.update k (digest_of h v)) es hs,
         ch @ map snd (filter (\<lambda>(k, v). hash_of prev k \<noteq> digest_of h v) es))"
  using assms by (induction h prev es hs ch rule: hash_values.induct) auto

lemma hash_values_Inr_iff:
  "(\<exists>r. hash_values h prev es hs ch = Inr r) \<longleftrightarrow> (\<forall>(k, v) \<in> set es. h v = Inr (digest_of h v))"
proof
  show "\<exists>r. hash_values h prev es hs ch = Inr r \<Longrightarrow> \<forall>(k, v) \<in> set es. h v = Inr (digest_of h v)"
    by (induction h prev es hs ch rule: hash_values.induct) (auto simp: digest_of_def split: sum.splits)
qed (simp add: hash_values_Inr)

lemma map_of_fold_update:
  "map_of (fold (\<lambda>(k, v). AList.update k (f v)) es hs) = map_of hs ++ (map_option f \<circ> map_of (rev es))"
proof (induction es arbitrary: hs)
  case (Cons e es)
  obtain k v where e: "e = (k, v)" by (cases e)
  show ?case unfolding e using Cons [of "AList.update k (f v) hs"]
    by (auto simp: fun_eq_iff update_conv' map_add_def split: option.splits)
qed (simp add: fun_eq_iff map_add_def)

lemma map_of_rev_distinct: "distinct (map fst es) \<Longrightarrow> map_of (rev es) = map_of es"
  by (intro map_of_inject_set [THEN iffD2]) (simp_all add: rev_map [symmetric])

lemma hashes_of:
  "distinct (map fst es) \<Longrightarrow>
   map_of (fold (\<lambda>(k, v). AList.update k (f v)) es []) = map_option f \<circ> map_of es"
  by (simp add: map_of_fold_update map_of_rev_distinct fun_eq_iff)

section \<open>The hub's copy\<close>

definition apply_family :: "('a \<Rightarrow> string) \<Rightarrow> 'a state_family \<Rightarrow> (string \<Rightarrow> 'a option) \<Rightarrow> string \<Rightarrow> 'a option" where
  "apply_family key f m =
     (if Full f then Map.empty
      else m |` (- set (case Removed f of None \<Rightarrow> [] | Some ks \<Rightarrow> ks)))
     ++ map_of (rev (map (\<lambda>v. (key v, v)) (Changed f)))"

definition absorb_delta :: "('a \<Rightarrow> string) \<Rightarrow> 'a state_family option result \<Rightarrow> (string \<Rightarrow> 'a option) \<Rightarrow> string \<Rightarrow> 'a option" where
  "absorb_delta key out m = (case out of Inr (Some f) \<Rightarrow> apply_family key f m | _ \<Rightarrow> m)"

definition in_sync :: "('a \<Rightarrow> string result) \<Rightarrow> family_sync \<Rightarrow> (string \<Rightarrow> 'a option) \<Rightarrow> bool" where
  "in_sync h fs m \<longleftrightarrow> map_of (Hashes fs) = map_option (digest_of h) \<circ> m"

definition keyed_list :: "('a \<Rightarrow> string) \<Rightarrow> (string \<times> 'a) list \<Rightarrow> bool" where
  "keyed_list key es \<longleftrightarrow> distinct (map fst es) \<and> (\<forall>(k, v) \<in> set es. key v = k)"

lemma keyed_map_of:
  assumes "keyed_list key es"
  shows "map_of (rev (map (\<lambda>v. (key v, v)) (map snd (filter P es)))) = map_of (filter P es)"
proof -
  have "map (\<lambda>v. (key v, v)) (map snd (filter P es)) = filter P es"
    using assms by (induction es) (auto simp: keyed_list_def)
  moreover have "distinct (map fst (filter P es))" using assms by (simp add: keyed_list_def distinct_map_filter)
  ultimately show ?thesis by (simp add: map_of_rev_distinct)
qed

lemma map_of_filter_distinct:
  "distinct (map fst es) \<Longrightarrow> map_of (filter (\<lambda>(k, v). P k v) es) k =
     (case map_of es k of None \<Rightarrow> None | Some v \<Rightarrow> if P k v then Some v else None)"
  by (induction es) (auto simp: map_of_eq_None_iff rev_image_eqI split: option.splits)

section \<open>One delta\<close>

lemma delta_family_Inr:
  fixes prev :: family_sync
  assumes "\<forall>(k, v) \<in> set es. h v = Inr (digest_of h v)"
  defines "hashes \<equiv> fold (\<lambda>(k, v). AList.update k (digest_of h v)) es []"
    and "changed \<equiv> map snd (filter (\<lambda>(k, v). hash_of prev k \<noteq> digest_of h v) es)"
  shows "delta_family h prev es now =
    (let removed = removed_keys prev hashes; full = needs_full prev now in
     if \<not> full \<and> changed = [] \<and> removed = []
     then (Inr None, prev\<lparr>Hashes := hashes\<rparr>)
     else (Inr (Some \<lparr>FamilyRevision = SyncRevision prev + 1, Full = full,
                 Changed = (if full then map snd es else changed), Removed = Some removed\<rparr>),
           \<lparr>SyncRevision = SyncRevision prev + 1, Hashes = hashes,
            LastFullAt = (if full then now else LastFullAt prev)\<rparr>))"
  using hash_values_Inr [OF assms(1), of prev "[]" "[]"]
  by (cases prev) (simp add: delta_family_def hashes_def changed_def Let_def)

lemma delta_family_error:
  "\<not> (\<forall>(k, v) \<in> set es. h v = Inr (digest_of h v)) \<Longrightarrow>
   \<exists>e. delta_family h prev es now = (Inl e, prev)"
  using hash_values_Inr_iff [of h prev es "[]" "[]"]
  by (cases "hash_values h prev es [] []") (auto simp: delta_family_def)

lemma hash_of_sync: "in_sync h fs m \<Longrightarrow> hash_of fs k = (case m k of None \<Rightarrow> [] | Some v \<Rightarrow> digest_of h v)"
  by (simp add: hash_of_def in_sync_def split: option.split)

lemma removed_keys_set: "set (removed_keys prev hashes) = {k. map_of (Hashes prev) k \<noteq> None \<and> map_of hashes k = None}"
  by (auto simp: removed_keys_def map_of_eq_None_iff)

text \<open>The heart of the argument: applying a partial delta to a copy in step gives the new values.\<close>

lemma apply_partial:
  assumes "in_sync h prev m" and "keyed_list key es" and "collision_free h U" and "ran m \<subseteq> U"
    and "snd ` set es \<subseteq> U"
  shows "(m |` (- {k. map_of (Hashes prev) k \<noteq> None \<and> map_of es k = None}))
      ++ map_of (filter (\<lambda>(k, v). hash_of prev k \<noteq> digest_of h v) es) = map_of es"
proof
  fix k
  have dis: "distinct (map fst es)" using assms(2) by (simp add: keyed_list_def)
  have hs: "map_of (Hashes prev) k = map_option (digest_of h) (m k)" using assms(1) by (simp add: in_sync_def)
  show "((m |` (- {k. map_of (Hashes prev) k \<noteq> None \<and> map_of es k = None}))
      ++ map_of (filter (\<lambda>(k, v). hash_of prev k \<noteq> digest_of h v) es)) k = map_of es k"
  proof (cases "map_of es k")
    case None
    then show ?thesis using hs by (simp add: map_add_def map_of_filter_distinct [OF dis] restrict_map_def)
  next
    case (Some v)
    then have v: "v \<in> U" using assms(5) by (force dest: map_of_SomeD)
    show ?thesis
    proof (cases "hash_of prev k = digest_of h v")
      case False
      then show ?thesis using Some by (simp add: map_add_def map_of_filter_distinct [OF dis])
    next
      case True
      have "digest_of h v \<noteq> []" using collision_freeD(2) [OF assms(3) v] .
      then obtain w where w: "m k = Some w" "digest_of h w = digest_of h v"
        using True hash_of_sync [OF assms(1), of k] by (cases "m k") auto
      then have "w \<in> U" using assms(4) by (auto simp: ran_def)
      then have "w = v" using assms(3) v w(2) by (auto simp: collision_free_def inj_on_def)
      then show ?thesis using Some True w(1)
        by (simp add: map_add_def map_of_filter_distinct [OF dis] restrict_map_def)
    qed
  qed
qed

lemma delta_family_sync:
  assumes "keyed_list key es" and "collision_free h U" and "snd ` set es \<subseteq> U" and "ran m \<subseteq> U"
    and "needs_full prev now \<or> in_sync h prev m"
  shows "absorb_delta key (fst (delta_family h prev es now)) m = map_of es"
    and "in_sync h (snd (delta_family h prev es now)) (map_of es)"
proof -
  have ok: "\<forall>(k, v) \<in> set es. h v = Inr (digest_of h v)"
    using collision_freeD(1) [OF assms(2)] assms(3) by force
  have dis: "distinct (map fst es)" using assms(1) by (simp add: keyed_list_def)
  let ?hs = "fold (\<lambda>(k, v). AList.update k (digest_of h v)) es []"
  let ?ch = "filter (\<lambda>(k, v). hash_of prev k \<noteq> digest_of h v) es"
  have hs: "map_of ?hs = map_option (digest_of h) \<circ> map_of es" by (rule hashes_of [OF dis])
  note d = delta_family_Inr [OF ok, of prev now, unfolded Let_def]
  show "in_sync h (snd (delta_family h prev es now)) (map_of es)"
    by (simp add: d in_sync_def hs)
  have rm: "set (removed_keys prev ?hs) = {k. map_of (Hashes prev) k \<noteq> None \<and> map_of es k = None}"
    by (simp add: removed_keys_set hs)
  show "absorb_delta key (fst (delta_family h prev es now)) m = map_of es"
  proof (cases "needs_full prev now")
    case True
    have "map_of (rev (map (\<lambda>v. (key v, v)) (map snd es))) = map_of es"
      using keyed_map_of [OF assms(1), of "\<lambda>_. True"] by simp
    then show ?thesis using True by (simp add: d absorb_delta_def apply_family_def)
  next
    case False
    then have "in_sync h prev m" using assms(5) by blast
    note ap = apply_partial [OF this assms(1,2,4,3)]
    show ?thesis
    proof (cases "map snd ?ch = [] \<and> removed_keys prev ?hs = []")
      case True
      then have "?ch = []" and e: "{k. map_of (Hashes prev) k \<noteq> None \<and> map_of es k = None} = {}"
        using rm by auto
      then have "m = map_of es" using ap unfolding e by (simp add: restrict_map_def)
      then show ?thesis using True False by (simp add: d absorb_delta_def)
    next
      case some: False
      show ?thesis using some False ap keyed_map_of [OF assms(1), of "\<lambda>(k, v). hash_of prev k \<noteq> digest_of h v"]
        by (auto simp: d absorb_delta_def apply_family_def rm)
    qed
  qed
qed

section \<open>Runs of deltas\<close>

definition family_related :: "('a \<Rightarrow> string result) \<Rightarrow> 'a set \<Rightarrow> family_sync \<Rightarrow> (string \<Rightarrow> 'a option) \<Rightarrow> bool" where
  "family_related h U fs m \<longleftrightarrow> collision_free h U \<and> ran m \<subseteq> U \<and> (SyncRevision fs = 0 \<or> in_sync h fs m)"

definition family_legal :: "('a \<Rightarrow> string) \<Rightarrow> 'a set \<Rightarrow> (string \<times> 'a) list \<times> time \<Rightarrow> bool" where
  "family_legal key U i \<longleftrightarrow> keyed_list key (fst i) \<and> snd ` set (fst i) \<subseteq> U"

definition send_delta :: "('a \<Rightarrow> string result) \<Rightarrow> (string \<times> 'a) list \<times> time \<Rightarrow> family_sync \<Rightarrow>
    'a state_family option result \<times> family_sync" where
  "send_delta h i fs = delta_family h fs (fst i) (snd i)"

lemma family_step:
  assumes "family_related h U fs m" and "family_legal key U i"
  shows "absorb_delta key (fst (send_delta h i fs)) m = map_of (fst i)"
    and "family_related h U (snd (send_delta h i fs)) (map_of (fst i))"
proof -
  have c: "collision_free h U" "ran m \<subseteq> U" "keyed_list key (fst i)" "snd ` set (fst i) \<subseteq> U"
    using assms by (auto simp: family_related_def family_legal_def)
  have "needs_full fs (snd i) \<or> in_sync h fs m"
    using assms(1) by (auto simp: family_related_def needs_full_def)
  note s = delta_family_sync [OF c(3,1,4,2) this]
  then show "absorb_delta key (fst (send_delta h i fs)) m = map_of (fst i)" by (simp add: send_delta_def)
  have "ran (map_of (fst i)) \<subseteq> U" using c(4) by (force simp: ran_def dest: map_of_SomeD)
  then show "family_related h U (snd (send_delta h i fs)) (map_of (fst i))"
    using s(2) c(1) by (simp add: family_related_def send_delta_def)
qed

interpretation family_copy: replication "family_related h U" "family_legal key U" "send_delta h"
    "absorb_delta key" "\<lambda>i. map_of (fst i)" for h U key
  by unfold_locales (fact family_step)+

section \<open>Properties\<close>

text \<open>
  C11: the hub's copy follows: for every family, starting from a state without a revision or a
  copy in step, after any run of heartbeats whose deltas all arrive, whatever was added, changed
  or removed and however the six-hour full copies fall, the copy built from the deltas is exactly
  the last list of values (distinct keys, no two values sharing a digest).
\<close>

theorem deltas_replicate:
  assumes "family_related h U fs m" and "\<forall>i \<in> set is. family_legal key U i" and "is \<noteq> []"
  shows "snd (replay (send_delta h) (absorb_delta key) is fs m) = map_of (fst (last is))"
  using assms by (rule family_copy.replay_view)

lemma deltas_replicate_witness:
  "snd (replay (send_delta Inr) (absorb_delta (\<lambda>v. v))
     [([(''a'', ''a''), (''b'', ''b'')], 1), ([(''b'', ''b'')], 2)] zero_family Map.empty) = [''b'' \<mapsto> ''b'']"
proof -
  have "family_related Inr {''a'', ''b''} zero_family Map.empty"
    by (simp add: family_related_def collision_free_def digest_of_def zero_family_def)
  moreover have "\<forall>i \<in> set [([(''a'', ''a''), (''b'', ''b'')], 1), ([(''b'', ''b'')], 2)].
      family_legal (\<lambda>v. v) {''a'', ''b''} i"
    by (simp add: family_legal_def keyed_list_def)
  ultimately show ?thesis
    using deltas_replicate [of Inr "{''a'', ''b''}" zero_family Map.empty
        "[([(''a'', ''a''), (''b'', ''b'')], 1), ([(''b'', ''b'')], 2)]" "\<lambda>v. v"]
    by (simp only: list.distinct not_False_eq_True) simp
qed

text \<open>
  C32: what one delta says: if a digest fails, an error and the old state; otherwise, when no full
  copy is due, nothing is sent exactly if no value is new or changed and no key is gone, and then
  the revision stays. Something sent carries the next revision, all values if full and only those
  with a new digest if not, and the keys that are gone, in order and each once.
\<close>

theorem delta_content:
  assumes "distinct (map fst (Hashes prev))"
  shows "(\<not> (\<forall>(k, v) \<in> set es. h v = Inr (digest_of h v)) \<longrightarrow> (\<exists>e. delta_family h prev es now = (Inl e, prev))) \<and>
    ((\<forall>(k, v) \<in> set es. h v = Inr (digest_of h v)) \<longrightarrow>
     (let changed = map snd (filter (\<lambda>(k, v). hash_of prev k \<noteq> digest_of h v) es);
          gone = {k. map_of (Hashes prev) k \<noteq> None \<and> k \<notin> fst ` set es}
      in case delta_family h prev es now of
           (Inr None, next) \<Rightarrow> \<not> needs_full prev now \<and> changed = [] \<and> gone = {} \<and>
              SyncRevision next = SyncRevision prev \<and> LastFullAt next = LastFullAt prev
         | (Inr (Some f), next) \<Rightarrow> (needs_full prev now \<or> changed \<noteq> [] \<or> gone \<noteq> {}) \<and>
              SyncRevision next = SyncRevision prev + 1 \<and> FamilyRevision f = SyncRevision next \<and>
              Full f = needs_full prev now \<and> Changed f = (if Full f then map snd es else changed) \<and>
              (\<exists>ks. Removed f = Some ks \<and> set ks = gone \<and> sorted ks \<and> distinct ks) \<and>
              LastFullAt next = (if Full f then now else LastFullAt prev)
         | (Inl e, next) \<Rightarrow> False))"
proof (cases "\<forall>(k, v) \<in> set es. h v = Inr (digest_of h v)")
  case False
  then show ?thesis using delta_family_error [of es h prev now] by blast
next
  case ok: True
  let ?hs = "fold (\<lambda>(k, v). AList.update k (digest_of h v)) es []"
  have "map_of ?hs k = None \<longleftrightarrow> k \<notin> fst ` set es" for k
    by (simp add: map_of_fold_update map_of_eq_None_iff)
  then have rm: "set (removed_keys prev ?hs) = {k. map_of (Hashes prev) k \<noteq> None \<and> k \<notin> fst ` set es}"
    by (simp add: removed_keys_set)
  have rm0: "removed_keys prev ?hs = [] \<longleftrightarrow> {k. map_of (Hashes prev) k \<noteq> None \<and> k \<notin> fst ` set es} = {}"
    unfolding rm [symmetric] by simp
  have "sorted (removed_keys prev ?hs)" "distinct (removed_keys prev ?hs)"
    using assms by (simp_all add: removed_keys_def)
  then show ?thesis using ok rm rm0 by (simp add: delta_family_Inr [OF ok] Let_def)
qed

lemma delta_content_witness:
  "fst (delta_family Inr zero_family [(''a'', ''a'')] 5) \<noteq> Inr None"
  using delta_content [of zero_family "[(''a'', ''a'')]" Inr 5]
  by (auto simp: zero_family_def digest_of_def Let_def needs_full_def split: prod.splits)

text \<open>
  A delta is produced once: after a delta was computed its changes are gone from the state,
  so with the same values nothing is sent again until a full copy is due, whether or not the
  heartbeat that carried the delta was ever queued.
\<close>

theorem delta_sent_once:
  assumes "delta_family h prev es now = (Inr out, next)" and "distinct (map fst es)"
    and "\<not> needs_full next later"
  shows "fst (delta_family h next es later) = Inr None"
proof -
  have ok: "\<forall>(k, v) \<in> set es. h v = Inr (digest_of h v)"
    using delta_family_error [of es h prev now] assms(1) by fastforce
  let ?hs = "fold (\<lambda>(k, v). AList.update k (digest_of h v)) es []"
  have nh: "Hashes next = ?hs"
    using assms(1) by (auto simp: delta_family_Inr [OF ok] Let_def split: if_splits)
  have hs: "map_of ?hs = map_option (digest_of h) \<circ> map_of es" by (rule hashes_of [OF assms(2)])
  have "hash_of next k = digest_of h v" if "(k, v) \<in> set es" for k v
    using that assms(2) by (simp add: hash_of_def nh hs)
  then have ch: "filter (\<lambda>(k, v). hash_of next k \<noteq> digest_of h v) es = []"
    by (auto simp: filter_empty_conv)
  have "set (removed_keys next ?hs) = {}" unfolding removed_keys_set nh by blast
  then have "removed_keys next ?hs = []" by simp
  then show ?thesis using ch assms(3) by (simp add: delta_family_Inr [OF ok] Let_def)
qed

lemma delta_sent_once_witness:
  "fst (delta_family Inr (snd (delta_family Inr zero_family [(''a'', ''x'')] 5)) [(''a'', ''x'')] 6) = Inr None"
proof -
  have d: "delta_family Inr zero_family [(''a'', ''x'')] 5 =
     (Inr (Some \<lparr>FamilyRevision = 1, Full = True, Changed = [''x''], Removed = Some []\<rparr>),
      \<lparr>SyncRevision = 1, Hashes = [(''a'', ''x'')], LastFullAt = 5\<rparr>)"
    by (simp add: delta_family_def zero_family_def hash_of_def removed_keys_def needs_full_def)
  show ?thesis
    using delta_sent_once [OF d, of 6]
    by (simp add: d needs_full_def is_zero_def time_sub_def full_interval_def)
qed

end
