(* ===== verification/Update_Version.thy ===== *)
theory Update_Version
  imports Go_Numbers "HOL-Library.Product_Lexorder"
begin

text \<open>
  Version numbers of the native updater, \<open>internal/agentupdate/version.go\<close>: the parser and the
  comparison, and the precedence order of semantic versions it is measured against, as an
  instance of \<open>linorder\<close>.
\<close>

section \<open>Parsing\<close>

record version =
  major :: int
  minor :: int
  patch :: int
  pre :: "string list"

definition bad_version :: "'a result" where "bad_version = Inl (Msg ''version is invalid'')"

definition bad_core :: "string \<Rightarrow> bool" where
  "bad_core item \<longleftrightarrow> item = [] \<or> (length item > 1 \<and> hd item = CHR ''0'')"

fun parse_core :: "string list \<Rightarrow> int list result" where
  "parse_core [] = Inr []"
| "parse_core (item # rest) =
     (if bad_core item then bad_version
      else case atoi item of
        None \<Rightarrow> bad_version
      | Some n \<Rightarrow> (if n < 0 then bad_version else bind_result (parse_core rest) (\<lambda>ns. Inr (n # ns))))"

definition identifier_char :: "char \<Rightarrow> bool" where
  "identifier_char c \<longleftrightarrow> (let n = (of_char c :: nat) in
     c = CHR ''-'' \<or> 48 \<le> n \<and> n \<le> 57 \<or> 65 \<le> n \<and> n \<le> 90 \<or> 97 \<le> n \<and> n \<le> 122)"

definition parse_pre :: "string option \<Rightarrow> string list result" where
  "parse_pre text = (case text of
     None \<Rightarrow> Inr []
   | Some s \<Rightarrow>
       (if s = [] then bad_version
        else if \<exists>i \<in> set (split_on (CHR ''.'') s). i = [] \<or> (\<exists>c \<in> set i. \<not> identifier_char c) then bad_version
        else Inr (split_on (CHR ''.'') s)))"

definition parse_version :: "string \<Rightarrow> version result" where
  "parse_version input =
     (let value = trim_prefix (trim_space input) ''v'';
          core_and_pre = cut_at (CHR ''-'') (fst (cut_at (CHR ''+'') value));
          core = split_on (CHR ''.'') (fst core_and_pre)
      in if length core \<noteq> 3 then Inl (Msg ''version is not semantic version X.Y.Z'')
         else bind_result (parse_core core) (\<lambda>ns.
              bind_result (parse_pre (snd core_and_pre)) (\<lambda>ids.
              Inr \<lparr>major = ns ! 0, minor = ns ! 1, patch = ns ! 2, pre = ids\<rparr>)))"

section \<open>Comparing\<close>

text \<open>The loop over the common identifiers; \<^const>\<open>None\<close> when all are equal.\<close>

fun compare_identifiers :: "string list \<Rightarrow> string list \<Rightarrow> int option" where
  "compare_identifiers (left # ls) (right # rs) =
     (if left = right then compare_identifiers ls rs
      else case (atoi left, atoi right) of
        (Some m, Some n) \<Rightarrow> Some (if m < n then -1 else 1)
      | (Some m, None) \<Rightarrow> Some (-1)
      | (None, Some n) \<Rightarrow> Some 1
      | (None, None) \<Rightarrow> Some (if left < right then -1 else 1))"
| "compare_identifiers _ _ = None"

fun compare_numbers :: "(int \<times> int) list \<Rightarrow> int option" where
  "compare_numbers [] = None"
| "compare_numbers ((x, y) # ps) = (if x < y then Some (-1) else if x > y then Some 1 else compare_numbers ps)"

definition compare_parsed :: "version \<Rightarrow> version \<Rightarrow> int" where
  "compare_parsed a b =
     (case compare_numbers [(major a, major b), (minor a, minor b), (patch a, patch b)] of
        Some c \<Rightarrow> c
      | None \<Rightarrow>
          (if pre a = [] \<and> pre b = [] then 0
           else if pre a = [] then 1
           else if pre b = [] then -1
           else case compare_identifiers (pre a) (pre b) of
             Some c \<Rightarrow> c
           | None \<Rightarrow> (if length (pre a) < length (pre b) then -1
                      else if length (pre a) > length (pre b) then 1 else 0)))"

definition compare_versions :: "string \<Rightarrow> string \<Rightarrow> int result" where
  "compare_versions first second =
     bind_result (parse_version first) (\<lambda>a. bind_result (parse_version second) (\<lambda>b. Inr (compare_parsed a b)))"

section \<open>Precedence\<close>

text \<open>
  Semantic precedence: numeric identifiers below the others, a release above its pre-releases.
\<close>

datatype pre_identifier = Numeric int | Textual string

instantiation pre_identifier :: linorder
begin

fun less_eq_pre_identifier :: "pre_identifier \<Rightarrow> pre_identifier \<Rightarrow> bool" where
  "less_eq_pre_identifier (Numeric m) (Numeric n) \<longleftrightarrow> m \<le> n"
| "less_eq_pre_identifier (Numeric m) (Textual t) \<longleftrightarrow> True"
| "less_eq_pre_identifier (Textual s) (Numeric n) \<longleftrightarrow> False"
| "less_eq_pre_identifier (Textual s) (Textual t) \<longleftrightarrow> s \<le> t"

definition less_pre_identifier :: "pre_identifier \<Rightarrow> pre_identifier \<Rightarrow> bool" where
  "less_pre_identifier a b \<longleftrightarrow> a \<le> b \<and> \<not> b \<le> (a :: pre_identifier)"

instance
proof
  fix a b c :: pre_identifier
  show "a < b \<longleftrightarrow> a \<le> b \<and> \<not> b \<le> a" by (simp add: less_pre_identifier_def)
  show "a \<le> a" by (cases a) simp_all
  show "a \<le> b \<Longrightarrow> b \<le> c \<Longrightarrow> a \<le> c" by (cases a; cases b; cases c) auto
  show "a \<le> b \<Longrightarrow> b \<le> a \<Longrightarrow> a = b" by (cases a; cases b) auto
  show "a \<le> b \<or> b \<le> a" by (cases a; cases b) auto
qed

end

datatype stage = Before "pre_identifier list" | Release

instantiation stage :: linorder
begin

fun less_eq_stage :: "stage \<Rightarrow> stage \<Rightarrow> bool" where
  "less_eq_stage (Before xs) (Before ys) \<longleftrightarrow> xs \<le> ys"
| "less_eq_stage s Release \<longleftrightarrow> True"
| "less_eq_stage Release (Before ys) \<longleftrightarrow> False"

definition less_stage :: "stage \<Rightarrow> stage \<Rightarrow> bool" where
  "less_stage a b \<longleftrightarrow> a \<le> b \<and> \<not> b \<le> (a :: stage)"

instance
proof
  fix a b c :: stage
  show "a < b \<longleftrightarrow> a \<le> b \<and> \<not> b \<le> a" by (simp add: less_stage_def)
  show "a \<le> a" by (cases a) simp_all
  show "a \<le> b \<Longrightarrow> b \<le> c \<Longrightarrow> a \<le> c" by (cases a; cases b; cases c) auto
  show "a \<le> b \<Longrightarrow> b \<le> a \<Longrightarrow> a = b" by (cases a; cases b) auto
  show "a \<le> b \<or> b \<le> a" by (cases a; cases b) auto
qed

end

text \<open>
  What semantic versioning says of the identifiers of a pre-release, in its own terms: one of digits alone
  is a number, without leading zeros, and any other one is text.
\<close>

definition numeric_identifier :: "string \<Rightarrow> bool" where
  "numeric_identifier s \<longleftrightarrow> s \<noteq> [] \<and> (\<forall>c \<in> set s. is_digit c)"

definition decimal :: "string \<Rightarrow> int" where
  "decimal s = foldl (\<lambda>n c. 10 * n + int (digit_val c)) 0 s"

definition identifier_of :: "string \<Rightarrow> pre_identifier" where
  "identifier_of s = (if numeric_identifier s then Numeric (decimal s) else Textual s)"

definition stage_of :: "string list \<Rightarrow> stage" where
  "stage_of ids = (if ids = [] then Release else Before (map identifier_of ids))"

definition precedence :: "version \<Rightarrow> int \<times> int \<times> int \<times> stage" where
  "precedence v = (major v, minor v, patch v, stage_of (pre v))"

definition semantic_version :: "version \<Rightarrow> bool" where
  "semantic_version v \<longleftrightarrow> (\<forall>s \<in> set (pre v). numeric_identifier s \<and> length s > 1 \<longrightarrow> hd s \<noteq> CHR ''0'')"

text \<open>
  The identifiers the code does not read that way: numbers beyond the range of an \<open>int\<close>, which it takes for
  text, and a hyphen with digits behind it, which it takes for a negative number.
\<close>

definition misread_identifier :: "string \<Rightarrow> bool" where
  "misread_identifier s \<longleftrightarrow> (numeric_identifier s \<and> decimal s \<ge> 2 ^ 63) \<or>
     (s \<noteq> [] \<and> hd s = CHR ''-'' \<and> numeric_identifier (tl s))"

definition order_sign :: "'a :: linorder \<Rightarrow> 'a \<Rightarrow> int" where
  "order_sign a b = (if a < b then -1 else if a = b then 0 else 1)"

lemma dec_val_decimal: "dec_val a s = Some n \<Longrightarrow> foldl (\<lambda>n c. 10 * n + int (digit_val c)) (int a) s = int n"
  by (induction a s rule: dec_val.induct) (auto split: if_splits)

lemma decimal_dec_val:
  assumes "numeric_identifier s"
  obtains n where "dec_val 0 s = Some n" and "decimal s = int n"
  using assms dec_val_total [of s 0] dec_val_decimal [of 0 s] by (auto simp: numeric_identifier_def decimal_def)

lemma atoi_as_meant:
  assumes "\<not> misread_identifier s" and "s \<noteq> []" and "hd s \<noteq> CHR ''+''"
  shows "atoi s = (if numeric_identifier s then Some (decimal s) else None)"
proof (cases "numeric_identifier s")
  case True
  then obtain n where n: "dec_val 0 s = Some n" "decimal s = int n" by (rule decimal_dec_val)
  have "decimal s < 2 ^ 63" using assms(1) True by (simp add: misread_identifier_def not_le)
  moreover have "atoi s = (if n < 2 ^ 63 then Some (int n) else None)"
    using True n(1) atoi_digits [of s] by (simp add: numeric_identifier_def)
  moreover have "n < 2 ^ 63 \<longleftrightarrow> int n < 2 ^ 63" by (metis of_nat_less_iff of_nat_numeral of_nat_power)
  ultimately show ?thesis using True n(2) by simp
next
  case False
  have digits: "dec_val 0 t = None" if "t \<noteq> []" "\<not> numeric_identifier t" for t
    using that dec_val_digits [of 0 t] by (cases "dec_val 0 t") (auto simp: numeric_identifier_def)
  obtain c t where s: "s = c # t" using assms(2) by (cases s) auto
  have "t = [] \<or> dec_val 0 t = None" if "c = CHR ''-''"
    using that digits [of t] assms(1) s by (cases "t = []") (simp_all add: misread_identifier_def)
  then show ?thesis using False digits [of s] assms(2,3) s by (auto simp: atoi_def Let_def has_prefix_def)
qed

text \<open>The identifiers of a parsed version are not empty and begin with no plus sign.\<close>

definition plain_identifier :: "string \<Rightarrow> bool" where
  "plain_identifier s \<longleftrightarrow> s \<noteq> [] \<and> hd s \<noteq> CHR ''+'' \<and> \<not> misread_identifier s \<and>
     (numeric_identifier s \<and> length s > 1 \<longrightarrow> hd s \<noteq> CHR ''0'')"

lemma parse_pre_plain:
  assumes "parse_pre text = Inr ids" and "i \<in> set ids"
  shows "i \<noteq> [] \<and> hd i \<noteq> CHR ''+''"
proof -
  have i: "i \<noteq> []" "\<forall>c \<in> set i. identifier_char c"
    using assms by (auto simp: parse_pre_def bad_version_def split: option.splits if_split_asm)
  have "\<not> identifier_char (CHR ''+'')" by code_simp
  with i hd_in_set [of i] show ?thesis by metis
qed

lemma parsed_identifiers_plain:
  assumes "parse_version input = Inr v" and "semantic_version v" and "\<forall>s \<in> set (pre v). \<not> misread_identifier s"
  shows "\<forall>s \<in> set (pre v). plain_identifier s"
proof -
  obtain given where "parse_pre given = Inr (pre v)"
    using assms(1) by (auto simp: parse_version_def Let_def bind_result_Inr_iff split: if_split_asm)
  with parse_pre_plain assms(2,3) show ?thesis unfolding plain_identifier_def semantic_version_def by blast
qed

lemma atoi_plain: "plain_identifier s \<Longrightarrow> atoi s = (if numeric_identifier s then Some (decimal s) else None)"
  by (intro atoi_as_meant) (simp_all add: plain_identifier_def)

lemma plain_identifier_inj:
  assumes "plain_identifier s" and "plain_identifier t" and "identifier_of s = identifier_of t"
  shows "s = t"
proof (cases "numeric_identifier s")
  case True
  then have nt: "numeric_identifier t" "decimal s = decimal t"
    using assms(3) by (auto simp: identifier_of_def split: if_split_asm)
  obtain n where n: "dec_val 0 s = Some n" "decimal s = int n" using True by (rule decimal_dec_val)
  obtain m where m: "dec_val 0 t = Some m" "decimal t = int m" using nt(1) by (rule decimal_dec_val)
  have one: "x = show_nat k" if "dec_val 0 x = Some k" "plain_identifier x" "numeric_identifier x" for x k
  proof (rule dec_val_canonical [OF that(1)])
    show "x \<noteq> []" using that(2) by (simp add: plain_identifier_def)
    then show "length x = 1 \<or> hd x \<noteq> CHR ''0''" using that(2,3) by (cases x) (auto simp: plain_identifier_def)
  qed
  from one [OF n(1) assms(1) True] one [OF m(1) assms(2) nt(1)] n(2) m(2) nt(2) show ?thesis by simp
next
  case False
  then show ?thesis using assms(3) by (auto simp: identifier_of_def split: if_split_asm)
qed

lemma less_identifiers [simp]:
  "Numeric m < Numeric n \<longleftrightarrow> m < n" "Numeric m < Textual t" "\<not> Textual s < Numeric n"
  "Textual s < Textual t \<longleftrightarrow> s < t"
  by (auto simp: less_pre_identifier_def)

lemma less_stages [simp]:
  "Before xs < Before ys \<longleftrightarrow> xs < ys" "Before xs < Release" "\<not> Release < s"
  by (cases s; auto simp: less_stage_def)+

lemma order_sign_Nil:
  fixes xs :: "'a :: linorder list"
  shows "order_sign [] xs = (if xs = [] then 0 else -1)" "order_sign xs [] = (if xs = [] then 0 else 1)"
  by (cases xs; simp add: order_sign_def)+

lemma compare_identifiers_order:
  assumes "\<forall>s \<in> set ls. plain_identifier s" and "\<forall>s \<in> set rs. plain_identifier s"
  shows "(case compare_identifiers ls rs of Some c \<Rightarrow> c
     | None \<Rightarrow> if length ls < length rs then -1 else if length ls > length rs then 1 else 0)
   = order_sign (map identifier_of ls) (map identifier_of rs)"
  using assms
proof (induction ls rs rule: compare_identifiers.induct)
  case (1 l ls r rs)
  show ?case
  proof (cases "l = r")
    case True
    then show ?thesis using 1 by (cases "compare_identifiers ls rs") (auto simp: order_sign_def split: if_splits)
  next
    case False
    have a: "atoi l = (if numeric_identifier l then Some (decimal l) else None)"
      "atoi r = (if numeric_identifier r then Some (decimal r) else None)" using 1(2,3) by (simp_all add: atoi_plain)
    have "identifier_of l \<noteq> identifier_of r" using False 1(2,3) plain_identifier_inj by auto
    then show ?thesis using False
      by (auto simp: order_sign_def identifier_of_def a split: if_splits)
  qed
qed (auto simp: order_sign_Nil)

text \<open>
  C34: on semantic versions the comparison is the precedence semantic versioning defines: -1, 0 or 1 as the
  first is below, equal to or above the second; major, minor and patch decide first, a pre-release is below
  its release, identifiers are compared from the left, those of digits alone as numbers and below all others,
  the others as text, and of two lists that agree the shorter is the lower. So the comparison is total,
  antisymmetric and transitive there, and 0 only for versions equal but for build data. Two kinds of
  identifiers are set apart, because the code misreads them: digits beyond the range of an \<open>int\<close>, and digits
  behind a hyphen.
\<close>

theorem compare_is_precedence:
  assumes "parse_version s = Inr a" and "parse_version t = Inr b"
    and "semantic_version a" and "semantic_version b"
    and "\<forall>i \<in> set (pre a) \<union> set (pre b). \<not> misread_identifier i"
  shows "compare_versions s t = Inr (order_sign (precedence a) (precedence b)) \<and>
    (compare_versions s t = Inr 0 \<longleftrightarrow> a = b)"
proof -
  have p: "\<forall>i \<in> set (pre a). plain_identifier i" "\<forall>i \<in> set (pre b). plain_identifier i"
    using parsed_identifiers_plain [OF assms(1,3)] parsed_identifiers_plain [OF assms(2,4)] assms(5) by auto
  note c = compare_identifiers_order [OF p]
  have "compare_parsed a b = order_sign (precedence a) (precedence b)"
    unfolding compare_parsed_def c
    by (auto simp: precedence_def order_sign_def stage_of_def)
  moreover have "pre a = pre b" if "map identifier_of (pre a) = map identifier_of (pre b)"
  proof (rule map_inj_on [OF that])
    show "inj_on identifier_of (set (pre a) \<union> set (pre b))"
      using p plain_identifier_inj by (auto simp: inj_on_def)
  qed
  then have "precedence a = precedence b \<longleftrightarrow> a = b"
    by (auto simp: precedence_def stage_of_def split: if_splits)
  ultimately show ?thesis using assms(1,2) by (simp add: compare_versions_def order_sign_def)
qed

lemma compare_is_precedence_witness:
  "compare_versions ''v1.2.3-rc.2'' ''1.2.3-rc.10+build5'' = Inr (-1)"
proof -
  let ?a = "\<lparr>major = 1, minor = 2, patch = 3, pre = [''rc'', ''2'']\<rparr>" and ?b = "\<lparr>major = 1, minor = 2, patch = 3, pre = [''rc'', ''10'']\<rparr>"
  have v: "parse_version ''v1.2.3-rc.2'' = Inr ?a" "parse_version ''1.2.3-rc.10+build5'' = Inr ?b"
    "semantic_version ?a" "semantic_version ?b" "\<forall>i \<in> set (pre ?a) \<union> set (pre ?b). \<not> misread_identifier i"
    "precedence ?a = (1, 2, 3, Before [Textual ''rc'', Numeric 2])" "precedence ?b = (1, 2, 3, Before [Textual ''rc'', Numeric 10])"
    by code_simp+
  from compare_is_precedence [OF v(1-5)] show ?thesis by (simp add: order_sign_def v(6,7))
qed

text \<open>
  A hyphen with digits behind it is text for semantic versioning and so above every number; the code takes it
  for a negative number, below them.
\<close>

lemma negative_identifiers_misread:
  "compare_versions ''1.0.0--5'' ''1.0.0-1'' = Inr (-1)"
  "order_sign (precedence \<lparr>major = 1, minor = 0, patch = 0, pre = [''-5'']\<rparr>) (precedence \<lparr>major = 1, minor = 0, patch = 0, pre = [''1'']\<rparr>) = 1"
  by code_simp+

text \<open>
  Leading zeros break the order: the parser accepts numeric pre-release identifiers with
  them, and the comparison calls each of two such versions greater than the other.
\<close>

theorem leading_zeros_compare_both_ways:
  "compare_versions ''1.0.0-01'' ''1.0.0-1'' = Inr 1 \<and> compare_versions ''1.0.0-1'' ''1.0.0-01'' = Inr 1"
  by code_simp

end
