(* ===== verification/Update_Release.thy ===== *)
theory Update_Release
  imports Update_Version Go_Http
begin

text \<open>
  The release client of the native updater, \<open>internal/agentupdate/release.go\<close>: the current
  release, the manifest with its checks, and the verified download. URL resolution
  (\<open>net/url\<close>) and SHA-256 in lower-case hex are arguments: \<open>resolve\<close> maps a reference to the
  scheme, host and text of the resolved URL.
\<close>

section \<open>Data\<close>

record asset =
  AssetPath :: string
  SHA256 :: string
  AssetBytes :: int

record manifest =
  ManifestVersion :: string
  SourceRevision :: string
  ManifestMajor :: int
  Assets :: "asset list"

record current_release =
  CurrentReleaseVersion :: string
  CurrentRevision :: string
  CurrentMajor :: int
  ManifestURL :: string

record resolved_url =
  Scheme :: string
  UrlHost :: string
  UrlText :: string

record 'w release_client =
  Origin :: resolved_url
  Resolve :: "string \<Rightarrow> resolved_url result"
  Sha256Hex :: "bytes \<Rightarrow> string"
  Http :: "'w server"

definition max_metadata_bytes :: nat where "max_metadata_bytes = 512 * 1024"
definition max_asset_bytes :: int where "max_asset_bytes = 128 * 2 ^ 20"

section \<open>Decoding\<close>

definition zero_asset :: asset where
  "zero_asset = \<lparr>AssetPath = [], SHA256 = [], AssetBytes = 0\<rparr>"

definition decode_asset :: "json \<Rightarrow> asset option" where
  "decode_asset = json_struct (Some [''path'', ''sha256'', ''bytes'']) zero_asset (\<lambda>ms.
     (case (string_field ''path'' ms, string_field ''sha256'' ms, int_field ''bytes'' ms) of
        (Some p, Some s, Some n) \<Rightarrow> Some \<lparr>AssetPath = p, SHA256 = s, AssetBytes = n\<rparr>
      | _ \<Rightarrow> None))"

definition decode_manifest :: "bytes \<Rightarrow> manifest option" where
  "decode_manifest b = Option.bind (parse_json b)
     (json_struct (Some [''version'', ''sourceRevision'', ''protocolMajor'', ''assets''])
        \<lparr>ManifestVersion = [], SourceRevision = [], ManifestMajor = 0, Assets = []\<rparr> (\<lambda>ms.
        (case (string_field ''version'' ms, string_field ''sourceRevision'' ms,
               int_field ''protocolMajor'' ms, slice_field decode_asset ''assets'' ms) of
           (Some v, Some r, Some p, Some as) \<Rightarrow>
             Some \<lparr>ManifestVersion = v, SourceRevision = r, ManifestMajor = p, Assets = as\<rparr>
         | _ \<Rightarrow> None)))"

definition decode_current :: "bytes \<Rightarrow> current_release option" where
  "decode_current b = Option.bind (parse_json b)
     (json_struct (Some [''version'', ''sourceRevision'', ''protocolMajor'', ''manifestUrl''])
        \<lparr>CurrentReleaseVersion = [], CurrentRevision = [], CurrentMajor = 0, ManifestURL = []\<rparr> (\<lambda>ms.
        (case (string_field ''version'' ms, string_field ''sourceRevision'' ms,
               int_field ''protocolMajor'' ms, string_field ''manifestUrl'' ms) of
           (Some v, Some r, Some p, Some u) \<Rightarrow>
             Some \<lparr>CurrentReleaseVersion = v, CurrentRevision = r, CurrentMajor = p, ManifestURL = u\<rparr>
         | _ \<Rightarrow> None)))"

definition decode_response :: "(bytes \<Rightarrow> 'a option) \<Rightarrow> http_response \<Rightarrow> nat \<Rightarrow> 'a result" where
  "decode_response dec r limit =
     (if \<not> success_status r then Inl (Msg ''agent release endpoint returned HTTP status'')
      else bind_result (read_limited (limit + 1) r) (\<lambda>body.
        if length body > limit then Inl (Msg ''agent release response exceeds the size limit'')
        else (case dec body of
          None \<Rightarrow> Inl (Msg ''decode agent release response'') | Some v \<Rightarrow> Inr v)))"

section \<open>The client\<close>

definition same_origin :: "resolved_url \<Rightarrow> resolved_url \<Rightarrow> bool" where
  "same_origin a b \<longleftrightarrow> equal_fold (Scheme a) (Scheme b) \<and> equal_fold (UrlHost a) (UrlHost b)"

text \<open>
  Building the client for an endpoint: \<open>parse\<close> is \<open>url.Parse\<close>, the last argument the resolution,
  the digest and the HTTP client that belong to an origin. Redirects are followed by the HTTP
  client under the check below; \<open>prior\<close> is the policy of the given client, if any.
\<close>

definition new_release_client :: "(string \<Rightarrow> resolved_url option) \<Rightarrow> (resolved_url \<Rightarrow> 'w release_client) \<Rightarrow>
    string \<Rightarrow> 'w release_client result" where
  "new_release_client parse connect endpoint =
     (case parse (trim_right_slash endpoint) of
        None \<Rightarrow> Inl (Msg ''configured endpoint is invalid'')
      | Some origin \<Rightarrow>
          if UrlHost origin = [] \<or> (Scheme origin \<noteq> ''http'' \<and> Scheme origin \<noteq> ''https'')
          then Inl (Msg ''configured endpoint is invalid'') else Inr ((connect origin)\<lparr>Origin := origin\<rparr>))"

definition check_redirect :: "resolved_url \<Rightarrow> (nat \<Rightarrow> unit result) option \<Rightarrow> resolved_url \<Rightarrow> nat \<Rightarrow> unit result" where
  "check_redirect origin prior u via =
     (if \<not> same_origin origin u then Inl (Msg ''agent release redirect crossed the configured origin'')
      else case prior of
        Some policy \<Rightarrow> policy via
      | None \<Rightarrow> if via \<ge> 10 then Inl (Msg ''too many agent release redirects'') else Inr ())"

definition resolve_reference :: "'w release_client \<Rightarrow> string \<Rightarrow> resolved_url result" where
  "resolve_reference c ref = bind_result (Resolve c ref) (\<lambda>u.
     if same_origin (Origin c) u then Inr u
     else Inl (Msg ''agent release URL crossed the configured origin''))"

text \<open>A plain result inside the stateful sequence.\<close>

definition lift_io :: "'a result \<Rightarrow> 's \<Rightarrow> 'a result \<times> 's" where
  "lift_io r s = (r, s)"

definition current :: "'w release_client \<Rightarrow> 'w \<Rightarrow> current_release result \<times> 'w" where
  "current c =
     bind_io (Http c (get_request (UrlText (Origin c) @ ''/api/agent/releases/current''))) (\<lambda>response.
     bind_io (lift_io (decode_response decode_current response max_metadata_bytes)) (\<lambda>result.
       (if (case parse_version (CurrentReleaseVersion result) of Inl e \<Rightarrow> True | Inr v \<Rightarrow> False) \<or>
           CurrentMajor result \<noteq> 1 \<or> ManifestURL result = []
        then fail_io (Msg ''current agent release descriptor is invalid'')
        else bind_io (lift_io (resolve_reference c (ManifestURL result))) (\<lambda>_. return_io result))))"

definition hex_digest :: "string \<Rightarrow> bool" where
  "hex_digest s \<longleftrightarrow> length s = 64 \<and> (\<forall>ch \<in> set s. hex_val ch \<noteq> None)"

definition bad_asset :: "asset \<Rightarrow> bool" where
  "bad_asset item \<longleftrightarrow> (let cp = clean_path (AssetPath item) in
     AssetPath item = [] \<or> cp \<noteq> AssetPath item \<or> has_prefix cp ''../'' \<or> has_prefix cp ''/'' \<or>
     AssetBytes item < 1 \<or> AssetBytes item > max_asset_bytes)"

text \<open>The loop over the assets; \<open>seen\<close> is the set of paths so far.\<close>

fun check_assets :: "string list \<Rightarrow> asset list \<Rightarrow> unit result" where
  "check_assets seen [] = Inr ()"
| "check_assets seen (item # rest) =
     (if bad_asset item then Inl (Msg ''agent release manifest contains an invalid asset'')
      else if \<not> hex_digest (SHA256 item) then Inl (Msg ''agent release manifest contains an invalid digest'')
      else if AssetPath item \<in> set seen then Inl (Msg ''agent release manifest contains duplicate assets'')
      else check_assets (AssetPath item # seen) rest)"

definition check_manifest :: "string \<Rightarrow> manifest \<Rightarrow> manifest result" where
  "check_manifest version result =
     (if ManifestVersion result \<noteq> version \<or> ManifestMajor result \<noteq> 1 \<or> length (Assets result) < 1 \<or>
         length (Assets result) > 64
      then Inl (Msg ''agent release manifest is incompatible'')
      else bind_result (check_assets [] (Assets result)) (\<lambda>_. Inr result))"

definition release_path :: "string \<Rightarrow> string" where
  "release_path version = ''/api/agent/releases/'' @ path_escape version @ ''/''"

definition fetch_manifest :: "'w release_client \<Rightarrow> string \<Rightarrow> string \<Rightarrow> 'w \<Rightarrow> manifest result \<times> 'w" where
  "fetch_manifest c version url =
     bind_io (lift_io (parse_version version)) (\<lambda>_.
     bind_io (lift_io (resolve_reference c (if url = [] then release_path version @ ''manifest.json'' else url))) (\<lambda>u.
     bind_io (Http c (get_request (UrlText u))) (\<lambda>response.
     bind_io (lift_io (decode_response decode_manifest response max_metadata_bytes)) (\<lambda>result.
     lift_io (check_manifest version result)))))"

definition download :: "'w release_client \<Rightarrow> string \<Rightarrow> asset \<Rightarrow> 'w \<Rightarrow> bytes result \<times> 'w" where
  "download c version item =
     bind_io (lift_io (resolve_reference c (release_path version @ AssetPath item))) (\<lambda>u.
     bind_io (Http c (get_request (UrlText u))) (\<lambda>response.
       (if \<not> success_status response then fail_io (Msg ''download returned HTTP status'')
        else bind_io (lift_io (read_limited (nat (AssetBytes item + 1)) response)) (\<lambda>body.
          if int (length body) \<noteq> AssetBytes item then fail_io (Msg ''downloaded size does not match its manifest'')
          else if Sha256Hex c body \<noteq> SHA256 item then fail_io (Msg ''download failed SHA-256 verification'')
          else return_io body))))"

section \<open>What the checks establish\<close>

lemma lift_io_simps [simp, go_simps]: "lift_io r s = (r', s') \<longleftrightarrow> r = r' \<and> s = s'"
  by (auto simp: lift_io_def)

lemma check_assets_ok:
  "check_assets seen as = Inr () \<Longrightarrow>
   (\<forall>a \<in> set as. \<not> bad_asset a \<and> hex_digest (SHA256 a) \<and> AssetPath a \<notin> set seen) \<and> distinct (map AssetPath as)"
proof (induction seen as rule: check_assets.induct)
  case (2 seen item rest)
  then have ok: "\<not> bad_asset item" "hex_digest (SHA256 item)" "AssetPath item \<notin> set seen"
    "check_assets (AssetPath item # seen) rest = Inr ()" by (auto split: if_splits)
  with "2.IH" show ?case by auto
qed simp

lemma fetch_manifest_Inr:
  assumes "fetch_manifest c version url w = (Inr mf, w')"
  shows "check_manifest version mf = Inr mf"
proof -
  have same: "m = r" if "check_manifest version r = Inr m" for m r
    using that by (auto simp: check_manifest_def bind_result_Inr_iff split: if_splits)
  obtain result where "check_manifest version result = Inr mf"
    using assms unfolding fetch_manifest_def lift_io_def by (auto elim!: bind_io_InrE)
  with same show ?thesis by blast
qed

text \<open>
  An accepted manifest is for the version asked for and protocol 1, with 1 to 64 assets, each
  with a relative path in normal form that does not climb out with \<open>../\<close>, a size between 1 byte
  and 128 MiB and a digest of 64 hex digits, and no path twice.
\<close>

theorem manifest_checked:
  assumes "fetch_manifest c version url w = (Inr mf, w')"
  shows "ManifestVersion mf = version \<and> ManifestMajor mf = 1 \<and> 1 \<le> length (Assets mf) \<and> length (Assets mf) \<le> 64 \<and>
    distinct (map AssetPath (Assets mf)) \<and>
    (\<forall>a \<in> set (Assets mf). AssetPath a \<noteq> [] \<and> clean_path (AssetPath a) = AssetPath a \<and>
       \<not> is_abs (AssetPath a) \<and> \<not> has_prefix (AssetPath a) ''../'' \<and>
       1 \<le> AssetBytes a \<and> AssetBytes a \<le> 128 * 1024 * 1024 \<and> length (SHA256 a) = 64)"
proof -
  have ck: "check_manifest version mf = Inr mf" by (rule fetch_manifest_Inr [OF assms])
  then have "check_assets [] (Assets mf) = Inr ()"
    by (auto simp: check_manifest_def bind_result_Inr_iff split: if_splits)
  note as = check_assets_ok [OF this]
  have "AssetPath a \<noteq> [] \<and> clean_path (AssetPath a) = AssetPath a \<and> \<not> is_abs (AssetPath a) \<and>
      \<not> has_prefix (AssetPath a) ''../'' \<and> 1 \<le> AssetBytes a \<and> AssetBytes a \<le> 128 * 1024 * 1024 \<and>
      length (SHA256 a) = 64" if "a \<in> set (Assets mf)" for a
    using as that by (auto simp: bad_asset_def Let_def is_abs_def hex_digest_def max_asset_bytes_def not_less)
  then show ?thesis using ck as by (auto simp: check_manifest_def not_less Suc_le_eq split: if_splits)
qed

text \<open>
  A download that succeeds returns a body of exactly the manifest's size whose SHA-256, in
  lower-case hex, is the manifest's.
\<close>

theorem download_verified:
  assumes "download c version item w = (Inr body, w')"
  shows "int (length body) = AssetBytes item \<and> Sha256Hex c body = SHA256 item"
  using assms
  by (auto simp: download_def return_io_def fail_io_def elim!: bind_io_InrE split: if_splits)

text \<open>A release server to run the theorems on; it offers version 1.2.3 with assets of three bytes.\<close>

definition sample_sha :: string where "sample_sha = replicate 64 (CHR ''a'')"

definition sample_asset :: "string \<Rightarrow> asset" where
  "sample_asset p = \<lparr>AssetPath = p, SHA256 = sample_sha, AssetBytes = 3\<rparr>"

definition sample_manifest :: "string list \<Rightarrow> manifest" where
  "sample_manifest ps = \<lparr>ManifestVersion = ''1.2.3'', SourceRevision = [], ManifestMajor = 1, Assets = map sample_asset ps\<rparr>"

definition sample_asset_json :: "string \<Rightarrow> json" where
  "sample_asset_json p = JObj [(''path'', JStr p), (''sha256'', JStr sample_sha), (''bytes'', JNum (show_nat 3))]"

definition sample_json :: "string list \<Rightarrow> json" where
  "sample_json ps = JObj [(''version'', JStr ''1.2.3''), (''protocolMajor'', JNum (show_nat 1)),
     (''assets'', JArr (map sample_asset_json ps))]"

definition sample_text :: "string list \<Rightarrow> string" where
  "sample_text ps = json_text (sample_json ps) @ newline"

definition sample_url :: "string \<Rightarrow> resolved_url" where
  "sample_url text = \<lparr>Scheme = ''https'', UrlHost = ''hub'', UrlText = text\<rparr>"

definition sample_client :: "string list \<Rightarrow> unit release_client" where
  "sample_client ps = \<lparr>Origin = sample_url ''https://hub'', Resolve = (\<lambda>ref. Inr (sample_url ref)),
     Sha256Hex = (\<lambda>b. sample_sha),
     Http = (\<lambda>r w. (Inr \<lparr>StatusCode = 200,
        RespBody = Inr (if has_suffix (Url r) ''.json'' then sample_text ps else ''abc''), ETag = []\<rparr>, w))\<rparr>"

lemma sample_decode: "decode_manifest (sample_text ps) = Some (sample_manifest ps)"
proof -
  have "natural_json (sample_json ps)" by (auto simp: sample_json_def sample_asset_json_def)
  then have p: "parse_json (sample_text ps) = Some (sample_json ps)" unfolding sample_text_def by (rule parse_json_text)
  have a: "decode_asset (sample_asset_json q) = Some (sample_asset q)" for q
    using json_int_show [of 3]
    by (simp add: decode_asset_def json_struct_def known_members_def string_field_def int_field_def
        sample_asset_def sample_asset_json_def fold_simps del: json_int.simps)
  have "those (map decode_asset (map sample_asset_json ps)) = Some (map sample_asset ps)"
    by (induction ps) (simp_all add: a)
  then show ?thesis
    using json_int_show [of 1]
    by (simp add: decode_manifest_def p sample_json_def json_struct_def known_members_def string_field_def
        int_field_def slice_field_def json_slice_def sample_manifest_def fold_simps del: json_int.simps)
qed

lemma sample_parse: "parse_version ''1.2.3'' = Inr \<lparr>major = 1, minor = 2, patch = 3, pre = []\<rparr>"
  by code_simp

lemma sample_fetch:
  assumes "length (sample_text ps) \<le> max_metadata_bytes" and "check_assets [] (map sample_asset ps) = Inr ()"
    and "1 \<le> length ps" and "length ps \<le> 64"
  shows "fetch_manifest (sample_client ps) ''1.2.3'' [] w = (Inr (sample_manifest ps), w)"
proof -
  have u: "has_suffix (release_path ''1.2.3'' @ ''manifest.json'') ''.json''" by (simp add: has_suffix_def)
  have c: "check_manifest ''1.2.3'' (sample_manifest ps) = Inr (sample_manifest ps)"
    using assms(2-4) by (auto simp: check_manifest_def sample_manifest_def)
  show ?thesis using assms(1) u
    by (simp add: fetch_manifest_def sample_parse resolve_reference_def sample_client_def sample_url_def
        same_origin_def bind_io_def get_request_def decode_response_def success_status_def read_limited_def
        sample_decode lift_io_def c)
qed

lemma sample_download:
  assumes "\<not> has_suffix p ''.json''" and "length p \<ge> 5"
  shows "download (sample_client ps) ''1.2.3'' (sample_asset p) w = (Inr ''abc'', w)"
proof -
  have u: "\<not> has_suffix (release_path ''1.2.3'' @ p) ''.json''"
    using assms by (simp add: has_suffix_def numeral_eq_Suc)
  then show ?thesis
    by (simp add: download_def resolve_reference_def sample_client_def sample_url_def same_origin_def bind_io_def
        get_request_def success_status_def read_limited_def sample_asset_def lift_io_def return_io_def)
qed

lemma sample_length_dotdot: "length (sample_text [''..'']) \<le> max_metadata_bytes"
  using length_escape_string [of "replicate 64 (CHR ''a'')"]
  by (simp add: sample_text_def sample_json_def sample_asset_json_def sample_sha_def json_quote_def escape_char_def
      newline_def max_metadata_bytes_def show_nat.simps digit_char_def)

lemma sample_hex: "hex_digest sample_sha"
  by (simp add: hex_digest_def sample_sha_def hex_val_def)

text \<open>The parent directory itself passes the path check, which refuses only what lies below it.\<close>

lemma parent_path_passes: "\<not> bad_asset (sample_asset ''..'')"
proof -
  have "clean_path ''..'' = ''..''" by code_simp
  then show ?thesis by (simp add: bad_asset_def sample_asset_def max_asset_bytes_def has_prefix_def)
qed

lemma manifest_checked_witness: "\<not> is_abs (AssetPath (sample_asset ''..''))"
proof -
  have "check_assets [] (map sample_asset [''..'']) = Inr ()"
    using parent_path_passes sample_hex by (simp add: sample_asset_def)
  from manifest_checked [OF sample_fetch [OF sample_length_dotdot this, of "()"]]
  show ?thesis by (simp add: sample_manifest_def)
qed

lemma download_verified_witness:
  "int (length ''abc'') = AssetBytes (sample_asset ''agent'')"
proof -
  have "\<not> has_suffix ''agent'' ''.json''" by (simp add: has_suffix_def)
  then have "download (sample_client []) ''1.2.3'' (sample_asset ''agent'') () = (Inr ''abc'', ())"
    by (rule sample_download) simp
  from download_verified [OF this] show ?thesis by simp
qed

end
