(* ===== verification/Agent_Update.thy ===== *)
theory Agent_Update
  imports Update_Release Go_Disk
begin

text \<open>
  The native updater, \<open>internal/agentupdate/update.go\<close> and \<open>platform.go\<close>: platform selection, the
  replacement of a file, the health check and the whole of \<open>Run\<close> with its lock and its rollback.
  Files are named by full path in one disk. Service commands are arguments: their outcome may
  depend on the files and the world, and they leave the two managed files alone. Error texts are
  kept without the causes \<open>fmt.Errorf\<close> wraps into them.
\<close>

section \<open>Platforms\<close>

record platform =
  Os :: string
  Arch :: string
  BinaryPath :: string
  ServicePath :: string
  BinaryAsset :: string
  ServiceAsset :: string
  StopCmd :: "string list"
  ReloadCmd :: "string list"
  StartCmd :: "string list"
  HealthCmd :: "string list"
  ServiceMode :: nat

definition linux_platform :: "string \<Rightarrow> string \<Rightarrow> platform result" where
  "linux_platform manager arch =
     (if arch \<noteq> ''amd64'' \<and> arch \<noteq> ''arm64'' then Inl (Msg ''unsupported Linux architecture'')
      else if manager = ''systemd'' then Inr
        \<lparr>Os = ''linux'', Arch = arch, BinaryPath = ''/usr/local/sbin/homelab-inventory-agent'',
         ServicePath = ''/etc/systemd/system/homelab-inventory-agent.service'',
         BinaryAsset = ''homelab-inventory-agent-linux-'' @ arch,
         ServiceAsset = ''homelab-inventory-agent.service'',
         StopCmd = [''systemctl'', ''stop'', ''homelab-inventory-agent.service''],
         ReloadCmd = [''systemctl'', ''daemon-reload''],
         StartCmd = [''systemctl'', ''restart'', ''homelab-inventory-agent.service''],
         HealthCmd = [''systemctl'', ''is-active'', ''--quiet'', ''homelab-inventory-agent.service''],
         ServiceMode = mode_644\<rparr>
      else if manager = ''openrc'' then Inr
        \<lparr>Os = ''linux'', Arch = arch, BinaryPath = ''/usr/local/sbin/homelab-inventory-agent'',
         ServicePath = ''/etc/init.d/homelab-inventory-agent'',
         BinaryAsset = ''homelab-inventory-agent-linux-'' @ arch,
         ServiceAsset = ''homelab-inventory-agent.openrc'',
         StopCmd = [''rc-service'', ''homelab-inventory-agent'', ''stop''],
         ReloadCmd = [],
         StartCmd = [''rc-service'', ''homelab-inventory-agent'', ''start''],
         HealthCmd = [''rc-service'', ''homelab-inventory-agent'', ''status''],
         ServiceMode = mode_555\<rparr>
      else Inl (Msg ''unsupported Linux service manager''))"

definition detect_linux_service_manager :: "(string \<Rightarrow> bool) \<Rightarrow> (string \<Rightarrow> bool) \<Rightarrow> string result" where
  "detect_linux_service_manager directory_exists command_exists =
     (let systemd = directory_exists ''/run/systemd/system'' \<and> command_exists ''systemctl'';
          openrc = directory_exists ''/run/openrc'' \<and> command_exists ''rc-service'' \<and> command_exists ''rc-update''
      in if systemd = openrc then
           (if systemd then Inl (Msg ''multiple supported Linux service managers detected'')
            else Inl (Msg ''no supported Linux service manager detected''))
         else if systemd then Inr ''systemd'' else Inr ''openrc'')"

definition default_platform :: "string \<Rightarrow> string \<Rightarrow> (string \<Rightarrow> bool) \<Rightarrow> (string \<Rightarrow> bool) \<Rightarrow> platform result" where
  "default_platform os arch directory_exists command_exists =
     (if os = ''linux'' then
        bind_result (detect_linux_service_manager directory_exists command_exists) (\<lambda>m. linux_platform m arch)
      else if os = ''freebsd'' then
        (if arch \<noteq> ''amd64'' then Inl (Msg ''unsupported FreeBSD architecture'')
         else Inr \<lparr>Os = ''freebsd'', Arch = arch, BinaryPath = ''/usr/local/sbin/homelab-inventory-agent'',
           ServicePath = ''/usr/local/etc/rc.d/homelab_inventory_agent'',
           BinaryAsset = ''homelab-inventory-agent-freebsd-amd64'', ServiceAsset = ''homelab_inventory_agent'',
           StopCmd = [''service'', ''homelab_inventory_agent'', ''stop''], ReloadCmd = [],
           StartCmd = [''service'', ''homelab_inventory_agent'', ''restart''],
           HealthCmd = [''service'', ''homelab_inventory_agent'', ''onestatus''], ServiceMode = mode_555\<rparr>)
      else Inl (Msg ''native agent updates are unsupported''))"

section \<open>Files\<close>

text \<open>\<open>filepath.Dir\<close>.\<close>

definition dir_of :: "string \<Rightarrow> string" where
  "dir_of p = clean_path (rev (dropWhile (\<lambda>c. c \<noteq> CHR ''/'') (rev p)))"

definition update_temp :: "string \<Rightarrow> string" where
  "update_temp target = dir_of target @ ''/.homelab-inventory-agent-update-''"

definition lock_path :: "platform \<Rightarrow> string" where
  "lock_path pf = dir_of (BinaryPath pf) @ ''/.homelab-inventory-agent-update.lock''"

text \<open>
  The updater's \<open>atomicWrite\<close>: as the queue's, and then the directory is opened and synced before
  the deferred removal of the temporary file. Opening it changes no file and can fail.
\<close>

definition sync_directory :: "disk \<Rightarrow> unit result \<times> disk" where
  "sync_directory = bind_io flush_file (\<lambda>_. flush_file)"

definition update_write :: "string \<Rightarrow> bytes \<Rightarrow> nat \<Rightarrow> disk \<Rightarrow> unit result \<times> disk" where
  "update_write target body mode =
     bind_io (create_temp (update_temp target)) (\<lambda>tmp d.
       (case bind_io (write_temp target body mode tmp) (\<lambda>_. sync_directory) d of
          (r, d') \<Rightarrow> (r, snd (remove_file tmp d'))))"

definition snapshot_file :: "string \<Rightarrow> disk \<Rightarrow> (bytes \<times> nat) result \<times> disk" where
  "snapshot_file p = bind_io (stat_file p) (\<lambda>info.
     (case info of
        Directory \<Rightarrow> fail_io (Msg ''update target is not a regular file'')
      | Reg b m \<Rightarrow> bind_io (read_file p) (\<lambda>body. return_io (body, m))))"

definition create_exclusive :: "string \<Rightarrow> disk \<Rightarrow> unit result \<times> disk" where
  "create_exclusive n = call (\<lambda>d. case lookup d n of
     Some x \<Rightarrow> (Inl (Msg ''another agent update is already running''), d)
   | None \<Rightarrow> (Inr (), put_file n (Reg [] mode_600) d))"

section \<open>Commands\<close>

record 'w machine =
  Files :: disk
  World :: 'w

record 'w runner =
  RunCmd :: "string list \<Rightarrow> disk \<Rightarrow> 'w \<Rightarrow> unit result \<times> 'w"
  OutputCmd :: "string list \<Rightarrow> disk \<Rightarrow> 'w \<Rightarrow> bytes result \<times> 'w"
  Pause :: "'w \<Rightarrow> bool \<times> 'w"

definition on_disk :: "(disk \<Rightarrow> 'a result \<times> disk) \<Rightarrow> 'w machine \<Rightarrow> 'a result \<times> 'w machine" where
  "on_disk f m = (case f (Files m) of (r, d) \<Rightarrow> (r, m\<lparr>Files := d\<rparr>))"

definition on_world :: "('w \<Rightarrow> 'a result \<times> 'w) \<Rightarrow> 'w machine \<Rightarrow> 'a result \<times> 'w machine" where
  "on_world f m = (case f (World m) of (r, w) \<Rightarrow> (r, m\<lparr>World := w\<rparr>))"

definition run_command :: "'w runner \<Rightarrow> string list \<Rightarrow> 'w machine \<Rightarrow> unit result \<times> 'w machine" where
  "run_command rn cmd m =
     (if cmd = [] then (Inr (), m) else on_world (RunCmd rn cmd (Files m)) m)"

text \<open>
  The loop of the health check, with the checks still to run; between two checks the timer or
  the cancelled context ends the pause.
\<close>

fun health_loop :: "'w runner \<Rightarrow> string list \<Rightarrow> int \<Rightarrow> nat \<Rightarrow> 'w machine \<Rightarrow> unit result \<times> 'w machine" where
  "health_loop rn cmd interval 0 m = (Inr (), m)"
| "health_loop rn cmd interval (Suc k) m =
     (case run_command rn cmd m of
        (Inl e, m') \<Rightarrow> (Inl e, m')
      | (Inr _, m') \<Rightarrow>
          (if k = 0 \<or> interval \<le> 0 then health_loop rn cmd interval k m'
           else (case Pause rn (World m') of
             (cancelled, w) \<Rightarrow>
               (if cancelled then (Inl Canceled, m'\<lparr>World := w\<rparr>)
                else health_loop rn cmd interval k (m'\<lparr>World := w\<rparr>)))))"

definition wait_for_sustained_health :: "'w runner \<Rightarrow> string list \<Rightarrow> int \<Rightarrow> int \<Rightarrow> 'w machine \<Rightarrow> unit result \<times> 'w machine" where
  "wait_for_sustained_health rn cmd checks interval m =
     (if cmd = [] then (Inr (), m)
      else health_loop rn cmd interval (if checks < 1 then 1 else nat checks) m)"

section \<open>Running an update\<close>

record 'w update_env =
  Runner :: "'w runner"
  HealthChecks :: int
  HealthInterval :: int

text \<open>The defaults \<open>Run\<close> fills in for the number of health checks and for their interval in nanoseconds.\<close>

definition with_defaults :: "'w update_env \<Rightarrow> 'w update_env" where
  "with_defaults env = env
     \<lparr>HealthChecks := (if HealthChecks env = 0 then 3 else HealthChecks env),
      HealthInterval := (if HealthInterval env = 0 \<and> HealthChecks env = 0 then 10 ^ 9 else HealthInterval env)\<rparr>"

definition incomplete :: error where "incomplete = Msg ''update failed and rollback was incomplete''"
definition unrestored :: error where
  "unrestored = Msg ''update failed and the unchanged service could not be restored''"

type_synonym saved = "bytes \<times> nat"

text \<open>Putting both files back when the executable had been replaced; both writes are tried.\<close>

definition restore_files :: "platform \<Rightarrow> bool \<Rightarrow> saved \<Rightarrow> saved \<Rightarrow> disk \<Rightarrow> bool \<times> disk" where
  "restore_files pf replaced old_binary old_service d =
     (if replaced then
        (case update_write (BinaryPath pf) (fst old_binary) (snd old_binary) d of
           (r1, d1) \<Rightarrow> (case update_write (ServicePath pf) (fst old_service) (snd old_service) d1 of
              (r2, d2) \<Rightarrow> (r1 = Inr () \<and> r2 = Inr (), d2)))
      else (True, d))"

definition rollback :: "'w update_env \<Rightarrow> platform \<Rightarrow> bool \<Rightarrow> saved \<Rightarrow> saved \<Rightarrow> error \<Rightarrow> 'w machine \<Rightarrow> error \<times> 'w machine" where
  "rollback env pf replaced old_binary old_service cause m =
     (case restore_files pf replaced old_binary old_service (Files m) of
        (restored, d) \<Rightarrow>
          (case run_command (Runner env) (ReloadCmd pf) (m\<lparr>Files := d\<rparr>) of
             (_, m1) \<Rightarrow>
               (case run_command (Runner env) (StartCmd pf) m1 of
                  (Inl e, m2) \<Rightarrow> (if replaced then incomplete else unrestored, m2)
                | (Inr _, m2) \<Rightarrow>
                    (case wait_for_sustained_health (Runner env) (HealthCmd pf) (HealthChecks env) (HealthInterval env) m2 of
                       (h, m3) \<Rightarrow>
                         (if restored \<and> h = Inr () then cause
                          else if replaced then incomplete else unrestored, m3)))))"

text \<open>A step whose failure is answered by the rollback.\<close>

definition guarded :: "'w update_env \<Rightarrow> platform \<Rightarrow> bool \<Rightarrow> saved \<Rightarrow> saved \<Rightarrow> ('w machine \<Rightarrow> 'a result \<times> 'w machine) \<Rightarrow>
    'w machine \<Rightarrow> 'a result \<times> 'w machine" where
  "guarded env pf replaced old_binary old_service f m =
     (case f m of
        (Inl e, m') \<Rightarrow> (case rollback env pf replaced old_binary old_service e m' of (e', m'') \<Rightarrow> (Inl e', m''))
      | (Inr x, m') \<Rightarrow> (Inr x, m'))"

definition verify_version :: "'w update_env \<Rightarrow> platform \<Rightarrow> string \<Rightarrow> 'w machine \<Rightarrow> unit result \<times> 'w machine" where
  "verify_version env pf target m =
     (case on_world (OutputCmd (Runner env) [BinaryPath pf, ''-version''] (Files m)) m of
        (Inl e, m') \<Rightarrow> (Inl (Msg ''updated agent executable failed version verification''), m')
      | (Inr output, m') \<Rightarrow>
          (if trim_space output \<noteq> target
           then (Inl (Msg ''updated agent executable failed version verification''), m') else (Inr (), m')))"

definition install :: "'w update_env \<Rightarrow> platform \<Rightarrow> string \<Rightarrow> bytes \<Rightarrow> bytes \<Rightarrow> saved \<Rightarrow> saved \<Rightarrow> 'w machine \<Rightarrow> unit result \<times> 'w machine" where
  "install env pf target binary service old_binary old_service =
     bind_io (guarded env pf False old_binary old_service
       (on_disk (update_write (BinaryPath pf) binary mode_755))) (\<lambda>_.
     guarded env pf True old_binary old_service
       (bind_io (on_disk (update_write (ServicePath pf) service (ServiceMode pf))) (\<lambda>_.
        bind_io (verify_version env pf target) (\<lambda>_.
        bind_io (run_command (Runner env) (ReloadCmd pf)) (\<lambda>_.
        bind_io (run_command (Runner env) (StartCmd pf)) (\<lambda>_.
        wait_for_sustained_health (Runner env) (HealthCmd pf) (HealthChecks env) (HealthInterval env)))))))"

definition find_asset :: "manifest \<Rightarrow> string \<Rightarrow> asset option" where
  "find_asset mf name = map_of (rev (map (\<lambda>a. (AssetPath a, a)) (Assets mf))) name"

definition update_locked :: "'w update_env \<Rightarrow> platform \<Rightarrow> 'w release_client \<Rightarrow> string \<Rightarrow> string \<Rightarrow>
    'w machine \<Rightarrow> unit result \<times> 'w machine" where
  "update_locked env pf c target url =
     bind_io (on_world (fetch_manifest c target url)) (\<lambda>mf.
       (case (find_asset mf (BinaryAsset pf), find_asset mf (ServiceAsset pf)) of
          (Some binary_asset, Some service_asset) \<Rightarrow>
            bind_io (on_world (download c target binary_asset)) (\<lambda>binary.
            bind_io (on_world (download c target service_asset)) (\<lambda>service.
            bind_io (on_disk (snapshot_file (BinaryPath pf))) (\<lambda>old_binary.
            bind_io (on_disk (snapshot_file (ServicePath pf))) (\<lambda>old_service.
            bind_io (run_command (Runner env) (StopCmd pf)) (\<lambda>_.
            install env pf target binary service old_binary old_service)))))
        | _ \<Rightarrow> fail_io (Msg ''agent release does not support this platform'')))"

record update_options =
  EffectiveUserID :: int
  CurrentVersion :: string
  Requested :: string
  CheckOnly :: bool

record update_result =
  ResCurrent :: string
  ResTarget :: string
  UpdateAvailable :: bool
  Updated :: bool

definition choose_target :: "'w release_client \<Rightarrow> update_options \<Rightarrow> 'w machine \<Rightarrow> (string \<times> string) result \<times> 'w machine" where
  "choose_target c opts =
     (if Requested opts = [] then
        bind_io (on_world (current c)) (\<lambda>r. return_io (CurrentReleaseVersion r, ManifestURL r))
      else return_io (Requested opts, []))"

text \<open>
  \<open>Run\<close>. The results of loading the configuration and building the client, and of choosing the
  platform, are arguments. The lock is removed when the function returns, in every case.
\<close>

definition run_update :: "'w update_env \<Rightarrow> unit result \<Rightarrow> platform result \<Rightarrow> 'w release_client result \<Rightarrow>
    update_options \<Rightarrow> 'w machine \<Rightarrow> update_result result \<times> 'w machine" where
  "run_update env configuration selected client opts =
     (if EffectiveUserID opts \<noteq> 0 then fail_io (Msg ''native updates require elevated privileges'')
      else bind_io (lift_io (parse_version (CurrentVersion opts))) (\<lambda>_.
           bind_io (lift_io configuration) (\<lambda>_.
           bind_io (lift_io selected) (\<lambda>pf.
           bind_io (lift_io client) (\<lambda>c.
           bind_io (choose_target c opts) (\<lambda>(target, url).
           bind_io (lift_io (compare_versions (CurrentVersion opts) target)) (\<lambda>comparison.
             (let result = \<lparr>ResCurrent = CurrentVersion opts, ResTarget = target,
                            UpdateAvailable = comparison < 0, Updated = False\<rparr>
              in if (Requested opts = [] \<and> comparison \<ge> 0) \<or> CheckOnly opts then return_io result
                 else bind_io (on_disk (create_exclusive (lock_path pf))) (\<lambda>_ m.
                   (case update_locked (with_defaults env) pf c target url m of
                      (r, m') \<Rightarrow>
                        (bind_result r (\<lambda>_. Inr (result\<lparr>Updated := True\<rparr>)),
                         m'\<lparr>Files := snd (remove_file (lock_path pf) (Files m'))\<rparr>)))))))))))"

end
