(* ===== verification/Update_Correct.thy ===== *)
theory Update_Correct
  imports Agent_Update
begin

text \<open>
  What an update leaves behind: verified files when it reports success, the previous files when it
  fails and the rollback reports no problem, and nothing changed when it only checks, when the
  version is not newer or when another update holds the lock.
\<close>

section \<open>Replacing a file\<close>

lemma sync_directory_keeps: "sync_directory d = (r, d') \<Longrightarrow> lookup d' = lookup d \<and> files d' = files d"
  using flush_file_keeps by (fastforce simp: sync_directory_def bind_io_def split: prod.splits sum.splits)

lemma update_write_spec:
  assumes "update_write target b m d = (r, d')" and "\<not> has_prefix target (update_temp target)"
  shows "(r = Inr () \<longrightarrow> lookup d' target = Some (Reg b m)) \<and>
    (lookup d' target = lookup d target \<or> lookup d' target = Some (Reg b m)) \<and>
    (\<forall>n. n \<noteq> target \<and> \<not> has_prefix n (update_temp target) \<longrightarrow> lookup d' n = lookup d n)"
proof (cases "create_temp (update_temp target) d")
  case (Pair c d1)
  show ?thesis
  proof (cases c)
    case (Inl e)
    then have "r = Inl e" "d' = d1" using assms(1) Pair by (auto simp: update_write_def)
    then show ?thesis using create_temp_Inl [OF Pair [unfolded Inl]] by simp
  next
    case (Inr t)
    note ct = create_temp_upto [OF Pair [unfolded Inr]]
    have tt: "target \<noteq> t" using ct assms(2) by auto
    obtain r1 d2 where w: "write_temp target b m t d1 = (r1, d2)" by (metis surj_pair)
    obtain r2 d3 where s: "bind_io (write_temp target b m t) (\<lambda>_. sync_directory) d1 = (r2, d3)" by (metis surj_pair)
    obtain q d4 where rm: "remove_file t d3 = (q, d4)" by (metis surj_pair)
    have d': "d' = d4" "r = r2" using assms(1) Pair Inr s rm by (auto simp: update_write_def)
    have k: "lookup d3 = lookup d2 \<and> (r2 = Inr () \<longrightarrow> r1 = Inr ())"
    proof (cases r1)
      case (Inl x)
      then show ?thesis using s w by (simp add: bind_io_def)
    next
      case (Inr x)
      then have "sync_directory d2 = (r2, d3)" using s w by (simp add: bind_io_def)
      then show ?thesis using Inr sync_directory_keeps by simp
    qed
    have sp: "(r1 \<noteq> Inr () \<and> upto_temp t d d2) \<or> (r1 = Inr () \<and> lookup d2 = (lookup d)(target \<mapsto> Reg b m))"
      using write_temp_spec [OF w] ct tt by blast
    have l4: "lookup d4 n = lookup d2 n" if "n \<noteq> t" for n
      using remove_file_cases [OF rm] k that by (metis fun_upd_other)
    have o2: "lookup d2 n = lookup d n" if "n \<noteq> t" "n \<noteq> target" for n
      using sp that by (auto simp: upto_temp_def)
    have "lookup d2 target = lookup d target \<or> lookup d2 target = Some (Reg b m)"
      using sp tt by (auto simp: upto_temp_def)
    moreover have "r = Inr () \<Longrightarrow> lookup d2 target = Some (Reg b m)" using sp k d' by auto
    moreover have "lookup d' n = lookup d n" if "n \<noteq> target" "\<not> has_prefix n (update_temp target)" for n
      using that l4 [of n] o2 [of n] ct d'(1) by metis
    moreover have "lookup d' target = lookup d2 target" using l4 [OF tt] d'(1) by simp
    ultimately show ?thesis by simp
  qed
qed

text \<open>A replacement whose file was renamed into place and whose directory then failed to sync.\<close>

definition sync_failed :: "string \<Rightarrow> bytes \<Rightarrow> nat \<Rightarrow> disk \<Rightarrow> error \<Rightarrow> bool" where
  "sync_failed target b m d e \<longleftrightarrow> (\<exists>tmp d1 d2 d3. create_temp (update_temp target) d = (Inr tmp, d1) \<and>
     write_temp target b m tmp d1 = (Inr (), d2) \<and> sync_directory d2 = (Inl e, d3))"

lemma update_write_failed:
  assumes "update_write target b m d = (Inl e, d')" and "\<not> has_prefix target (update_temp target)"
  shows "lookup d' target = lookup d target \<or> sync_failed target b m d e"
proof (cases "create_temp (update_temp target) d")
  case (Pair c d1)
  show ?thesis
  proof (cases c)
    case (Inl x)
    then have "d' = d1" using assms(1) Pair by (auto simp: update_write_def)
    then show ?thesis using create_temp_Inl [OF Pair [unfolded Inl]] by simp
  next
    case (Inr tmp)
    note ct = create_temp_upto [OF Pair [unfolded Inr]]
    have tt: "target \<noteq> tmp" using ct assms(2) by auto
    obtain r1 d2 where w: "write_temp target b m tmp d1 = (r1, d2)" by (metis surj_pair)
    show ?thesis
    proof (cases r1)
      case (Inl x)
      then obtain q where rm: "remove_file tmp d2 = (q, d')"
        using assms(1) Pair Inr w by (cases "remove_file tmp d2") (auto simp: update_write_def bind_io_def)
      have "upto_temp tmp d d2" using write_temp_spec [OF w] ct tt Inl by auto
      then show ?thesis using remove_file_cases [OF rm] tt by (auto simp: upto_temp_def)
    next
      case (Inr u)
      then have "\<exists>d3. sync_directory d2 = (Inl e, d3)"
        using assms(1) Pair \<open>c = Inr tmp\<close> w by (cases "sync_directory d2") (auto simp: update_write_def bind_io_def)
      with Pair \<open>c = Inr tmp\<close> w Inr show ?thesis by (auto simp: sync_failed_def)
    qed
  qed
qed

lemma snapshot_file_spec:
  "snapshot_file p d = (r, d') \<Longrightarrow> lookup d' = lookup d \<and> (\<forall>s. r = Inr s \<longrightarrow> lookup d p = Some (Reg (fst s) (snd s)))"
proof -
  assume a: "snapshot_file p d = (r, d')"
  obtain q d1 where st: "stat_file p d = (q, d1)" by (metis surj_pair)
  note k = stat_file_keeps [OF st]
  have q: "q = Inr x \<Longrightarrow> lookup d p = Some x" for x
    using st by (auto simp: stat_file_def elim!: call_cases split: option.splits)
  obtain q2 d2 where rd: "read_file p d1 = (q2, d2)" by (metis surj_pair)
  note k2 = read_file_keeps [OF rd]
  show ?thesis using a st k k2 q rd read_file_Inr [of p d1 _ d2]
    by (cases q) (auto simp: snapshot_file_def bind_io_def fail_io_def return_io_def split: node.splits sum.splits)
qed

section \<open>Commands leave the files alone\<close>

lemma run_command_files: "run_command rn cmd m = (r, m') \<Longrightarrow> Files m' = Files m"
  by (auto simp: run_command_def on_world_def split: if_splits prod.splits)

lemma health_loop_files: "health_loop rn cmd iv k m = (r, m') \<Longrightarrow> Files m' = Files m"
proof (induction rn cmd iv k m rule: health_loop.induct)
  case (2 rn cmd iv k m)
  obtain q m1 where c: "run_command rn cmd m = (q, m1)" by (metis surj_pair)
  have f: "Files m1 = Files m" by (rule run_command_files [OF c])
  show ?case
  proof (cases q)
    case (Inl e)
    then show ?thesis using 2 c f by simp
  next
    case (Inr u)
    obtain cancelled w where p: "Pause rn (World m1) = (cancelled, w)" by (metis surj_pair)
    show ?thesis using 2 c f Inr p by (auto split: if_splits)
  qed
qed simp

lemma wait_health_files: "wait_for_sustained_health rn cmd n iv m = (r, m') \<Longrightarrow> Files m' = Files m"
  by (auto simp: wait_for_sustained_health_def simp del: health_loop.simps dest: health_loop_files split: if_splits)

lemma verify_version_files: "verify_version env pf target m = (r, m') \<Longrightarrow> Files m' = Files m"
  by (auto simp: verify_version_def on_world_def split: prod.splits sum.splits if_splits)

lemma on_world_files: "on_world f m = (r, m') \<Longrightarrow> Files m' = Files m"
  by (auto simp: on_world_def split: prod.splits)

section \<open>The two managed files\<close>

definition managed :: "platform \<Rightarrow> disk \<Rightarrow> node option \<times> node option" where
  "managed pf d = (lookup d (BinaryPath pf), lookup d (ServicePath pf))"

definition paths_ok :: "platform \<Rightarrow> bool" where
  "paths_ok pf \<longleftrightarrow> distinct [BinaryPath pf, ServicePath pf, lock_path pf] \<and>
     (\<forall>p \<in> set [BinaryPath pf, ServicePath pf, lock_path pf].
        \<not> has_prefix p (update_temp (BinaryPath pf)) \<and> \<not> has_prefix p (update_temp (ServicePath pf)))"

lemma platform_paths:
  "dir_of ''/usr/local/sbin/homelab-inventory-agent'' = ''/usr/local/sbin''"
  "dir_of ''/etc/systemd/system/homelab-inventory-agent.service'' = ''/etc/systemd/system''"
  "dir_of ''/etc/init.d/homelab-inventory-agent'' = ''/etc/init.d''"
  "dir_of ''/usr/local/etc/rc.d/homelab_inventory_agent'' = ''/usr/local/etc/rc.d''"
  by code_simp+

lemma default_platform_ok: "default_platform os arch de ce = Inr pf \<Longrightarrow> paths_ok pf"
  by (auto simp: default_platform_def linux_platform_def bind_result_Inr_iff paths_ok_def lock_path_def
      update_temp_def platform_paths has_prefix_def split: if_splits)

lemma write_binary_managed:
  assumes "paths_ok pf" and "update_write (BinaryPath pf) b m d = (r, d')"
  shows "snd (managed pf d') = snd (managed pf d)"
    and "fst (managed pf d') = fst (managed pf d) \<or> fst (managed pf d') = Some (Reg b m)"
    and "r = Inr () \<Longrightarrow> fst (managed pf d') = Some (Reg b m)"
  using update_write_spec [OF assms(2)] assms(1) by (auto simp: managed_def paths_ok_def)

lemma write_service_managed:
  assumes "paths_ok pf" and "update_write (ServicePath pf) b m d = (r, d')"
  shows "fst (managed pf d') = fst (managed pf d)"
    and "r = Inr () \<Longrightarrow> snd (managed pf d') = Some (Reg b m)"
  using update_write_spec [OF assms(2)] assms(1) by (auto simp: managed_def paths_ok_def)

definition saved_node :: "saved \<Rightarrow> node" where
  "saved_node s = Reg (fst s) (snd s)"

lemma restore_files_spec:
  assumes "paths_ok pf" and "restore_files pf replaced ob os d = (ok, d')"
  shows "(\<not> replaced \<longrightarrow> d' = d \<and> ok) \<and>
    (replaced \<and> ok \<longrightarrow> managed pf d' = (Some (saved_node ob), Some (saved_node os)))"
proof (cases replaced)
  case True
  obtain r1 d1 where w1: "update_write (BinaryPath pf) (fst ob) (snd ob) d = (r1, d1)" by (metis surj_pair)
  obtain r2 d2 where w2: "update_write (ServicePath pf) (fst os) (snd os) d1 = (r2, d2)" by (metis surj_pair)
  have "d' = d2" "ok \<longleftrightarrow> r1 = Inr () \<and> r2 = Inr ()" using assms(2) True w1 w2 by (auto simp: restore_files_def)
  then show ?thesis using True write_binary_managed(3) [OF assms(1) w1] write_service_managed [OF assms(1) w2]
    by (auto simp: saved_node_def prod_eq_iff)
qed (use assms(2) in \<open>simp add: restore_files_def\<close>)

lemma rollback_spec:
  assumes "paths_ok pf" and "rollback env pf replaced ob os cause m = (e, m')"
    and "e \<noteq> incomplete" and "e \<noteq> unrestored"
  shows "(if replaced then managed pf (Files m') = (Some (saved_node ob), Some (saved_node os))
    else Files m' = Files m) \<and> e = cause"
proof -
  obtain ok d where rs: "restore_files pf replaced ob os (Files m) = (ok, d)" by (metis surj_pair)
  obtain r1 m1 where c1: "run_command (Runner env) (ReloadCmd pf) (m\<lparr>Files := d\<rparr>) = (r1, m1)" by (metis surj_pair)
  obtain r2 m2 where c2: "run_command (Runner env) (StartCmd pf) m1 = (r2, m2)" by (metis surj_pair)
  obtain r3 m3 where c3: "wait_for_sustained_health (Runner env) (HealthCmd pf) (HealthChecks env) (HealthInterval env) m2 = (r3, m3)"
    by (metis surj_pair)
  have f: "Files m1 = d" "Files m2 = d" "Files m3 = d"
    using run_command_files [OF c1] run_command_files [OF c2] wait_health_files [OF c3] by simp_all
  have "Files m' = d" and "ok" and "e = cause"
    using assms(2-4) rs c1 c2 c3 f by (cases r2; auto simp: rollback_def split: if_splits)+
  then show ?thesis using restore_files_spec [OF assms(1) rs] by simp
qed

lemma guarded_Inr: "guarded env pf rp ob os f m = (Inr x, m') \<Longrightarrow> f m = (Inr x, m')"
  by (auto simp: guarded_def split: prod.splits sum.splits)

lemma guarded_InlE:
  assumes "guarded env pf rp ob os f m = (Inl e, m')"
  obtains c m1 where "f m = (Inl c, m1)" and "rollback env pf rp ob os c m1 = (e, m')"
  using assms by (auto simp: guarded_def split: prod.splits sum.splits)

lemma on_disk_Files: "on_disk f m = (r, m') \<Longrightarrow> f (Files m) = (r, Files m')"
  by (auto simp: on_disk_def split: prod.splits)

lemma install_ok:
  assumes "paths_ok pf" and "install env pf target bin svc ob os m = (Inr (), m')"
  shows "managed pf (Files m') = (Some (Reg bin mode_755), Some (Reg svc (ServiceMode pf)))"
proof -
  obtain m1 where a: "on_disk (update_write (BinaryPath pf) bin mode_755) m = (Inr (), m1)"
    and "bind_io (on_disk (update_write (ServicePath pf) svc (ServiceMode pf))) (\<lambda>_.
        bind_io (verify_version env pf target) (\<lambda>_.
        bind_io (run_command (Runner env) (ReloadCmd pf)) (\<lambda>_.
        bind_io (run_command (Runner env) (StartCmd pf)) (\<lambda>_.
        wait_for_sustained_health (Runner env) (HealthCmd pf) (HealthChecks env) (HealthInterval env))))) m1 = (Inr (), m')"
    using assms(2) unfolding install_def by (auto elim!: bind_io_InrE dest!: guarded_Inr)
  then obtain m2 m3 m4 m5 where b: "on_disk (update_write (ServicePath pf) svc (ServiceMode pf)) m1 = (Inr (), m2)"
    and "verify_version env pf target m2 = (Inr (), m3)" "run_command (Runner env) (ReloadCmd pf) m3 = (Inr (), m4)"
    "run_command (Runner env) (StartCmd pf) m4 = (Inr (), m5)"
    "wait_for_sustained_health (Runner env) (HealthCmd pf) (HealthChecks env) (HealthInterval env) m5 = (Inr (), m')"
    by (auto elim!: bind_io_InrE)
  then have "Files m' = Files m2" using verify_version_files run_command_files wait_health_files by metis
  then show ?thesis
    using write_binary_managed(3) [OF assms(1) on_disk_Files [OF a]] write_service_managed [OF assms(1) on_disk_Files [OF b]]
    by (simp add: prod_eq_iff)
qed

lemma install_failed:
  assumes "paths_ok pf" and "install env pf target bin svc ob os m = (Inl e, m')"
    and "managed pf (Files m) = (Some (saved_node ob), Some (saved_node os))"
    and "e \<noteq> incomplete" and "e \<noteq> unrestored"
  shows "managed pf (Files m') = managed pf (Files m) \<or>
    managed pf (Files m') = (Some (Reg bin mode_755), snd (managed pf (Files m))) \<and>
      sync_failed (BinaryPath pf) bin mode_755 (Files m) e"
  using assms(2) unfolding install_def
proof (cases rule: bind_io_InlE)
  case first
  then obtain c m1 where a: "on_disk (update_write (BinaryPath pf) bin mode_755) m = (Inl c, m1)"
    and rb: "rollback env pf False ob os c m1 = (e, m')" by (rule guarded_InlE)
  have "Files m' = Files m1" "e = c" using rollback_spec [OF assms(1) rb assms(4,5)] by simp_all
  moreover have "fst (managed pf (Files m1)) = fst (managed pf (Files m)) \<or> sync_failed (BinaryPath pf) bin mode_755 (Files m) c"
    using update_write_failed [OF on_disk_Files [OF a]] assms(1) by (auto simp: managed_def paths_ok_def)
  ultimately show ?thesis
    using write_binary_managed(1,2) [OF assms(1) on_disk_Files [OF a]] by (auto simp: prod_eq_iff)
next
  case (second x m1)
  then obtain c m2 where "rollback env pf True ob os c m2 = (e, m')" using guarded_InlE by blast
  from rollback_spec [OF assms(1) this assms(4,5)] assms(3) show ?thesis by simp
qed

section \<open>Under the lock\<close>

text \<open>
  A value the release server answered with: the request went to the reference, resolved on the configured
  origin, the status was a success and the value is what \<open>read\<close> makes of the answer.
\<close>

definition served :: "'w release_client \<Rightarrow> string \<Rightarrow> (http_response \<Rightarrow> 'a result) \<Rightarrow> 'w \<Rightarrow> 'a \<Rightarrow> 'w \<Rightarrow> bool" where
  "served c ref read w x w' \<longleftrightarrow> (\<exists>u response. Resolve c ref = Inr u \<and> same_origin (Origin c) u \<and>
     Http c (get_request (UrlText u)) w = (Inr response, w') \<and> success_status response \<and> read response = Inr x)"

definition manifest_reference :: "string \<Rightarrow> string \<Rightarrow> string" where
  "manifest_reference version url = (if url = [] then release_path version @ ''manifest.json'' else url)"

lemma resolve_reference_Inr: "resolve_reference c ref = Inr u \<Longrightarrow> Resolve c ref = Inr u \<and> same_origin (Origin c) u"
  by (auto simp: resolve_reference_def bind_result_Inr_iff split: if_splits)

lemma fetch_manifest_served:
  assumes "fetch_manifest c version url w = (Inr mf, w')"
  shows "served c (manifest_reference version url) (\<lambda>r. decode_response decode_manifest r max_metadata_bytes) w mf w'"
proof -
  have same: "m = r" if "check_manifest version r = Inr m" for m r
    using that by (auto simp: check_manifest_def bind_result_Inr_iff split: if_splits)
  obtain u response result where "resolve_reference c (manifest_reference version url) = Inr u"
    and "Http c (get_request (UrlText u)) w = (Inr response, w')"
    and d: "decode_response decode_manifest response max_metadata_bytes = Inr result" and "check_manifest version result = Inr mf"
    using assms unfolding fetch_manifest_def lift_io_def manifest_reference_def by (auto elim!: bind_io_InrE)
  moreover have "success_status response" using d by (auto simp: decode_response_def split: if_splits)
  ultimately show ?thesis using same resolve_reference_Inr unfolding served_def by blast
qed

definition verified :: "'w release_client \<Rightarrow> asset \<Rightarrow> bytes \<Rightarrow> bool" where
  "verified c a b \<longleftrightarrow> int (length b) = AssetBytes a \<and> Sha256Hex c b = SHA256 a"

lemma download_Inr:
  assumes "download c version item w = (Inr body, w')"
  shows "served c (release_path version @ AssetPath item) (read_limited (nat (AssetBytes item + 1))) w body w' \<and> verified c item body"
proof -
  obtain u response where "resolve_reference c (release_path version @ AssetPath item) = Inr u"
    and "Http c (get_request (UrlText u)) w = (Inr response, w')" and "success_status response"
    and "read_limited (nat (AssetBytes item + 1)) response = Inr body" and "verified c item body"
    using assms unfolding download_def
    by (auto simp: return_io_def fail_io_def lift_io_def verified_def elim!: bind_io_InrE split: if_splits)
  then show ?thesis using resolve_reference_Inr unfolding served_def by blast
qed

lemma find_asset_Some: "find_asset mf name = Some a \<Longrightarrow> a \<in> set (Assets mf) \<and> AssetPath a = name"
  unfolding find_asset_def by (auto dest!: map_of_SomeD)

text \<open>
  The steps of an update before the installation: the manifest, the two downloads, the snapshots of the two
  files and the stopped service. What follows is the installation.
\<close>

definition before_install :: "'w update_env \<Rightarrow> platform \<Rightarrow> 'w release_client \<Rightarrow> string \<Rightarrow> string \<Rightarrow>
    'w machine \<Rightarrow> (bytes \<times> bytes \<times> saved \<times> saved) result \<times> 'w machine" where
  "before_install env pf c target url =
     bind_io (on_world (fetch_manifest c target url)) (\<lambda>mf.
       (case (find_asset mf (BinaryAsset pf), find_asset mf (ServiceAsset pf)) of
          (Some ba, Some sa) \<Rightarrow>
            bind_io (on_world (download c target ba)) (\<lambda>bin.
            bind_io (on_world (download c target sa)) (\<lambda>svc.
            bind_io (on_disk (snapshot_file (BinaryPath pf))) (\<lambda>ob.
            bind_io (on_disk (snapshot_file (ServicePath pf))) (\<lambda>os.
            bind_io (run_command (Runner env) (StopCmd pf)) (\<lambda>_. return_io (bin, svc, ob, os))))))
        | _ \<Rightarrow> fail_io (Msg ''agent release does not support this platform'')))"

lemma bind_io_assoc: "bind_io (bind_io f g) h = bind_io f (\<lambda>x. bind_io (g x) h)"
  by (rule ext) (simp add: bind_io_def split: prod.split sum.split)

lemma bind_io_ends [simp]: "bind_io (return_io x) f = f x" "bind_io (fail_io e) f = fail_io e"
  by (rule ext, simp add: bind_io_def return_io_def fail_io_def)+

lemma update_locked_install:
  "update_locked env pf c target url =
     bind_io (before_install env pf c target url) (\<lambda>(bin, svc, ob, os). install env pf target bin svc ob os)"
proof -
  have "(case (x, y) of (Some ba, Some sa) \<Rightarrow> f ba sa | _ \<Rightarrow> fail_io e) =
      (case x of None \<Rightarrow> fail_io e | Some ba \<Rightarrow> (case y of None \<Rightarrow> fail_io e | Some sa \<Rightarrow> f ba sa))" for x y f e
    by (simp split: option.split)
  then show ?thesis
    unfolding update_locked_def before_install_def bind_io_assoc
    by (intro arg_cong2 [where f = bind_io] refl ext) (simp add: bind_io_assoc split: option.split)
qed

text \<open>What holds when they have all succeeded, and that they leave the files alone.\<close>

lemma before_install_Inr:
  assumes "before_install env pf c target url m = (Inr (bin, svc, ob, os), m')"
  obtains mf ba sa w1 w2 w3 where "fetch_manifest c target url (World m) = (Inr mf, w1)"
    and "find_asset mf (BinaryAsset pf) = Some ba" and "find_asset mf (ServiceAsset pf) = Some sa"
    and "download c target ba w1 = (Inr bin, w2)" and "download c target sa w2 = (Inr svc, w3)"
    and "managed pf (Files m) = (Some (saved_node ob), Some (saved_node os))"
proof -
  have world: "\<exists>w. f (World n) = (Inr x, w) \<and> n' = n\<lparr>World := w\<rparr>" if "on_world f n = (Inr x, n')" for f n x n'
    using that by (auto simp: on_world_def split: prod.splits)
  from assms obtain mf m1 ba sa m2 m3 m4 m5 where 1: "on_world (fetch_manifest c target url) m = (Inr mf, m1)"
    and as: "find_asset mf (BinaryAsset pf) = Some ba" "find_asset mf (ServiceAsset pf) = Some sa"
    and 2: "on_world (download c target ba) m1 = (Inr bin, m2)" and 3: "on_world (download c target sa) m2 = (Inr svc, m3)"
    and 4: "on_disk (snapshot_file (BinaryPath pf)) m3 = (Inr ob, m4)" and 5: "on_disk (snapshot_file (ServicePath pf)) m4 = (Inr os, m5)"
    unfolding before_install_def by (auto simp: return_io_def fail_io_def elim!: bind_io_InrE split: option.splits)
  obtain w1 where w1: "fetch_manifest c target url (World m) = (Inr mf, w1)" "m1 = m\<lparr>World := w1\<rparr>" using world [OF 1] by blast
  obtain w2 where w2: "download c target ba w1 = (Inr bin, w2)" "m2 = m1\<lparr>World := w2\<rparr>" using world [OF 2] w1 by auto
  obtain w3 where w3: "download c target sa w2 = (Inr svc, w3)" "m3 = m2\<lparr>World := w3\<rparr>" using world [OF 3] w2 by auto
  have "Files m3 = Files m" using w1 w2 w3 by simp
  then have "managed pf (Files m) = (Some (saved_node ob), Some (saved_node os))"
    using snapshot_file_spec [OF on_disk_Files [OF 4]] snapshot_file_spec [OF on_disk_Files [OF 5]]
    by (simp add: managed_def saved_node_def)
  with that w1(1) as w2(1) w3(1) show thesis by blast
qed

definition same_lookup :: "'w machine \<Rightarrow> 'w machine \<Rightarrow> bool" where
  "same_lookup m m' \<longleftrightarrow> lookup (Files m') = lookup (Files m)"

lemma same_lookup_bind:
  assumes "same_lookup m (snd (f m))" and "\<And>x m'. same_lookup m' (snd (g x m'))"
  shows "same_lookup m (snd (bind_io f g m))"
  using assms by (auto simp: same_lookup_def bind_io_def split: prod.split sum.split)

lemma same_lookup_steps:
  "same_lookup m (snd (on_world f m))" "same_lookup m (snd (run_command rn cmd m))" "same_lookup m (snd (on_disk (snapshot_file p) m))"
  "same_lookup m (snd (return_io x m))" "same_lookup m (snd (fail_io e m))"
proof -
  show "same_lookup m (snd (on_world f m))" using on_world_files [of f m] by (cases "on_world f m") (simp add: same_lookup_def)
  show "same_lookup m (snd (run_command rn cmd m))"
    using run_command_files [of rn cmd m] by (cases "run_command rn cmd m") (simp add: same_lookup_def)
  obtain r m' where "on_disk (snapshot_file p) m = (r, m')" by fastforce
  with snapshot_file_spec [OF on_disk_Files [OF this]] show "same_lookup m (snd (on_disk (snapshot_file p) m))" by (simp add: same_lookup_def)
qed (simp_all add: same_lookup_def return_io_def fail_io_def)

lemma before_install_keeps: "before_install env pf c target url m = (r, m') \<Longrightarrow> managed pf (Files m') = managed pf (Files m)"
proof -
  assume b: "before_install env pf c target url m = (r, m')"
  have "same_lookup m (snd (before_install env pf c target url m))"
    unfolding before_install_def
    by (auto intro!: same_lookup_bind same_lookup_steps split: option.split)
  with b show ?thesis by (simp add: same_lookup_def managed_def)
qed

lemma update_locked_cases:
  assumes "update_locked env pf c target url m = (r, m')"
  obtains (early) e where "r = Inl e" and "managed pf (Files m') = managed pf (Files m)"
    | (installed) bin svc ob os m1 where "before_install env pf c target url m = (Inr (bin, svc, ob, os), m1)"
        and "managed pf (Files m1) = managed pf (Files m)"
        and "install env pf target bin svc ob os m1 = (r, m')"
proof -
  obtain q m1 where b: "before_install env pf c target url m = (q, m1)" by fastforce
  note k = before_install_keeps [OF b]
  show thesis
  proof (cases q)
    case (Inl e)
    with assms b k early show thesis by (auto simp: update_locked_install bind_io_def)
  next
    case (Inr x)
    obtain bin svc ob os where "x = (bin, svc, ob, os)" by (metis surj_pair)
    with assms b Inr k installed show thesis by (auto simp: update_locked_install bind_io_def)
  qed
qed

section \<open>The whole run\<close>

text \<open>Up to the lock nothing touches a file.\<close>

lemma run_update_cases:
  assumes "run_update env cfg (Inr pf) client opts m = (r, m')"
  obtains (untouched) "Files m' = Files m" and "\<forall>res. r = Inr res \<longrightarrow> \<not> Updated res"
    | (locked) c target url w w1 k m1 r1 m2 where "client = Inr c" and "\<not> CheckOnly opts"
        and "choose_target c opts m = (Inr (target, url), m\<lparr>World := w\<rparr>)"
        and "compare_versions (CurrentVersion opts) target = Inr k" and "Requested opts = [] \<longrightarrow> k < 0"
        and "on_disk (create_exclusive (lock_path pf)) (m\<lparr>World := w\<rparr>) = (w1, m1)"
        and "case w1 of Inl e \<Rightarrow> r = Inl e \<and> m' = m1
             | Inr _ \<Rightarrow> update_locked (with_defaults env) pf c target url m1 = (r1, m2) \<and>
                 m' = m2\<lparr>Files := snd (remove_file (lock_path pf) (Files m2))\<rparr> \<and>
                 r = bind_result r1 (\<lambda>_. Inr \<lparr>ResCurrent = CurrentVersion opts, ResTarget = target,
                                              UpdateAvailable = k < 0, Updated = True\<rparr>)"
proof -
  show thesis
  proof (cases "EffectiveUserID opts \<noteq> 0 \<or> (\<exists>e. parse_version (CurrentVersion opts) = Inl e) \<or>
      (\<exists>e. cfg = Inl e) \<or> (\<exists>e. client = Inl e)")
    case True
    then have "m' = m \<and> (\<exists>e. r = Inl e)" using assms
      by (cases "parse_version (CurrentVersion opts)"; cases cfg; cases client)
        (auto simp: run_update_def fail_io_def bind_io_def lift_io_def split: if_splits)
    with untouched show thesis by auto
  next
    case False
    then obtain v u c where ok: "EffectiveUserID opts = 0" "parse_version (CurrentVersion opts) = Inr v"
      "cfg = Inr u" "client = Inr c"
      by (cases "parse_version (CurrentVersion opts)"; cases cfg; cases client) auto
    obtain q1 m1 where ch: "choose_target c opts m = (q1, m1)" by (metis surj_pair)
    have k1: "Files m1 = Files m" "\<exists>w. m1 = m\<lparr>World := w\<rparr>"
    proof -
      have "\<exists>w. m1 = m\<lparr>World := w\<rparr>"
      proof (cases "Requested opts = []")
        case True
        then show ?thesis using ch
          by (auto simp: choose_target_def bind_io_def return_io_def on_world_def split: prod.splits sum.splits)
      next
        case False
        then have "m1 = m\<lparr>World := World m\<rparr>" using ch by (simp add: choose_target_def return_io_def)
        then show ?thesis by blast
      qed
      then show "Files m1 = Files m" "\<exists>w. m1 = m\<lparr>World := w\<rparr>" by auto
    qed
    show thesis
    proof (cases "\<exists>t u k. q1 = Inr (t, u) \<and> compare_versions (CurrentVersion opts) t = Inr k")
      case False
      then have "m' = m1 \<and> (\<exists>e. r = Inl e)" using assms ok ch
        by (cases q1) (auto simp: run_update_def bind_io_def lift_io_def split: sum.splits)
      with untouched k1 show thesis by auto
    next
      case True
      then obtain t url k where q: "q1 = Inr (t, url)" "compare_versions (CurrentVersion opts) t = Inr k" by blast
      let ?res = "\<lparr>ResCurrent = CurrentVersion opts, ResTarget = t, UpdateAvailable = k < 0, Updated = False\<rparr>"
      show thesis
      proof (cases "(Requested opts = [] \<and> k \<ge> 0) \<or> CheckOnly opts")
        case True
        then have "m' = m1 \<and> r = Inr ?res" using assms ok ch q
          by (auto simp: run_update_def bind_io_def lift_io_def return_io_def Let_def)
        with untouched k1 show thesis by auto
      next
        case go: False
        obtain w where w: "m1 = m\<lparr>World := w\<rparr>" using k1 by blast
        obtain q2 m2 where cr: "on_disk (create_exclusive (lock_path pf)) m1 = (q2, m2)" by (metis surj_pair)
        obtain r1 m3 where ul: "update_locked (with_defaults env) pf c t url m2 = (r1, m3)" by (metis surj_pair)
        have "case q2 of Inl e \<Rightarrow> r = Inl e \<and> m' = m2
             | Inr _ \<Rightarrow> update_locked (with_defaults env) pf c t url m2 = (r1, m3) \<and>
                 m' = m3\<lparr>Files := snd (remove_file (lock_path pf) (Files m3))\<rparr> \<and>
                 r = bind_result r1 (\<lambda>_. Inr \<lparr>ResCurrent = CurrentVersion opts, ResTarget = t,
                                              UpdateAvailable = k < 0, Updated = True\<rparr>)"
          using assms ok ch q go cr ul
          by (cases q2) (auto simp: run_update_def bind_io_def lift_io_def Let_def)
        then show thesis using go by (intro locked [OF ok(4) _ ch [unfolded q(1) w] q(2) _ cr [unfolded w]]) auto
      qed
    qed
  qed
qed

lemma create_exclusive_spec:
  "create_exclusive n d = (r, d') \<Longrightarrow>
   (r = Inr () \<and> lookup d n = None \<and> lookup d' = (lookup d)(n \<mapsto> Reg [] mode_600)) \<or>
   ((\<exists>e. r = Inl e) \<and> lookup d' = lookup d)"
  unfolding create_exclusive_def by (erule call_cases) (auto split: option.splits)

lemma lock_managed:
  assumes "paths_ok pf"
  shows "on_disk (create_exclusive (lock_path pf)) m = (r, m') \<Longrightarrow> managed pf (Files m') = managed pf (Files m)"
    and "managed pf (snd (remove_file (lock_path pf) d)) = managed pf d"
proof -
  show "managed pf (Files m') = managed pf (Files m)" if "on_disk (create_exclusive (lock_path pf)) m = (r, m')"
    using create_exclusive_spec [OF on_disk_Files [OF that]] assms
    by (auto simp: managed_def paths_ok_def)
  obtain q d' where "remove_file (lock_path pf) d = (q, d')" by (metis surj_pair)
  then show "managed pf (snd (remove_file (lock_path pf) d)) = managed pf d"
    using remove_file_cases [of "lock_path pf" d q d'] assms by (auto simp: managed_def paths_ok_def)
qed

section \<open>Properties\<close>

text \<open>
  C13: an update that reports success, on any platform the updater selects: the release server answered with
  a manifest for exactly the reported version, chosen by request or as the current release, and the manifest
  passed its checks; the executable (mode 0755) and the service file in place are what the server then
  answered for the manifest's entry of this platform's executable and for its entry of the service file, each
  of the size and digest of its own entry; without a requested version it was newer than the running one.
\<close>

theorem update_installs_verified:
  assumes "run_update env cfg (default_platform os arch de ce) client opts m = (Inr res, m')" and "Updated res"
  shows "\<exists>pf c url w mf ba sa bin svc w1 w2 w3 k. default_platform os arch de ce = Inr pf \<and> client = Inr c \<and>
    choose_target c opts m = (Inr (ResTarget res, url), m\<lparr>World := w\<rparr>) \<and>
    served c (manifest_reference (ResTarget res) url) (\<lambda>r. decode_response decode_manifest r max_metadata_bytes) w mf w1 \<and>
    check_manifest (ResTarget res) mf = Inr mf \<and>
    ba \<in> set (Assets mf) \<and> AssetPath ba = BinaryAsset pf \<and> verified c ba bin \<and>
    served c (release_path (ResTarget res) @ BinaryAsset pf) (read_limited (nat (AssetBytes ba + 1))) w1 bin w2 \<and>
    sa \<in> set (Assets mf) \<and> AssetPath sa = ServiceAsset pf \<and> verified c sa svc \<and>
    served c (release_path (ResTarget res) @ ServiceAsset pf) (read_limited (nat (AssetBytes sa + 1))) w2 svc w3 \<and>
    managed pf (Files m') = (Some (Reg bin mode_755), Some (Reg svc (ServiceMode pf))) \<and>
    compare_versions (CurrentVersion opts) (ResTarget res) = Inr k \<and> (Requested opts = [] \<longrightarrow> k < 0)"
proof (cases "default_platform os arch de ce")
  case (Inl e)
  then have False using assms(1)
    by (auto simp: run_update_def fail_io_def lift_io_def elim!: bind_io_InrE split: if_splits)
  then show ?thesis ..
next
  case (Inr pf)
  note po = default_platform_ok [OF Inr]
  from assms(1) [unfolded Inr] show ?thesis
  proof (cases rule: run_update_cases)
    case untouched
    with assms(2) show ?thesis by simp
  next
    case (locked c target url w w1 k m1 r1 m2)
    then obtain u where w1: "w1 = Inr u" by (cases w1) auto
    with locked have ul: "update_locked (with_defaults env) pf c target url m1 = (r1, m2)"
      and m': "m' = m2\<lparr>Files := snd (remove_file (lock_path pf) (Files m2))\<rparr>"
      and r1: "r1 = Inr ()" and tg: "ResTarget res = target" by (cases r1; simp)+
    have wm: "World m1 = w" using locked(6) by (auto simp: on_disk_def split: prod.splits)
    from ul [unfolded r1] show ?thesis
    proof (cases rule: update_locked_cases)
      case (installed bin svc ob os m3)
      obtain mf ba sa wa wb wc where f: "fetch_manifest c target url w = (Inr mf, wa)"
        and as: "find_asset mf (BinaryAsset pf) = Some ba" "find_asset mf (ServiceAsset pf) = Some sa"
        and d: "download c target ba wa = (Inr bin, wb)" "download c target sa wb = (Inr svc, wc)"
        using before_install_Inr [OF installed(1)] wm by metis
      have "managed pf (Files m') = managed pf (Files m2)" using lock_managed(2) [OF po] m' by simp
      then have "managed pf (Files m') = (Some (Reg bin mode_755), Some (Reg svc (ServiceMode pf)))"
        using install_ok [OF po installed(3)] by simp
      with locked(1,3,4,5) Inr fetch_manifest_served [OF f] fetch_manifest_Inr [OF f] find_asset_Some [OF as(1)]
        find_asset_Some [OF as(2)] download_Inr [OF d(1)] download_Inr [OF d(2)]
      show ?thesis unfolding tg by metis
    qed simp
  qed
qed

text \<open>
  C12: a failed update: unless the error says the rollback was incomplete or the service could not be
  restored, both managed files are what they were. There is one exception: everything up to the installation
  had succeeded, the new executable was renamed into place, and then its directory failed to sync, which is
  the error; then the new executable stays, beside the old service file.
\<close>

theorem update_failure_restores:
  assumes "run_update env cfg (default_platform os arch de ce) client opts m = (Inl e, m')"
    and "default_platform os arch de ce = Inr pf" and "e \<noteq> incomplete" and "e \<noteq> unrestored"
  shows "managed pf (Files m') = managed pf (Files m) \<or>
    (\<exists>c target url w m1 bin svc ob os m2. client = Inr c \<and> choose_target c opts m = (Inr (target, url), m\<lparr>World := w\<rparr>) \<and>
       on_disk (create_exclusive (lock_path pf)) (m\<lparr>World := w\<rparr>) = (Inr (), m1) \<and>
       before_install (with_defaults env) pf c target url m1 = (Inr (bin, svc, ob, os), m2) \<and>
       sync_failed (BinaryPath pf) bin mode_755 (Files m2) e \<and>
       managed pf (Files m') = (Some (Reg bin mode_755), snd (managed pf (Files m))))"
proof -
  note po = default_platform_ok [OF assms(2)]
  from assms(1) [unfolded assms(2)] show ?thesis
  proof (cases rule: run_update_cases)
    case untouched
    then show ?thesis by simp
  next
    case (locked c target url w w1 k m1 r1 m2)
    have k1: "managed pf (Files m1) = managed pf (Files m)" using lock_managed(1) [OF po locked(6)] by simp
    show ?thesis
    proof (cases w1)
      case (Inl x)
      with locked k1 show ?thesis by simp
    next
      case (Inr u)
      with locked have ul: "update_locked (with_defaults env) pf c target url m1 = (r1, m2)"
        and m': "m' = m2\<lparr>Files := snd (remove_file (lock_path pf) (Files m2))\<rparr>" and r1: "r1 = Inl e"
        by (cases r1; simp)+
      have k2: "managed pf (Files m') = managed pf (Files m2)" using lock_managed(2) [OF po] m' by simp
      from ul [unfolded r1] show ?thesis
      proof (cases rule: update_locked_cases)
        case (early x)
        with k1 k2 show ?thesis by simp
      next
        case (installed bin svc ob os m3)
        have "managed pf (Files m3) = (Some (saved_node ob), Some (saved_node os))"
          using before_install_Inr [OF installed(1)] installed(2) by metis
        from install_failed [OF po installed(3) this assms(3,4)] installed k1 k2 locked(1,3,6) Inr
        show ?thesis by auto
      qed
    qed
  qed
qed

text \<open>
  Nothing is touched when there is nothing to do or no right to do it: with only a check
  asked for no file changes; with the lock file present the update is refused and no file content
  changes.
\<close>

theorem update_refusals:
  assumes "run_update env cfg (Inr pf) client opts m = (r, m')"
  shows "(CheckOnly opts \<longrightarrow> Files m' = Files m \<and> (\<forall>res. r = Inr res \<longrightarrow> \<not> Updated res)) \<and>
    (lookup (Files m) (lock_path pf) \<noteq> None \<longrightarrow>
       lookup (Files m') = lookup (Files m) \<and> (\<forall>res. r = Inr res \<longrightarrow> \<not> Updated res))"
  using assms
proof (cases rule: run_update_cases)
  case (locked c target url w w1 k m1 r1 m2)
  have "\<exists>e. w1 = Inl e \<and> lookup (Files m1) = lookup (Files m)" if "lookup (Files m) (lock_path pf) \<noteq> None"
    using create_exclusive_spec [OF on_disk_Files [OF locked(6)]] that by auto
  then show ?thesis using locked by auto
qed auto

section \<open>On a working machine\<close>

lemma update_write_fault_free:
  assumes "fault_free d" and "lookup d target \<noteq> Some Directory" and "\<not> has_prefix target (update_temp target)"
  shows "\<exists>d'. update_write target b m d = (Inr (), d') \<and> fault_free d'"
proof -
  let ?t = "temp_name (update_temp target) d"
  have t: "lookup d ?t = None" "target \<noteq> ?t" using temp_name_free temp_name_prefix assms(3) by metis+
  show ?thesis using t assms(1,2)
    by (auto simp: update_write_def write_temp_def sync_directory_def bind_io_def call_defs call_fault_free
        write_file_fault_free)
qed

text \<open>Commands that all succeed, and a new executable that reports the version.\<close>

definition obliging :: "'w runner \<Rightarrow> string \<Rightarrow> bool" where
  "obliging rn target \<longleftrightarrow> (\<forall>cmd d w. fst (RunCmd rn cmd d w) = Inr ()) \<and>
     (\<forall>cmd d w. \<exists>out. fst (OutputCmd rn cmd d w) = Inr out \<and> trim_space out = target) \<and>
     (\<forall>w. \<not> fst (Pause rn w))"

lemma obliging_run:
  assumes "obliging rn target"
  shows "\<exists>m'. run_command rn cmd m = (Inr (), m') \<and> Files m' = Files m"
proof -
  obtain r w where c: "RunCmd rn cmd (Files m) (World m) = (r, w)" by (metis surj_pair)
  then have "r = Inr ()" using assms unfolding obliging_def by (metis fst_conv)
  with c show ?thesis by (simp add: run_command_def on_world_def)
qed

lemma obliging_health: "obliging rn target \<Longrightarrow> \<exists>m'. health_loop rn cmd iv k m = (Inr (), m')"
proof (induction k arbitrary: m)
  case (Suc k)
  obtain m1 where c: "run_command rn cmd m = (Inr (), m1)" using obliging_run [OF Suc.prems] by blast
  obtain b w where p: "Pause rn (World m1) = (b, w)" by (metis surj_pair)
  then have "\<not> b" using Suc.prems unfolding obliging_def by (metis fst_conv)
  then show ?case using c p Suc.IH [OF Suc.prems] by simp
qed simp

lemma install_succeeds:
  assumes "paths_ok pf" and "obliging (Runner env) target" and "fault_free (Files m)"
    and "managed pf (Files m) = (Some (saved_node ob), Some (saved_node os))"
  shows "\<exists>m'. install env pf target bin svc ob os m = (Inr (), m')"
proof -
  have l: "lookup (Files m) (BinaryPath pf) \<noteq> Some Directory" "lookup (Files m) (ServicePath pf) \<noteq> Some Directory"
    using assms(4) by (auto simp: managed_def saved_node_def)
  obtain d1 where w1: "update_write (BinaryPath pf) bin mode_755 (Files m) = (Inr (), d1)" and f1: "fault_free d1"
    using update_write_fault_free [OF assms(3) l(1)] assms(1) by (auto simp: paths_ok_def)
  have "lookup d1 (ServicePath pf) \<noteq> Some Directory"
    using write_binary_managed(1) [OF assms(1) w1] l(2) by (simp add: managed_def)
  then obtain d2 where w2: "update_write (ServicePath pf) svc (ServiceMode pf) d1 = (Inr (), d2)"
    using update_write_fault_free [OF f1] assms(1) by (fastforce simp: paths_ok_def)
  let ?m1 = "m\<lparr>Files := d1\<rparr>" and ?m2 = "m\<lparr>Files := d2\<rparr>"
  obtain r w where o: "OutputCmd (Runner env) [BinaryPath pf, ''-version''] d2 (World m) = (r, w)" by (metis surj_pair)
  then obtain out where "r = Inr out" "trim_space out = target"
    using assms(2) unfolding obliging_def by (metis fst_conv)
  then have v: "verify_version env pf target ?m2 = (Inr (), ?m2\<lparr>World := w\<rparr>)"
    using o by (simp add: verify_version_def on_world_def)
  obtain m3 where c1: "run_command (Runner env) (ReloadCmd pf) (?m2\<lparr>World := w\<rparr>) = (Inr (), m3)"
    using obliging_run [OF assms(2)] by blast
  obtain m4 where c2: "run_command (Runner env) (StartCmd pf) m3 = (Inr (), m4)"
    using obliging_run [OF assms(2)] by blast
  let ?k = "if HealthChecks env < 1 then 1 else nat (HealthChecks env)"
  obtain m6 where h: "health_loop (Runner env) (HealthCmd pf) (HealthInterval env) ?k m4 = (Inr (), m6)"
    using obliging_health [OF assms(2)] by blast
  obtain m5 where c3: "wait_for_sustained_health (Runner env) (HealthCmd pf) (HealthChecks env) (HealthInterval env) m4 = (Inr (), m5)"
    using h by (cases "HealthCmd pf = []") (auto simp: wait_for_sustained_health_def)
  have "install env pf target bin svc ob os m = (Inr (), m5)"
    by (simp add: install_def guarded_def on_disk_def bind_io_def w1 w2 v c1 c2 c3)
  then show ?thesis by blast
qed

definition bsd :: platform where
  "bsd = (case default_platform ''freebsd'' ''amd64'' (\<lambda>_. False) (\<lambda>_. False) of Inr pf \<Rightarrow> pf)"

definition sample_env :: "unit update_env" where
  "sample_env = \<lparr>Runner = \<lparr>RunCmd = (\<lambda>c d w. (Inr (), w)), OutputCmd = (\<lambda>c d w. (Inr ''1.2.3'', w)),
     Pause = (\<lambda>w. (False, w))\<rparr>, HealthChecks = 3, HealthInterval = 1\<rparr>"

definition sample_machine :: "nat option list \<Rightarrow> unit machine" where
  "sample_machine fs = \<lparr>Files = \<lparr>files = [(BinaryPath bsd, Reg ''old'' mode_755), (ServicePath bsd, Reg ''rc'' mode_555)],
     faults = fs, seeds = []\<rparr>, World = ()\<rparr>"

lemma bsd_platform: "default_platform ''freebsd'' ''amd64'' (\<lambda>_. False) (\<lambda>_. False) = Inr bsd"
    "BinaryAsset bsd = ''homelab-inventory-agent-freebsd-amd64''" "ServiceAsset bsd = ''homelab_inventory_agent''"
  by (simp_all add: bsd_def default_platform_def)

lemma sample_managed:
  "managed bsd (Files (sample_machine fs)) = (Some (saved_node (''old'', mode_755)), Some (saved_node (''rc'', mode_555)))"
proof -
  have "BinaryPath bsd \<noteq> ServicePath bsd" using default_platform_ok [OF bsd_platform(1)] by (simp add: paths_ok_def)
  note this this [symmetric]
  then show ?thesis by (simp add: managed_def sample_machine_def lookup_def saved_node_def)
qed

lemma sample_obliging: "obliging (Runner sample_env) ''1.2.3''"
proof -
  have "trim_space ''1.2.3'' = ''1.2.3''" by code_simp
  then show ?thesis by (simp add: obliging_def sample_env_def)
qed

text \<open>A release with both assets, and an update from 1.2.2 to 1.2.3 on a machine with given faults.\<close>

definition sample_names :: "string list" where
  "sample_names = [''homelab-inventory-agent-freebsd-amd64'', ''homelab_inventory_agent'']"

definition sample_options :: update_options where
  "sample_options = \<lparr>EffectiveUserID = 0, CurrentVersion = ''1.2.2'', Requested = ''1.2.3'', CheckOnly = False\<rparr>"

lemma sample_length_names: "length (sample_text sample_names) \<le> max_metadata_bytes"
  using length_escape_string [of "replicate 64 (CHR ''a'')"]
  by (simp add: sample_names_def sample_text_def sample_json_def sample_asset_json_def sample_sha_def json_quote_def
      escape_char_def newline_def max_metadata_bytes_def show_nat.simps digit_char_def)

lemma sample_check_names: "check_assets [] (map sample_asset sample_names) = Inr ()"
proof -
  have "clean_path ''homelab-inventory-agent-freebsd-amd64'' = ''homelab-inventory-agent-freebsd-amd64''"
    "clean_path ''homelab_inventory_agent'' = ''homelab_inventory_agent''" by code_simp+
  then show ?thesis using sample_hex
    by (simp add: sample_names_def bad_asset_def sample_asset_def max_asset_bytes_def has_prefix_def)
qed

lemma sample_parts: "fetch_manifest (sample_client sample_names) ''1.2.3'' [] w = (Inr (sample_manifest sample_names), w)"
  "find_asset (sample_manifest sample_names) (BinaryAsset bsd) = Some (sample_asset (BinaryAsset bsd))"
  "find_asset (sample_manifest sample_names) (ServiceAsset bsd) = Some (sample_asset (ServiceAsset bsd))"
  "download (sample_client sample_names) ''1.2.3'' (sample_asset (BinaryAsset bsd)) w = (Inr ''abc'', w)"
  "download (sample_client sample_names) ''1.2.3'' (sample_asset (ServiceAsset bsd)) w = (Inr ''abc'', w)"
  subgoal by (rule sample_fetch [OF sample_length_names sample_check_names]) (simp_all add: sample_names_def)
  subgoal by (simp add: find_asset_def sample_manifest_def sample_names_def sample_asset_def bsd_platform)
  subgoal by (simp add: find_asset_def sample_manifest_def sample_names_def sample_asset_def bsd_platform)
  subgoal by (rule sample_download) (simp_all add: bsd_platform has_suffix_def)
  subgoal by (rule sample_download) (simp_all add: bsd_platform has_suffix_def)
  done

lemma sample_locked:
  assumes "lookup (Files m) (BinaryPath bsd) = Some (Reg ''old'' mode_755)"
    and "lookup (Files m) (ServicePath bsd) = Some (Reg ''rc'' mode_555)"
    and "faults (Files m) = [None, None, None, None] @ fs"
  shows "update_locked sample_env bsd (sample_client sample_names) ''1.2.3'' [] m =
    install sample_env bsd ''1.2.3'' ''abc'' ''abc'' (''old'', mode_755) (''rc'', mode_555)
      (m\<lparr>Files := (Files m)\<lparr>faults := fs\<rparr>\<rparr>)"
proof -
  have stop: "run_command (Runner sample_env) (StopCmd bsd) x = (Inr (), x)" for x
    by (cases x) (simp add: run_command_def sample_env_def on_world_def)
  show ?thesis
    using assms by (cases m) (simp add: update_locked_def bind_io_def on_world_def on_disk_def sample_parts stop
        snapshot_file_def stat_file_def read_file_def call_def return_io_def)
qed

lemma sample_run:
  fixes fs :: "nat option list"
  defines "d \<equiv> put_file (lock_path bsd) (Reg [] mode_600) (Files (sample_machine fs))"
  shows "run_update sample_env (Inr ()) (Inr bsd) (Inr (sample_client sample_names)) sample_options
      (sample_machine ([None, None, None, None, None] @ fs)) =
    (case install sample_env bsd ''1.2.3'' ''abc'' ''abc'' (''old'', mode_755) (''rc'', mode_555)
        \<lparr>Files = d, World = ()\<rparr> of
       (r, m) \<Rightarrow> (bind_result r (\<lambda>_. Inr \<lparr>ResCurrent = ''1.2.2'', ResTarget = ''1.2.3'', UpdateAvailable = True,
                                            Updated = True\<rparr>),
                  m\<lparr>Files := snd (remove_file (lock_path bsd) (Files m))\<rparr>))"
proof -
  have v: "parse_version ''1.2.2'' = Inr \<lparr>major = 1, minor = 2, patch = 2, pre = []\<rparr>"
    "compare_versions ''1.2.2'' ''1.2.3'' = Inr (-1)" by code_simp+
  have p: "lock_path bsd \<noteq> BinaryPath bsd" "lock_path bsd \<noteq> ServicePath bsd"
    using default_platform_ok [OF bsd_platform(1)] by (auto simp: paths_ok_def)
  have f: "lookup (Files (sample_machine (gs :: nat option list))) (lock_path bsd) = None" for gs
    using p by (simp add: sample_machine_def lookup_def)
  let ?d5 = "put_file (lock_path bsd) (Reg [] mode_600) (Files (sample_machine ([None, None, None, None] @ fs)))"
  have cr: "on_disk (create_exclusive (lock_path bsd)) (sample_machine ([None, None, None, None, None] @ fs)) =
      (Inr (), \<lparr>Files = ?d5, World = ()\<rparr>)"
    using f [of "[None, None, None, None] @ fs"]
    by (simp add: on_disk_def create_exclusive_def call_def sample_machine_def)
  have l: "lookup ?d5 (BinaryPath bsd) = Some (Reg ''old'' mode_755)" "lookup ?d5 (ServicePath bsd) = Some (Reg ''rc'' mode_555)"
    using sample_managed [of "[None, None, None, None] @ fs"] p by (simp_all add: managed_def saved_node_def)
  have "?d5\<lparr>faults := fs\<rparr> = d" by (simp add: d_def sample_machine_def put_file_def)
  then have "update_locked sample_env bsd (sample_client sample_names) ''1.2.3'' [] \<lparr>Files = ?d5, World = ()\<rparr> =
      install sample_env bsd ''1.2.3'' ''abc'' ''abc'' (''old'', mode_755) (''rc'', mode_555) \<lparr>Files = d, World = ()\<rparr>"
    using sample_locked [of "\<lparr>Files = ?d5, World = ()\<rparr>" fs] l by (simp add: sample_machine_def put_file_def)
  moreover have "with_defaults sample_env = sample_env" by (simp add: with_defaults_def sample_env_def)
  ultimately show ?thesis using cr v
    by (simp add: run_update_def sample_options_def bind_io_def lift_io_def choose_target_def return_io_def)
qed

lemma update_installs_verified_witness:
  "\<exists>res m bin svc. run_update sample_env (Inr ()) (default_platform ''freebsd'' ''amd64'' (\<lambda>_. False) (\<lambda>_. False))
       (Inr (sample_client sample_names)) sample_options (sample_machine [None, None, None, None, None]) = (Inr res, m) \<and>
     managed bsd (Files m) = (Some (Reg bin mode_755), Some (Reg svc (ServiceMode bsd)))"
proof -
  note po = default_platform_ok [OF bsd_platform(1)]
  define d where "d = put_file (lock_path bsd) (Reg [] mode_600) (Files (sample_machine []))"
  have m: "managed bsd d = (Some (saved_node (''old'', mode_755)), Some (saved_node (''rc'', mode_555)))"
    using sample_managed [of "[]"] po by (auto simp: d_def managed_def paths_ok_def)
  have f: "fault_free d" by (simp add: d_def fault_free_def sample_machine_def)
  obtain m where i: "install sample_env bsd ''1.2.3'' ''abc'' ''abc'' (''old'', mode_755) (''rc'', mode_555)
      \<lparr>Files = d, World = ()\<rparr> = (Inr (), m)"
    using install_succeeds [OF po sample_obliging, where m = "\<lparr>Files = d, World = ()\<rparr>"
        and ob = "(''old'', mode_755)" and os = "(''rc'', mode_555)"] m f by auto
  let ?m = "m\<lparr>Files := snd (remove_file (lock_path bsd) (Files m))\<rparr>"
  have r: "run_update sample_env (Inr ()) (default_platform ''freebsd'' ''amd64'' (\<lambda>_. False) (\<lambda>_. False))
      (Inr (sample_client sample_names)) sample_options (sample_machine [None, None, None, None, None]) =
      (Inr \<lparr>ResCurrent = ''1.2.2'', ResTarget = ''1.2.3'', UpdateAvailable = True, Updated = True\<rparr>, ?m)"
    using sample_run [of "[]"] i unfolding d_def bsd_platform(1) by simp
  from update_installs_verified [OF r] r show ?thesis by (auto simp: bsd_platform(1))
qed

text \<open>
  When syncing the directory fails after the rename, the new executable stays in place, the old
  service file with it, and the error is the failed sync alone.
\<close>

definition sync_faults :: "nat option list" where
  "sync_faults = [None, None, None, None, None, None, Some 0]"

definition locked_disk :: "nat option list \<Rightarrow> disk" where
  "locked_disk fs = put_file (lock_path bsd) (Reg [] mode_600) (Files (sample_machine fs))"

definition failed_install :: "unit result \<times> unit machine" where
  "failed_install = install sample_env bsd ''1.2.3'' ''abc'' ''abc'' (''old'', mode_755) (''rc'', mode_555)
     \<lparr>Files = locked_disk sync_faults, World = ()\<rparr>"

lemma failed_sync_keeps_new_binary:
  "fst failed_install = Inl IoFault"
  "lookup (Files (snd failed_install)) (BinaryPath bsd) = Some (Reg ''abc'' mode_755)"
  "lookup (Files (snd failed_install)) (ServicePath bsd) = Some (Reg ''rc'' mode_555)"
  by code_simp+

lemma update_failure_restores_witness:
  "\<exists>m. run_update sample_env (Inr ()) (default_platform ''freebsd'' ''amd64'' (\<lambda>_. False) (\<lambda>_. False))
       (Inr (sample_client sample_names)) sample_options
       (sample_machine ([None, None, None, None, None] @ sync_faults)) = (Inl IoFault, m) \<and>
     snd (managed bsd (Files m)) = Some (saved_node (''rc'', mode_555)) \<and>
     (fst (managed bsd (Files m)) = Some (saved_node (''old'', mode_755)) \<or>
      (\<exists>d bin. sync_failed (BinaryPath bsd) bin mode_755 d IoFault \<and> fst (managed bsd (Files m)) = Some (Reg bin mode_755)))"
proof -
  obtain m where f: "failed_install = (Inl IoFault, m)"
    using failed_sync_keeps_new_binary(1) by (metis prod.collapse)
  let ?m = "m\<lparr>Files := snd (remove_file (lock_path bsd) (Files m))\<rparr>"
  have r: "run_update sample_env (Inr ()) (default_platform ''freebsd'' ''amd64'' (\<lambda>_. False) (\<lambda>_. False))
      (Inr (sample_client sample_names)) sample_options
      (sample_machine ([None, None, None, None, None] @ sync_faults)) = (Inl IoFault, ?m)"
    using sample_run [of sync_faults] f unfolding failed_install_def locked_disk_def bsd_platform(1) by simp
  have "IoFault \<noteq> incomplete" "IoFault \<noteq> unrestored" by (simp_all add: incomplete_def unrestored_def)
  from update_failure_restores [OF r bsd_platform(1) this] r
    sample_managed [of "[None, None, None, None, None] @ sync_faults"]
  show ?thesis by auto
qed

lemma update_refusals_witness:
  "Files (snd (run_update sample_env (Inr ()) (Inr bsd) (Inr (sample_client sample_names))
      (sample_options\<lparr>CheckOnly := True\<rparr>) (sample_machine []))) = Files (sample_machine [])"
proof -
  obtain r m where r: "run_update sample_env (Inr ()) (Inr bsd) (Inr (sample_client sample_names))
      (sample_options\<lparr>CheckOnly := True\<rparr>) (sample_machine []) = (r, m)" by (metis surj_pair)
  from update_refusals [OF this] show ?thesis unfolding r by simp
qed

end
