(* ===== verification/Go_Text.thy ===== *)
theory Go_Text
  imports Go_Json Go_Float
begin

text \<open>
  More of Go's \<open>strings\<close>, \<open>strconv\<close>, \<open>bufio\<close> and \<open>fmt\<close>, for the collectors that read the text of
  commands and of the files under /proc and /sys: lines, fields, cutting at a string, numbers with
  a base prefix, floating point numbers in both directions.
\<close>

section \<open>Cutting\<close>

text \<open>\<open>strings.Cut(s, p)\<close> for a separator that is a string.\<close>

fun cut_str :: "string \<Rightarrow> string \<Rightarrow> string \<times> string option" where
  "cut_str p [] = (if p = [] then ([], Some []) else ([], None))"
| "cut_str p (c # s) =
     (if has_prefix (c # s) p then ([], Some (drop (length p) (c # s)))
      else (case cut_str p s of (a, b) \<Rightarrow> (c # a, b)))"

lemma cut_str_join: "cut_str p s = (a, Some b) \<Longrightarrow> s = a @ p @ b"
proof (induction s arbitrary: a)
  case (Cons c s)
  then show ?case by (auto simp: has_prefix_iff split: if_splits prod.splits)
qed (auto split: if_splits)

text \<open>The last occurrence of a character: what stands before it and what follows.\<close>

definition cut_last :: "char \<Rightarrow> string \<Rightarrow> (string \<times> string) option" where
  "cut_last c s = (case cut_at c (rev s) of (b, None) \<Rightarrow> None | (b, Some a) \<Rightarrow> Some (rev a, rev b))"

text \<open>\<open>strings.Trim(s, cutset)\<close> for ASCII cutsets.\<close>

definition trim_chars :: "string \<Rightarrow> string \<Rightarrow> string" where
  "trim_chars cs s = rev (dropWhile (\<lambda>c. c \<in> set cs) (rev (dropWhile (\<lambda>c. c \<in> set cs) s)))"

definition trim_right_chars :: "string \<Rightarrow> string \<Rightarrow> string" where
  "trim_right_chars cs s = rev (dropWhile (\<lambda>c. c \<in> set cs) (rev s))"

text \<open>\<open>s[:strings.IndexAny(s, cs)]\<close>, all of it when there is none.\<close>

definition before_any :: "string \<Rightarrow> string \<Rightarrow> string" where
  "before_any cs s = takeWhile (\<lambda>c. c \<notin> set cs) s"

text \<open>A string used as a map value: an absent key reads as the empty string.\<close>

definition value_of :: "(string \<times> string) list \<Rightarrow> string \<Rightarrow> string" where
  "value_of m k = (case map_of m k of None \<Rightarrow> [] | Some v \<Rightarrow> v)"

section \<open>Lines\<close>

text \<open>\<open>strings.ReplaceAll(s, "\r\n", "\n")\<close>.\<close>

fun replace_crlf :: "string \<Rightarrow> string" where
  "replace_crlf (a # b # s) =
     (if a = CHR 13 \<and> b = CHR 10 then CHR 10 # replace_crlf s else a # replace_crlf (b # s))"
| "replace_crlf s = s"

definition text_lines :: "string \<Rightarrow> string list" where
  "text_lines s = split_on (CHR 10) (replace_crlf s)"

text \<open>
  The lines of a \<open>bufio.Scanner\<close> whose buffer holds \<open>m\<close> bytes, and whether it stopped at a line that
  does not fit: a carriage return at the end of a line is taken off, and an empty last line is none.
\<close>

definition drop_cr :: "string \<Rightarrow> string" where
  "drop_cr s = (if s \<noteq> [] \<and> last s = CHR 13 then butlast s else s)"

definition raw_lines :: "string \<Rightarrow> string list" where
  "raw_lines s = (let ls = split_on (CHR 10) s in if last ls = [] then butlast ls else ls)"

definition scan_lines :: "nat \<Rightarrow> string \<Rightarrow> string list \<times> bool" where
  "scan_lines m s =
     (map drop_cr (takeWhile (\<lambda>l. length l < m) (raw_lines s)), \<exists>l \<in> set (raw_lines s). m \<le> length l)"

definition token_size :: nat where "token_size = 64 * 1024"

section \<open>Fields\<close>

text \<open>The length of the white space character at the front, 0 when there is none.\<close>

fun space_width :: "string \<Rightarrow> nat" where
  "space_width [] = 0"
| "space_width (a # s) =
     (if ascii_space a then 1
      else case s of [] \<Rightarrow> 0
       | b # t \<Rightarrow> (if space2 a b then 2
                   else case t of [] \<Rightarrow> 0 | c # u \<Rightarrow> (if space3 a b c then 3 else 0)))"

text \<open>\<open>strings.Fields\<close>, with the field read so far, last byte first.\<close>

function fields_from :: "string \<Rightarrow> string \<Rightarrow> string list" where
  "fields_from w [] = (if w = [] then [] else [rev w])"
| "fields_from w (c # s) =
     (if space_width (c # s) = 0 then fields_from (c # w) s
      else (if w = [] then [] else [rev w]) @ fields_from [] (drop (space_width (c # s)) (c # s)))"
  by pat_completeness auto
termination by (relation "measure (\<lambda>(w, s). length s)") auto

definition text_fields :: "string \<Rightarrow> string list" where
  "text_fields s = fields_from [] s"

lemma fields_from_nonempty: "f \<in> set (fields_from w s) \<Longrightarrow> f \<noteq> []"
  by (induction w s rule: fields_from.induct) (auto split: if_splits)

lemma text_fields_nonempty: "f \<in> set (text_fields s) \<Longrightarrow> f \<noteq> []"
  by (auto simp: text_fields_def dest: fields_from_nonempty)

text \<open>A trimmed string begins with no white space, and neither does a part at its front.\<close>

lemma space_width_append: "space_width w \<noteq> 0 \<Longrightarrow> space_width (w @ t) \<noteq> 0"
  by (cases w rule: trim_left.cases) (auto split: if_splits list.splits)

lemma space_width_trim_left [simp]: "space_width (trim_left s) = 0"
  by (induction s rule: trim_left.induct) auto

lemma trim_left_rev_suffix: "\<exists>x. s = x @ trim_left_rev s"
proof (induction s rule: trim_left_rev.induct)
  case (1 c b a s)
  then show ?case by (auto intro: exI [of _ "[]"] exI [of _ "c # x" for x] simp: Cons_eq_append_conv)
qed (auto intro: exI [of _ "[]"])

lemma trim_space_front: "\<exists>t. trim_left s = trim_space s @ t"
  using trim_left_rev_suffix [of "rev (trim_left s)"] unfolding trim_space_def
  by (metis rev_append rev_rev_ident)

lemma trim_left_rev_all: "trim_left_rev r = [] \<Longrightarrow> r \<noteq> [] \<Longrightarrow> space_width (rev r) \<noteq> 0"
proof (induction r rule: trim_left_rev.induct)
  case (1 c b a s)
  show ?case
  proof (cases "ascii_space c")
    case True
    then show ?thesis using 1 space_width_append [of "rev (b # a # s)" "[c]"] by simp
  next
    case c: False
    show ?thesis
    proof (cases "space2 b c")
      case True
      then show ?thesis using 1 c space_width_append [of "rev (a # s)" "[b, c]"] by simp
    next
      case False
      with 1 c have "space3 a b c" "trim_left_rev s = []" by (simp_all split: if_splits)
      then show ?thesis using 1 c False space_width_append [of "rev s" "[a, b, c]"]
        by (cases "s = []") (simp_all split: if_splits)
    qed
  qed
qed (auto split: if_splits)

lemma front_of_trimmed_not_blank:
  assumes "trim_space s = w @ x" and "w \<noteq> []"
  shows "trim_space w \<noteq> []"
proof
  assume b: "trim_space w = []"
  obtain t where "trim_left s = w @ x @ t" using trim_space_front [of s] assms(1) by auto
  then have w: "space_width w = 0" using space_width_append [of w "x @ t"] by (metis space_width_trim_left)
  then have "trim_left w = w" by (cases w rule: trim_left.cases) (auto split: if_splits list.splits)
  with b have "trim_left_rev (rev w) = []" by (simp add: trim_space_def)
  with trim_left_rev_all [of "rev w"] assms(2) w show False by simp
qed

section \<open>Numbers with a base prefix\<close>

text \<open>\<open>underscoreOK\<close>: an underscore separates digits, the base prefix counting as one.\<close>

datatype seen = Start | Digit | Underscore | Other

fun underscores_from :: "bool \<Rightarrow> seen \<Rightarrow> string \<Rightarrow> bool" where
  "underscores_from hex saw [] = (saw \<noteq> Underscore)"
| "underscores_from hex saw (c # s) =
     (if is_digit c \<or> (hex \<and> hex_val c \<noteq> None) then underscores_from hex Digit s
      else if c = CHR ''_'' then saw = Digit \<and> underscores_from hex Underscore s
      else saw \<noteq> Underscore \<and> underscores_from hex Other s)"

definition strip_sign :: "string \<Rightarrow> bool \<times> string" where
  "strip_sign s = (case s of [] \<Rightarrow> (False, [])
     | c # t \<Rightarrow> if c = CHR ''-'' then (True, t) else if c = CHR ''+'' then (False, t) else (False, s))"

definition base_prefix :: "string \<Rightarrow> nat option" where
  "base_prefix s = (case s of a # b # t \<Rightarrow>
       (if a \<noteq> CHR ''0'' then None
        else if lower_char b = CHR ''x'' then Some 16
        else if lower_char b = CHR ''b'' then Some 2
        else if lower_char b = CHR ''o'' then Some 8 else None)
     | _ \<Rightarrow> None)"

definition underscore_ok :: "string \<Rightarrow> bool" where
  "underscore_ok s = (let t = snd (strip_sign s) in
     case base_prefix t of None \<Rightarrow> underscores_from False Start t
     | Some b \<Rightarrow> underscores_from (b = 16) Digit (drop 2 t))"

fun base_val :: "nat \<Rightarrow> nat \<Rightarrow> string \<Rightarrow> nat option" where
  "base_val b n [] = Some n"
| "base_val b n (c # s) = (case (if is_digit c then Some (digit_val c) else if c = CHR ''_'' then None else hex_val c) of
     None \<Rightarrow> None | Some d \<Rightarrow> if d < b then base_val b (n * b + d) s else None)"

text \<open>\<open>strconv.ParseUint(s, 0, 64)\<close>.\<close>

definition parse_uint0 :: "string \<Rightarrow> u64 option" where
  "parse_uint0 s =
     (let (b, digits) = (case base_prefix s of
            Some b \<Rightarrow> if length s \<ge> 3 then (b, drop 2 s) else (8, drop 1 s)
          | None \<Rightarrow> if has_prefix s ''0'' then (8, drop 1 s) else (10, s));
          plain = filter (\<lambda>c. c \<noteq> CHR ''_'') digits
      in if s = [] then None
         else case base_val b 0 plain of
           None \<Rightarrow> None
         | Some n \<Rightarrow> if n < 2 ^ 64 \<and> (plain = digits \<or> underscore_ok s) then Some (of_nat n) else None)"

text \<open>\<open>strconv.ParseInt(s, 10, 64)\<close> accepts what \<open>Atoi\<close> accepts.\<close>

section \<open>Parsing floating point numbers\<close>

text \<open>
  \<open>strconv.ParseFloat(s, 64)\<close>: infinities and NaN by name, decimal and hexadecimal numbers with
  exponent, correctly rounded; a number out of range is an error. The mantissa is read as a number
  with the count of its digits after the point.
\<close>

record mantissa =
  MantValue :: nat
  MantScale :: nat
  MantDot :: bool
  MantDigits :: bool

fun read_mantissa :: "nat \<Rightarrow> mantissa \<Rightarrow> string \<Rightarrow> mantissa \<times> string" where
  "read_mantissa b m [] = (m, [])"
| "read_mantissa b m (c # s) =
     (if c = CHR ''_'' then read_mantissa b m s
      else if c = CHR ''.'' then (if MantDot m then (m, c # s) else read_mantissa b (m\<lparr>MantDot := True\<rparr>) s)
      else case (if b = 16 then hex_val c else if is_digit c then Some (digit_val c) else None) of
          None \<Rightarrow> (m, c # s)
        | Some d \<Rightarrow> read_mantissa b (m\<lparr>MantValue := MantValue m * b + d, MantDigits := True,
            MantScale := (if MantDot m then MantScale m + 1 else MantScale m)\<rparr>) s)"

fun read_exponent :: "nat \<Rightarrow> string \<Rightarrow> nat \<times> string" where
  "read_exponent e [] = (e, [])"
| "read_exponent e (c # s) =
     (if c = CHR ''_'' then read_exponent e s
      else if is_digit c then read_exponent (if e < 10000 then e * 10 + digit_val c else e) s
      else (e, c # s))"

definition rat_power :: "nat \<Rightarrow> int \<Rightarrow> rat" where
  "rat_power b e = (if 0 \<le> e then of_nat b ^ nat e else 1 / of_nat b ^ nat (- e))"

definition scaled :: "bool \<Rightarrow> nat \<Rightarrow> mantissa \<Rightarrow> int \<Rightarrow> float64 option" where
  "scaled neg b m e =
     (let x = (if b = 16 then of_nat (MantValue m) * rat_power 2 (e - 4 * int (MantScale m))
               else of_nat (MantValue m) * rat_power 10 (e - int (MantScale m)))
      in case to_float (if neg then - x else x) of Finite y \<Rightarrow> Some (Finite y) | _ \<Rightarrow> None)"

definition special_float :: "string \<Rightarrow> float64 option" where
  "special_float s = (let t = to_lower s in
     if t = ''nan'' then Some NaN
     else if snd (strip_sign t) \<in> {''inf'', ''infinity''}
       then Some (if fst (strip_sign t) then MinusInf else PlusInf) else None)"

definition parse_number :: "string \<Rightarrow> float64 option" where
  "parse_number s =
     (case strip_sign s of (neg, t) \<Rightarrow>
        (let b = (if length t > 2 \<and> base_prefix t = Some 16 then 16 else 10);
             (m, rest) = read_mantissa b \<lparr>MantValue = 0, MantScale = 0, MantDot = False, MantDigits = False\<rparr>
               (if b = 16 then drop 2 t else t);
             marked = (rest \<noteq> [] \<and> lower_char (hd rest) = (if b = 16 then CHR ''p'' else CHR ''e''));
             (eneg, digits) = strip_sign (tl rest);
             (e, after) = read_exponent 0 digits
         in if \<not> MantDigits m \<or> (CHR ''_'' \<in> set s \<and> \<not> underscore_ok s) then None
            else if marked then
              (if digits = [] \<or> \<not> is_digit (hd digits) \<or> after \<noteq> [] then None
               else scaled neg b m (if eneg then - int e else int e))
            else if b = 16 \<or> rest \<noteq> [] then None
            else scaled neg b m 0))"

definition parse_float :: "string \<Rightarrow> float64 option" where
  "parse_float s = (case special_float s of Some x \<Rightarrow> Some x | None \<Rightarrow> parse_number s)"

section \<open>Printing floating point numbers\<close>

text \<open>
  The shortest decimal digits that read back as the number, and the position of the point before
  which they stand: the value is 0.d1d2... times 10 to that position.
\<close>

fun ten_exponent :: "nat \<Rightarrow> rat \<Rightarrow> int" where
  "ten_exponent 0 x = 0"
| "ten_exponent (Suc n) x = (if x \<ge> 1 then int (length (show_nat (nat \<lfloor>x\<rfloor>))) else ten_exponent n (x * 10) - 1)"

text \<open>The candidates with \<open>n\<close> digits next to the number; the nearer one that reads back is taken.\<close>

definition digits_near :: "nat \<Rightarrow> rat \<Rightarrow> nat option" where
  "digits_near n x =
     (let p = ten_exponent 400 x; unit = rat_power 10 (p - int n); f = \<lfloor>x / unit\<rfloor>;
          near = (if x / unit - of_int f \<le> 1 / 2 then [f, f + 1] else [f + 1, f])
      in map_option nat (find (\<lambda>m. to_float (of_int m * unit) = Finite x) near))"

fun shortest_from :: "nat \<Rightarrow> nat \<Rightarrow> rat \<Rightarrow> string \<times> int" where
  "shortest_from 0 n x = (''0'', 1)"
| "shortest_from (Suc k) n x = (case digits_near n x of
     None \<Rightarrow> shortest_from k (n + 1) x
   | Some m \<Rightarrow> (rev (dropWhile (\<lambda>c. c = CHR ''0'') (rev (show_nat m))),
        ten_exponent 400 x + (if length (show_nat m) > n then 1 else 0)))"

definition shortest_digits :: "rat \<Rightarrow> string \<times> int" where
  "shortest_digits x = (if x = 0 then (''0'', 1) else shortest_from 17 1 x)"

definition exponent_text :: "int \<Rightarrow> string" where
  "exponent_text e = (if e < 0 then ''-'' else ''+'') @ pad_zeros 2 (show_nat (nat \<bar>e\<bar>))"

text \<open>The verb \<open>%v\<close> for a \<open>float64\<close>; the sign of zero is not kept.\<close>

definition show_float :: "float64 \<Rightarrow> string" where
  "show_float v = (case v of NaN \<Rightarrow> ''NaN'' | PlusInf \<Rightarrow> ''+Inf'' | MinusInf \<Rightarrow> ''-Inf''
   | Finite x \<Rightarrow> (case shortest_digits \<bar>x\<bar> of (ds, p) \<Rightarrow>
       (if x < 0 then ''-'' else []) @
       (if p - 1 < - 4 \<or> p - 1 \<ge> 6 then
          hd ds # (if length ds > 1 then CHR ''.'' # tl ds else []) @ ''e'' @ exponent_text (p - 1)
        else if p \<le> 0 then ''0.'' @ replicate (nat (- p)) (CHR ''0'') @ ds
        else if length ds \<le> nat p then ds @ replicate (nat p - length ds) (CHR ''0'')
        else take (nat p) ds @ ''.'' @ drop (nat p) ds)))"

end
