(* ===== verification/Command_Output.thy ===== *)
theory Command_Output
  imports Go_Text "HOL-Library.AList"
begin

text \<open>
  What the collectors see of the host: the output of a command with its bound
  (\<open>internal/command/runner.go\<close>), and the files below a root directory. In one collection every
  command is run once and every path is read once, so that both are functions; a collection is
  about any such functions.
\<close>

section \<open>Commands\<close>

text \<open>
  A process writes its output in pieces and ends with an error or without. The buffer refuses a
  piece that would exceed the limit; after that the copying has ended, and what had been read is
  returned with the error of the process or else of the copying.
\<close>

type_synonym process = "string \<Rightarrow> string list \<Rightarrow> bytes list \<times> error option"

type_synonym runner_fun = "string \<Rightarrow> string list \<Rightarrow> bytes \<times> error option"

definition bounded_write :: "int \<Rightarrow> bytes \<Rightarrow> bytes \<Rightarrow> bytes result" where
  "bounded_write limit buf body =
     (if int (length buf + length body) > limit then Inl (Msg ''command output exceeds the size limit'')
      else Inr (buf @ body))"

fun copy_output :: "int \<Rightarrow> bytes \<Rightarrow> bytes list \<Rightarrow> bytes \<times> error option" where
  "copy_output limit buf [] = (buf, None)"
| "copy_output limit buf (piece # pieces) = (case bounded_write limit buf piece of
     Inl e \<Rightarrow> (buf, Some e)
   | Inr buf' \<Rightarrow> copy_output limit buf' pieces)"

definition exec_run :: "int \<Rightarrow> process \<Rightarrow> runner_fun" where
  "exec_run limit proc name args =
     (if limit \<le> 0 then ([], Some (Msg ''command output limit is required''))
      else case proc name args of (pieces, failure) \<Rightarrow>
        (case copy_output limit [] pieces of
           (buf, refused) \<Rightarrow> (buf, (case failure of Some e \<Rightarrow> Some e | None \<Rightarrow> refused))))"

lemma copy_output_spec:
  assumes "int (length buf) \<le> limit"
  shows "int (length (fst (copy_output limit buf pieces))) \<le> limit"
    and "\<exists>k. fst (copy_output limit buf pieces) = buf @ concat (take k pieces)"
    and "snd (copy_output limit buf pieces) = None \<Longrightarrow> fst (copy_output limit buf pieces) = buf @ concat pieces"
  using assms
proof (induction limit buf pieces rule: copy_output.induct)
  case (2 limit buf piece pieces)
  {
    case 1
    with 2 show ?case by (auto simp: bounded_write_def)
  next
    case 2
    show ?case
    proof (cases "int (length buf + length piece) > limit")
      case False
      with 2 \<open>\<And>x2. bounded_write limit buf piece = Inr x2 \<Longrightarrow> int (length x2) \<le> limit \<Longrightarrow>
          \<exists>k. fst (copy_output limit x2 pieces) = x2 @ concat (take k pieces)\<close>
      obtain k where "fst (copy_output limit (buf @ piece) pieces) = (buf @ piece) @ concat (take k pieces)"
        by (auto simp: bounded_write_def)
      with False have "fst (copy_output limit buf (piece # pieces)) = buf @ concat (take (Suc k) (piece # pieces))"
        by (simp add: bounded_write_def)
      then show ?thesis by blast
    qed (auto simp: bounded_write_def intro: exI [of _ 0])
  next
    case 3
    with 2 show ?case by (auto simp: bounded_write_def split: if_splits)
  }
qed (auto intro: exI [of _ 0])

text \<open>No command gives more than its limit, and without an error its output is complete.\<close>

lemma exec_run_bounded: "0 < limit \<Longrightarrow> int (length (fst (exec_run limit proc name args))) \<le> limit"
  using copy_output_spec(1) [of "[]" limit "fst (proc name args)"]
  by (auto simp: exec_run_def split: prod.splits option.splits)

lemma exec_run_complete:
  "exec_run limit proc name args = (body, None) \<Longrightarrow> body = concat (fst (proc name args))"
  using copy_output_spec(3) [of "[]" limit "fst (proc name args)"]
  by (auto simp: exec_run_def split: prod.splits option.splits if_splits)

section \<open>Files of the host\<close>

text \<open>
  \<open>FileBody\<close> is \<open>os.ReadFile\<close>, \<open>DirItems\<close> is \<open>os.ReadDir\<close> with each name and whether it is a
  directory, \<open>LinkInfo\<close> and \<open>PathInfo\<close> are \<open>os.Lstat\<close> and \<open>os.Stat\<close>, which give whether the path is
  a directory.
\<close>

record host_files =
  FileBody :: "string \<Rightarrow> bytes result"
  DirItems :: "string \<Rightarrow> (string \<times> bool) list result"
  LinkInfo :: "string \<Rightarrow> bool option"
  PathInfo :: "string \<Rightarrow> bool option"

text \<open>\<open>filepath.Join\<close> and \<open>filepath.Base\<close>.\<close>

definition join_path :: "string list \<Rightarrow> string" where
  "join_path ps = (let qs = filter (\<lambda>p. p \<noteq> []) ps in
     if qs = [] then [] else clean_path (join_with (CHR ''/'') qs))"

definition base_name :: "string \<Rightarrow> string" where
  "base_name p = (if p = [] then ''.'' else
     let q = trim_right_slash p in if q = [] then ''/'' else last (split_on (CHR ''/'') q))"

definition read_trimmed :: "host_files \<Rightarrow> string \<Rightarrow> string" where
  "read_trimmed h p = (case FileBody h p of Inl e \<Rightarrow> [] | Inr b \<Rightarrow> trim_space b)"

definition read_optional :: "host_files \<Rightarrow> string \<Rightarrow> bytes" where
  "read_optional h p = (case FileBody h p of Inl e \<Rightarrow> [] | Inr b \<Rightarrow> b)"

definition directory_exists :: "host_files \<Rightarrow> string \<Rightarrow> bool" where
  "directory_exists h p \<longleftrightarrow> PathInfo h p = Some True"

end
