(* ===== verification/Service_Collectors.thy ===== *)
theory Service_Collectors
  imports Command_Output Protocol_Check
begin

text \<open>
  The service collectors, \<open>internal/collectors/services\<close>: systemd (with its memory of CPU counters),
  OpenRC, FreeBSD's rc.d, and the choice between the two Linux managers. Commands are an argument.
\<close>

section \<open>systemd\<close>

type_synonym properties = "(string \<times> string) list"

record systemd =
  PreviousAt :: time
  PreviousCPU :: "(string \<times> u64) list"

definition new_systemd :: systemd where
  "new_systemd = \<lparr>PreviousAt = 0, PreviousCPU = []\<rparr>"

text \<open>The blocks of properties, separated by empty lines; a block without a property is none.\<close>

fun property_blocks :: "properties \<Rightarrow> string list \<Rightarrow> properties list" where
  "property_blocks current [] = (if current = [] then [] else [current])"
| "property_blocks current (line # ls) =
     (if line = [] then (if current = [] then [] else [current]) @ property_blocks [] ls
      else case cut_at (CHR ''='') line of
        (key, Some v) \<Rightarrow> property_blocks (if key = [] then current else AList.update key v current) ls
      | (key, None) \<Rightarrow> property_blocks current ls)"

definition parse_systemd_properties :: "bytes \<Rightarrow> properties list" where
  "parse_systemd_properties body = property_blocks [] (text_lines body)"

definition enabled_state :: "string \<Rightarrow> bool option" where
  "enabled_state v =
     (if v \<in> set [''enabled'', ''enabled-runtime'', ''linked'', ''linked-runtime'', ''alias''] then Some True
      else if v \<in> set [''disabled'', ''masked'', ''masked-runtime''] then Some False else None)"

definition below :: "string \<Rightarrow> string \<Rightarrow> bool" where
  "below clean dir \<longleftrightarrow> clean = dir \<or> has_prefix clean (dir @ ''/'')"

definition local_systemd_unit :: "string \<Rightarrow> bool" where
  "local_systemd_unit path \<longleftrightarrow> (let clean = clean_path path in
     below clean ''/etc/systemd/system'' \<or> below clean ''/usr/local/lib/systemd/system'' \<or> below clean ''/opt'')"

definition packaged_systemd_unit :: "string \<Rightarrow> bool" where
  "packaged_systemd_unit path \<longleftrightarrow> (let clean = clean_path path in
     below clean ''/lib/systemd/system'' \<or> below clean ''/usr/lib/systemd/system'')"

definition debian_package_name :: "string \<Rightarrow> string" where
  "debian_package_name v = (let v = trim_space v in
     case cut_last (CHR '':'') v of Some (a, b) \<Rightarrow> if a \<noteq> [] then a else v | None \<Rightarrow> v)"

definition unit_name :: "properties \<Rightarrow> string" where
  "unit_name u = trim_suffix (trim_space (value_of u ''Id'')) ''.service''"

definition unit_path :: "properties \<Rightarrow> string" where
  "unit_path u = clean_path (trim_space (value_of u ''FragmentPath''))"

text \<open>The classification by path alone; packaged units stay unknown until their package is known.\<close>

definition classify_path :: "properties \<Rightarrow> (string \<times> string) list \<Rightarrow> (string \<times> string) list" where
  "classify_path u m =
     (if unit_name u = [] then m
      else AList.update (unit_name u) (if local_systemd_unit (unit_path u) then ''user-installed'' else ''unknown'') m)"

definition packaged_paths :: "properties list \<Rightarrow> string list" where
  "packaged_paths us = map unit_path (filter (\<lambda>u. unit_name u \<noteq> [] \<and>
     \<not> local_systemd_unit (unit_path u) \<and> packaged_systemd_unit (unit_path u)) us)"

definition manual_packages :: "bytes \<Rightarrow> string list" where
  "manual_packages body = map debian_package_name (filter (\<lambda>l. l \<noteq> []) (map trim_space (split_on (CHR 10) body)))"

text \<open>The pairs of a path and one of its owners, in the order of the output.\<close>

definition owners_of_line :: "string \<Rightarrow> (string \<times> string) list" where
  "owners_of_line line = (case cut_str '': '' line of
     (owners, Some path) \<Rightarrow>
       (if trim_space path = [] then []
        else map (Pair (clean_path (trim_space path)))
          (filter (\<lambda>n. n \<noteq> []) (map debian_package_name (split_on (CHR '','') owners))))
   | (owners, None) \<Rightarrow> [])"

definition path_owners :: "bytes \<Rightarrow> string \<Rightarrow> string list" where
  "path_owners body path = map snd (filter (\<lambda>(p, n). p = path) (concat (map owners_of_line (split_on (CHR 10) body))))"

definition classify_owned :: "(string \<Rightarrow> string list) \<Rightarrow> string list \<Rightarrow> properties \<Rightarrow> (string \<times> string) list \<Rightarrow> (string \<times> string) list" where
  "classify_owned owners manual u m =
     (if \<not> packaged_systemd_unit (unit_path u) \<or> owners (unit_path u) = [] then m
      else AList.update (unit_name u)
        (if \<exists>n \<in> set (owners (unit_path u)). n \<in> set manual then ''user-installed'' else ''system'') m)"

definition classify_systemd_units :: "runner_fun \<Rightarrow> properties list \<Rightarrow> (string \<times> string) list" where
  "classify_systemd_units run us =
     (let m = fold classify_path us []; paths = packaged_paths us in
      if paths = [] then m
      else case run ''/usr/bin/apt-mark'' [''showmanual''] of
        (_, Some e) \<Rightarrow> m
      | (manual, None) \<Rightarrow> (case run ''/usr/bin/dpkg-query'' (''--search'' # paths) of
          (_, Some e) \<Rightarrow> m
        | (owned, None) \<Rightarrow> fold (classify_owned (path_owners owned) (manual_packages manual)) us m))"

definition nonblank :: "string \<Rightarrow> string option" where
  "nonblank s = (if trim_space s = [] then None else Some (trim_space s))"

definition float_of_u64 :: "u64 \<Rightarrow> float64" where
  "float_of_u64 w = float_of_int (uint w)"

text \<open>The share of a CPU since the last collection, from the counters in nanoseconds.\<close>

definition cpu_share :: "(string \<times> u64) list \<Rightarrow> int \<Rightarrow> string \<Rightarrow> u64 \<Rightarrow> float64 option" where
  "cpu_share previous elapsed name cpu = (case map_of previous name of
     None \<Rightarrow> None
   | Some p \<Rightarrow> (if p \<le> cpu \<and> elapsed > 0
       then Some (fdiv (fmul (float_of_u64 (cpu - p)) (Finite 100)) (float_of_int elapsed)) else None))"

definition systemd_service :: "(string \<times> string) list \<Rightarrow> properties \<Rightarrow> float64 option \<Rightarrow> service" where
  "systemd_service classes u cpu =
     \<lparr>Manager = [], ServiceName = unit_name u, Description = take 2048 (value_of u ''Description''),
      ActiveState = take 64 (value_of u ''ActiveState''), Classification = value_of classes (unit_name u),
      SubState = take 64 (value_of u ''SubState''), ServiceEnabled = enabled_state (value_of u ''UnitFileState''),
      MemoryCurrent = parse_u64 (value_of u ''MemoryCurrent''), MemoryPeak = parse_u64 (value_of u ''MemoryPeak''),
      ServiceCPU = cpu, RestartCount = parse_u64 (value_of u ''NRestarts''),
      TaskCount = parse_u64 (value_of u ''TasksCurrent''), TaskLimit = parse_u64 (value_of u ''TasksMax''),
      LastResult = nonblank (value_of u ''Result''), ActiveEnteredAt = nonblank (value_of u ''ActiveEnterTimestamp''),
      InactiveEnteredAt = nonblank (value_of u ''InactiveEnterTimestamp'')\<rparr>"

fun collect_units :: "(string \<times> string) list \<Rightarrow> int \<Rightarrow> properties list \<Rightarrow> (string \<times> u64) list \<Rightarrow>
    service list \<times> (string \<times> u64) list" where
  "collect_units classes elapsed [] previous = ([], previous)"
| "collect_units classes elapsed (u # us) previous =
     (if unit_name u = [] \<or> length (unit_name u) > 256 \<or> trim_space (value_of u ''ActiveState'') = []
      then collect_units classes elapsed us previous
      else (case parse_u64 (value_of u ''CPUUsageNSec'') of
         None \<Rightarrow> (case collect_units classes elapsed us previous of
             (ss, p) \<Rightarrow> (systemd_service classes u None # ss, p))
       | Some cpu \<Rightarrow> (case collect_units classes elapsed us (AList.update (unit_name u) cpu previous) of
             (ss, p) \<Rightarrow> (systemd_service classes u (cpu_share previous elapsed (unit_name u) cpu) # ss, p))))"

definition systemd_properties :: string where
  "systemd_properties = ''--property=Id,Description,ActiveState,SubState,UnitFileState,FragmentPath,MemoryCurrent,MemoryPeak,CPUUsageNSec,NRestarts,TasksCurrent,TasksMax,Result,ActiveEnterTimestamp,InactiveEnterTimestamp''"

definition systemd_collect :: "runner_fun \<Rightarrow> time \<Rightarrow> systemd \<Rightarrow> service list result \<times> systemd" where
  "systemd_collect run now c =
     (case run ''systemctl'' [''show'', ''--type=service'', ''--all'', ''--no-pager'', systemd_properties] of
        (_, Some e) \<Rightarrow> (Inl (Msg ''inspect systemd services''), c)
      | (output, None) \<Rightarrow>
          (let us = parse_systemd_properties output in
           if length us > 512 then (Inl (Msg ''systemd service count exceeds the protocol limit''), c)
           else (case collect_units (classify_systemd_units run us) (time_sub now (PreviousAt c)) us (PreviousCPU c) of
             (ss, p) \<Rightarrow> (Inr ss, \<lparr>PreviousAt = now, PreviousCPU = p\<rparr>))))"

section \<open>rc.d\<close>

definition is_alpha :: "char \<Rightarrow> bool" where
  "is_alpha c \<longleftrightarrow> is_lower (lower_char c)"

text \<open>The pattern \<open>^[A-Za-z0-9][A-Za-z0-9_.-]{0,255}$\<close>, the same for rc.d and OpenRC.\<close>

definition service_name_pattern :: "string \<Rightarrow> bool" where
  "service_name_pattern s \<longleftrightarrow> s \<noteq> [] \<and> length s \<le> 256 \<and> (is_alpha (hd s) \<or> is_digit (hd s)) \<and>
     (\<forall>c \<in> set (tl s). is_alpha c \<or> is_digit c \<or> c \<in> set ''_.-'')"

definition classify_rcd_path :: "string \<Rightarrow> string" where
  "classify_rcd_path path =
     (if below path ''/usr/local/etc/rc.d'' then ''user-installed''
      else if below path ''/etc/rc.d'' then ''system'' else ''unknown'')"

text \<open>The listed services by name, each with its classification; a repeated name is skipped.\<close>

fun rcd_services :: "(string \<times> string) list \<Rightarrow> string list \<Rightarrow> (string \<times> string) list result" where
  "rcd_services seen [] = Inr seen"
| "rcd_services seen (line # ls) =
     (let path = trim_space line; name = base_name path in
      if path = [] then rcd_services seen ls
      else if \<not> is_abs path \<or> clean_path path \<noteq> path then Inl (Msg ''rc.d returned an unsafe service path'')
      else if \<not> service_name_pattern name then Inl (Msg ''rc.d returned an unsafe service name'')
      else rcd_services (if name \<in> fst ` set seen then seen else seen @ [(name, classify_rcd_path path)]) ls)"

text \<open>What the status command says; \<open>expired\<close> tells whether the deadline of the collection has passed.\<close>

definition rcd_state :: "bool \<Rightarrow> bytes \<times> error option \<Rightarrow> string \<times> string" where
  "rcd_state expired status = (case status of (body, failure) \<Rightarrow>
     (if failure = None then (''active'', ''running'')
      else if contains_str (to_lower body) ''not running'' \<or> contains_str (to_lower body) ''is stopped''
        then (''inactive'', ''stopped'')
      else if expired then (''unknown'', ''collection-timeout'')
      else (''unknown'', ''status-unavailable'')))"

definition bare_service :: service where
  "bare_service = \<lparr>Manager = [], ServiceName = [], Description = [], ActiveState = [], Classification = [],
     SubState = [], ServiceEnabled = None, MemoryCurrent = None, MemoryPeak = None, ServiceCPU = None,
     RestartCount = None, TaskCount = None, TaskLimit = None, LastResult = None, ActiveEnteredAt = None,
     InactiveEnteredAt = None\<rparr>"

definition rcd_service :: "runner_fun \<Rightarrow> (string \<Rightarrow> bool) \<Rightarrow> string \<times> string \<Rightarrow> service" where
  "rcd_service run expired s = (case s of (name, class) \<Rightarrow>
     (case rcd_state (expired name) (run ''/usr/sbin/service'' [name, ''onestatus'']) of (active, sub) \<Rightarrow>
       bare_service\<lparr>ServiceName := name, ActiveState := active, SubState := sub, ServiceEnabled := Some True,
         Classification := class\<rparr>))"

definition rcd_collect :: "runner_fun \<Rightarrow> (string \<Rightarrow> bool) \<Rightarrow> service list result" where
  "rcd_collect run expired = (case run ''/usr/sbin/service'' [''-e''] of
     (_, Some e) \<Rightarrow> Inl (Msg ''list enabled rc.d services'')
   | (output, None) \<Rightarrow>
       (let ls = text_lines output in
        if length ls > 513 then Inl (Msg ''rc.d service count exceeds the protocol limit'')
        else bind_result (rcd_services [] ls) (\<lambda>ss.
          if length ss > 512 then Inl (Msg ''rc.d service count exceeds the protocol limit'')
          else Inr (map (rcd_service run expired) (sort_key fst ss)))))"

section \<open>OpenRC\<close>

definition openrc_description :: "bytes \<Rightarrow> string" where
  "openrc_description body =
     (case find (\<lambda>l. has_prefix l ''description='') (map trim_space (text_lines body)) of
        None \<Rightarrow> []
      | Some l \<Rightarrow> take 512 (trim_chars [CHR 0x22, CHR 0x27] (trim_space (trim_prefix l ''description=''))))"

definition openrc_states :: "(string \<times> string \<times> string) list" where
  "openrc_states = [(''started'', ''active'', ''started''), (''starting'', ''activating'', ''starting''),
     (''stopping'', ''deactivating'', ''stopping''), (''failed'', ''failed'', ''failed''),
     (''inactive'', ''inactive'', ''stopped'')]"

definition openrc_state :: "host_files \<Rightarrow> string \<Rightarrow> string \<Rightarrow> string \<times> string" where
  "openrc_state h base name =
     (case find (\<lambda>(dir, s). LinkInfo h (join_path [base, ''run/openrc'', dir, name]) \<noteq> None) openrc_states of
        None \<Rightarrow> (''inactive'', ''stopped'') | Some (dir, s) \<Rightarrow> s)"

definition openrc_enabled :: "host_files \<Rightarrow> string \<Rightarrow> string \<Rightarrow> bool" where
  "openrc_enabled h base name = (case DirItems h (join_path [base, ''etc/runlevels'']) of
     Inl e \<Rightarrow> False
   | Inr levels \<Rightarrow> (\<exists>(level, is_dir) \<in> set levels. is_dir \<and>
       LinkInfo h (join_path [base, ''etc/runlevels'', level, name]) \<noteq> None))"

text \<open>
  The pattern \<open>^(.+)-[0-9][^-]*(-r[0-9]+)?$\<close>: its greedy group takes the longest name whose rest is a
  version.
\<close>

definition release_suffix :: "string \<Rightarrow> bool" where
  "release_suffix s \<longleftrightarrow> has_prefix s ''-r'' \<and> length s > 2 \<and> (\<forall>c \<in> set (drop 2 s). is_digit c)"

definition version_rest :: "string \<Rightarrow> bool" where
  "version_rest s \<longleftrightarrow> has_prefix s ''-'' \<and> length s > 1 \<and> is_digit (s ! 1) \<and>
     (let after = dropWhile (\<lambda>c. c \<noteq> CHR ''-'') (tl s) in after = [] \<or> release_suffix after)"

definition openrc_package_name :: "string \<Rightarrow> string" where
  "openrc_package_name v = (let s = trim_space v in
     case find (\<lambda>n. CHR 10 \<notin> set (take n s) \<and> version_rest (drop n s)) (rev [1..<length s]) of
       None \<Rightarrow> s | Some n \<Rightarrow> take n s)"

definition openrc_owner :: "string \<Rightarrow> (string \<times> string) list \<Rightarrow> (string \<times> string) list" where
  "openrc_owner line m = (case cut_str '' is owned by '' (trim_space line) of
     (path, Some owner) \<Rightarrow> (if is_abs path then AList.update (clean_path path) (openrc_package_name owner) m else m)
   | (path, None) \<Rightarrow> m)"

definition parse_openrc_owners :: "bytes \<Rightarrow> (string \<times> string) list" where
  "parse_openrc_owners body = fold openrc_owner (text_lines body) []"

definition read_openrc_world :: "host_files \<Rightarrow> string \<Rightarrow> string list" where
  "read_openrc_world h base = (case FileBody h (join_path [base, ''etc/apk/world'']) of
     Inl e \<Rightarrow> []
   | Inr body \<Rightarrow> filter (\<lambda>n. n \<noteq> []) (map (\<lambda>l. before_any ''=<>~'' (trim_space l)) (split_on (CHR 10) body)))"

definition openrc_class :: "(string \<times> string) list \<Rightarrow> string list \<Rightarrow> string \<Rightarrow> string" where
  "openrc_class owners world path = (case map_of owners path of
     None \<Rightarrow> ''user-installed''
   | Some owner \<Rightarrow> (if owner \<in> set world then ''user-installed'' else ''system''))"

definition openrc_apk :: "host_files \<Rightarrow> string \<Rightarrow> string option" where
  "openrc_apk h base = find (\<lambda>p. PathInfo h (join_path [base, trim_prefix p ''/'']) \<noteq> None) [''/sbin/apk'', ''/usr/sbin/apk'']"

definition openrc_classify :: "host_files \<Rightarrow> runner_fun \<Rightarrow> string \<Rightarrow> string list \<Rightarrow> string \<Rightarrow> string" where
  "openrc_classify h run base paths = (case openrc_apk h base of
     None \<Rightarrow> (\<lambda>path. if path \<in> set paths then ''unknown'' else [])
   | Some apk \<Rightarrow> (case run apk ([''info'', ''--who-owns''] @ paths) of (body, failure) \<Rightarrow>
       (if failure \<noteq> None \<and> trim_space body = [] then (\<lambda>path. if path \<in> set paths then ''unknown'' else [])
        else (\<lambda>path. if path \<in> set paths
          then openrc_class (parse_openrc_owners body) (read_openrc_world h base) path else []))))"

definition openrc_path :: "string \<Rightarrow> string" where
  "openrc_path name = join_path [''/etc/init.d'', name]"

definition openrc_service :: "host_files \<Rightarrow> string \<Rightarrow> (string \<Rightarrow> string) \<Rightarrow> string \<Rightarrow> service result" where
  "openrc_service h base classes name = (case FileBody h (join_path [base, ''etc/init.d'', name]) of
     Inl e \<Rightarrow> Inl (Msg ''read OpenRC service'')
   | Inr body \<Rightarrow> (case openrc_state h base name of (active, sub) \<Rightarrow>
       Inr (bare_service\<lparr>Manager := ''openrc'', ServiceName := name, Description := openrc_description body,
         ActiveState := active, SubState := sub, ServiceEnabled := Some (openrc_enabled h base name),
         Classification := classes (openrc_path name)\<rparr>)))"

fun all_results :: "'a result list \<Rightarrow> 'a list result" where
  "all_results [] = Inr []"
| "all_results (r # rs) = bind_result r (\<lambda>x. bind_result (all_results rs) (\<lambda>xs. Inr (x # xs)))"

definition openrc_names :: "host_files \<Rightarrow> string \<Rightarrow> (string \<times> bool) list \<Rightarrow> string list" where
  "openrc_names h base items =
     map fst (filter (\<lambda>(n, d). LinkInfo h (join_path [base, ''etc/init.d'', n]) = Some False) items)"

definition openrc_collect :: "host_files \<Rightarrow> runner_fun \<Rightarrow> string \<Rightarrow> service list result" where
  "openrc_collect h run base = (case DirItems h (join_path [base, ''etc/init.d'']) of
     Inl e \<Rightarrow> Inl (Msg ''list OpenRC services'')
   | Inr items \<Rightarrow>
       (if length items > 512 then Inl (Msg ''OpenRC service count exceeds the protocol limit'')
        else if \<exists>(n, d) \<in> set items. \<not> service_name_pattern n
          then Inl (Msg ''OpenRC returned an unsafe service name'')
        else (let names = openrc_names h base items;
                  classes = openrc_classify h run base (map openrc_path names)
              in all_results (map (openrc_service h base classes) (sort names)))))"

section \<open>The choice on Linux\<close>

datatype manager = UseSystemd | UseOpenRC | NoManager error

record linux_selection =
  SelectedCollector :: manager
  SelectedManager :: string
  SelectionDetail :: string

definition new_linux :: "host_files \<Rightarrow> string \<Rightarrow> linux_selection" where
  "new_linux h base =
     (let systemd = directory_exists h (join_path [base, ''run/systemd/system'']);
          openrc = directory_exists h (join_path [base, ''run/openrc''])
      in if systemd \<and> \<not> openrc
           then \<lparr>SelectedCollector = UseSystemd, SelectedManager = ''systemd'', SelectionDetail = ''systemd''\<rparr>
         else if openrc \<and> \<not> systemd
           then \<lparr>SelectedCollector = UseOpenRC, SelectedManager = ''openrc'', SelectionDetail = ''OpenRC''\<rparr>
         else if systemd \<and> openrc
           then \<lparr>SelectedCollector = NoManager (Msg ''multiple supported Linux service managers detected''),
                 SelectedManager = [], SelectionDetail = ''service manager detection is ambiguous''\<rparr>
         else \<lparr>SelectedCollector = NoManager (Msg ''no supported Linux service manager detected''),
               SelectedManager = [], SelectionDetail = ''no supported service manager detected''\<rparr>)"

text \<open>\<open>Collect\<close> of the selected collector; only systemd has a state.\<close>

definition collect_services :: "host_files \<Rightarrow> runner_fun \<Rightarrow> string \<Rightarrow> time \<Rightarrow> manager \<Rightarrow> systemd \<Rightarrow>
    service list result \<times> systemd" where
  "collect_services h run base now m s = (case m of
     UseSystemd \<Rightarrow> systemd_collect run now s
   | UseOpenRC \<Rightarrow> (openrc_collect h run base, s)
   | NoManager e \<Rightarrow> (Inl e, s))"

end
