(* ===== verification/Float_Bounds.thy ===== *)
theory Float_Bounds
  imports Go_Float
begin

text \<open>
  Bounds on rounded results: a number below a bound that is itself a float rounds to at most that
  bound, small integers are exact, and a share of a whole is between 0 and 100 percent.
\<close>

section \<open>The binary exponent\<close>

lemma pow2_powi: "pow2 e = 2 powi e"
  by (simp add: pow2_def power_int_def power_one_over)

lemma pow2_add: "pow2 (a + b) = pow2 a * pow2 b"
  by (simp add: pow2_powi power_int_add)

lemma pow2_nonneg [simp]: "0 \<le> pow2 e"
  by (rule less_imp_le) simp

lemma pow2_mono: "a < b \<Longrightarrow> pow2 a < pow2 b"
proof -
  assume "a < b"
  then have "(1 :: rat) < 2 ^ nat (b - a)" by (intro one_less_power) simp_all
  then have "1 < pow2 (b - a)" using \<open>a < b\<close> by (simp add: pow2_def)
  then have "pow2 a * 1 < pow2 a * pow2 (b - a)" by (intro mult_strict_left_mono) simp_all
  then show ?thesis by (simp flip: pow2_add)
qed

lemma pow2_less_iff [simp]: "pow2 a < pow2 b \<longleftrightarrow> a < b"
  using pow2_mono [of a b] pow2_mono [of b a] by (cases a b rule: linorder_cases) auto

lemma pow2_le_iff [simp]: "pow2 a \<le> pow2 b \<longleftrightarrow> a \<le> b"
  by (simp add: not_less [symmetric])

lemma of_int_less_power: "m < 2 ^ k \<Longrightarrow> (of_int m :: rat) < 2 ^ k"
  by (metis of_int_less_iff of_int_numeral of_int_power)

lemma pow2_nat: "pow2 (int k) = 2 ^ k"
  by (simp add: pow2_def)

lemma pow2_of_int: "0 \<le> e \<Longrightarrow> pow2 e = of_int (2 ^ nat e)"
  by (simp add: pow2_def)

lemma bit_length_upper: "n < 2 ^ bit_length n"
proof (induction n rule: bit_length.induct)
  case (1 n)
  then show ?case by (cases "n = 0") (simp_all add: bit_length.simps [of n])
qed

lemma bit_length_lower: "0 < n \<Longrightarrow> 2 ^ (bit_length n - 1) \<le> n"
proof (induction n rule: bit_length.induct)
  case (1 n)
  show ?case
  proof (cases "n div 2 = 0")
    case True
    with 1 show ?thesis by (simp add: bit_length.simps [of n] bit_length.simps [of 0])
  next
    case False
    then have "0 < bit_length (n div 2)" by (simp add: bit_length.simps [of "n div 2"])
    then have "2 ^ bit_length (n div 2) = 2 * (2 :: nat) ^ (bit_length (n div 2) - 1)"
      by (cases "bit_length (n div 2)") simp_all
    also have "\<dots> \<le> 2 * (n div 2)" using 1 False by simp
    also have "\<dots> \<le> n" by simp
    finally show ?thesis using 1 by (simp add: bit_length.simps [of n])
  qed
qed

lemma bit_length_pos: "0 < n \<Longrightarrow> 0 < bit_length n"
  by (simp add: bit_length.simps [of n])

lemma binary_exponent_bounds:
  assumes "0 < x"
  shows "pow2 (binary_exponent x) \<le> x" and "x < pow2 (binary_exponent x + 1)"
proof -
  obtain n d where q: "quotient_of x = (n, d)" by (metis surj_pair)
  have d: "0 < d" using quotient_of_denom_pos [OF q] .
  have x: "x = of_int n / of_int d" using quotient_of_div [OF q] .
  have n: "0 < n" using assms d by (simp add: x zero_less_divide_iff)
  define bn where "bn = bit_length (nat n)"
  define bd where "bd = bit_length (nat d)"
  have pos: "0 < bn" "0 < bd" using n d by (simp_all add: bn_def bd_def bit_length_pos)
  have nb: "(2 :: nat) ^ (bn - 1) \<le> nat n" "nat n < 2 ^ bn"
    using n bit_length_lower [of "nat n"] bit_length_upper [of "nat n"] by (simp_all add: bn_def)
  have db: "(2 :: nat) ^ (bd - 1) \<le> nat d" "nat d < 2 ^ bd"
    using d bit_length_lower [of "nat d"] bit_length_upper [of "nat d"] by (simp_all add: bd_def)
  have nr: "(2 :: rat) ^ (bn - 1) \<le> of_int n" "of_int n < (2 :: rat) ^ bn"
    using nb n by (metis of_int_le_iff of_int_less_iff of_int_numeral of_int_power of_nat_le_iff of_nat_less_iff
        of_nat_numeral of_nat_power int_nat_eq less_imp_le)+
  have dr: "(2 :: rat) ^ (bd - 1) \<le> of_int d" "of_int d < (2 :: rat) ^ bd"
    using db d by (metis of_int_le_iff of_int_less_iff of_int_numeral of_int_power of_nat_le_iff of_nat_less_iff
        of_nat_numeral of_nat_power int_nat_eq less_imp_le)+
  have p: "(2 :: rat) ^ (bn - 1) = pow2 (int bn - 1)" "(2 :: rat) ^ bn = pow2 (int bn)"
    "(2 :: rat) ^ (bd - 1) = pow2 (int bd - 1)" "(2 :: rat) ^ bd = pow2 (int bd)"
    using pos by (simp_all add: pow2_def nat_diff_distrib)
  note nr = nr [unfolded p] and dr = dr [unfolded p]
  have dpos: "(0 :: rat) < of_int d" using d by simp
  have low: "pow2 (int bn - int bd - 1) \<le> x"
  proof -
    have "pow2 (int bn - int bd - 1) * of_int d \<le> pow2 (int bn - int bd - 1) * pow2 (int bd)"
      using dr by (intro mult_left_mono) auto
    also have "\<dots> = pow2 (int bn - 1)" by (simp flip: pow2_add)
    also have "\<dots> \<le> of_int n" by (rule nr)
    finally show ?thesis using dpos by (simp add: x pos_le_divide_eq)
  qed
  have high: "x < pow2 (int bn - int bd + 1)"
  proof -
    have "of_int n < pow2 (int bn)" by (rule nr)
    also have "\<dots> = pow2 (int bn - int bd + 1) * pow2 (int bd - 1)" by (simp flip: pow2_add)
    also have "\<dots> \<le> pow2 (int bn - int bd + 1) * of_int d" using dr by (intro mult_left_mono) auto
    finally show ?thesis using dpos by (simp add: x pos_divide_less_eq)
  qed
  have be: "binary_exponent x = (if x < pow2 (int bn - int bd) then int bn - int bd - 1 else int bn - int bd)"
    by (simp add: binary_exponent_def q bn_def bd_def Let_def)
  show "pow2 (binary_exponent x) \<le> x" using low by (auto simp: be)
  show "x < pow2 (binary_exponent x + 1)" using high by (auto simp: be)
qed

section \<open>Rounding\<close>

lemma round_even_le: "x \<le> of_int m \<Longrightarrow> round_even x \<le> m"
proof -
  assume x: "x \<le> of_int m"
  then have f: "\<lfloor>x\<rfloor> \<le> m" by (metis floor_mono floor_of_int)
  show ?thesis
  proof (cases "\<lfloor>x\<rfloor> = m")
    case True
    with x have "x = of_int m" by (metis antisym of_int_floor_le)
    then show ?thesis by simp
  next
    case False
    with f have "\<lfloor>x\<rfloor> + 1 \<le> m" by simp
    then show ?thesis by (auto simp: round_even_def Let_def)
  qed
qed

lemma round_even_ge: "of_int m \<le> x \<Longrightarrow> m \<le> round_even x"
proof -
  assume "of_int m \<le> x"
  then have "m \<le> \<lfloor>x\<rfloor>" by (simp add: le_floor_iff)
  then show ?thesis by (auto simp: round_even_def Let_def)
qed

lemma round_pos_le:
  assumes "0 < x" and "x \<le> of_int m * pow2 j" and "m < 2 ^ 53" and "- 1074 \<le> j"
  shows "round_pos x \<le> of_int m * pow2 j"
proof -
  define e where "e = max (- 1074) (binary_exponent x - 52)"
  have "pow2 (binary_exponent x) \<le> x" by (rule binary_exponent_bounds(1) [OF assms(1)])
  also have "\<dots> \<le> of_int m * pow2 j" by (rule assms(2))
  also have "\<dots> < pow2 53 * pow2 j"
    using of_int_less_power [OF assms(3)] by (intro mult_strict_right_mono) (simp_all add: pow2_def [of 53])
  finally have "binary_exponent x < 53 + j" by (simp flip: pow2_add)
  then have e: "e \<le> j" using assms(4) by (simp add: e_def)
  have "pow2 j = pow2 (j - e) * pow2 e" by (simp flip: pow2_add)
  also have "pow2 (j - e) = of_int (2 ^ nat (j - e))" using e by (intro pow2_of_int) simp
  finally have split: "of_int m * pow2 j = of_int (m * 2 ^ nat (j - e)) * pow2 e" by simp
  have "x / pow2 e \<le> of_int (m * 2 ^ nat (j - e))"
    using assms(2) unfolding split by (simp add: pos_divide_le_eq)
  then have "round_even (x / pow2 e) \<le> m * 2 ^ nat (j - e)" by (rule round_even_le)
  then have "of_int (round_even (x / pow2 e)) * pow2 e \<le> of_int (m * 2 ^ nat (j - e)) * pow2 e"
    by (intro mult_right_mono) (simp_all only: of_int_le_iff pow2_pos less_imp_le)
  then show ?thesis unfolding split by (simp add: round_pos_def e_def Let_def)
qed

lemma round_pos_nonneg: "0 < x \<Longrightarrow> 0 \<le> round_pos x"
  by (simp add: round_pos_def Let_def round_even_nonneg)

lemma to_float_bounded:
  assumes "0 \<le> x" and "x \<le> of_int m * pow2 j" and "m < 2 ^ 53" and "- 1074 \<le> j"
    and "of_int m * pow2 j \<le> max_float"
  shows "\<exists>y. to_float x = Finite y \<and> 0 \<le> y \<and> y \<le> of_int m * pow2 j"
proof (cases "x = 0")
  case True
  with assms(2) show ?thesis by simp
next
  case False
  with assms(1) have x: "0 < x" by simp
  have "round_pos x \<le> of_int m * pow2 j" by (rule round_pos_le [OF x assms(2-4)])
  with assms(5) x round_pos_nonneg [OF x] show ?thesis by (simp add: to_float_def)
qed

lemma round_pos_ge: "- 1022 \<le> binary_exponent x \<Longrightarrow> 0 < x \<Longrightarrow> pow2 (binary_exponent x) \<le> round_pos x"
proof -
  assume e: "- 1022 \<le> binary_exponent x" and x: "0 < x"
  let ?e = "binary_exponent x - 52"
  have "of_int (2 ^ 52) * pow2 ?e = pow2 (binary_exponent x)"
    using pow2_add [of 52 ?e] by (simp add: pow2_def [of 52])
  with binary_exponent_bounds(1) [OF x] have "of_int (2 ^ 52) \<le> x / pow2 ?e" by (simp add: pos_le_divide_eq)
  then have "2 ^ 52 \<le> round_even (x / pow2 ?e)" by (rule round_even_ge)
  then have "of_int (2 ^ 52) * pow2 ?e \<le> of_int (round_even (x / pow2 ?e)) * pow2 ?e"
    by (intro mult_right_mono) (simp_all only: of_int_le_iff pow2_pos less_imp_le)
  moreover have "max (- 1074) ?e = ?e" using e by simp
  ultimately show ?thesis
    unfolding round_pos_def Let_def by (simp only: \<open>of_int (2 ^ 52) * pow2 ?e = pow2 (binary_exponent x)\<close>)
qed

lemma to_float_at_least_one:
  assumes "1 \<le> x" and "x \<le> of_int m * pow2 j" and "m < 2 ^ 53" and "- 1074 \<le> j"
    and "of_int m * pow2 j \<le> max_float"
  shows "\<exists>y. to_float x = Finite y \<and> 1 \<le> y \<and> y \<le> of_int m * pow2 j"
proof -
  have x: "0 < x" using assms(1) by simp
  have "pow2 0 < pow2 (binary_exponent x + 1)"
    using assms(1) binary_exponent_bounds(2) [OF x] by (simp add: pow2_def [of 0])
  then have b: "0 \<le> binary_exponent x" by simp
  then have "pow2 0 \<le> pow2 (binary_exponent x)" by simp
  also have "\<dots> \<le> round_pos x" using b x by (intro round_pos_ge) simp_all
  finally have "1 \<le> round_pos x" by (simp add: pow2_def [of 0])
  moreover have "round_pos x \<le> of_int m * pow2 j" by (rule round_pos_le [OF x assms(2-4)])
  ultimately show ?thesis using assms(5) x by (simp add: to_float_def)
qed

lemma small_le_max: "(2 :: rat) ^ 53 \<le> max_float"
  by (simp add: max_float_def)

lemma to_float_small_int:
  assumes "0 \<le> n" and "n < 2 ^ 53"
  shows "to_float (of_int n) = Finite (of_int n)"
proof (cases "n = 0")
  case False
  with assms have x: "(0 :: rat) < of_int n" by simp
  have small: "(of_int n :: rat) < pow2 53" using of_int_less_power [OF assms(2)] by (simp add: pow2_def [of 53])
  with binary_exponent_bounds(1) [OF x] have "pow2 (binary_exponent (of_int n)) < pow2 53" by (rule le_less_trans)
  then have b: "binary_exponent (of_int n) < 53" by simp
  define e where "e = max (- 1074) (binary_exponent (of_int n) - 52)"
  have e: "e \<le> 0" using b by (simp add: e_def)
  have "of_int n / pow2 e = of_int (n * 2 ^ nat (- e))" using e by (simp add: pow2_def)
  then have "round_pos (of_int n) = of_int (n * 2 ^ nat (- e)) * pow2 e"
    by (simp only: round_pos_def Let_def e_def [symmetric] round_even_int)
  also have "\<dots> = of_int n" using e by (simp add: pow2_def)
  finally have r: "round_pos (of_int n) = of_int n" .
  have "(of_int n :: rat) \<le> max_float"
    using of_int_less_power [OF assms(2)] small_le_max by (rule less_imp_le [OF less_le_trans])
  with x r show ?thesis by (simp add: to_float_def)
qed simp

text \<open>A share of a whole in percent, as the collectors compute it.\<close>

definition percent_of :: "int \<Rightarrow> int \<Rightarrow> float64" where
  "percent_of part whole = fdiv (fmul (float_of_int part) (Finite 100)) (float_of_int whole)"

lemma percent_of_bounds:
  assumes "0 \<le> part" and "part \<le> whole" and "0 < whole" and "whole < 2 ^ 46"
  shows "\<exists>y. percent_of part whole = Finite y \<and> 0 \<le> y \<and> y \<le> 100"
proof -
  have p: "to_float (of_int part) = Finite (of_int part)" "to_float (of_int whole) = Finite (of_int whole)"
    using assms by (auto intro: to_float_small_int)
  have "to_float (of_int (part * 100)) = Finite (of_int (part * 100))"
    using assms by (intro to_float_small_int) simp_all
  then have "percent_of part whole = to_float (of_int (part * 100) / of_int whole)"
    using assms(3) by (simp add: percent_of_def float_of_int_def p)
  moreover have "\<exists>y. to_float (of_int (part * 100) / of_int whole) = Finite y \<and> 0 \<le> y \<and> y \<le> of_int 25 * pow2 2"
  proof (rule to_float_bounded)
    show "(0 :: rat) \<le> of_int (part * 100) / of_int whole" using assms by simp
    have "of_int (part * 100) \<le> (of_int (whole * 100) :: rat)" using assms(2) by (simp only: of_int_le_iff)
    then show "(of_int (part * 100) / of_int whole :: rat) \<le> of_int 25 * pow2 2"
      using assms(3) by (simp add: pow2_def pos_divide_le_eq)
    show "of_int 25 * pow2 2 \<le> max_float" by (simp add: pow2_def max_float_def)
  qed simp_all
  ultimately show ?thesis by (simp add: pow2_def)
qed

end
