(* ===== verification/Service_Correct.thy ===== *)
theory Service_Correct
  imports Service_Collectors Float_Bounds
begin

text \<open>
  The service collectors give what the protocol accepts: at most 512 services, each of which passes
  the validator of the heartbeat, in the order of their names where the collector sorts them.
\<close>

section \<open>Names and classifications\<close>

lemma service_name_visible: "service_name_pattern s \<Longrightarrow> c \<in> set s \<Longrightarrow> visible c"
  by (cases s) (auto simp: service_name_pattern_def is_alpha_def is_lower_def is_digit_def lower_char_def
      visible_def Let_def split: if_splits)

lemma service_name_not_blank: "service_name_pattern s \<Longrightarrow> \<not> blank_text s"
  using service_name_visible [of s] trim_space_all_visible [of s]
  by (auto simp: blank_text_def service_name_pattern_def)

lemma service_name_bound: "service_name_pattern s \<Longrightarrow> length s \<le> 256"
  by (simp add: service_name_pattern_def)

definition known_classes :: "string list" where
  "known_classes = ['''', ''user-installed'', ''system'', ''unknown'']"

lemma value_of_update: "value_of (AList.update k v m) j = (if j = k then v else value_of m j)"
  by (simp add: value_of_def update_conv')

lemma fold_known:
  assumes "\<And>x m. \<forall>k. value_of m k \<in> set known_classes \<Longrightarrow> \<forall>k. value_of (f x m) k \<in> set known_classes"
  shows "\<forall>k. value_of m k \<in> set known_classes \<Longrightarrow> \<forall>k. value_of (fold f xs m) k \<in> set known_classes"
  using assms by (induction xs arbitrary: m) auto

lemma classify_systemd_known: "value_of (classify_systemd_units run us) k \<in> set known_classes"
proof -
  have start: "\<forall>k. value_of (fold classify_path us []) k \<in> set known_classes"
    by (rule fold_known) (auto simp: classify_path_def value_of_update known_classes_def value_of_def [of "[]"])
  have "\<forall>k. value_of (fold (classify_owned owners manual) us (fold classify_path us [])) k \<in> set known_classes"
    for owners manual
    by (rule fold_known [OF _ start]) (auto simp: classify_owned_def value_of_update known_classes_def)
  with start show ?thesis
    by (auto simp: classify_systemd_units_def Let_def split: prod.splits option.splits)
qed

section \<open>systemd\<close>

text \<open>A share of a CPU is a finite number that is not negative.\<close>

lemma elapsed_bound: "time_sub a b < 2 ^ 63"
  by (simp add: time_sub_def)

lemma float_of_u64_bounded: "\<exists>y. float_of_u64 w = Finite y \<and> 0 \<le> y \<and> y \<le> of_int 1 * pow2 64"
  unfolding float_of_u64_def float_of_int_def
proof (rule to_float_bounded)
  have "uint w < 2 ^ 64" using unsigned_less [of w] by simp
  then have "of_int (uint w) < (2 :: rat) ^ 64" by (rule of_int_less_power)
  then show "of_int (uint w) \<le> of_int 1 * pow2 64" by (simp add: pow2_def)
  show "of_int 1 * pow2 64 \<le> max_float" by (simp add: pow2_def max_float_def)
  show "(0 :: rat) \<le> of_int (uint w)" by (simp only: of_int_0_le_iff unsigned_greater_eq)
qed simp_all

lemma share_bounded:
  assumes "0 < elapsed" and "elapsed < 2 ^ 63"
  shows "\<exists>y. fdiv (fmul (float_of_u64 w) (Finite 100)) (float_of_int elapsed) = Finite y \<and> 0 \<le> y"
proof -
  obtain y where y: "float_of_u64 w = Finite y" "0 \<le> y" "y \<le> of_int 1 * pow2 64"
    using float_of_u64_bounded by blast
  have big: "of_int 1 * pow2 71 \<le> max_float" "of_int 1 * pow2 63 \<le> max_float" by (simp_all add: pow2_def max_float_def)
  have "\<exists>z. to_float (y * 100) = Finite z \<and> 0 \<le> z \<and> z \<le> of_int 1 * pow2 71"
    by (rule to_float_bounded) (use y big in \<open>simp_all add: pow2_def\<close>)
  then obtain z where z: "to_float (y * 100) = Finite z" "0 \<le> z" "z \<le> of_int 1 * pow2 71" by blast
  have "of_int elapsed \<le> of_int 1 * pow2 63"
    using of_int_less_power [OF assms(2)] by (simp add: pow2_def)
  moreover have "(1 :: rat) \<le> of_int elapsed" using assms(1) by (simp only: of_int_1_le_iff)
  ultimately have "\<exists>e. to_float (of_int elapsed) = Finite e \<and> 1 \<le> e \<and> e \<le> of_int 1 * pow2 63"
    using big by (intro to_float_at_least_one) simp_all
  then obtain e where e: "to_float (of_int elapsed) = Finite e" "1 \<le> e" by blast
  have "z / e \<le> z" using z(2) e(2) by (simp add: divide_le_eq mult_le_cancel_left1)
  then have "\<exists>q. to_float (z / e) = Finite q \<and> 0 \<le> q \<and> q \<le> of_int 1 * pow2 71"
    using z e big by (intro to_float_bounded) simp_all
  then show ?thesis using y z e by (auto simp: float_of_int_def)
qed

lemma cpu_share_fine: "elapsed < 2 ^ 63 \<Longrightarrow> \<not> bad_measure (cpu_share previous elapsed name cpu)"
proof (cases "map_of previous name")
  case (Some p)
  assume e: "elapsed < 2 ^ 63"
  show ?thesis
  proof (cases "p \<le> cpu \<and> elapsed > 0")
    case True
    with e obtain y where "fdiv (fmul (float_of_u64 (cpu - p)) (Finite 100)) (float_of_int elapsed) = Finite y" "0 \<le> y"
      using share_bounded by blast
    with Some True show ?thesis by (simp add: cpu_share_def nonfinite_def)
  qed (use Some in \<open>auto simp: cpu_share_def\<close>)
qed (simp add: cpu_share_def)

text \<open>
  Three fields systemd fills are copied at any length, and a state of 64 bytes or more is cut and might
  then be blank.
\<close>

definition short_fields :: "service \<Rightarrow> bool" where
  "short_fields v \<longleftrightarrow> \<not> option_over 256 (LastResult v) \<and> \<not> option_over 128 (ActiveEnteredAt v) \<and>
     \<not> option_over 128 (InactiveEnteredAt v) \<and> length (ActiveState v) < 64"

definition acceptable :: "service \<Rightarrow> bool" where
  "acceptable v \<longleftrightarrow> \<not> blank_text (ServiceName v) \<and> length (ServiceName v) \<le> 256 \<and> length (Description v) \<le> 2048 \<and>
     (length (ActiveState v) < 64 \<longrightarrow> \<not> blank_text (ActiveState v)) \<and> length (ActiveState v) \<le> 64 \<and> length (SubState v) \<le> 64 \<and>
     Classification v \<in> set known_classes \<and> \<not> bad_measure (ServiceCPU v)"

lemma acceptable_valid: "acceptable v \<Longrightarrow> short_fields v \<Longrightarrow> validate_service v = Inr ()"
  by (auto simp: acceptable_def short_fields_def validate_service_def checks_ok known_classes_def)

lemma unit_name_not_blank: "unit_name u \<noteq> [] \<Longrightarrow> \<not> blank_text (unit_name u)"
proof -
  assume n: "unit_name u \<noteq> []"
  have "\<exists>x. trim_space (value_of u ''Id'') = unit_name u @ x"
    by (cases "has_suffix (trim_space (value_of u ''Id'')) ''.service''")
      (auto simp: unit_name_def trim_suffix_def intro: exI [of _ "drop n s" for n s] append_take_drop_id [symmetric])
  then show ?thesis using front_of_trimmed_not_blank n by (auto simp: blank_text_def)
qed

lemma collect_units_fine:
  assumes "elapsed < 2 ^ 63" and "\<And>k. value_of classes k \<in> set known_classes"
  shows "length (fst (collect_units classes elapsed us previous)) \<le> length us \<and>
    (\<forall>v \<in> set (fst (collect_units classes elapsed us previous)). acceptable v)"
proof (induction us arbitrary: previous)
  case (Cons u us)
  have one: "acceptable (systemd_service classes u cpu)"
    if "unit_name u \<noteq> []" "length (unit_name u) \<le> 256" "trim_space (value_of u ''ActiveState'') \<noteq> []"
      "\<not> bad_measure cpu" for cpu
    using that assms(2) unit_name_not_blank [of u]
    by (auto simp: acceptable_def systemd_service_def blank_text_def)
  let ?skip = "unit_name u = [] \<or> length (unit_name u) > 256 \<or> trim_space (value_of u ''ActiveState'') = []"
  show ?case
  proof (cases ?skip)
    case True
    then show ?thesis using Cons [of previous] by simp
  next
    case False
    then have ok: "unit_name u \<noteq> []" "length (unit_name u) \<le> 256" "trim_space (value_of u ''ActiveState'') \<noteq> []"
      by simp_all
    show ?thesis
    proof (cases "parse_u64 (value_of u ''CPUUsageNSec'')")
      case None
      have "acceptable (systemd_service classes u None)" by (rule one [OF ok]) simp
      then show ?thesis using Cons [of previous] False None
        by (cases "collect_units classes elapsed us previous") simp
    next
      case (Some cpu)
      have "acceptable (systemd_service classes u (cpu_share previous elapsed (unit_name u) cpu))"
        by (rule one [OF ok cpu_share_fine [OF assms(1)]])
      then show ?thesis using Cons [of "AList.update (unit_name u) cpu previous"] False Some
        by (cases "collect_units classes elapsed us (AList.update (unit_name u) cpu previous)") simp
    qed
  qed
qed simp

lemma systemd_collect_fine:
  assumes "systemd_collect run now c = (Inr ss, c')"
  shows "length ss \<le> 512 \<and> (\<forall>v \<in> set ss. acceptable v)"
proof -
  obtain body x where o: "length (parse_systemd_properties body) \<le> 512" "collect_units (classify_systemd_units run (parse_systemd_properties body))
        (time_sub now (PreviousAt c)) (parse_systemd_properties body) (PreviousCPU c) = (ss, x)"
    using assms by (auto simp: systemd_collect_def Let_def not_less split: prod.splits option.splits if_splits)
  show ?thesis
    using collect_units_fine [OF elapsed_bound [of now "PreviousAt c"] classify_systemd_known [of run "parse_systemd_properties body"],
        of "parse_systemd_properties body" "PreviousCPU c"] o
    by auto
qed

section \<open>rc.d\<close>

lemma rcd_services_fine:
  assumes "rcd_services seen ls = Inr ss"
    and "\<forall>(n, k) \<in> set seen. service_name_pattern n \<and> k \<in> set known_classes" and "distinct (map fst seen)"
  shows "(\<forall>(n, k) \<in> set ss. service_name_pattern n \<and> k \<in> set known_classes) \<and> distinct (map fst ss)"
  using assms
proof (induction seen ls rule: rcd_services.induct)
  case (2 seen line ls)
  define path where "path = trim_space line"
  have known: "classify_rcd_path path \<in> set known_classes" for path
    by (simp add: classify_rcd_path_def known_classes_def)
  show ?case
  proof (cases "path = []")
    case True
    then show ?thesis using 2 by (simp add: path_def Let_def)
  next
    case False
    with 2(3) have ok: "is_abs path" "clean_path path = path" "service_name_pattern (base_name path)"
      and rest: "rcd_services (if base_name path \<in> fst ` set seen then seen
          else seen @ [(base_name path, classify_rcd_path path)]) ls = Inr ss"
      by (auto simp: path_def Let_def split: if_splits)
    show ?thesis
      by (rule 2(2) [OF refl refl, folded path_def, OF False _ _ rest [folded path_def]])
        (use ok known 2(4,5) in \<open>auto simp: path_def\<close>)
  qed
qed auto

lemma rcd_state_known: "rcd_state expired status \<in> set [(''active'', ''running''), (''inactive'', ''stopped''),
    (''unknown'', ''collection-timeout''), (''unknown'', ''status-unavailable'')]"
  by (cases status) (simp add: rcd_state_def)

lemma state_texts: "list_all (\<lambda>t. trim_space t \<noteq> [] \<and> length t < 64) [''active'', ''inactive'', ''unknown'', ''activating'',
    ''deactivating'', ''failed'']"
  by code_simp

lemma bare_fine:
  assumes "service_name_pattern n" and "k \<in> set known_classes" and "length d \<le> 2048"
    and "active \<in> set [''active'', ''inactive'', ''unknown'', ''activating'', ''deactivating'', ''failed'']" and "length sub \<le> 64"
  shows "acceptable (bare_service\<lparr>Manager := m, ServiceName := n, Description := d, ActiveState := active, SubState := sub,
           ServiceEnabled := e, Classification := k\<rparr>) \<and>
         short_fields (bare_service\<lparr>Manager := m, ServiceName := n, Description := d, ActiveState := active, SubState := sub,
           ServiceEnabled := e, Classification := k\<rparr>)"
proof -
  have "\<forall>t \<in> set [''active'', ''inactive'', ''unknown'', ''activating'', ''deactivating'', ''failed'']. trim_space t \<noteq> [] \<and> length t < 64"
    using state_texts by (simp only: list_all_iff)
  with assms(4) have "trim_space active \<noteq> []" "length active < 64" by blast+
  then show ?thesis
    using assms service_name_not_blank [OF assms(1)] service_name_bound [OF assms(1)]
    by (simp add: bare_service_def acceptable_def short_fields_def blank_text_def)
qed

lemma rcd_service_fine:
  assumes "service_name_pattern n" and "k \<in> set known_classes"
  shows "acceptable (rcd_service run expired (n, k)) \<and> short_fields (rcd_service run expired (n, k))"
proof -
  obtain active sub where s: "rcd_state (expired n) (run ''/usr/sbin/service'' [n, ''onestatus'']) = (active, sub)"
    by (metis surj_pair)
  with rcd_state_known [of "expired n" "run ''/usr/sbin/service'' [n, ''onestatus'']"]
  have a: "active \<in> set [''active'', ''inactive'', ''unknown'', ''activating'', ''deactivating'', ''failed'']" and l: "length sub \<le> 64"
    by auto
  have "rcd_service run expired (n, k) = bare_service\<lparr>Manager := [], ServiceName := n, Description := [],
      ActiveState := active, SubState := sub, ServiceEnabled := Some True, Classification := k\<rparr>"
    by (simp add: rcd_service_def s bare_service_def)
  then show ?thesis using bare_fine [OF assms _ a l, of "[]"] by simp
qed

lemma rcd_collect_fine:
  assumes "rcd_collect run expired = Inr ss"
  shows "length ss \<le> 512 \<and> (\<forall>v \<in> set ss. acceptable v \<and> short_fields v) \<and>
    sorted (map ServiceName ss) \<and> distinct (map ServiceName ss)"
proof -
  obtain ls ns where n: "rcd_services [] ls = Inr ns" "length ns \<le> 512"
      "ss = map (rcd_service run expired) (sort_key fst ns)"
    using assms by (auto simp: rcd_collect_def Let_def bind_result_Inr_iff split: prod.splits option.splits if_splits)
  have f: "\<forall>(n, k) \<in> set ns. service_name_pattern n \<and> k \<in> set known_classes" and d: "distinct (map fst ns)"
    using rcd_services_fine [OF n(1)] by auto
  have name: "ServiceName (rcd_service run expired p) = fst p" for p
    by (cases p) (simp add: rcd_service_def split: prod.splits)
  have m: "map ServiceName ss = map fst (sort_key fst ns)" by (simp add: n(3) name)
  have "sorted (map ServiceName ss)" "distinct (map ServiceName ss)" unfolding m using d by simp_all
  moreover have "\<forall>v \<in> set ss. acceptable v \<and> short_fields v" using f rcd_service_fine by (fastforce simp: n(3))
  ultimately show ?thesis using n by simp
qed

section \<open>OpenRC\<close>

lemma find_in_set: "find P xs = Some x \<Longrightarrow> x \<in> set xs"
  by (induction xs) (auto split: if_splits)

lemma openrc_state_known: "fst (openrc_state h base name) \<in> set [''active'', ''inactive'', ''unknown'', ''activating'', ''deactivating'', ''failed'']
    \<and> length (snd (openrc_state h base name)) \<le> 64"
proof (cases "find (\<lambda>(dir, s). LinkInfo h (join_path [base, ''run/openrc'', dir, name]) \<noteq> None) openrc_states")
  case None
  then show ?thesis by (simp add: openrc_state_def)
next
  case (Some p)
  obtain dir st where p: "p = (dir, st)" by (metis surj_pair)
  have "(dir, st) \<in> set openrc_states" using Some unfolding p by (rule find_in_set)
  moreover have "openrc_state h base name = st" unfolding openrc_state_def Some p by simp
  ultimately show ?thesis by (auto simp: openrc_states_def)
qed

lemma openrc_class_known: "openrc_classify h run base paths path \<in> set known_classes"
  by (auto simp: openrc_classify_def openrc_class_def known_classes_def split: option.splits prod.splits)

lemma openrc_service_fine:
  assumes "openrc_service h base (openrc_classify h run base paths) n = Inr v" and "service_name_pattern n"
  shows "acceptable v \<and> short_fields v \<and> ServiceName v = n"
proof -
  obtain body active sub where b: "openrc_state h base n = (active, sub)"
      "v = bare_service\<lparr>Manager := ''openrc'', ServiceName := n, Description := openrc_description body,
         ActiveState := active, SubState := sub, ServiceEnabled := Some (openrc_enabled h base n),
         Classification := openrc_classify h run base paths (openrc_path n)\<rparr>"
    using assms(1) by (auto simp: openrc_service_def split: sum.splits prod.splits)
  have d: "length (openrc_description body) \<le> 2048" by (cases "find (\<lambda>l. has_prefix l ''description='') (map trim_space (text_lines body))")
    (simp_all add: openrc_description_def min_def)
  show ?thesis
    using bare_fine [OF assms(2) openrc_class_known d] openrc_state_known [of h base n] b by (simp add: bare_service_def)
qed

lemma all_results_map:
  "all_results (map f xs) = Inr ys \<longleftrightarrow> length ys = length xs \<and> (\<forall>i < length xs. f (xs ! i) = Inr (ys ! i))"
proof (induction xs arbitrary: ys)
  case (Cons x xs)
  show ?case by (cases ys) (auto simp: bind_result_Inr_iff Cons nth_Cons less_Suc_eq_0_disj split: nat.splits)
qed auto

lemma openrc_collect_fine:
  assumes "openrc_collect h run base = Inr ss"
  shows "length ss \<le> 512 \<and> (\<forall>v \<in> set ss. acceptable v \<and> short_fields v) \<and> sorted (map ServiceName ss)"
proof -
  obtain items where d: "DirItems h (join_path [base, ''etc/init.d'']) = Inr items"
    using assms by (cases "DirItems h (join_path [base, ''etc/init.d''])") (simp_all add: openrc_collect_def)
  note c = assms [unfolded openrc_collect_def d sum.case Let_def]
  have i: "\<not> length items > 512" using c by (metis Inl_Inr_False)
  note c = c [unfolded if_not_P [OF i]]
  have n: "\<not> (\<exists>(n, d) \<in> set items. \<not> service_name_pattern n)" using c by (metis Inl_Inr_False)
  note r = c [unfolded if_not_P [OF n]]
  let ?ns = "sort (openrc_names h base items)"
  have pattern: "service_name_pattern n" if "n \<in> set ?ns" for n
    using that n by (auto simp: openrc_names_def)
  have each: "acceptable (ss ! k) \<and> short_fields (ss ! k) \<and> ServiceName (ss ! k) = ?ns ! k" if "k < length ?ns" for k
  proof (rule openrc_service_fine)
    show "service_name_pattern (?ns ! k)" using that pattern by (meson nth_mem)
    show "openrc_service h base (openrc_classify h run base (map openrc_path (openrc_names h base items))) (?ns ! k) = Inr (ss ! k)"
      using r that unfolding all_results_map by blast
  qed
  have l: "length ss = length ?ns" using r unfolding all_results_map by blast
  have "map ServiceName ss = ?ns" using each l by (intro nth_equalityI) simp_all
  moreover have "length ?ns \<le> 512"
    using i by (simp add: openrc_names_def not_less) (meson length_filter_le order_trans)
  moreover have "\<forall>v \<in> set ss. acceptable v \<and> short_fields v" using each l by (metis in_set_conv_nth)
  ultimately show ?thesis using l by simp
qed

section \<open>Every collector\<close>

text \<open>
  C28: what a service collector returns is what the protocol accepts: at most 512 services, each of which
  passes the validator of a heartbeat, whatever the commands print and the files hold. The one exception
  are texts systemd reports that are longer than the protocol's fields, which are copied at full length.
  OpenRC and rc.d give them in the order of their names, rc.d without repetition.
\<close>

theorem collected_services_valid:
  assumes "collect_services h run base now m s = (Inr ss, s') \<or> rcd_collect run expired = Inr ss"
  shows "length ss \<le> 512 \<and> (\<forall>v \<in> set ss. short_fields v \<longrightarrow> validate_service v = Inr ()) \<and>
    (m = UseOpenRC \<or> rcd_collect run expired = Inr ss \<longrightarrow>
       (\<forall>v \<in> set ss. short_fields v) \<and> sorted (map ServiceName ss)) \<and>
    (rcd_collect run expired = Inr ss \<longrightarrow> distinct (map ServiceName ss))"
proof -
  have rcd: "length ss \<le> 512 \<and> (\<forall>v \<in> set ss. acceptable v \<and> short_fields v) \<and> sorted (map ServiceName ss) \<and>
      distinct (map ServiceName ss)" if "rcd_collect run expired = Inr ss"
    by (rule rcd_collect_fine [OF that])
  have linux: "length ss \<le> 512 \<and> (\<forall>v \<in> set ss. acceptable v) \<and>
      (m = UseOpenRC \<longrightarrow> (\<forall>v \<in> set ss. short_fields v) \<and> sorted (map ServiceName ss))"
    if "collect_services h run base now m s = (Inr ss, s')"
    using that systemd_collect_fine [of run now s ss s'] openrc_collect_fine [of h run base ss]
    by (cases m) (auto simp: collect_services_def)
  show ?thesis
  proof (cases "rcd_collect run expired = Inr ss")
    case True
    then show ?thesis using rcd acceptable_valid by blast
  next
    case False
    with assms linux show ?thesis using acceptable_valid by blast
  qed
qed

definition sample_runner :: runner_fun where
  "sample_runner name args =
     (if args = [''-e''] then (''/etc/rc.d/cron'', None)
      else ([], None))"

lemma sample_names:
  "case rcd_collect sample_runner (\<lambda>n. False) of Inr ss \<Rightarrow> map ServiceName ss = [''cron''] | Inl e \<Rightarrow> False"
  by code_simp

lemma collected_services_valid_witness:
  "\<exists>ss. rcd_collect sample_runner (\<lambda>n. False) = Inr ss \<and> map ServiceName ss = [''cron''] \<and>
     validate_service (ss ! 0) = Inr ()"
proof -
  obtain ss where ss: "rcd_collect sample_runner (\<lambda>n. False) = Inr ss" "map ServiceName ss = [''cron'']"
    using sample_names by (cases "rcd_collect sample_runner (\<lambda>n. False)") simp_all
  have i: "ss ! 0 \<in> set ss" using ss(2) by (cases ss) simp_all
  note t = collected_services_valid [where run = sample_runner and expired = "\<lambda>n. False" and ss = ss, OF disjI2 [OF ss(1)]]
  have "short_fields (ss ! 0)" using t [THEN conjunct2, THEN conjunct2, THEN conjunct1] ss(1) i by simp
  moreover have "short_fields (ss ! 0) \<longrightarrow> validate_service (ss ! 0) = Inr ()"
    using t [THEN conjunct2, THEN conjunct1] i by (rule bspec)
  ultimately have "validate_service (ss ! 0) = Inr ()" by (rule rev_mp)
  with ss show ?thesis by (intro exI [of _ ss] conjI)
qed

end
