(* ===== verification/Go_Values.thy ===== *)
theory Go_Values
  imports Go_Text Protocol_Model "HOL-Library.AList"
begin

text \<open>
  Untyped values: what \<open>encoding/json\<close> decodes into an \<open>any\<close>, and how \<open>fmt.Sprint\<close> prints it. Maps with
  string keys are built entry by entry; a map is printed in the order of its keys.
\<close>

definition put :: "string \<Rightarrow> any \<Rightarrow> metric_map \<Rightarrow> metric_map" where
  "put k v m = AList.update (StringKey k) v m"

definition get :: "metric_map \<Rightarrow> string \<Rightarrow> any option" where
  "get m k = map_of m (StringKey k)"

lemma get_put [simp]: "get (put k v m) j = (if j = k then Some v else get m j)"
  by (auto simp: get_def put_def update_conv')

text \<open>Reading an absent key gives nil.\<close>

definition at_key :: "metric_map \<Rightarrow> string \<Rightarrow> any" where
  "at_key m k = (case get m k of None \<Rightarrow> GNil | Some v \<Rightarrow> v)"

definition string_map :: "(string \<times> string) list \<Rightarrow> metric_map" where
  "string_map m = map (\<lambda>(k, v). (StringKey k, GString v)) m"

text \<open>Several entries at once, as in a composite literal with distinct keys.\<close>

definition metric_map_of :: "(string \<times> any) list \<Rightarrow> metric_map" where
  "metric_map_of m = map (\<lambda>(k, v). (StringKey k, v)) m"

fun put_some :: "string \<Rightarrow> any option \<Rightarrow> metric_map \<Rightarrow> metric_map" where
  "put_some k None m = m"
| "put_some k (Some v) m = put k v m"

definition u64_value :: "u64 \<Rightarrow> any" where
  "u64_value w = GInt KUint64 (uint w)"

text \<open>A number out of the range of \<open>float64\<close> is an error of the decoding.\<close>

fun json_any :: "json \<Rightarrow> any option" where
  "json_any JNull = Some GNil"
| "json_any (JBool b) = Some (GBool b)"
| "json_any (JNum l) = map_option GFloat64 (parse_float l)"
| "json_any (JStr s) = Some (GString s)"
| "json_any (JArr xs) = map_option GSlice (those (map json_any xs))"
| "json_any (JObj ms) = map_option (\<lambda>vs. GMap (fold (\<lambda>(k, v). put k v) vs []))
     (those (map (\<lambda>(k, v). map_option (Pair k) (json_any v)) ms))"

text \<open>A value of type \<open>map[string]any\<close>.\<close>

definition json_map :: "json \<Rightarrow> metric_map option" where
  "json_map v = (case v of JNull \<Rightarrow> Some []
     | JObj ms \<Rightarrow> (case json_any v of Some (GMap m) \<Rightarrow> Some m | _ \<Rightarrow> None) | _ \<Rightarrow> None)"

definition show_int :: "int \<Rightarrow> string" where
  "show_int n = (if n < 0 then CHR ''-'' # show_nat (nat (- n)) else show_nat (nat n))"

fun key_text :: "map_key \<Rightarrow> string" where
  "key_text (StringKey k) = k"
| "key_text OtherKey = []"

text \<open>
  \<open>fmt.Sprint\<close> of what JSON decodes to; of the other kinds only those the collectors put into a map
  occur, and a pointer prints as its address.
\<close>

fun sprint :: "any \<Rightarrow> string" where
  "sprint GNil = ''<nil>''"
| "sprint (GBool b) = (if b then ''true'' else ''false'')"
| "sprint (GInt k n) = show_int n"
| "sprint (GFloat32 x) = show_float x"
| "sprint (GFloat64 x) = show_float x"
| "sprint (GString s) = s"
| "sprint (GMap m) = ''map['' @ join_with (CHR '' '')
     (map (\<lambda>(k, t). key_text k @ CHR '':'' # t) (sort_key (\<lambda>(k, t). key_text k) (map (\<lambda>(k, v). (k, sprint v)) m))) @ '']''"
| "sprint (GSlice xs) = CHR ''['' # join_with (CHR '' '') (map sprint xs) @ '']''"
| "sprint (GPointer p) = ''0xc000000000''"
| "sprint (GStruct fs) = CHR ''{'' # join_with (CHR '' '') (map (\<lambda>(e, v). sprint v) fs) @ ''}''"
| "sprint GOther = []"

end
