(* ===== verification/Inventory_Scan.thy ===== *)
theory Inventory_Scan
  imports Go_Values Command_Output Protocol_Check
begin

text \<open>
  The hardware scanner, \<open>internal/inventoryscan/scanner*.go\<close>: the parsers of dmidecode, kenv, lsblk, ip
  and of commands that print a line per device, and the scans of Linux and FreeBSD made of them.
  Commands are an argument, with the existence of the tools.
\<close>

section \<open>Keys and strings\<close>

definition is_alnum :: "char \<Rightarrow> bool" where
  "is_alnum c \<longleftrightarrow> is_digit c \<or> is_lower (lower_char c)"

text \<open>Splitting at runs of other characters.\<close>

function name_parts :: "string \<Rightarrow> string list" where
  "name_parts s = (case dropWhile is_alnum s of [] \<Rightarrow> [s]
     | c # rest \<Rightarrow> takeWhile is_alnum s # name_parts (dropWhile (\<lambda>x. \<not> is_alnum x) rest))"
  by pat_completeness auto
termination
proof (relation "measure length")
  fix s :: string and c rest
  assume "dropWhile is_alnum s = c # rest"
  then have "length rest < length s" using length_dropWhile_le [of is_alnum s] by simp
  then show "(dropWhile (\<lambda>x. \<not> is_alnum x) rest, s) \<in> measure length"
    using length_dropWhile_le [of "\<lambda>x. \<not> is_alnum x" rest] by simp
qed simp

declare name_parts.simps [simp del]

definition upper_char :: "char \<Rightarrow> char" where
  "upper_char c = (if is_lower c then char_of ((of_char c :: nat) - 32) else c)"

definition capitalise :: "string \<Rightarrow> string" where
  "capitalise s = (case to_lower s of [] \<Rightarrow> [] | c # t \<Rightarrow> upper_char c # t)"

definition field_key :: "string \<Rightarrow> string" where
  "field_key v = (let parts = name_parts (trim_space v);
       key = to_lower (hd parts) @ concat (map capitalise (tl parts))
     in if key = [] \<or> key \<in> set unsafe_keys then ''value'' else key)"

definition bounded_string :: "string \<Rightarrow> string" where
  "bounded_string v = take 2048 (trim_space v)"

section \<open>dmidecode\<close>

text \<open>The sections read so far, the current one first: a title with its values.\<close>

type_synonym dmi_section = "string \<times> (string \<times> string) list"

definition unspecified :: "string \<Rightarrow> bool" where
  "unspecified v \<longleftrightarrow> (\<exists>w \<in> set [''Not Specified'', ''Unknown'', ''No Module Installed'']. equal_fold v w)"

definition dmi_line :: "string \<Rightarrow> dmi_section list \<Rightarrow> dmi_section list" where
  "dmi_line raw sections =
     (let line = trim_right_chars [CHR 32, CHR 9] raw; trimmed = trim_space line in
      if trimmed = [] \<or> has_prefix trimmed ''Handle '' \<or> has_prefix trimmed ''#'' then sections
      else if line \<noteq> [] \<and> hd line \<noteq> CHR '' '' \<and> CHR '':'' \<notin> set trimmed then (trimmed, []) # sections
      else case sections of [] \<Rightarrow> []
        | (title, vs) # rest \<Rightarrow>
           (case cut_at (CHR '':'') trimmed of
              (key, None) \<Rightarrow> sections
            | (key, Some v) \<Rightarrow>
                (if trim_space v = [] \<or> unspecified (bounded_string v) then sections
                 else (title, AList.update (field_key key) (bounded_string v) vs) # rest)))"

definition dmi_sections :: "bytes \<Rightarrow> dmi_section list" where
  "dmi_sections body = rev (fold dmi_line (text_lines body) [])"

definition kind_by_title :: "string \<Rightarrow> string" where
  "kind_by_title = value_of [(''BIOS Information'', ''bios''), (''System Information'', ''system''),
     (''Base Board Information'', ''motherboard''), (''Chassis Information'', ''chassis''),
     (''Processor Information'', ''cpu''), (''Physical Memory Array'', ''memory-array''),
     (''Memory Device'', ''memory''), (''System Power Supply'', ''power-supply'')]"

definition section_locator :: "string \<Rightarrow> nat \<Rightarrow> (string \<times> string) list \<Rightarrow> string" where
  "section_locator kind n vs =
     (case find (\<lambda>k. value_of vs k \<noteq> []) [''locator'', ''bankLocator'', ''socketDesignation'', ''designation''] of
        None \<Rightarrow> kind @ CHR ''-'' # show_nat n
      | Some k \<Rightarrow> bounded_string (value_of vs k))"

definition dropped_section :: "dmi_section \<Rightarrow> bool" where
  "dropped_section s = (case s of (title, vs) \<Rightarrow> let kind = kind_by_title title in
     kind = [] \<or> vs = [] \<or> (kind = ''memory'' \<and> map_of vs ''size'' = None))"

fun dmi_components :: "(string \<times> nat) list \<Rightarrow> dmi_section list \<Rightarrow> hardware_component list" where
  "dmi_components counts [] = []"
| "dmi_components counts ((title, vs) # rest) =
     (if dropped_section (title, vs) then dmi_components counts rest
      else let kind = kind_by_title title;
               n = (case map_of counts kind of None \<Rightarrow> 1 | Some k \<Rightarrow> k + 1)
           in \<lparr>ComponentKind = kind, Locator = section_locator kind n vs, ComponentValues = string_map vs\<rparr>
              # dmi_components (AList.update kind n counts) rest)"

definition parse_dmi :: "bytes \<Rightarrow> hardware_component list" where
  "parse_dmi body = dmi_components [] (dmi_sections body)"

section \<open>kenv\<close>

definition kenv_groups :: "(string \<times> string \<times> string \<times> (string \<times> string) list) list" where
  "kenv_groups =
     [(''bios'', ''bios-1'', ''smbios.bios.'', [(''vendor'', ''vendor''), (''version'', ''version''), (''reldate'', ''releaseDate'')]),
      (''system'', ''system-1'', ''smbios.system.'', [(''maker'', ''manufacturer''), (''product'', ''productName''),
        (''version'', ''version''), (''serial'', ''serialNumber''), (''uuid'', ''uuid'')]),
      (''motherboard'', ''motherboard-1'', ''smbios.planar.'', [(''maker'', ''manufacturer''), (''product'', ''productName''),
        (''version'', ''version''), (''serial'', ''serialNumber'')]),
      (''chassis'', ''chassis-1'', ''smbios.chassis.'', [(''maker'', ''manufacturer''), (''type'', ''type''),
        (''version'', ''version''), (''serial'', ''serialNumber'')])]"

definition kenv_values :: "(string \<times> string) list \<Rightarrow> string \<Rightarrow> (string \<times> string) list \<Rightarrow> (string \<times> string) list" where
  "kenv_values values prefix fs = filter (\<lambda>(k, v). v \<noteq> [] \<and> \<not> equal_fold v ''unknown'' \<and> \<not> equal_fold v ''not specified'')
     (map (\<lambda>(source, destination). (destination, bounded_string (value_of values (prefix @ source)))) fs)"

definition parse_kenv_smbios :: "(string \<times> string) list \<Rightarrow> hardware_component list" where
  "parse_kenv_smbios values = List.map_filter (\<lambda>(kind, locator, prefix, fs).
     let vs = kenv_values values prefix fs in
     if vs = [] then None
     else Some \<lparr>ComponentKind = kind, Locator = locator, ComponentValues = string_map vs\<rparr>) kenv_groups"

section \<open>A line per device\<close>

fun line_records :: "string \<Rightarrow> nat \<Rightarrow> nat \<Rightarrow> nat \<Rightarrow> string list \<Rightarrow> hardware_component list" where
  "line_records kind limit index n [] = []"
| "line_records kind limit index n (line # ls) =
     (if trim_space line = [] \<or> n \<ge> limit then line_records kind limit (index + 1) n ls
      else \<lparr>ComponentKind = kind, Locator = kind @ CHR ''-'' # show_nat (index + 1),
             ComponentValues = string_map [(''description'', bounded_string (trim_space line))]\<rparr>
           # line_records kind limit (index + 1) (n + 1) ls)"

definition parse_line_records :: "string \<Rightarrow> bytes \<Rightarrow> nat \<Rightarrow> hardware_component list" where
  "parse_line_records kind body limit = line_records kind limit 0 0 (text_lines body)"

section \<open>lsblk\<close>

definition json_maps :: "json \<Rightarrow> metric_map list option" where
  "json_maps v = (case v of JNull \<Rightarrow> Some [] | JArr xs \<Rightarrow> those (map json_map xs) | _ \<Rightarrow> None)"

definition as_map :: "any \<Rightarrow> metric_map option" where
  "as_map v = (case v of GMap m \<Rightarrow> Some m | _ \<Rightarrow> None)"

text \<open>
  A node with its children down to depth four: \<open>r\<close> is the number of levels still allowed. An absent
  or empty value is left out, at most 64 children are kept.
\<close>

fun lsblk_entry :: "(metric_map \<Rightarrow> metric_map) option \<Rightarrow> map_key \<times> any \<Rightarrow> metric_map \<Rightarrow> metric_map" where
  "lsblk_entry deeper (k, v) values =
     (if v = GNil \<or> sprint v = [] then values
      else if key_text k = ''children'' then
        (case (deeper, v) of
           (Some f, GSlice xs) \<Rightarrow>
             (let kept = map f (take 64 (List.map_filter as_map xs))
              in if kept = [] then values else put ''children'' (GSlice (map GMap kept)) values)
         | _ \<Rightarrow> values)
      else put (field_key (key_text k)) v values)"

fun normalize_node :: "nat \<Rightarrow> metric_map \<Rightarrow> metric_map" where
  "normalize_node 0 device = fold (lsblk_entry None) device []"
| "normalize_node (Suc r) device = fold (lsblk_entry (Some (normalize_node r))) device []"

definition lsblk_component :: "metric_map \<Rightarrow> hardware_component" where
  "lsblk_component device =
     (let path = bounded_string (sprint (at_key device ''path'')) in
      \<lparr>ComponentKind = ''storage'',
       Locator = (if path = [] then bounded_string (sprint (at_key device ''name'')) else path),
       ComponentValues = normalize_node 4 device\<rparr>)"

definition is_disk :: "metric_map \<Rightarrow> bool" where
  "is_disk device \<longleftrightarrow> (let kind = to_lower (sprint (at_key device ''type'')) in kind = ''disk'' \<or> kind = ''rom'')"

definition parse_lsblk :: "bytes \<Rightarrow> hardware_component list" where
  "parse_lsblk body =
     (case Option.bind (parse_json body) (json_struct None [] (\<lambda>ms. assign_field json_maps [] (member_values ''blockdevices'' ms))) of
        None \<Rightarrow> []
      | Some devices \<Rightarrow> map lsblk_component (take 128 (filter is_disk devices)))"

section \<open>ip link\<close>

definition link_value :: "metric_map \<Rightarrow> string \<Rightarrow> metric_map \<Rightarrow> metric_map" where
  "link_value r k values = (case get r k of
     None \<Rightarrow> values
   | Some v \<Rightarrow> (if sprint v = [] then values else put (field_key k) v values))"

definition link_component :: "metric_map \<Rightarrow> hardware_component" where
  "link_component r = (let name = bounded_string (sprint (at_key r ''ifname'')) in
     \<lparr>ComponentKind = ''network-interface'', Locator = name,
      ComponentValues = fold (link_value r) [''address'', ''link_type'', ''mtu''] (put ''name'' (GString name) [])\<rparr>)"

definition parse_linux_links :: "bytes \<Rightarrow> hardware_component list" where
  "parse_linux_links body = (case Option.bind (parse_json body) json_maps of
     None \<Rightarrow> []
   | Some rs \<Rightarrow> take 128 (filter (\<lambda>c. Locator c \<noteq> [] \<and> Locator c \<noteq> ''lo'') (map link_component rs)))"

section \<open>The scans\<close>

definition run_bounded :: "runner_fun \<Rightarrow> string \<Rightarrow> string list \<Rightarrow> bytes result" where
  "run_bounded run name args = (case run name args of (_, Some e) \<Rightarrow> Inl (Msg ''run'') | (body, None) \<Rightarrow> Inr body)"

definition first_trusted_executable :: "(string \<Rightarrow> bool) \<Rightarrow> string list \<Rightarrow> string" where
  "first_trusted_executable exists_file candidates =
     (case find (\<lambda>c. c \<noteq> [] \<and> has_prefix c ''/'' \<and> exists_file c) candidates of None \<Rightarrow> [] | Some c \<Rightarrow> c)"

record linux_tools =
  Dmidecode :: string
  Lsblk :: string
  Lspci :: string
  IpTool :: string

definition find_linux_tools :: "(string \<Rightarrow> bool) \<Rightarrow> linux_tools" where
  "find_linux_tools exists_file =
     \<lparr>Dmidecode = first_trusted_executable exists_file [''/usr/sbin/dmidecode'', ''/sbin/dmidecode'', ''/usr/bin/dmidecode''],
      Lsblk = first_trusted_executable exists_file [''/usr/bin/lsblk'', ''/bin/lsblk''],
      Lspci = first_trusted_executable exists_file [''/usr/bin/lspci'', ''/usr/sbin/lspci'', ''/sbin/lspci''],
      IpTool = first_trusted_executable exists_file [''/usr/sbin/ip'', ''/sbin/ip'', ''/usr/bin/ip'', ''/bin/ip'']\<rparr>"

definition lsblk_columns :: string where
  "lsblk_columns = join_with (CHR '','') [''NAME'', ''KNAME'', ''PATH'', ''SIZE'', ''TYPE'', ''MODEL'', ''VENDOR'', ''SERIAL'',
     ''WWN'', ''TRAN'', ''ROTA'', ''PTTYPE'', ''PTUUID'', ''FSTYPE'', ''FSVER'', ''LABEL'', ''UUID'', ''MOUNTPOINTS'', ''PKNAME'',
     ''MAJ:MIN'', ''RM'', ''RO'', ''DISC-GRAN'', ''DISC-MAX'', ''DISC-ZERO'', ''PARTTYPE'', ''PARTTYPENAME'', ''PARTUUID'',
     ''PARTLABEL'', ''START'']"

text \<open>A tool that is missing or fails contributes nothing.\<close>

definition from_tool :: "runner_fun \<Rightarrow> string \<Rightarrow> string list \<Rightarrow> (bytes \<Rightarrow> hardware_component list) \<Rightarrow> hardware_component list" where
  "from_tool run tool args parse =
     (if tool = [] then [] else case run_bounded run tool args of Inl e \<Rightarrow> [] | Inr body \<Rightarrow> parse body)"

definition dmi_types :: "string list" where
  "dmi_types = [''--type'', ''0,1,2,3,4,16,17,39'']"

definition scan_linux_with_tools :: "runner_fun \<Rightarrow> linux_tools \<Rightarrow> hardware_component list result" where
  "scan_linux_with_tools run tools =
     (let found = from_tool run (Dmidecode tools) dmi_types parse_dmi
          @ from_tool run (Lsblk tools) [''--json'', ''--bytes'', ''--output'', lsblk_columns] parse_lsblk
          @ from_tool run (Lspci tools) [''-Dmmnn''] (\<lambda>b. parse_line_records ''pci-device'' b 256)
          @ from_tool run (IpTool tools) [''-details'', ''-json'', ''link'', ''show''] parse_linux_links
      in if found = [] then Inl (Msg ''no supported hardware was detected'') else Inr found)"

definition scan_linux :: "(string \<Rightarrow> bool) \<Rightarrow> runner_fun \<Rightarrow> hardware_component list result" where
  "scan_linux exists_file run = scan_linux_with_tools run (find_linux_tools exists_file)"

definition kenv_keys :: "string list" where
  "kenv_keys = [''smbios.bios.vendor'', ''smbios.bios.version'', ''smbios.bios.reldate'', ''smbios.system.maker'',
     ''smbios.system.product'', ''smbios.system.version'', ''smbios.system.serial'', ''smbios.system.uuid'',
     ''smbios.planar.maker'', ''smbios.planar.product'', ''smbios.planar.version'', ''smbios.planar.serial'',
     ''smbios.chassis.maker'', ''smbios.chassis.type'', ''smbios.chassis.version'', ''smbios.chassis.serial'']"

definition scan_freebsd_kenv :: "runner_fun \<Rightarrow> hardware_component list" where
  "scan_freebsd_kenv run = parse_kenv_smbios (List.map_filter (\<lambda>k. case run_bounded run ''/usr/bin/kenv'' [''-q'', k] of
     Inl e \<Rightarrow> None | Inr body \<Rightarrow> Some (k, body)) kenv_keys)"

definition scan_freebsd :: "runner_fun \<Rightarrow> hardware_component list result" where
  "scan_freebsd run =
     (let found = (case run_bounded run ''/usr/local/sbin/dmidecode'' dmi_types of
            Inr dmi \<Rightarrow> parse_dmi dmi | Inl e \<Rightarrow> scan_freebsd_kenv run)
          @ from_tool run ''/usr/sbin/pciconf'' [''-lv''] (\<lambda>b. parse_line_records ''pci-device'' b 256)
          @ from_tool run ''/sbin/geom'' [''disk'', ''list''] (\<lambda>b. parse_line_records ''storage'' b 128)
          @ from_tool run ''/sbin/ifconfig'' [''-l''] (\<lambda>b. parse_line_records ''network-interface'' b 128)
          @ from_tool run ''/sbin/sysctl'' [''-n'', ''hw.model''] (\<lambda>b. parse_line_records ''cpu'' b 16)
      in if found = [] then Inl (Msg ''no supported hardware was detected; install dmidecode or verify read-only system tools'')
         else Inr found)"

text \<open>\<open>fixedScanner.Collect\<close>; \<open>now\<close> is the clock.\<close>

definition collect_snapshot :: "hardware_component list result \<Rightarrow> time \<Rightarrow> host_ref \<Rightarrow> hardware_snapshot result" where
  "collect_snapshot scan now host =
     bind_result (validate_host_ref host) (\<lambda>_.
     bind_result scan (\<lambda>components.
       (let s = \<lparr>SnapshotMajor = 1, SnapshotHost = host, SnapshotCollectedAt = now, Components = components\<rparr>
        in bind_result (validate_hardware_snapshot s) (\<lambda>_. Inr s))))"

end
