(* ===== verification/Inventory_Socket.thy ===== *)
theory Inventory_Socket
  imports Inventory_Scan Agent_Transport
begin

text \<open>
  The local socket over which a root process hands a hardware snapshot to the agent,
  \<open>internal/inventoryscan/socket*.go\<close>: the server that checks it, adds opaque fingerprints and submits
  it, and the client with its summary and question. A connection is what the accepted socket gives: the
  credential of the peer and the bytes it sends until it closes its side.
\<close>

definition max_snapshot_bytes :: nat where "max_snapshot_bytes = 2 * 1024 * 1024"

record connection =
  PeerUid :: "nat option result"
  Received :: "bytes result"

text \<open>
  The server: the host it serves, \<open>OpaqueID\<close>, the clock, and the submission. \<open>ErrorText\<close> is the
  \<open>Error()\<close> of an error.
\<close>

record 'w inventory_server =
  SocketPath :: string
  ServedHost :: host_ref
  OpaqueID :: "string \<Rightarrow> string \<Rightarrow> string"
  SocketClock :: "'w \<Rightarrow> time \<times> 'w"
  Submit :: "hardware_snapshot \<Rightarrow> 'w \<Rightarrow> unit result \<times> 'w"
  ErrorText :: "error \<Rightarrow> string"

definition validate_server :: "'w inventory_server \<Rightarrow> unit result" where
  "validate_server s =
     (if SocketPath s = [] \<or> \<not> is_abs (SocketPath s) then Inl (Msg ''inventory socket path must be absolute'')
      else validate_host_ref (ServedHost s))"

text \<open>\<open>authorizeRootPeer\<close>: the same check on Linux and FreeBSD.\<close>

definition authorize_root_peer :: "connection \<Rightarrow> unit result" where
  "authorize_root_peer c = (case PeerUid c of
     Inl e \<Rightarrow> Inl e
   | Inr uid \<Rightarrow> (if uid = Some 0 then Inr ()
       else Inl (Msg ''inventory snapshots are accepted only from a local root process'')))"

section \<open>Decoding\<close>

definition zero_host :: host_ref where "zero_host = \<lparr>HostType = [], HostID = 0\<rparr>"

definition decode_host :: "json \<Rightarrow> host_ref option" where
  "decode_host = json_struct (Some [''type'', ''id'']) zero_host (\<lambda>ms.
     (case (string_field ''type'' ms, u64_field ''id'' ms) of
        (Some t, Some i) \<Rightarrow> Some \<lparr>HostType = t, HostID = i\<rparr> | _ \<Rightarrow> None))"

definition zero_component :: hardware_component where
  "zero_component = \<lparr>ComponentKind = [], Locator = [], ComponentValues = []\<rparr>"

definition decode_component :: "json \<Rightarrow> hardware_component option" where
  "decode_component = json_struct (Some [''kind'', ''locator'', ''values'']) zero_component (\<lambda>ms.
     (case (string_field ''kind'' ms, string_field ''locator'' ms,
            assign_field json_map [] (member_values ''values'' ms)) of
        (Some k, Some l, Some vs) \<Rightarrow> Some \<lparr>ComponentKind = k, Locator = l, ComponentValues = vs\<rparr> | _ \<Rightarrow> None))"

definition zero_snapshot :: hardware_snapshot where
  "zero_snapshot = \<lparr>SnapshotMajor = 0, SnapshotHost = zero_host, SnapshotCollectedAt = 0, Components = []\<rparr>"

definition decode_snapshot :: "json \<Rightarrow> hardware_snapshot option" where
  "decode_snapshot = json_struct (Some [''protocolMajor'', ''host'', ''collectedAt'', ''components'']) zero_snapshot (\<lambda>ms.
     (case (int_field ''protocolMajor'' ms, assign_field decode_host zero_host (member_values ''host'' ms),
            time_field ''collectedAt'' ms, slice_field decode_component ''components'' ms) of
        (Some m, Some h, Some t, Some cs) \<Rightarrow>
          Some \<lparr>SnapshotMajor = m, SnapshotHost = h, SnapshotCollectedAt = t, Components = cs\<rparr>
      | _ \<Rightarrow> None))"

text \<open>One value and nothing after it.\<close>

definition read_snapshot :: "bytes \<Rightarrow> hardware_snapshot result" where
  "read_snapshot body = (case Option.bind (first_value body) decode_snapshot of
     None \<Rightarrow> Inl (Msg ''decode inventory snapshot'')
   | Some s \<Rightarrow> (if parse_json body = None then Inl (Msg ''inventory snapshot contains trailing data'') else Inr s))"

section \<open>Fingerprints\<close>

definition identifying :: "string \<Rightarrow> bool" where
  "identifying key \<longleftrightarrow> (let l = to_lower key in
     contains_str l ''serial'' \<or> contains_str l ''uuid'' \<or> contains_str l ''wwn'' \<or> contains_str l ''partnumber'')"

definition fingerprint_parts :: "hardware_component \<Rightarrow> string list" where
  "fingerprint_parts c =
     (let keys = sort (map (key_text \<circ> fst) (ComponentValues c));
          pair = (\<lambda>k. [k, sprint (at_key (ComponentValues c) k)]);
          chosen = concat (map pair (filter identifying keys))
      in [ComponentKind c, Locator c] @ (if chosen = [] then concat (map pair keys) else chosen))"

definition add_fingerprint :: "(string \<Rightarrow> string \<Rightarrow> string) \<Rightarrow> hardware_component \<Rightarrow> hardware_component" where
  "add_fingerprint opaque c = c\<lparr>ComponentValues := put ''opaqueFingerprint''
     (GString (opaque ''hardware-component'' (join_with (CHR 0x00) (fingerprint_parts c)))) (ComponentValues c)\<rparr>"

definition add_opaque_fingerprints :: "(string \<Rightarrow> string \<Rightarrow> string) \<Rightarrow> hardware_snapshot \<Rightarrow> hardware_snapshot" where
  "add_opaque_fingerprints opaque s = s\<lparr>Components := map (add_fingerprint opaque) (Components s)\<rparr>"

section \<open>One connection\<close>

definition minute :: int where "minute = 60 * 10 ^ 9"

definition read_body :: "connection \<Rightarrow> bytes result" where
  "read_body c = (case Received c of
     Inl e \<Rightarrow> Inl (Msg ''read inventory snapshot'')
   | Inr b \<Rightarrow> (let body = take (max_snapshot_bytes + 1) b in
       if body = [] \<or> length body > max_snapshot_bytes then Inl (Msg ''inventory snapshot exceeds the size limit'')
       else Inr body))"

definition check_snapshot :: "'w inventory_server \<Rightarrow> connection \<Rightarrow> hardware_snapshot result" where
  "check_snapshot srv c =
     bind_result (authorize_root_peer c) (\<lambda>_.
     bind_result (read_body c) (\<lambda>body.
     bind_result (read_snapshot body) (\<lambda>s.
     bind_result (validate_hardware_snapshot s) (\<lambda>_.
       if SnapshotHost s \<noteq> ServedHost srv then Inl (Msg ''inventory snapshot does not match the configured host'')
       else Inr s))))"

definition handle_connection :: "'w inventory_server \<Rightarrow> connection \<Rightarrow> 'w \<Rightarrow> unit result \<times> 'w" where
  "handle_connection srv c =
     bind_io (\<lambda>w. (check_snapshot srv c, w)) (\<lambda>s.
     bind_io (\<lambda>w. map_prod Inr id (SocketClock srv w)) (\<lambda>now.
       (if SnapshotCollectedAt s < now - 15 * minute \<or> SnapshotCollectedAt s > now + 2 * minute
        then fail_io (Msg ''inventory snapshot timestamp is outside the accepted window'')
        else (let s' = add_opaque_fingerprints (OpaqueID srv) s in
          case validate_hardware_snapshot s' of
            Inl e \<Rightarrow> fail_io (Msg ''normalized inventory snapshot is invalid'')
          | Inr _ \<Rightarrow> Submit srv s'))))"

text \<open>What is written back: the struct with its optional message, and a newline.\<close>

definition reply_text :: "'w inventory_server \<Rightarrow> unit result \<Rightarrow> bytes" where
  "reply_text srv r = json_text (JObj (case r of
     Inr _ \<Rightarrow> [(''ok'', JBool True)]
   | Inl e \<Rightarrow> (''ok'', JBool False) # (if ErrorText srv e = [] then [] else [(''message'', JStr (ErrorText srv e))]))) @ [CHR 10]"

section \<open>The server\<close>

text \<open>
  The steps before the first connection, each of which may fail: making the directory, removing a stale
  socket (a missing one is fine), listening, and protecting the socket. After \<open>listen\<close> the socket is
  removed on return.
\<close>

record 'w socket_ops =
  MakeDirs :: "'w \<Rightarrow> unit result \<times> 'w"
  RemovePath :: "'w \<Rightarrow> unit result \<times> 'w"
  Listen :: "'w \<Rightarrow> unit result \<times> 'w"
  Protect :: "'w \<Rightarrow> unit result \<times> 'w"

datatype accept_event = Accepted connection | AcceptFailed | ServerCancelled

text \<open>The connections are served one after the other; the replies are returned with the error that ends the loop.\<close>

fun serve_connections :: "'w inventory_server \<Rightarrow> accept_event list \<Rightarrow> 'w \<Rightarrow> (bytes list \<times> error option) \<times> 'w" where
  "serve_connections srv [] w = (([], None), w)"
| "serve_connections srv (Accepted c # es) w = (case handle_connection srv c w of
     (r, w') \<Rightarrow> (case serve_connections srv es w' of ((rs, e), w'') \<Rightarrow> ((reply_text srv r # rs, e), w'')))"
| "serve_connections srv (AcceptFailed # es) w = (([], Some (Msg ''accept inventory snapshot'')), w)"
| "serve_connections srv (ServerCancelled # es) w = (([], Some Canceled), w)"

definition listen_and_serve :: "'w socket_ops \<Rightarrow> 'w inventory_server \<Rightarrow> accept_event list \<Rightarrow> 'w \<Rightarrow> (bytes list \<times> error option) \<times> 'w" where
  "listen_and_serve ops srv es w =
     (case validate_server srv of Inl e \<Rightarrow> (([], Some e), w)
      | Inr _ \<Rightarrow>
     (case MakeDirs ops w of (Inl e, w1) \<Rightarrow> (([], Some (Msg ''create inventory socket directory'')), w1)
      | (Inr _, w1) \<Rightarrow>
     (case RemovePath ops w1 of (removed, w2) \<Rightarrow>
        (if removed \<noteq> Inr () \<and> removed \<noteq> Inl NotExist then (([], Some (Msg ''remove stale inventory socket'')), w2)
         else
     (case Listen ops w2 of (Inl e, w3) \<Rightarrow> (([], Some (Msg ''listen on inventory socket'')), w3)
      | (Inr _, w3) \<Rightarrow>
     (case Protect ops w3 of
        (Inl e, w4) \<Rightarrow> (([], Some (Msg ''protect inventory socket'')), snd (RemovePath ops w4))
      | (Inr _, w4) \<Rightarrow> (case serve_connections srv es w4 of (r, w5) \<Rightarrow> (r, snd (RemovePath ops w5)))))))))"

section \<open>The client\<close>

text \<open>The socket as the client sees it: connecting, writing everything, and the bytes that come back.\<close>

record 'w peer =
  Dial :: "'w \<Rightarrow> unit result \<times> 'w"
  SendAll :: "bytes \<Rightarrow> 'w \<Rightarrow> unit result \<times> 'w"
  Reply :: "'w \<Rightarrow> bytes \<times> 'w"

definition decode_reply :: "json \<Rightarrow> (bool \<times> string) option" where
  "decode_reply = json_struct None (False, []) (\<lambda>ms.
     (case (bool_field ''ok'' ms, string_field ''message'' ms) of (Some b, Some m) \<Rightarrow> Some (b, m) | _ \<Rightarrow> None))"

definition send_snapshot :: "'w peer \<Rightarrow> (hardware_snapshot \<Rightarrow> bytes result) \<Rightarrow> hardware_snapshot \<Rightarrow> 'w \<Rightarrow> unit result \<times> 'w" where
  "send_snapshot peer marshal s =
     bind_io (\<lambda>w. (validate_hardware_snapshot s, w)) (\<lambda>_.
     bind_io (\<lambda>w. (marshal s, w)) (\<lambda>body.
       (if length body > max_snapshot_bytes then fail_io (Msg ''inventory snapshot exceeds the size limit'')
        else (\<lambda>w. (case Dial peer w of
          (Inl e, w1) \<Rightarrow> (Inl (Msg ''connect to agent inventory socket''), w1)
        | (Inr _, w1) \<Rightarrow> (case SendAll peer body w1 of
            (Inl e, w2) \<Rightarrow> (Inl (Msg ''send inventory snapshot''), w2)
          | (Inr _, w2) \<Rightarrow> (case Reply peer w2 of (text, w3) \<Rightarrow>
              (case Option.bind (first_value (take 4096 text)) decode_reply of
                 None \<Rightarrow> (Inl (Msg ''read agent inventory response''), w3)
               | Some (done_, message) \<Rightarrow> ((if done_ then Inr () else Inl (Msg message)), w3)))))))))"

section \<open>Asking first\<close>

text \<open>A writer takes a text or fails; the pieces are those of the code's \<open>Fprint\<close> calls.\<close>

definition pad_right :: "nat \<Rightarrow> string \<Rightarrow> string" where
  "pad_right n s = s @ replicate (n - length s) (CHR '' '')"

definition kind_counts :: "hardware_component list \<Rightarrow> (string \<times> nat) list" where
  "kind_counts cs = map (\<lambda>k. (k, length (filter (\<lambda>c. ComponentKind c = k) cs))) (sort (remdups (map ComponentKind cs)))"

definition summary_pieces :: "hardware_snapshot \<Rightarrow> string list" where
  "summary_pieces s =
     [''Hardware snapshot for '' @ HostType (SnapshotHost s) @ CHR '':'' # show_u64 (HostID (SnapshotHost s)) @ [CHR 10]]
     @ map (\<lambda>(k, n). ''  '' @ pad_right 18 k @ CHR '' '' # show_nat n @ [CHR 10]) (kind_counts (Components s))
     @ [''Private serials and hardware identifiers will be sent only to this Homelab Inventory installation and never to the public registry.'' @ [CHR 10]]"

fun write_pieces :: "(string \<Rightarrow> 'w \<Rightarrow> unit result \<times> 'w) \<Rightarrow> string list \<Rightarrow> 'w \<Rightarrow> unit result \<times> 'w" where
  "write_pieces out [] w = (Inr (), w)"
| "write_pieces out (p # ps) w = bind_io (out p) (\<lambda>_. write_pieces out ps) w"

definition write_masked_summary :: "(string \<Rightarrow> 'w \<Rightarrow> unit result \<times> 'w) \<Rightarrow> hardware_snapshot \<Rightarrow> 'w \<Rightarrow> unit result \<times> 'w" where
  "write_masked_summary out s = write_pieces out (summary_pieces s)"

text \<open>
  The answer is the first line of at most 64 bytes; the end of the input ends it too, any other read
  error only when no line came before it.
\<close>

definition answer_line :: "bytes \<times> error option \<Rightarrow> string result" where
  "answer_line input = (case input of (text, failure) \<Rightarrow>
     (let t = take 64 text in
      if CHR 10 \<in> set t then Inr (takeWhile (\<lambda>c. c \<noteq> CHR 10) t @ [CHR 10])
      else if length text \<ge> 64 then Inr t
      else case failure of Some e \<Rightarrow> Inl e | None \<Rightarrow> Inr t))"

definition is_yes :: "string \<Rightarrow> bool" where
  "is_yes line \<longleftrightarrow> (let a = to_lower (trim_space line) in a = ''y'' \<or> a = ''yes'')"

definition confirm :: "(string \<Rightarrow> 'w \<Rightarrow> unit result \<times> 'w) \<Rightarrow> bytes \<times> error option \<Rightarrow> hardware_snapshot \<Rightarrow> 'w \<Rightarrow> bool result \<times> 'w" where
  "confirm out input s =
     bind_io (write_masked_summary out s) (\<lambda>_.
     bind_io (out ''Send this hardware snapshot? [y/N] '') (\<lambda>_ w.
       (bind_result (answer_line input) (\<lambda>l. Inr (is_yes l)), w)))"

text \<open>\<open>Clear\<close> empties the components in place and drops them.\<close>

definition clear_snapshot :: "hardware_snapshot \<Rightarrow> hardware_snapshot" where
  "clear_snapshot s = s\<lparr>Components := []\<rparr>"

end
