(* ===== verification/Inventory_Correct.thy ===== *)
theory Inventory_Correct
  imports Inventory_Socket
begin

text \<open>
  The inventory socket submits only what a root process sent, checked and stamped with fingerprints;
  the parsers behind the scanner give components with safe keys and bounded strings, and one of them
  loses what follows an indented list.
\<close>

section \<open>What is submitted\<close>

lemma read_snapshot_Inr: "read_snapshot body = Inr s \<Longrightarrow> \<exists>v. parse_json body = Some v \<and> decode_snapshot v = Some s"
  by (cases "parse_json body") (auto simp: read_snapshot_def first_value_parse split: option.splits if_splits)

lemma check_snapshot_Inr:
  assumes "check_snapshot srv c = Inr s"
  shows "PeerUid c = Inr (Some 0) \<and> SnapshotHost s = ServedHost srv \<and> validate_hardware_snapshot s = Inr () \<and>
    (\<exists>body v. Received c = Inr body \<and> body \<noteq> [] \<and> length body \<le> max_snapshot_bytes \<and>
       parse_json body = Some v \<and> decode_snapshot v = Some s)"
proof -
  obtain body where a: "authorize_root_peer c = Inr ()" and b: "read_body c = Inr body" and r: "read_snapshot body = Inr s"
    and v: "validate_hardware_snapshot s = Inr ()" and h: "SnapshotHost s = ServedHost srv"
    using assms by (auto simp: check_snapshot_def bind_result_Inr_iff split: if_splits)
  obtain raw where t: "Received c = Inr raw" "body = take (max_snapshot_bytes + 1) raw" "body \<noteq> []"
      "length body \<le> max_snapshot_bytes"
    using b by (auto simp: read_body_def Let_def not_less split: sum.splits if_splits)
  then have "body = raw" by (auto simp: min_def split: if_splits)
  moreover have "PeerUid c = Inr (Some 0)" using a by (auto simp: authorize_root_peer_def split: sum.splits if_splits)
  ultimately show ?thesis using t v h read_snapshot_Inr [OF r] by blast
qed

text \<open>
  C23: a connection to the inventory socket either ends in an error and submits nothing, or its peer is
  root, the whole of what it sent is one JSON value of at most 2 MiB that decodes, without unknown
  members, to a valid snapshot for the configured host, taken at most 15 minutes before and 2 minutes
  after the agent's time, and what is submitted is that snapshot with the fingerprints added and again
  valid; the result is the result of the submission.
\<close>

theorem submitted_snapshot_checked:
  assumes "handle_connection srv c w = (r, w')"
  shows "((\<exists>e. r = Inl e) \<and> (w' = w \<or> w' = snd (SocketClock srv w))) \<or>
    (\<exists>body v s. PeerUid c = Inr (Some 0) \<and> Received c = Inr body \<and> body \<noteq> [] \<and> length body \<le> max_snapshot_bytes \<and>
       parse_json body = Some v \<and> decode_snapshot v = Some s \<and> validate_hardware_snapshot s = Inr () \<and>
       SnapshotHost s = ServedHost srv \<and>
       fst (SocketClock srv w) - 15 * minute \<le> SnapshotCollectedAt s \<and>
       SnapshotCollectedAt s \<le> fst (SocketClock srv w) + 2 * minute \<and>
       validate_hardware_snapshot (add_opaque_fingerprints (OpaqueID srv) s) = Inr () \<and>
       (r, w') = Submit srv (add_opaque_fingerprints (OpaqueID srv) s) (snd (SocketClock srv w)))"
proof (cases "check_snapshot srv c")
  case (Inl e)
  then show ?thesis using assms by (auto simp: handle_connection_def bind_io_def)
next
  case (Inr s)
  note s = check_snapshot_Inr [OF Inr]
  obtain now w1 where n: "SocketClock srv w = (now, w1)" by (metis surj_pair)
  let ?late = "SnapshotCollectedAt s < now - 15 * minute \<or> SnapshotCollectedAt s > now + 2 * minute"
  have h: "handle_connection srv c w = (if ?late then (Inl (Msg ''inventory snapshot timestamp is outside the accepted window''), w1)
      else case validate_hardware_snapshot (add_opaque_fingerprints (OpaqueID srv) s) of
          Inl e \<Rightarrow> (Inl (Msg ''normalized inventory snapshot is invalid''), w1)
        | Inr _ \<Rightarrow> Submit srv (add_opaque_fingerprints (OpaqueID srv) s) w1)"
    by (simp add: handle_connection_def bind_io_def Inr n fail_io_def Let_def split: sum.splits)
  show ?thesis
  proof (cases "?late")
    case True
    then show ?thesis using assms h n by auto
  next
    case False
    show ?thesis
    proof (cases "validate_hardware_snapshot (add_opaque_fingerprints (OpaqueID srv) s)")
      case (Inl e)
      then show ?thesis using assms h n False by auto
    next
      case (Inr u)
      then have "(r, w') = Submit srv (add_opaque_fingerprints (OpaqueID srv) s) w1" using assms h False by simp
      then show ?thesis using s n False Inr by (intro disjI2) (auto simp: not_less)
    qed
  qed
qed

text \<open>A root process sends one component; the sample clock stands at the time of the snapshot.\<close>

definition sample_component_json :: json where
  "sample_component_json = JObj [(''kind'', JStr ''cpu''), (''locator'', JStr ''cpu-1''),
     (''values'', JObj [(''model'', JStr ''x'')])]"

definition sample_snapshot_json :: json where
  "sample_snapshot_json = JObj [(''protocolMajor'', JNum (show_nat 1)),
     (''host'', JObj [(''type'', JStr ''server''), (''id'', JNum (show_nat 1))]),
     (''collectedAt'', JStr ''2026-01-01T00:00:00Z''), (''components'', JArr [sample_component_json])]"

definition sample_snapshot :: hardware_snapshot where
  "sample_snapshot = \<lparr>SnapshotMajor = 1, SnapshotHost = \<lparr>HostType = ''server'', HostID = 1\<rparr>,
     SnapshotCollectedAt = the (parse_time ''2026-01-01T00:00:00Z''),
     Components = [\<lparr>ComponentKind = ''cpu'', Locator = ''cpu-1'', ComponentValues = [(StringKey ''model'', GString ''x'')]\<rparr>]\<rparr>"

definition sample_server :: "hardware_snapshot list inventory_server" where
  "sample_server = \<lparr>SocketPath = ''/run/a.sock'', ServedHost = \<lparr>HostType = ''server'', HostID = 1\<rparr>,
     OpaqueID = (\<lambda>n t. ''opaque''), SocketClock = (\<lambda>w. (SnapshotCollectedAt sample_snapshot, w)),
     Submit = (\<lambda>s w. (Inr (), s # w)), ErrorText = (\<lambda>e. [])\<rparr>"

definition sample_connection :: connection where
  "sample_connection = \<lparr>PeerUid = Inr (Some 0), Received = Inr (json_text sample_snapshot_json @ newline)\<rparr>"

lemma sample_time: "parse_time ''2026-01-01T00:00:00Z'' \<noteq> None \<and> parse_time ''2026-01-01T00:00:00Z'' \<noteq> Some 0"
  by code_simp

lemma sample_parsed: "parse_json (json_text sample_snapshot_json @ newline) = Some sample_snapshot_json"
  by (rule parse_json_text) (auto simp: sample_snapshot_json_def sample_component_json_def)

lemma sample_decoded: "decode_snapshot sample_snapshot_json = Some sample_snapshot"
proof -
  obtain t where t: "parse_time ''2026-01-01T00:00:00Z'' = Some t" using sample_time by blast
  have u: "parse_u64 (show_nat 1) = Some 1" using parse_u64_show [of 1] by (simp add: show_u64_def)
  have i: "json_int (JNum (show_nat 1)) = Some 1" using json_int_show [of 1] by simp
  have c: "decode_component sample_component_json = Some
      \<lparr>ComponentKind = ''cpu'', Locator = ''cpu-1'', ComponentValues = [(StringKey ''model'', GString ''x'')]\<rparr>"
    by (simp add: decode_component_def sample_component_json_def json_struct_def known_members_def string_field_def
        json_map_def put_def fold_simps)
  have h: "decode_host (JObj [(''type'', JStr ''server''), (''id'', JNum (show_nat 1))]) = Some \<lparr>HostType = ''server'', HostID = 1\<rparr>"
    by (simp add: decode_host_def json_struct_def known_members_def string_field_def u64_field_def fold_simps u [unfolded One_nat_def] del: show_nat.simps)
  show ?thesis
    by (simp add: decode_snapshot_def sample_snapshot_json_def json_struct_def known_members_def fold_simps
        int_field_def time_field_def slice_field_def json_slice_def h [unfolded One_nat_def] c i [unfolded One_nat_def] t sample_snapshot_def del: json_int.simps show_nat.simps)
qed

lemma sample_valid:
  "validate_hardware_snapshot (add_opaque_fingerprints (\<lambda>n t. ''opaque'') sample_snapshot) = Inr ()"
  "validate_hardware_snapshot sample_snapshot = Inr ()"
proof -
  have t: "SnapshotCollectedAt sample_snapshot \<noteq> 0" using sample_time by (auto simp: sample_snapshot_def)
  have c: "validate_component \<lparr>ComponentKind = ''cpu'', Locator = ''cpu-1'', ComponentValues = [(StringKey ''model'', GString ''x'')]\<rparr> = Inr ()"
    by code_simp
  have f: "validate_component \<lparr>ComponentKind = ''cpu'', Locator = ''cpu-1'',
      ComponentValues = [(StringKey ''model'', GString ''x''), (StringKey ''opaqueFingerprint'', GString ''opaque'')]\<rparr> = Inr ()"
    by code_simp
  have h: "validate_host_ref \<lparr>HostType = ''server'', HostID = 1\<rparr> = Inr ()" by code_simp
  show "validate_hardware_snapshot sample_snapshot = Inr ()"
    using t c h by (simp add: validate_hardware_snapshot_def checks_ok is_zero_def sample_snapshot_def)
  show "validate_hardware_snapshot (add_opaque_fingerprints (\<lambda>n t. ''opaque'') sample_snapshot) = Inr ()"
    using t f h by (simp add: validate_hardware_snapshot_def checks_ok is_zero_def sample_snapshot_def
        add_opaque_fingerprints_def add_fingerprint_def put_def)
qed

lemma sample_body_length: "length (json_text sample_snapshot_json @ newline) \<le> max_snapshot_bytes"
proof -
  have "length (json_text sample_snapshot_json @ newline) \<le> 1000" by code_simp
  then show ?thesis by (simp add: max_snapshot_bytes_def)
qed

lemma submitted_snapshot_checked_witness:
  "\<exists>w'. handle_connection sample_server sample_connection [] = (Inr (), w') \<and>
     w' = [add_opaque_fingerprints (\<lambda>n t. ''opaque'') sample_snapshot]"
proof -
  let ?b = "json_text sample_snapshot_json @ newline"
  have "read_body sample_connection = Inr ?b"
    using sample_body_length by (simp add: read_body_def sample_connection_def newline_def Let_def del: json_text.simps)
  moreover have "read_snapshot ?b = Inr sample_snapshot"
    by (simp add: read_snapshot_def first_value_parse sample_parsed sample_decoded del: json_text.simps)
  moreover have "SnapshotHost sample_snapshot = ServedHost sample_server" by (simp add: sample_snapshot_def sample_server_def)
  ultimately have "check_snapshot sample_server sample_connection = Inr sample_snapshot"
    by (simp add: check_snapshot_def authorize_root_peer_def sample_connection_def sample_valid del: json_text.simps)
  then have h: "handle_connection sample_server sample_connection [] = (Inr (), [add_opaque_fingerprints (\<lambda>n t. ''opaque'') sample_snapshot])"
    by (simp add: handle_connection_def bind_io_def sample_server_def sample_valid minute_def Let_def)
  from submitted_snapshot_checked [OF h] have "PeerUid sample_connection = Inr (Some 0)" by auto
  with h show ?thesis by blast
qed

section \<open>What the parsers give\<close>

text \<open>A key made from a label is letters and digits, and none of the keys the protocol refuses.\<close>

lemma field_key_safe: "field_key v \<notin> set unsafe_keys" "field_key v \<noteq> []"
  by (auto simp: field_key_def unsafe_keys_def Let_def)

definition text_values :: "metric_map \<Rightarrow> bool" where
  "text_values m \<longleftrightarrow> m \<noteq> [] \<and> (\<forall>(k, v) \<in> set m. check_key k = Inr () \<and> (\<exists>t. v = GString t \<and> length t \<le> 2048))"

lemma text_values_string_map:
  "vs \<noteq> [] \<Longrightarrow> \<forall>(k, v) \<in> set vs. k \<notin> set unsafe_keys \<and> length v \<le> 2048 \<Longrightarrow> text_values (string_map vs)"
  by (auto simp: text_values_def string_map_def)

definition safe_section :: "dmi_section \<Rightarrow> bool" where
  "safe_section s \<longleftrightarrow> (\<forall>(k, v) \<in> set (snd s). k \<notin> set unsafe_keys \<and> length v \<le> 2048)"

lemma set_update: "x \<in> set (AList.update k v m) \<Longrightarrow> x = (k, v) \<or> x \<in> set m"
  by (induction m) (auto split: if_splits)

lemma dmi_line_cases:
  "dmi_line raw sections = sections \<or> (\<exists>t. dmi_line raw sections = (t, []) # sections) \<or>
   (\<exists>title vs rest key v. sections = (title, vs) # rest \<and>
      dmi_line raw sections = (title, AList.update (field_key key) (bounded_string v) vs) # rest)"
proof (cases sections)
  case (Cons s rest)
  obtain title vs where s: "s = (title, vs)" by (metis surj_pair)
  obtain key rhs where c: "cut_at (CHR '':'') (trim_space (trim_right_chars [CHR 32, CHR 9] raw)) = (key, rhs)" by (metis surj_pair)
  show ?thesis
    by (cases rhs) (auto simp: dmi_line_def Let_def Cons s c)
qed (simp add: dmi_line_def Let_def)

lemma dmi_line_safe:
  assumes "\<forall>s \<in> set sections. safe_section s"
  shows "\<forall>s \<in> set (dmi_line raw sections). safe_section s"
proof -
  have "safe_section (title, AList.update (field_key key) (bounded_string v) vs)" if "safe_section (title, vs)" for title key v vs
    using that by (auto simp: safe_section_def field_key_safe bounded_string_def dest!: set_update)
  moreover have "safe_section (t, [])" for t by (simp add: safe_section_def)
  ultimately show ?thesis using dmi_line_cases [of raw sections] assms by fastforce
qed

lemma dmi_sections_safe: "s \<in> set (dmi_sections body) \<Longrightarrow> safe_section s"
proof -
  have "\<forall>s \<in> set (fold dmi_line ls sections). safe_section s" if "\<forall>s \<in> set sections. safe_section s" for ls sections
    using that
  proof (induction ls arbitrary: sections)
    case (Cons l ls)
    show ?case by (subst List.fold_simps(2)) (rule Cons.IH [OF dmi_line_safe [OF Cons.prems]])
  qed simp
  from this [of "[]"] show "s \<in> set (dmi_sections body) \<Longrightarrow> safe_section s" by (simp add: dmi_sections_def)
qed

lemma kind_by_title_pattern: "kind_by_title t \<noteq> [] \<Longrightarrow> hardware_component_kind_pattern (kind_by_title t)"
proof -
  have "list_all hardware_component_kind_pattern [''bios'', ''system'', ''motherboard'', ''chassis'', ''cpu'', ''memory-array'',
      ''memory'', ''power-supply'']" by code_simp
  then have p: "hardware_component_kind_pattern k" if "k \<in> set [''bios'', ''system'', ''motherboard'', ''chassis'', ''cpu'',
      ''memory-array'', ''memory'', ''power-supply'']" for k
    using that by (simp only: list_all_iff)
  assume "kind_by_title t \<noteq> []"
  then show ?thesis by (intro p) (simp add: kind_by_title_def value_of_def split: if_splits)
qed

lemma dmi_components_safe:
  "\<forall>s \<in> set sections. safe_section s \<Longrightarrow> c \<in> set (dmi_components counts sections) \<Longrightarrow>
     hardware_component_kind_pattern (ComponentKind c) \<and> text_values (ComponentValues c)"
proof (induction counts sections rule: dmi_components.induct)
  case (2 counts title vs rest)
  show ?case
  proof (cases "dropped_section (title, vs)")
    case True
    then show ?thesis using 2 by simp
  next
    case False
    then have "kind_by_title title \<noteq> []" "vs \<noteq> []" by (auto simp: dropped_section_def Let_def)
    moreover have "safe_section (title, vs)" using 2 by simp
    ultimately have "hardware_component_kind_pattern (kind_by_title title)" "text_values (string_map vs)"
      by (auto simp: safe_section_def kind_by_title_pattern intro!: text_values_string_map)
    with 2 False show ?thesis by (auto simp: Let_def)
  qed
qed simp

lemma kenv_safe: "c \<in> set (parse_kenv_smbios values) \<Longrightarrow> text_values (ComponentValues c) \<and> hardware_component_kind_pattern (ComponentKind c)"
proof -
  have g: "\<forall>(kind, locator, prefix, fs) \<in> set kenv_groups. hardware_component_kind_pattern kind \<and> (\<forall>(a, b) \<in> set fs. b \<notin> set unsafe_keys)"
    by code_simp
  have v: "text_values (string_map (kenv_values values prefix fs))"
    if "kenv_values values prefix fs \<noteq> []" "\<forall>(a, b) \<in> set fs. b \<notin> set unsafe_keys" for prefix fs
    using that by (intro text_values_string_map) (auto simp: kenv_values_def bounded_string_def)
  assume "c \<in> set (parse_kenv_smbios values)"
  then obtain kind locator prefix fs where c: "(kind, locator, prefix, fs) \<in> set kenv_groups" "kenv_values values prefix fs \<noteq> []"
      "c = \<lparr>ComponentKind = kind, Locator = locator, ComponentValues = string_map (kenv_values values prefix fs)\<rparr>"
    by (auto simp: parse_kenv_smbios_def List.map_filter_def Let_def split: if_splits)
  have "hardware_component_kind_pattern kind" "\<forall>(a, b) \<in> set fs. b \<notin> set unsafe_keys" using g c(1) by auto
  with v [OF c(2)] show ?thesis by (simp add: c(3))
qed

lemma line_records_safe:
  "n \<le> limit \<Longrightarrow> length (line_records kind limit index n ls) \<le> limit - n \<and>
    (\<forall>c \<in> set (line_records kind limit index n ls). ComponentKind c = kind \<and> text_values (ComponentValues c))"
proof (induction kind limit index n ls rule: line_records.induct)
  case (2 kind limit index n line ls)
  have "text_values (string_map [(''description'', bounded_string s)])" for s
    by (rule text_values_string_map) (simp_all add: unsafe_keys_def bounded_string_def)
  with 2 show ?case by (cases "trim_space line = [] \<or> n \<ge> limit") auto
qed simp

text \<open>
  Whatever the tools print, a component read from dmidecode, kenv or a line of output has a kind the
  protocol knows the form of, at least one value, only strings of at most 2048 bytes as values, and no key
  the protocol refuses; a listing gives at most its limit of components.
\<close>

theorem scanned_components_safe:
  "(\<forall>c \<in> set (parse_dmi body) \<union> set (parse_kenv_smbios values).
      hardware_component_kind_pattern (ComponentKind c) \<and> text_values (ComponentValues c)) \<and>
   (\<forall>c \<in> set (parse_line_records kind body limit). ComponentKind c = kind \<and> text_values (ComponentValues c)) \<and>
   length (parse_line_records kind body limit) \<le> limit"
  using dmi_components_safe [of "dmi_sections body" _ "[]"] dmi_sections_safe kenv_safe
    line_records_safe [of 0 limit kind 0 "text_lines body"]
  by (auto simp: parse_dmi_def parse_line_records_def)

definition dmi_sample :: bytes where
  "dmi_sample = join_with (CHR 10) [''Processor Information'', CHR 9 # ''Family: Xeon'', CHR 9 # ''Flags:'',
     CHR 9 # CHR 9 # ''FPU (Floating-point unit on-chip)'', CHR 9 # ''Version: Intel'']"

text \<open>
  A line of an indented list is taken for the title of a section, so what follows the list in its section
  (here the version of the processor) is lost.
\<close>

lemma dmi_values_after_list_lost:
  "parse_dmi dmi_sample = [\<lparr>ComponentKind = ''cpu'', Locator = ''cpu-1'', ComponentValues = [(StringKey ''family'', GString ''Xeon'')]\<rparr>]"
  by code_simp

lemma scanned_components_safe_witness:
  "parse_dmi dmi_sample \<noteq> [] \<and> text_values (ComponentValues (hd (parse_dmi dmi_sample)))"
  using scanned_components_safe [of dmi_sample "[]" "[]" 0] by (simp add: dmi_values_after_list_lost)

end
