(* ===== verification/Linux_Parsers.thy ===== *)
theory Linux_Parsers
  imports Go_Values Command_Output Service_Collectors
begin

text \<open>
  The parsers of /proc and /etc and the arithmetic on counters, \<open>internal/collectors/linux/proc.go\<close>,
  \<open>system.go\<close> and \<open>mounts.go\<close>. Counters are 64-bit words, so differences and sums wrap as in the code.
\<close>

section \<open>CPU counters\<close>

record cpu_counters =
  CpuName :: string
  User :: u64
  Nice :: u64
  SystemTime :: u64
  IdleTime :: u64
  IOWait :: u64
  IRQ :: u64
  SoftIRQ :: u64
  Steal :: u64

definition zero_counters :: cpu_counters where
  "zero_counters = \<lparr>CpuName = [], User = 0, Nice = 0, SystemTime = 0, IdleTime = 0, IOWait = 0, IRQ = 0, SoftIRQ = 0, Steal = 0\<rparr>"

definition cpu_total :: "cpu_counters \<Rightarrow> u64" where
  "cpu_total c = User c + Nice c + SystemTime c + IdleTime c + IOWait c + IRQ c + SoftIRQ c + Steal c"

definition cpu_idle :: "cpu_counters \<Rightarrow> u64" where
  "cpu_idle c = IdleTime c + IOWait c"

definition valid_delta :: "cpu_counters \<Rightarrow> cpu_counters \<Rightarrow> bool" where
  "valid_delta c p \<longleftrightarrow> User c \<ge> User p \<and> Nice c \<ge> Nice p \<and> SystemTime c \<ge> SystemTime p \<and> IdleTime c \<ge> IdleTime p \<and>
     IOWait c \<ge> IOWait p \<and> IRQ c \<ge> IRQ p \<and> SoftIRQ c \<ge> SoftIRQ p \<and> Steal c \<ge> Steal p \<and> cpu_total c > cpu_total p"

text \<open>\<open>float64(part) * 100 / float64(whole)\<close>.\<close>

definition share :: "u64 \<Rightarrow> u64 \<Rightarrow> float64" where
  "share part whole = fdiv (fmul (float_of_u64 part) (Finite 100)) (float_of_u64 whole)"

definition percentage :: "cpu_counters \<Rightarrow> cpu_counters \<Rightarrow> float64 option" where
  "percentage c p =
     (if \<not> valid_delta c p then None
      else let total_delta = cpu_total c - cpu_total p; idle_delta = cpu_idle c - cpu_idle p
           in Some (share (total_delta - idle_delta) total_delta))"

definition cpu_breakdown :: "cpu_counters \<Rightarrow> cpu_counters \<Rightarrow> (string \<times> any) list option" where
  "cpu_breakdown c p =
     (if \<not> valid_delta c p then None
      else let whole = cpu_total c - cpu_total p; part = (\<lambda>x y. GFloat64 (share (x - y) whole))
           in Some [(''userPercent'', part (User c + Nice c) (User p + Nice p)),
               (''systemPercent'', part (SystemTime c + IRQ c + SoftIRQ c) (SystemTime p + IRQ p + SoftIRQ p)),
               (''ioWaitPercent'', part (IOWait c) (IOWait p)), (''stealPercent'', part (Steal c) (Steal p)),
               (''idlePercent'', part (IdleTime c) (IdleTime p))])"

definition counters_of :: "string \<Rightarrow> u64 list \<Rightarrow> cpu_counters" where
  "counters_of name v = \<lparr>CpuName = name, User = v ! 0, Nice = v ! 1, SystemTime = v ! 2, IdleTime = v ! 3, IOWait = v ! 4,
     IRQ = v ! 5, SoftIRQ = v ! 6, Steal = v ! 7\<rparr>"

fun cpu_lines :: "string list \<Rightarrow> cpu_counters list result" where
  "cpu_lines [] = Inr []"
| "cpu_lines (line # ls) =
     (let fs = text_fields line in
      if length fs < 9 \<or> \<not> has_prefix (hd fs) ''cpu'' then cpu_lines ls
      else case those (map parse_u64 (take 8 (tl fs))) of
          None \<Rightarrow> Inl (Msg ''parse counter'')
        | Some vs \<Rightarrow> bind_result (cpu_lines ls) (\<lambda>cs. Inr (counters_of (hd fs) vs # cs)))"

definition line_too_long :: error where "line_too_long = Msg ''bufio.Scanner: token too long''"

definition parse_cpu_counters :: "bytes \<Rightarrow> cpu_counters list result" where
  "parse_cpu_counters body =
     (case scan_lines token_size body of (ls, failed) \<Rightarrow>
        bind_result (cpu_lines ls) (\<lambda>cs.
          if failed then Inl line_too_long
          else if cs = [] then Inl (Msg ''no CPU counters found'') else Inr cs))"

section \<open>Memory, load and uptime\<close>

fun mem_lines :: "(string \<times> u64) list \<Rightarrow> string list \<Rightarrow> (string \<times> u64) list result" where
  "mem_lines m [] = Inr m"
| "mem_lines m (line # ls) =
     (let fs = text_fields line in
      if length fs < 2 then mem_lines m ls
      else case parse_u64 (fs ! 1) of
          None \<Rightarrow> Inl (Msg ''parse memory field'')
        | Some n \<Rightarrow> mem_lines (AList.update (trim_suffix (hd fs) '':'') (n * 1024) m) ls)"

definition count_of :: "(string \<times> u64) list \<Rightarrow> string \<Rightarrow> u64" where
  "count_of m k = (case map_of m k of None \<Rightarrow> 0 | Some n \<Rightarrow> n)"

definition mem_entries :: "(string \<times> u64) list \<Rightarrow> (string \<times> any) list" where
  "mem_entries m =
     (let whole = count_of m ''MemTotal''; free = count_of m ''MemAvailable'';
          swap = count_of m ''SwapTotal''; swap_used = swap - count_of m ''SwapFree'';
          extra = (\<lambda>(source, target). map_option (\<lambda>n. (target, u64_value n)) (map_of m source))
      in [(''totalBytes'', u64_value whole), (''availableBytes'', u64_value free), (''usedBytes'', u64_value (whole - free)),
          (''cachedBytes'', u64_value (count_of m ''Cached'')), (''buffersBytes'', u64_value (count_of m ''Buffers'')),
          (''usedPercent'', GFloat64 (share (whole - free) whole)),
          (''swapTotalBytes'', u64_value swap), (''swapFreeBytes'', u64_value (count_of m ''SwapFree''))]
         @ List.map_filter extra [(''MemFree'', ''freeBytes''), (''SReclaimable'', ''reclaimableBytes''), (''Shmem'', ''sharedBytes'')]
         @ (if swap > 0 then [(''swapUsedBytes'', u64_value swap_used), (''swapUsedPercent'', GFloat64 (share swap_used swap))] else []))"

definition parse_meminfo :: "bytes \<Rightarrow> metric_map result" where
  "parse_meminfo body =
     bind_result (mem_lines [] (fst (scan_lines token_size body))) (\<lambda>m.
       if count_of m ''MemTotal'' = 0 \<or> count_of m ''MemAvailable'' > count_of m ''MemTotal''
       then Inl (Msg ''memory totals are invalid'') else Inr (metric_map_of (mem_entries m)))"

definition nonnegative_float :: "string \<Rightarrow> float64 option" where
  "nonnegative_float s = (case parse_float s of None \<Rightarrow> None | Some x \<Rightarrow> if fless x (Finite 0) then None else Some x)"

definition parse_load_average :: "bytes \<Rightarrow> float64 list result" where
  "parse_load_average body =
     (let fs = text_fields body in
      if length fs < 3 then Inl (Msg ''load average is invalid'')
      else case those (map nonnegative_float (take 3 fs)) of
          None \<Rightarrow> Inl (Msg ''load average is invalid'') | Some xs \<Rightarrow> Inr xs)"

definition parse_uptime :: "bytes \<Rightarrow> float64 result" where
  "parse_uptime body =
     (case text_fields body of [] \<Rightarrow> Inl (Msg ''uptime is invalid'')
      | f # fs \<Rightarrow> (case nonnegative_float f of None \<Rightarrow> Inl (Msg ''uptime is invalid'') | Some x \<Rightarrow> Inr x))"

text \<open>\<open>Duration.Seconds\<close>, and a rate per second; the counter may have been reset.\<close>

definition duration_seconds :: "int \<Rightarrow> float64" where
  "duration_seconds d =
     (let f = (\<lambda>n. fadd (float_of_int (n div 10 ^ 9)) (fdiv (float_of_int (n mod 10 ^ 9)) (Finite (10 ^ 9))))
      in if d < 0 then fneg (f (- d)) else f d)"

definition counter_rate :: "u64 \<Rightarrow> u64 \<Rightarrow> int \<Rightarrow> float64 option" where
  "counter_rate c p elapsed =
     (if elapsed \<le> 0 \<or> c < p then None else Some (fdiv (float_of_u64 (c - p)) (duration_seconds elapsed)))"

section \<open>The system\<close>

definition detect_init_system :: "host_files \<Rightarrow> string \<Rightarrow> string" where
  "detect_init_system h base =
     (let systemd = directory_exists h (join_path [base, ''run/systemd/system'']);
          openrc = directory_exists h (join_path [base, ''run/openrc''])
      in if systemd = openrc then ''unknown'' else if systemd then ''systemd'' else ''openrc'')"

definition os_release_line :: "string \<Rightarrow> (string \<times> string) list \<Rightarrow> (string \<times> string) list" where
  "os_release_line line m = (case cut_at (CHR ''='') line of
     (key, Some v) \<Rightarrow> (if key \<in> set [''ID'', ''VERSION_ID'', ''PRETTY_NAME'']
        then AList.update key (trim_chars [CHR 0x22] (trim_space v)) m else m)
   | (key, None) \<Rightarrow> m)"

definition parse_os_release :: "bytes \<Rightarrow> (string \<times> string) list" where
  "parse_os_release body = fold os_release_line (fst (scan_lines token_size body)) []"

text \<open>The processors of /proc/cpuinfo: how many, the distinct cores, and the first model named.\<close>

record cpu_info =
  Threads :: nat
  Cores :: "string list"
  Model :: "string option"
  Processor :: "(string \<times> string) list"

definition flush_processor :: "cpu_info \<Rightarrow> cpu_info" where
  "flush_processor i =
     (if Processor i = [] then i
      else let p = Processor i in
        i\<lparr>Threads := Threads i + 1,
          Cores := (case (map_of p ''physical id'', map_of p ''core id'') of
              (Some a, Some b) \<Rightarrow> List.insert (a @ CHR '':'' # b) (Cores i) | _ \<Rightarrow> Cores i),
          Model := (case Model i of Some m \<Rightarrow> Some m
            | None \<Rightarrow> (case filter (\<lambda>t. t \<noteq> []) (map (\<lambda>k. trim_space (value_of p k)) [''model name'', ''Processor'', ''Hardware'']) of
                [] \<Rightarrow> None | m # ms \<Rightarrow> Some m)),
          Processor := []\<rparr>)"

definition cpu_info_line :: "string \<Rightarrow> cpu_info \<Rightarrow> cpu_info" where
  "cpu_info_line line i =
     (if trim_space line = [] then flush_processor i
      else case cut_at (CHR '':'') line of
          (key, Some v) \<Rightarrow> i\<lparr>Processor := AList.update (trim_space key) (trim_space v) (Processor i)\<rparr>
        | (key, None) \<Rightarrow> i)"

definition parse_cpu_info :: "bytes \<Rightarrow> metric_map" where
  "parse_cpu_info body =
     (let i = flush_processor (fold cpu_info_line (fst (scan_lines token_size body))
            \<lparr>Threads = 0, Cores = [], Model = None, Processor = []\<rparr>)
      in metric_map_of ((case Model i of None \<Rightarrow> [] | Some m \<Rightarrow> [(''model'', GString m)])
           @ (if Threads i > 0 then [(''logicalThreads'', GInt KInt (int (Threads i)))] else [])
           @ (if Cores i \<noteq> [] then [(''physicalCores'', GInt KInt (int (length (Cores i))))] else [])))"

definition parse_zfs_arc :: "bytes \<Rightarrow> u64 result" where
  "parse_zfs_arc body =
     (case find (\<lambda>fs. length fs \<ge> 3 \<and> hd fs = ''size'') (map text_fields (fst (scan_lines token_size body))) of
        None \<Rightarrow> Inl (Msg ''ZFS ARC size is unavailable'')
      | Some fs \<Rightarrow> (case parse_u64 (last fs) of None \<Rightarrow> Inl (Msg ''invalid syntax'') | Some n \<Rightarrow> Inr n))"

section \<open>Mounts\<close>

record mount_record =
  MountID :: u64
  ParentID :: u64
  MajorMinor :: string
  MountRoot :: string
  MountPoint :: string
  MountOptions :: "string list"
  OptionalFields :: "string list"
  FSType :: string
  MountSource :: string
  SuperOptions :: "string list"

text \<open>The kernel writes space, tab, newline and backslash as octal escapes.\<close>

fun decode_mount_field :: "string \<Rightarrow> string" where
  "decode_mount_field (a # b # c # d # s) =
     (if a = CHR 0x5C \<and> [b, c, d] = ''040'' then CHR '' '' # decode_mount_field s
      else if a = CHR 0x5C \<and> [b, c, d] = ''011'' then CHR 9 # decode_mount_field s
      else if a = CHR 0x5C \<and> [b, c, d] = ''012'' then CHR 10 # decode_mount_field s
      else if a = CHR 0x5C \<and> [b, c, d] = ''134'' then CHR 0x5C # decode_mount_field s
      else a # decode_mount_field (b # c # d # s))"
| "decode_mount_field s = s"

definition split_comma :: "string \<Rightarrow> string list" where
  "split_comma v = (if v = [] then [] else split_on (CHR '','') v)"

definition parse_mountinfo_line :: "string \<Rightarrow> mount_record option" where
  "parse_mountinfo_line line =
     (let fs = text_fields line; sep = length (takeWhile (\<lambda>f. f \<noteq> ''-'') fs) in
      if sep = length fs \<or> sep < 6 \<or> sep + 3 \<ge> length fs then None
      else case (parse_u64 (fs ! 0), parse_u64 (fs ! 1)) of
          (Some i, Some p) \<Rightarrow> Some \<lparr>MountID = i, ParentID = p, MajorMinor = fs ! 2, MountRoot = decode_mount_field (fs ! 3),
             MountPoint = decode_mount_field (fs ! 4), MountOptions = split_comma (fs ! 5),
             OptionalFields = drop 6 (take sep fs), FSType = fs ! (sep + 1),
             MountSource = decode_mount_field (fs ! (sep + 2)), SuperOptions = split_comma (fs ! (sep + 3))\<rparr>
        | _ \<Rightarrow> None)"

text \<open>At most 256 mounts are read; a line of a mebibyte or more before that is an error.\<close>

fun read_mounts :: "nat \<Rightarrow> string list \<Rightarrow> mount_record list result" where
  "read_mounts n [] = Inr []"
| "read_mounts n (line # ls) =
     (if length line \<ge> 1024 * 1024 then Inl line_too_long
      else let (rs, m) = (case parse_mountinfo_line (drop_cr line) of None \<Rightarrow> ([], n) | Some r \<Rightarrow> ([r], n + 1))
           in if m \<ge> 256 then Inr rs else bind_result (read_mounts m ls) (\<lambda>rest. Inr (rs @ rest)))"

definition read_mount_info :: "host_files \<Rightarrow> string \<Rightarrow> mount_record list result" where
  "read_mount_info h path = bind_result (FileBody h path) (\<lambda>body. read_mounts 0 (raw_lines body))"

record fs_status =
  BlockSize :: u64
  Blocks :: u64
  BlocksFree :: u64
  BlocksAvail :: u64

definition strings_value :: "string list \<Rightarrow> any" where
  "strings_value xs = GSlice (map GString xs)"

definition filesystem_entry :: "mount_record \<Rightarrow> fs_status \<Rightarrow> metric_map" where
  "filesystem_entry m st = metric_map_of
     ([(''mountId'', u64_value (MountID m)), (''parentId'', u64_value (ParentID m)),
       (''majorMinor'', GString (MajorMinor m)), (''root'', GString (MountRoot m)),
       (''mountPoint'', GString (MountPoint m)), (''source'', GString (MountSource m)), (''fsType'', GString (FSType m)),
       (''options'', strings_value (MountOptions m)), (''superOptions'', strings_value (SuperOptions m)),
       (''readOnly'', GBool (''ro'' \<in> set (MountOptions m))),
       (''totalBytes'', u64_value (Blocks st * BlockSize st)),
       (''availableBytes'', u64_value (BlocksAvail st * BlockSize st)),
       (''freeBytes'', u64_value (BlocksFree st * BlockSize st)),
       (''usedBytes'', u64_value ((Blocks st - BlocksFree st) * BlockSize st))]
      @ (if OptionalFields m = [] then [] else [(''optionalFields'', strings_value (OptionalFields m))]))"

definition collect_mounted_filesystems :: "host_files \<Rightarrow> (string \<Rightarrow> fs_status option) \<Rightarrow> string \<Rightarrow> metric_map list result" where
  "collect_mounted_filesystems h statfs path =
     bind_result (read_mount_info h path) (\<lambda>ms.
       (let found = take 256 (List.map_filter (\<lambda>m. map_option (filesystem_entry m) (statfs (MountPoint m))) ms)
        in if found = [] then Inl (Msg ''no readable mounted filesystems'') else Inr found))"

end
