(* ===== verification/Linux_Devices.thy ===== *)
theory Linux_Devices
  imports Linux_Parsers Agent_Transport
begin

text \<open>
  GPUs with their averages between heartbeats, and the health of storage devices,
  \<open>internal/collectors/linux/gpu.go\<close>, \<open>gpu_aggregate.go\<close> and \<open>storage.go\<close>. \<open>opaque\<close> is the keyed digest
  that replaces hardware identifiers.
\<close>

type_synonym opaque_id = "string \<Rightarrow> string \<Rightarrow> string"

section \<open>GPUs\<close>

definition gpu_vendors :: "(string \<times> string) list" where
  "gpu_vendors = [(''0x10de'', ''NVIDIA''), (''0x1002'', ''AMD''), (''0x8086'', ''Intel'')]"

definition numeric_file :: "host_files \<Rightarrow> string \<Rightarrow> float64 \<Rightarrow> float64 option" where
  "numeric_file h p scale = map_option (\<lambda>x. fdiv x scale) (parse_float (read_trimmed h p))"

definition names_in :: "host_files \<Rightarrow> string \<Rightarrow> string list" where
  "names_in h p = (case DirItems h p of Inl e \<Rightarrow> [] | Inr items \<Rightarrow> map fst items)"

text \<open>The values of the monitoring chips of a device; a later chip overwrites an earlier one.\<close>

definition hwmon_values :: "host_files \<Rightarrow> string \<Rightarrow> string \<Rightarrow> metric_map \<Rightarrow> metric_map" where
  "hwmon_values h dir name gpu =
     (let file = (\<lambda>f. join_path [dir, name, f]) in
      put_some ''powerWatts'' (map_option GFloat64 (numeric_file h (file ''power1_average'') (Finite 1000000)))
        (put_some ''temperatureC'' (map_option GFloat64 (numeric_file h (file ''temp1_input'') (Finite 1000))) gpu))"

definition gpu_record :: "host_files \<Rightarrow> opaque_id \<Rightarrow> string \<Rightarrow> string \<Rightarrow> metric_map option" where
  "gpu_record h opaque base name =
     (let device = join_path [base, ''sys'', ''class'', ''drm'', name, ''device''];
          vendor = to_lower (read_trimmed h (join_path [device, ''vendor'']));
          metric = (\<lambda>(file, key). put_some key (map_option GFloat64 (numeric_file h (join_path [device, file]) (Finite 1))));
          hwmon = join_path [device, ''hwmon'']
      in case map_of gpu_vendors vendor of
           None \<Rightarrow> None
         | Some v \<Rightarrow> Some (fold (hwmon_values h hwmon) (filter (\<lambda>n. has_prefix n ''hwmon'') (names_in h hwmon))
             (fold metric [(''gpu_busy_percent'', ''utilizationPercent''), (''mem_info_vram_used'', ''memoryUsedBytes''),
                 (''mem_info_vram_total'', ''memoryTotalBytes'')]
               (metric_map_of [(''id'', GString (opaque ''gpu'' name)), (''name'', GString name), (''vendor'', GString v),
                 (''pciVendorId'', GString vendor),
                 (''pciDeviceId'', GString (to_lower (read_trimmed h (join_path [device, ''device'']))))]))))"

definition is_card :: "string \<Rightarrow> bool" where
  "is_card name \<longleftrightarrow> has_prefix name ''card'' \<and> CHR ''-'' \<notin> set name"

definition collect_gpus :: "host_files \<Rightarrow> opaque_id \<Rightarrow> string \<Rightarrow> metric_map list result" where
  "collect_gpus h opaque base = (case DirItems h (join_path [base, ''sys'', ''class'', ''drm'']) of
     Inl e \<Rightarrow> Inl e
   | Inr items \<Rightarrow>
      (let gpus = take 16 (List.map_filter (\<lambda>(n, d). if is_card n then gpu_record h opaque base n else None) items)
       in if gpus = [] then Inl (Msg ''no supported GPU sysfs device found'') else Inr gpus))"

section \<open>Averages of GPU samples\<close>

record gpu_accumulator =
  Latest :: metric_map
  Sums :: "(string \<times> float64) list"
  Counts :: "(string \<times> u64) list"

record gpu_aggregation =
  GpuDevices :: "(string \<times> gpu_accumulator) list"
  LastErr :: "error option"
  Started :: bool

definition new_gpu_aggregation :: gpu_aggregation where
  "new_gpu_aggregation = \<lparr>GpuDevices = [], LastErr = None, Started = False\<rparr>"

definition numeric_metric :: "any \<Rightarrow> float64 option" where
  "numeric_metric v = (case v of
     GFloat64 x \<Rightarrow> Some x | GFloat32 x \<Rightarrow> Some x
   | GInt KInt n \<Rightarrow> Some (float_of_int n) | GInt KInt64 n \<Rightarrow> Some (float_of_int n) | GInt KUint64 n \<Rightarrow> Some (float_of_int n)
   | _ \<Rightarrow> None)"

definition sum_of :: "(string \<times> float64) list \<Rightarrow> string \<Rightarrow> float64" where
  "sum_of m k = (case map_of m k of None \<Rightarrow> Finite 0 | Some x \<Rightarrow> x)"

definition add_metric :: "map_key \<times> any \<Rightarrow> gpu_accumulator \<Rightarrow> gpu_accumulator" where
  "add_metric e acc = (case e of (k, v) \<Rightarrow> (case numeric_metric v of
     None \<Rightarrow> acc
   | Some x \<Rightarrow> acc\<lparr>Sums := AList.update (key_text k) (fadd (sum_of (Sums acc) (key_text k)) x) (Sums acc),
        Counts := AList.update (key_text k) (count_of (Counts acc) (key_text k) + 1) (Counts acc)\<rparr>))"

definition empty_accumulator :: gpu_accumulator where
  "empty_accumulator = \<lparr>Latest = [], Sums = [], Counts = []\<rparr>"

definition add_sample :: "metric_map \<Rightarrow> (string \<times> gpu_accumulator) list \<Rightarrow> (string \<times> gpu_accumulator) list" where
  "add_sample sample ds =
     (let i = sprint (at_key sample ''id'');
          acc = (case map_of ds i of None \<Rightarrow> empty_accumulator | Some a \<Rightarrow> a)
      in if i = [] then ds else AList.update i (fold add_metric sample (acc\<lparr>Latest := sample\<rparr>)) ds)"

definition add_samples :: "metric_map list result \<Rightarrow> gpu_aggregation \<Rightarrow> gpu_aggregation" where
  "add_samples r g = (case r of
     Inl e \<Rightarrow> g\<lparr>LastErr := Some e\<rparr>
   | Inr samples \<Rightarrow> g\<lparr>LastErr := None, GpuDevices := fold add_sample samples (GpuDevices g)\<rparr>)"

definition averaged :: "gpu_accumulator \<Rightarrow> metric_map" where
  "averaged acc = fold (\<lambda>(k, total). let n = count_of (Counts acc) k in
     if n > 0 then put k (GFloat64 (fdiv total (float_of_u64 n))) else (\<lambda>m. m)) (Sums acc) (Latest acc)"

definition drain :: "gpu_aggregation \<Rightarrow> (metric_map list \<times> error option) \<times> gpu_aggregation" where
  "drain g = (if GpuDevices g = [] then (([], LastErr g), g)
     else ((map (averaged \<circ> snd) (GpuDevices g), None), g\<lparr>GpuDevices := []\<rparr>))"

text \<open>
  \<open>Start\<close> takes the first sample at once and gives the interval of the ticker that takes the further
  ones; a second start does nothing.
\<close>

definition gpu_interval :: "contract \<Rightarrow> int" where
  "gpu_interval c = (if GPUSampleIntervalSeconds (Collection c) < 3 then 4 else GPUSampleIntervalSeconds (Collection c))"

definition sample_gpu :: "host_files \<Rightarrow> opaque_id \<Rightarrow> string \<Rightarrow> gpu_aggregation \<Rightarrow> gpu_aggregation" where
  "sample_gpu h opaque base g = add_samples (collect_gpus h opaque base) g"

definition start_gpu :: "host_files \<Rightarrow> opaque_id \<Rightarrow> string \<Rightarrow> gpu_aggregation \<Rightarrow> gpu_aggregation" where
  "start_gpu h opaque base g = (if Started g then g else sample_gpu h opaque base (g\<lparr>Started := True\<rparr>))"

definition collect_aggregated_gpus :: "host_files \<Rightarrow> opaque_id \<Rightarrow> string \<Rightarrow> gpu_aggregation \<Rightarrow>
    metric_map list result \<times> gpu_aggregation" where
  "collect_aggregated_gpus h opaque base g = (case drain g of ((found, e), g') \<Rightarrow>
     (if found \<noteq> [] then (Inr found, g')
      else case e of
        Some x \<Rightarrow> (if x \<noteq> Canceled then (Inl x, g') else (collect_gpus h opaque base, g'))
      | None \<Rightarrow> (collect_gpus h opaque base, g')))"

section \<open>SMART\<close>

fun json_float :: "json \<Rightarrow> float64 option" where
  "json_float (JNum l) = parse_float l"
| "json_float _ = None"

record smart_nvme =
  CriticalWarning :: u64
  AvailableSpare :: "float64 option"
  SpareThreshold :: "float64 option"
  PercentageUsed :: "float64 option"
  UnsafeShutdowns :: "u64 option"
  MediaErrors :: "u64 option"
  ErrorLogEntries :: "u64 option"
  PowerCycles :: "u64 option"
  NvmeHours :: "u64 option"
  NvmeTemperature :: "float64 option"

record smart_payload =
  ModelName :: string
  ModelFamily :: string
  FirmwareVersion :: string
  DeviceType :: string
  DeviceProtocol :: string
  CapacityBytes :: u64
  CurrentTemperature :: "float64 option"
  SmartPassed :: "bool option"
  PowerOnHours :: "u64 option"
  PowerCycleCount :: "u64 option"
  PowerMode :: string
  NVMe :: smart_nvme

definition zero_nvme :: smart_nvme where
  "zero_nvme = \<lparr>CriticalWarning = 0, AvailableSpare = None, SpareThreshold = None, PercentageUsed = None,
     UnsafeShutdowns = None, MediaErrors = None, ErrorLogEntries = None, PowerCycles = None, NvmeHours = None,
     NvmeTemperature = None\<rparr>"

definition decode_nvme :: "bool \<Rightarrow> json \<Rightarrow> smart_nvme option" where
  "decode_nvme strict = json_struct (field_names strict [''critical_warning'', ''available_spare'', ''available_spare_threshold'',
       ''percentage_used'', ''unsafe_shutdowns'', ''media_errors'', ''num_err_log_entries'', ''power_cycles'', ''power_on_hours'',
       ''temperature'']) zero_nvme (\<lambda>ms.
     let num = (\<lambda>k. assign_pointer json_float None (member_values k ms)); count = (\<lambda>k. assign_pointer json_u64 None (member_values k ms)) in
     (case (u64_field ''critical_warning'' ms, num ''available_spare'', num ''available_spare_threshold'', num ''percentage_used'') of
        (Some w, Some a, Some t, Some p) \<Rightarrow>
          (case (count ''unsafe_shutdowns'', count ''media_errors'', count ''num_err_log_entries'', count ''power_cycles'',
                 count ''power_on_hours'', num ''temperature'') of
             (Some u, Some m, Some e, Some c, Some h, Some x) \<Rightarrow> Some \<lparr>CriticalWarning = w, AvailableSpare = a,
                SpareThreshold = t, PercentageUsed = p, UnsafeShutdowns = u, MediaErrors = m, ErrorLogEntries = e,
                PowerCycles = c, NvmeHours = h, NvmeTemperature = x\<rparr>
           | _ \<Rightarrow> None)
      | _ \<Rightarrow> None))"

text \<open>A nested struct with one field of interest.\<close>

definition inner_field :: "bool \<Rightarrow> string list \<Rightarrow> 'a \<Rightarrow> ((string \<times> json) list \<Rightarrow> 'a option) \<Rightarrow> string \<Rightarrow>
    (string \<times> json) list \<Rightarrow> 'a option" where
  "inner_field strict names dflt conv outer ms =
     assign_field (json_struct (field_names strict names) dflt conv) dflt (member_values outer ms)"

definition decode_smart :: "bool \<Rightarrow> json \<Rightarrow> smart_payload option" where
  "decode_smart strict = json_struct (field_names strict [''model_name'', ''model_family'', ''firmware_version'', ''device'',
       ''user_capacity'', ''temperature'', ''smart_status'', ''power_on_time'', ''power_cycle_count'', ''power_mode'',
       ''nvme_smart_health_information_log''])
     \<lparr>ModelName = [], ModelFamily = [], FirmwareVersion = [], DeviceType = [], DeviceProtocol = [], CapacityBytes = 0,
      CurrentTemperature = None, SmartPassed = None, PowerOnHours = None, PowerCycleCount = None, PowerMode = [], NVMe = zero_nvme\<rparr>
     (\<lambda>ms.
     (case (string_field ''model_name'' ms, string_field ''model_family'' ms, string_field ''firmware_version'' ms,
            inner_field strict [''type'', ''protocol''] ([], [])
              (\<lambda>i. case (string_field ''type'' i, string_field ''protocol'' i) of (Some t, Some p) \<Rightarrow> Some (t, p) | _ \<Rightarrow> None) ''device'' ms,
            inner_field strict [''bytes''] 0 (u64_field ''bytes'') ''user_capacity'' ms,
            inner_field strict [''current''] None (\<lambda>i. assign_pointer json_float None (member_values ''current'' i)) ''temperature'' ms) of
        (Some m, Some f, Some v, Some (t, p), Some b, Some x) \<Rightarrow>
          (case (inner_field strict [''passed''] None (\<lambda>i. assign_pointer json_bool None (member_values ''passed'' i)) ''smart_status'' ms,
                 inner_field strict [''hours''] None (\<lambda>i. assign_pointer json_u64 None (member_values ''hours'' i)) ''power_on_time'' ms,
                 assign_pointer json_u64 None (member_values ''power_cycle_count'' ms), string_field ''power_mode'' ms,
                 assign_field (decode_nvme strict) zero_nvme (member_values ''nvme_smart_health_information_log'' ms)) of
             (Some passed, Some hours, Some cycles, Some mode, Some nvme) \<Rightarrow>
               Some \<lparr>ModelName = m, ModelFamily = f, FirmwareVersion = v, DeviceType = t, DeviceProtocol = p, CapacityBytes = b,
                 CurrentTemperature = x, SmartPassed = passed, PowerOnHours = hours, PowerCycleCount = cycles, PowerMode = mode,
                 NVMe = nvme\<rparr>
           | _ \<Rightarrow> None)
      | _ \<Rightarrow> None))"

text \<open>
  First without unknown members, from the first value of the output; smartctl always has more members,
  and then the whole output is decoded without that restriction.
\<close>

definition read_smart :: "bytes \<Rightarrow> smart_payload option" where
  "read_smart body = (case Option.bind (first_value body) (decode_smart True) of
     Some p \<Rightarrow> Some p | None \<Rightarrow> Option.bind (parse_json body) (decode_smart False))"

definition smart_state :: "smart_payload \<Rightarrow> string" where
  "smart_state p =
     (let base = (case SmartPassed p of None \<Rightarrow> ''unknown'' | Some True \<Rightarrow> ''healthy'' | Some False \<Rightarrow> ''failed'')
      in if CriticalWarning (NVMe p) > 0 \<and> base \<noteq> ''failed'' then ''warning'' else base)"

definition asleep_mode :: "string \<Rightarrow> bool" where
  "asleep_mode m \<longleftrightarrow> equal_fold m ''standby'' \<or> equal_fold m ''sleep''"

definition smart_metrics :: "smart_payload \<Rightarrow> metric_map" where
  "smart_metrics p =
     (let texts = [(''model'', ModelName p), (''modelFamily'', ModelFamily p), (''firmware'', FirmwareVersion p),
            (''deviceType'', DeviceType p), (''protocol'', DeviceProtocol p)];
          counts = [(''powerOnHours'', PowerOnHours p), (''powerCycleCount'', PowerCycleCount p),
            (''unsafeShutdowns'', UnsafeShutdowns (NVMe p)), (''mediaErrors'', MediaErrors (NVMe p)),
            (''errorLogEntries'', ErrorLogEntries (NVMe p))];
          numbers = [(''availableSparePercent'', AvailableSpare (NVMe p)), (''spareThresholdPercent'', SpareThreshold (NVMe p)),
            (''percentageUsed'', PercentageUsed (NVMe p))];
          temperature = (case CurrentTemperature p of Some x \<Rightarrow> Some x | None \<Rightarrow> NvmeTemperature (NVMe p))
      in metric_map_of (map (\<lambda>(k, s). (k, GString s)) (filter (\<lambda>(k, s). s \<noteq> []) texts)
           @ (if CapacityBytes p > 0 then [(''capacityBytes'', u64_value (CapacityBytes p))] else [])
           @ (case temperature of None \<Rightarrow> [] | Some x \<Rightarrow> [(''temperatureC'', GFloat64 x)])
           @ List.map_filter (\<lambda>(k, v). map_option (\<lambda>n. (k, u64_value n)) v) counts
           @ List.map_filter (\<lambda>(k, v). map_option (\<lambda>x. (k, GFloat64 x)) v) numbers
           @ (if smart_state p = ''warning'' then [(''criticalWarning'', u64_value (CriticalWarning (NVMe p)))] else [])))"

definition smart_record :: "opaque_id \<Rightarrow> time \<Rightarrow> string \<Rightarrow> smart_payload \<Rightarrow> storage_health" where
  "smart_record opaque now device p =
     \<lparr>StorageDevice = opaque ''storage'' device, StorageKind = ''smart'',
      StorageState = (if asleep_mode (PowerMode p) then ''unknown'' else smart_state p), StorageCollectedAt = now,
      StorageMetrics = (if asleep_mode (PowerMode p) then metric_map_of [(''standby'', GBool True)] else smart_metrics p)\<rparr>"

definition collect_smart :: "runner_fun \<Rightarrow> string \<Rightarrow> opaque_id \<Rightarrow> time \<Rightarrow> string \<Rightarrow> storage_health result" where
  "collect_smart run smartctl opaque now device =
     (case run smartctl [''-n'', ''standby,0'', ''-a'', ''-j'', device] of (body, failure) \<Rightarrow>
       (if body = [] then Inl (if failure = None then Msg ''smartctl returned an empty payload'' else Msg ''inspect SMART device'')
        else case read_smart body of
            None \<Rightarrow> Inl (Msg ''decode smartctl payload'')
          | Some p \<Rightarrow> Inr (smart_record opaque now device p)))"

section \<open>Storage health\<close>

definition find_smartctl :: "host_files \<Rightarrow> string" where
  "find_smartctl h = (case find (\<lambda>p. PathInfo h p = Some False) [''/usr/sbin/smartctl'', ''/usr/bin/smartctl'', ''/usr/local/sbin/smartctl''] of
     None \<Rightarrow> [] | Some p \<Rightarrow> p)"

definition numeric :: "string \<Rightarrow> any" where
  "numeric v = (case parse_uint0 v of None \<Rightarrow> GString v | Some n \<Rightarrow> u64_value n)"

definition emmc_state :: "string \<Rightarrow> string" where
  "emmc_state v = (if v \<in> {''0x01'', ''1''} then ''healthy'' else if v \<in> {''0x02'', ''2''} then ''warning''
     else if v \<in> {''0x03'', ''3''} then ''failed'' else ''unknown'')"

definition emmc_record :: "host_files \<Rightarrow> opaque_id \<Rightarrow> time \<Rightarrow> string \<Rightarrow> string \<Rightarrow> storage_health" where
  "emmc_record h opaque now block name =
     (let file = (\<lambda>f. read_trimmed h (join_path [block, name, ''device'', f])); eol = file ''pre_eol_info'' in
      \<lparr>StorageDevice = opaque ''storage'' name, StorageKind = ''emmc'', StorageState = emmc_state eol, StorageCollectedAt = now,
       StorageMetrics = metric_map_of ([(''model'', GString (file ''name'')), (''firmware'', GString (file ''fwrev'')),
          (''preEol'', numeric eol), (''lifeTime'', GString (file ''life_time''))]
         @ (case parse_u64 (read_trimmed h (join_path [block, name, ''size''])) of
              None \<Rightarrow> [] | Some n \<Rightarrow> [(''capacityBytes'', u64_value (n * 512))]))\<rparr>)"

definition md_state :: "string \<Rightarrow> string \<Rightarrow> string" where
  "md_state array degraded = (if array \<in> {''inactive'', ''clear'', ''broken''} then ''failed''
     else if degraded \<noteq> [] \<and> degraded \<noteq> ''0'' then ''warning'' else ''healthy'')"

definition md_record :: "host_files \<Rightarrow> opaque_id \<Rightarrow> time \<Rightarrow> string \<Rightarrow> string \<Rightarrow> storage_health" where
  "md_record h opaque now block name =
     (let file = (\<lambda>f. read_trimmed h (join_path [block, name, ''md'', f]));
          array = file ''array_state''; degraded = file ''degraded'' in
      \<lparr>StorageDevice = opaque ''storage'' name, StorageKind = ''mdraid'', StorageState = md_state array degraded,
       StorageCollectedAt = now,
       StorageMetrics = metric_map_of [(''level'', GString (file ''level'')), (''arrayState'', GString array),
         (''raidDisks'', numeric (file ''raid_disks'')), (''degradedDisks'', numeric degraded),
         (''syncAction'', GString (file ''sync_action'')), (''syncCompleted'', GString (file ''sync_completed'')),
         (''mismatchCount'', numeric (file ''mismatch_cnt''))]\<rparr>)"

definition block_record :: "host_files \<Rightarrow> opaque_id \<Rightarrow> time \<Rightarrow> string \<Rightarrow> string \<Rightarrow> storage_health option" where
  "block_record h opaque now block name =
     (if has_prefix name ''mmcblk'' \<and> \<not> contains_str name ''p'' then Some (emmc_record h opaque now block name)
      else if has_prefix name ''md'' then Some (md_record h opaque now block name) else None)"

text \<open>The devices are asked one after the other until 64 records are there; the first failure ends it.\<close>

fun smart_records :: "(string \<Rightarrow> storage_health result) \<Rightarrow> nat \<Rightarrow> string list \<Rightarrow> storage_health list result" where
  "smart_records ask n [] = Inr []"
| "smart_records ask n (d # ds) = (if n \<ge> 64 then Inr []
     else bind_result (ask d) (\<lambda>r. bind_result (smart_records ask (n + 1) ds) (\<lambda>rs. Inr (r # rs))))"

definition collect_storage_health :: "host_files \<Rightarrow> runner_fun \<Rightarrow> string \<Rightarrow> opaque_id \<Rightarrow> string \<Rightarrow> string list \<Rightarrow> time \<Rightarrow> bool \<Rightarrow>
    storage_health list result" where
  "collect_storage_health h run smartctl opaque base devices now smart =
     (let block = join_path [base, ''sys'', ''block''] in
      case DirItems h block of
        Inl e \<Rightarrow> Inl e
      | Inr items \<Rightarrow>
         (let found = take 64 (List.map_filter (\<lambda>(n, d). block_record h opaque now block n) items) in
          if \<not> smart then Inr found
          else if smartctl = [] then Inl (Msg ''smartctl is not installed at a supported path'')
          else bind_result (smart_records (collect_smart run smartctl opaque now) (length found) devices)
            (\<lambda>rs. Inr (found @ rs))))"

end
