(* ===== verification/Linux_Collector.thy ===== *)
theory Linux_Collector
  imports Linux_Devices
begin

text \<open>
  The Linux collector, \<open>internal/collectors/linux/collector.go\<close>: sensors, batteries, and \<open>Collect\<close>, which
  puts a heartbeat together and remembers the CPU counters, the services and the storage health with the
  times they were last collected. What the collector reads of the host in one collection is the argument
  \<open>linux_host\<close>; the container collector keeps a state of its own.
\<close>

section \<open>Scanning a number\<close>

text \<open>
  \<open>fmt.Sscanf(s, "%f", &x)\<close>: the longest front of the text that has the form of a number, the rest is
  not looked at. A decimal number may carry a binary exponent.
\<close>

definition take_one :: "string \<Rightarrow> string \<times> string \<Rightarrow> bool \<times> string \<times> string" where
  "take_one cs st = (case st of (b, s) \<Rightarrow>
     (if s \<noteq> [] \<and> hd s \<in> set cs then (True, b @ [hd s], tl s) else (False, b, s)))"

definition take_many :: "string \<Rightarrow> string \<times> string \<Rightarrow> string \<times> string" where
  "take_many cs st = (case st of (b, s) \<Rightarrow> (b @ takeWhile (\<lambda>c. c \<in> set cs) s, dropWhile (\<lambda>c. c \<in> set cs) s))"

text \<open>A word letter by letter, in either case; the letters that matched stay read.\<close>

fun take_word :: "string list \<Rightarrow> string \<times> string \<Rightarrow> bool \<times> string \<times> string" where
  "take_word [] st = (True, st)"
| "take_word (cs # css) st = (case take_one cs st of (True, st') \<Rightarrow> take_word css st' | (False, st') \<Rightarrow> (False, st'))"

definition number_token :: "string \<times> string \<Rightarrow> string" where
  "number_token st =
     (let decimals = ''0123456789_'';
          (zero, st1) = take_one ''0'' st;
          (hex, st2) = (if zero then take_one ''xX'' st1 else (False, st1));
          digits = (if hex then ''0123456789aAbBcCdDeEfF_'' else decimals);
          st3 = take_many digits st2;
          (dot, st4) = take_one ''.'' st3;
          st5 = (if dot then take_many digits st4 else st4);
          (e, st6) = take_one (if hex then ''pP'' else ''eEpP'') st5
      in fst (if e then take_many decimals (snd (take_one ''+-'' st6)) else st6))"

definition float_token :: "string \<Rightarrow> string" where
  "float_token s = (case take_word [''nN'', ''aA'', ''nN''] ([], s) of
     (True, st) \<Rightarrow> fst st
   | (False, st) \<Rightarrow> (case take_word [''iI'', ''nN'', ''fF''] (snd (take_one ''+-'' st)) of
       (True, st') \<Rightarrow> fst st' | (False, st') \<Rightarrow> number_token st'))"

definition scan_float :: "string \<Rightarrow> float64 option" where
  "scan_float s = (let token = float_token (trim_left s) in
     if CHR ''p'' \<in> set token \<and> CHR ''x'' \<notin> set token \<and> CHR ''X'' \<notin> set token then
       (case cut_at (CHR ''p'') token of (a, b) \<Rightarrow>
          (case (parse_float a, Option.bind b atoi) of
             (Some (Finite x), Some e) \<Rightarrow> Some (to_float (x * rat_power 2 e))
           | (Some x, Some e) \<Rightarrow> Some x
           | _ \<Rightarrow> None))
     else parse_float token)"

section \<open>Host and state\<close>

record linux_config =
  BasePath :: string
  Architecture :: string
  Opaque :: opaque_id
  ServiceManager :: manager
  ManagerName :: string
  ManagerDetail :: string
  SmartDevices :: "string list"
  SmartctlPath :: string
  TextOf :: "error \<Rightarrow> string"

record linux_host =
  HostFiles :: host_files
  HostRun :: runner_fun
  Statfs :: "string \<Rightarrow> fs_status option"
  HostTime :: time
  HostName :: string

record 'c linux_collector =
  CollectedBefore :: time
  CpuBefore :: "(string \<times> cpu_counters) list"
  SystemdState :: systemd
  LastServicesAt :: time
  CachedServices :: "service list"
  ServiceCapability :: "capability option"
  LastStorageAt :: time
  CachedStorage :: "storage_health list"
  StorageCapability :: "capability option"
  ContainerCapability :: "capability option"
  Gpu :: gpu_aggregation
  ContainerState :: 'c

text \<open>The container collector when one is configured: its detail and \<open>Collect\<close>.\<close>

type_synonym 'c container_source = "(string \<times> ('c \<Rightarrow> container list result \<times> 'c)) option"

definition capability_of :: "availability \<Rightarrow> string \<Rightarrow> capability" where
  "capability_of s d = \<lparr>CapState = s, CapDetail = d\<rparr>"

definition available :: "string \<Rightarrow> capability" where
  "available d = capability_of Available d"

definition unavailable :: "(error \<Rightarrow> string) \<Rightarrow> error \<Rightarrow> capability" where
  "unavailable text_of e = capability_of Unavailable (take 256 (text_of e))"

definition new_linux_collector :: "'c \<Rightarrow> 'c linux_collector" where
  "new_linux_collector c = \<lparr>CollectedBefore = 0, CpuBefore = [], SystemdState = new_systemd, LastServicesAt = 0,
     CachedServices = [], ServiceCapability = None, LastStorageAt = 0, CachedStorage = [], StorageCapability = None,
     ContainerCapability = None, Gpu = new_gpu_aggregation, ContainerState = c\<rparr>"

definition linux_capabilities :: "'c container_source \<Rightarrow> capabilities" where
  "linux_capabilities cs =
     [(''host.uptime'', available ''procfs''), (''host.system'', available ''procfs and os-release''),
      (''host.load'', available ''procfs''), (''host.cpu'', available ''procfs''), (''host.memory'', available ''procfs''),
      (''host.filesystems'', available ''statfs''),
      (''host.disk-io'', capability_of Disabled ''continuous disk I/O collection is disabled''),
      (''host.network'', capability_of Disabled ''continuous network collection is disabled''),
      (''host.sensors'', available ''sysfs when exposed''), (''host.batteries'', available ''sysfs when exposed''),
      (''host.services'', capability_of Disabled ''service discovery is not enabled''),
      (''host.gpu'', capability_of Unavailable ''no safe GPU collector detected''),
      (''storage.health'', capability_of Disabled ''storage health is opt-in or unavailable''),
      (''containers'', (case cs of None \<Rightarrow> capability_of Disabled ''container discovery is opt-in'' | Some (d, f) \<Rightarrow> available d))]"

section \<open>The parts of a heartbeat\<close>

text \<open>A part gives its value, or nothing, and the capability to report.\<close>

definition from_file :: "linux_config \<Rightarrow> host_files \<Rightarrow> string \<Rightarrow> (bytes \<Rightarrow> 'a result) \<Rightarrow> 'a option \<times> capability" where
  "from_file cfg h name parse = (case bind_result (FileBody h (join_path [BasePath cfg, name])) parse of
     Inl e \<Rightarrow> (None, unavailable (TextOf cfg) e) | Inr x \<Rightarrow> (Some x, available ''procfs''))"

definition collect_system :: "linux_config \<Rightarrow> host_files \<Rightarrow> metric_map" where
  "collect_system cfg h =
     (let release = (case FileBody h (join_path [BasePath cfg, ''etc/os-release'']) of Inl e \<Rightarrow> [] | Inr b \<Rightarrow> parse_os_release b);
          entry = (\<lambda>(source, target). let v = value_of release source in if v = [] then None else Some (target, GString v))
      in metric_map_of ([(''operatingSystem'', GString ''linux''), (''architecture'', GString (Architecture cfg)),
             (''initSystem'', GString (detect_init_system h (BasePath cfg)))]
           @ (case FileBody h (join_path [BasePath cfg, ''proc/sys/kernel/osrelease'']) of
                Inl e \<Rightarrow> [] | Inr b \<Rightarrow> [(''kernel'', GString (trim_space b))])
           @ List.map_filter entry [(''ID'', ''distribution''), (''VERSION_ID'', ''distributionVersion''),
               (''PRETTY_NAME'', ''distributionName'')]))"

definition cpu_static :: "linux_config \<Rightarrow> host_files \<Rightarrow> metric_map" where
  "cpu_static cfg h = (case FileBody h (join_path [BasePath cfg, ''proc/cpuinfo'']) of Inl e \<Rightarrow> [] | Inr b \<Rightarrow> parse_cpu_info b)"

text \<open>The loop over the counters: the values of the whole, the entries of the cores, and the counters to remember.\<close>

fun cpu_loop :: "cpu_counters list \<Rightarrow> (string \<times> cpu_counters) list \<Rightarrow> metric_map \<Rightarrow>
    metric_map list \<Rightarrow> metric_map \<times> metric_map list \<times> (string \<times> cpu_counters) list" where
  "cpu_loop [] before cpu cores = (cpu, cores, before)"
| "cpu_loop (c # cs) before cpu cores =
     (let old = map_of before (CpuName c); before' = AList.update (CpuName c) c before;
          percent = Option.bind old (percentage c)
      in if CpuName c = ''cpu'' then
           cpu_loop cs before' (case percent of None \<Rightarrow> cpu
             | Some x \<Rightarrow> fold (\<lambda>(k, v). put k v) (case Option.bind old (cpu_breakdown c) of None \<Rightarrow> [] | Some b \<Rightarrow> b)
                 (put ''percent'' (GFloat64 x) cpu)) cores
         else cpu_loop cs before' cpu (cores @ [metric_map_of ((''name'', GString (CpuName c)) #
             (case percent of None \<Rightarrow> [] | Some x \<Rightarrow> [(''percent'', GFloat64 x)]))]))"

definition collect_cpu :: "linux_config \<Rightarrow> host_files \<Rightarrow> (string \<times> cpu_counters) list \<Rightarrow>
    metric_map \<times> capability \<times> (string \<times> cpu_counters) list" where
  "collect_cpu cfg h before = (case from_file cfg h ''proc/stat'' parse_cpu_counters of
     (None, c) \<Rightarrow> (cpu_static cfg h, c, before)
   | (Some counters, c) \<Rightarrow> (case cpu_loop counters before (cpu_static cfg h) [] of (cpu, cores, before') \<Rightarrow>
       (put ''cores'' (GSlice (map GMap cores)) (put ''logicalCores'' (GInt KInt (int (length cores))) cpu), c, before')))"

definition collect_memory :: "linux_config \<Rightarrow> host_files \<Rightarrow> metric_map \<times> capability" where
  "collect_memory cfg h = (case from_file cfg h ''proc/meminfo'' parse_meminfo of
     (None, c) \<Rightarrow> ([], c)
   | (Some m, c) \<Rightarrow> (put_some ''zfsArcBytes'' (map_option u64_value
       (fst (from_file cfg h ''proc/spl/kstat/zfs/arcstats'' parse_zfs_arc))) m, c))"

definition collect_filesystems :: "linux_config \<Rightarrow> linux_host \<Rightarrow> metric_map list \<times> capability" where
  "collect_filesystems cfg host =
     (if BasePath cfg \<noteq> ''/'' then ([], capability_of Disabled ''statfs disabled for fixture root'')
      else case collect_mounted_filesystems (HostFiles host) (Statfs host) ''/proc/self/mountinfo'' of
          Inl e \<Rightarrow> ([], unavailable (TextOf cfg) e)
        | Inr fs \<Rightarrow> (fs, available ''mountinfo and statfs''))"

definition sensor_entry :: "linux_config \<Rightarrow> host_files \<Rightarrow> string \<Rightarrow> string \<Rightarrow> string \<Rightarrow> metric_map option" where
  "sensor_entry cfg h dir chip file =
     (if \<not> has_prefix file ''temp'' \<or> \<not> has_suffix file ''_input'' then None
      else case FileBody h (dir @ CHR ''/'' # file) of
          Inl e \<Rightarrow> None
        | Inr body \<Rightarrow> (case scan_float (trim_space body) of
            None \<Rightarrow> None
          | Some milli \<Rightarrow>
              (let stem = trim_suffix file ''_input''; given = trim_space (read_optional h (dir @ CHR ''/'' # stem @ ''_label''));
                   label = (if given = [] then stem else given)
               in Some (metric_map_of [(''id'', GString (Opaque cfg ''sensor'' (chip @ CHR '':'' # label))),
                    (''source'', GString chip), (''name'', GString label), (''temperatureC'', GFloat64 (fdiv milli (Finite 1000)))]))))"

definition chip_sensors :: "linux_config \<Rightarrow> host_files \<Rightarrow> string \<Rightarrow> string \<Rightarrow> metric_map list" where
  "chip_sensors cfg h parent name =
     (let dir = parent @ CHR ''/'' # name; given = trim_space (read_optional h (dir @ ''/name''));
          chip = (if given = [] then name else given)
      in List.map_filter (sensor_entry cfg h dir chip) (names_in h dir))"

definition collect_sensors :: "linux_config \<Rightarrow> host_files \<Rightarrow> metric_map list \<times> capability" where
  "collect_sensors cfg h =
     (let parent = trim_right_slash (BasePath cfg) @ ''/sys/class/hwmon'' in
      case DirItems h parent of
        Inl e \<Rightarrow> ([], unavailable (TextOf cfg) e)
      | Inr items \<Rightarrow> (sort_key (\<lambda>s. sprint (at_key s ''name'')) (take 256 (concat (map (chip_sensors cfg h parent \<circ> fst) items))),
          available ''sysfs''))"

definition battery_status :: "string \<Rightarrow> string" where
  "battery_status s = (if s \<in> set [''charging'', ''discharging'', ''full'', ''empty''] then s
     else if s = ''not charging'' then ''idle'' else ''unknown'')"

definition battery_entry :: "linux_config \<Rightarrow> host_files \<Rightarrow> string \<Rightarrow> string \<Rightarrow> metric_map option" where
  "battery_entry cfg h parent name =
     (let file = (\<lambda>f. parent @ CHR ''/'' # name @ CHR ''/'' # f);
          number = (\<lambda>(f, k). map_option (\<lambda>n. (k, u64_value n)) (parse_u64 (read_trimmed h (file f))))
      in if read_trimmed h (file ''type'') \<noteq> ''Battery'' then None
         else Some (metric_map_of ([(''id'', GString (Opaque cfg ''battery'' name)), (''name'', GString name)]
           @ List.map_filter number [(''capacity'', ''percent''), (''energy_now'', ''energyNowMicrowattHours''),
               (''energy_full'', ''energyFullMicrowattHours'')]
           @ [(''status'', GString (battery_status (to_lower (read_trimmed h (file ''status'')))))])))"

definition collect_batteries :: "linux_config \<Rightarrow> host_files \<Rightarrow> metric_map list \<times> capability" where
  "collect_batteries cfg h =
     (let parent = trim_right_slash (BasePath cfg) @ ''/sys/class/power_supply'' in
      case DirItems h parent of
        Inl e \<Rightarrow> ([], unavailable (TextOf cfg) e)
      | Inr items \<Rightarrow> (take 16 (List.map_filter (battery_entry cfg h parent \<circ> fst) items), available ''sysfs''))"

section \<open>What is collected at intervals\<close>

text \<open>An interval of the contract in seconds, with the default for a missing one, and whether it has passed.\<close>

definition due :: "int \<Rightarrow> int \<Rightarrow> time \<Rightarrow> time \<Rightarrow> bool" where
  "due interval dflt before now \<longleftrightarrow> is_zero before \<or>
     time_sub now before \<ge> (if interval \<le> 0 then dflt else interval) * 10 ^ 9"

definition refresh_services :: "linux_config \<Rightarrow> linux_host \<Rightarrow> contract \<Rightarrow> 'c linux_collector \<Rightarrow> 'c linux_collector" where
  "refresh_services cfg host c st =
     (let now = HostTime host in
      if \<not> due (ServiceIntervalSeconds (Collection c)) 600 (LastServicesAt st) now then st
      else (case collect_services (HostFiles host) (HostRun host) (BasePath cfg) now (ServiceManager cfg) (SystemdState st) of
          (Inl e, s) \<Rightarrow> st\<lparr>LastServicesAt := now, SystemdState := s, ServiceCapability := Some (unavailable (TextOf cfg) e)\<rparr>
        | (Inr ss, s) \<Rightarrow> st\<lparr>LastServicesAt := now, SystemdState := s,
             CachedServices := map (\<lambda>v. v\<lparr>Manager := ManagerName cfg\<rparr>) ss,
             ServiceCapability := Some (available (ManagerDetail cfg))\<rparr>))"

definition refresh_storage :: "linux_config \<Rightarrow> linux_host \<Rightarrow> contract \<Rightarrow> 'c linux_collector \<Rightarrow> 'c linux_collector" where
  "refresh_storage cfg host c st =
     (let now = HostTime host in
      if \<not> due (StorageHealthIntervalSeconds (Collection c)) 3600 (LastStorageAt st) now then st
      else (case collect_storage_health (HostFiles host) (HostRun host) (SmartctlPath cfg) (Opaque cfg) (BasePath cfg)
            (SmartDevices cfg) now (SMARTEnabled (Privacy c) \<and> SmartDevices cfg \<noteq> []) of
          Inl e \<Rightarrow> st\<lparr>LastStorageAt := now, StorageCapability := Some (unavailable (TextOf cfg) e)\<rparr>
        | Inr [] \<Rightarrow> st\<lparr>LastStorageAt := now, CachedStorage := [], StorageCapability :=
             Some (if SmartDevices cfg \<noteq> [] \<and> \<not> SMARTEnabled (Privacy c)
               then capability_of Disabled ''SMART disabled by server contract''
               else capability_of Unavailable ''no supported storage-health device found'')\<rparr>
        | Inr rs \<Rightarrow> st\<lparr>LastStorageAt := now, CachedStorage := rs, StorageCapability := Some (available ''read-only sysfs'')\<rparr>))"

definition refusal_state :: "string \<Rightarrow> availability" where
  "refusal_state detail = (if contains_str (to_lower detail) ''permission denied'' \<or> contains_str (to_lower detail) ''access denied''
     then PermissionBlocked else Unavailable)"

definition gather_containers :: "linux_config \<Rightarrow> 'c container_source \<Rightarrow> contract \<Rightarrow> 'c linux_collector \<Rightarrow>
    (container list \<times> capability) \<times> 'c linux_collector" where
  "gather_containers cfg source c st = (case source of
     None \<Rightarrow> (([], capability_of Disabled ''container discovery is not configured''), st)
   | Some (detail, collect_them) \<Rightarrow>
      (if \<not> ContainersEnabled (Privacy c) then (([], capability_of Disabled ''container discovery disabled by server contract''), st)
       else case collect_them (ContainerState st) of
         (Inl e, k) \<Rightarrow> (let cap = capability_of (refusal_state (TextOf cfg e)) (take 256 (TextOf cfg e)) in
            (([], cap), st\<lparr>ContainerState := k, ContainerCapability := Some cap\<rparr>))
       | (Inr found, k) \<Rightarrow> ((found, available detail), st\<lparr>ContainerState := k, ContainerCapability := Some (available detail)\<rparr>)))"

section \<open>Collect\<close>

definition set_capability :: "string \<Rightarrow> capability \<Rightarrow> capabilities \<Rightarrow> capabilities" where
  "set_capability = AList.update"

definition given_capability :: "string \<Rightarrow> capability option \<Rightarrow> capabilities \<Rightarrow> capabilities" where
  "given_capability name c caps = (case c of None \<Rightarrow> caps | Some x \<Rightarrow> set_capability name x caps)"

definition linux_heartbeat :: "linux_host \<Rightarrow> capabilities \<Rightarrow> metrics \<Rightarrow> service list \<Rightarrow> container list \<Rightarrow> storage_health list \<Rightarrow> heartbeat" where
  "linux_heartbeat host caps m services containers storage =
     \<lparr>HbMajor = 0, HbSequence = 0, AgentVersion = [], CollectedAt = HostTime host, HbHost = \<lparr>HostType = [], HostID = 0\<rparr>,
      Hostname = HostName host, DroppedSamples = 0, MonitoringRevision = 0, Capabilities = caps, CapabilitiesHash = [],
      HbMetrics = m, HbState = None, HbServices = take 512 services, HbContainers = take 128 containers,
      HbStorage = take 64 storage\<rparr>"

definition linux_collect :: "linux_config \<Rightarrow> 'c container_source \<Rightarrow> linux_host \<Rightarrow> contract \<Rightarrow> 'c linux_collector \<Rightarrow>
    heartbeat result \<times> 'c linux_collector" where
  "linux_collect cfg source host c st =
     (let h = HostFiles host;
          (uptime, uptime_cap) = from_file cfg h ''proc/uptime'' parse_uptime;
          (load, load_cap) = from_file cfg h ''proc/loadavg'' parse_load_average;
          (cpu, cpu_cap, before) = collect_cpu cfg h (CpuBefore st);
          (memory, memory_cap) = collect_memory cfg h;
          (filesystems, fs_cap) = collect_filesystems cfg host;
          (sensors, sensors_cap) = collect_sensors cfg h;
          (batteries, batteries_cap) = collect_batteries cfg h;
          (gpus, g) = collect_aggregated_gpus h (Opaque cfg) (BasePath cfg) (Gpu st);
          gpu_cap = (case gpus of Inl e \<Rightarrow> unavailable (TextOf cfg) e | Inr x \<Rightarrow> available ''read-only DRM sysfs'');
          st1 = refresh_services cfg host c (st\<lparr>CpuBefore := before, Gpu := g\<rparr>);
          st2 = refresh_storage cfg host c st1;
          ((containers, containers_cap), st3) = gather_containers cfg source c st2;
          caps = fold (\<lambda>(k, x). set_capability k x) [(''host.uptime'', uptime_cap), (''host.load'', load_cap),
              (''host.cpu'', cpu_cap), (''host.memory'', memory_cap), (''host.filesystems'', fs_cap),
              (''host.sensors'', sensors_cap), (''host.batteries'', batteries_cap), (''host.gpu'', gpu_cap)] (linux_capabilities source);
          caps' = set_capability ''containers'' containers_cap (given_capability ''storage.health'' (StorageCapability st2)
              (given_capability ''host.services'' (ServiceCapability st2) caps));
          m = \<lparr>UptimeSeconds = uptime, LoadAverage = (case load of None \<Rightarrow> [] | Some xs \<Rightarrow> xs), MSystem = collect_system cfg h,
              MCPU = cpu, MMemory = memory, Filesystems = filesystems, DiskIO = [], Network = [], MSensors = sensors,
              Batteries = batteries, MGPUs = (case gpus of Inl e \<Rightarrow> [] | Inr x \<Rightarrow> x)\<rparr>
      in (Inr (linux_heartbeat host caps' m (CachedServices st2) containers (CachedStorage st2)),
          st3\<lparr>CollectedBefore := HostTime host\<rparr>))"

end
