(* ===== verification/Linux_Correct.thy ===== *)
theory Linux_Correct
  imports Linux_Collector Float_Bounds
begin

text \<open>
  The Linux collector: a CPU share is between 0 and 100 percent, and mount points are read back as the
  kernel escaped them.
\<close>

section \<open>CPU shares\<close>

text \<open>What the counters of one line add up to, without wrap-around.\<close>

definition counter_sum :: "cpu_counters \<Rightarrow> nat" where
  "counter_sum c = unat (User c) + unat (Nice c) + unat (SystemTime c) + unat (IdleTime c) + unat (IOWait c) +
     unat (IRQ c) + unat (SoftIRQ c) + unat (Steal c)"

lemma unat_add_small: "unat a + unat b < 2 ^ 64 \<Longrightarrow> unat (a + b) = unat a + unat b" for a b :: u64
  by (simp add: unat_plus_simple [THEN iffD1] no_olen_add_nat)

lemma cpu_total_unat: "counter_sum c < 2 ^ 64 \<Longrightarrow> unat (cpu_total c) = counter_sum c"
  by (simp add: cpu_total_def counter_sum_def unat_add_small)

lemma cpu_idle_unat: "counter_sum c < 2 ^ 64 \<Longrightarrow> unat (cpu_idle c) = unat (IdleTime c) + unat (IOWait c)"
  by (simp add: cpu_idle_def counter_sum_def unat_add_small)

text \<open>Counters below 2^46 ticks (more than two thousand years of one hundred ticks a second on a CPU).\<close>

definition percent_value :: "float64 \<Rightarrow> bool" where
  "percent_value x \<longleftrightarrow> (\<exists>y. x = Finite y \<and> 0 \<le> y \<and> y \<le> 100)"

lemma share_percent:
  assumes "unat part \<le> unat whole" and "0 < unat whole" and "unat whole < 2 ^ 46"
  shows "percent_value (share part whole)"
proof -
  have i: "uint w = int (unat w)" for w :: u64 by simp
  have "\<exists>y. percent_of (uint part) (uint whole) = Finite y \<and> 0 \<le> y \<and> y \<le> 100"
    by (rule percent_of_bounds) (use assms in \<open>simp_all only: i of_nat_0_le_iff of_nat_le_iff of_nat_0_less_iff of_nat_less_numeral_power_cancel_iff\<close>)
  then show ?thesis by (simp add: percent_value_def share_def percent_of_def float_of_u64_def)
qed

lemma valid_delta_unat:
  assumes "valid_delta c p" and "counter_sum c < 2 ^ 46"
  shows "unat (User p) \<le> unat (User c)" "unat (Nice p) \<le> unat (Nice c)" "unat (SystemTime p) \<le> unat (SystemTime c)"
    "unat (IdleTime p) \<le> unat (IdleTime c)" "unat (IOWait p) \<le> unat (IOWait c)" "unat (IRQ p) \<le> unat (IRQ c)"
    "unat (SoftIRQ p) \<le> unat (SoftIRQ c)" "unat (Steal p) \<le> unat (Steal c)" "counter_sum p < counter_sum c"
    "unat (cpu_total c - cpu_total p) = counter_sum c - counter_sum p"
proof -
  show le: "unat (User p) \<le> unat (User c)" "unat (Nice p) \<le> unat (Nice c)" "unat (SystemTime p) \<le> unat (SystemTime c)"
    "unat (IdleTime p) \<le> unat (IdleTime c)" "unat (IOWait p) \<le> unat (IOWait c)" "unat (IRQ p) \<le> unat (IRQ c)"
    "unat (SoftIRQ p) \<le> unat (SoftIRQ c)" "unat (Steal p) \<le> unat (Steal c)"
    using assms(1) by (simp_all add: valid_delta_def word_le_nat_alt)
  then have "counter_sum p \<le> counter_sum c" by (simp add: counter_sum_def)
  then have t: "unat (cpu_total c) = counter_sum c" "unat (cpu_total p) = counter_sum p"
    using assms(2) by (intro cpu_total_unat; simp)+
  show "counter_sum p < counter_sum c" using assms(1) t by (simp add: valid_delta_def word_less_nat_alt)
  then show "unat (cpu_total c - cpu_total p) = counter_sum c - counter_sum p"
    using t by (simp add: unat_sub word_le_nat_alt)
qed

lemma unat_diff_small:
  "unat b \<le> unat a \<Longrightarrow> unat (a - b) = unat a - unat b" for a b :: u64
  by (simp add: unat_sub word_le_nat_alt)

text \<open>
  C40: the busy share of a CPU and every part of its breakdown is a number between 0 and 100, for counters
  below 2^46 that only went up, and nothing is reported when a counter went down or none went up.
\<close>

theorem cpu_shares_bounded:
  assumes "counter_sum c < 2 ^ 46"
  shows "(\<forall>x. percentage c p = Some x \<longrightarrow> percent_value x) \<and>
    (\<forall>b. cpu_breakdown c p = Some b \<longrightarrow> (\<forall>(k, v) \<in> set b. \<exists>x. v = GFloat64 x \<and> percent_value x)) \<and>
    (percentage c p = None \<longleftrightarrow> \<not> valid_delta c p)"
proof (cases "valid_delta c p")
  case True
  note d = valid_delta_unat [OF True assms]
  let ?w = "cpu_total c - cpu_total p"
  have small: "unat x + unat y < 2 ^ 64" if "unat x + unat y \<le> counter_sum c" for x y :: u64 using that assms by simp
  have w: "0 < unat ?w" "unat ?w < 2 ^ 46" using d(9,10) assms by simp_all
  have share: "percent_value (share part ?w)" if "unat part \<le> counter_sum c - counter_sum p" for part
    using share_percent [OF _ w] that d(10) by simp
  have two: "unat ((a + b) - (x + y)) = (unat a + unat b) - (unat x + unat y)"
    if "unat a + unat b < 2 ^ 46" "unat x \<le> unat a" "unat y \<le> unat b" for a b x y :: u64
    using that by (simp add: unat_diff_small unat_add_small)
  have three: "unat ((a + b + e) - (x + y + z)) = (unat a + unat b + unat e) - (unat x + unat y + unat z)"
    if "unat a + unat b + unat e < 2 ^ 46" "unat x \<le> unat a" "unat y \<le> unat b" "unat z \<le> unat e" for a b e x y z :: u64
    using that by (simp add: unat_diff_small unat_add_small)
  have idle: "unat (cpu_idle c - cpu_idle p) = (unat (IdleTime c) + unat (IOWait c)) - (unat (IdleTime p) + unat (IOWait p))"
    unfolding cpu_idle_def by (rule two) (use d assms in \<open>simp_all add: counter_sum_def\<close>)
  have busy: "unat (?w - (cpu_idle c - cpu_idle p)) \<le> counter_sum c - counter_sum p"
  proof -
    have "unat (cpu_idle c - cpu_idle p) \<le> unat ?w" using idle d by (simp add: counter_sum_def)
    then show ?thesis using d(10) by (simp add: unat_diff_small)
  qed
  have parts: "unat (User c + Nice c - (User p + Nice p)) \<le> counter_sum c - counter_sum p"
    "unat (SystemTime c + IRQ c + SoftIRQ c - (SystemTime p + IRQ p + SoftIRQ p)) \<le> counter_sum c - counter_sum p"
    "unat (IOWait c - IOWait p) \<le> counter_sum c - counter_sum p" "unat (Steal c - Steal p) \<le> counter_sum c - counter_sum p"
    "unat (IdleTime c - IdleTime p) \<le> counter_sum c - counter_sum p"
    using d assms by (simp_all add: two three unat_diff_small counter_sum_def)
  show ?thesis
    using True share [OF busy] share [OF parts(1)] share [OF parts(2)] share [OF parts(3)] share [OF parts(4)] share [OF parts(5)]
    by (simp add: percentage_def cpu_breakdown_def Let_def)
qed (simp add: percentage_def cpu_breakdown_def)

lemma cpu_shares_bounded_witness:
  "\<exists>x. percentage (zero_counters\<lparr>User := 30, IdleTime := 70\<rparr>) zero_counters = Some x \<and> percent_value x"
proof -
  have "counter_sum (zero_counters\<lparr>User := 30, IdleTime := 70\<rparr>) < 2 ^ 46" by (simp add: counter_sum_def zero_counters_def)
  moreover have "valid_delta (zero_counters\<lparr>User := 30, IdleTime := 70\<rparr>) zero_counters"
    by (simp add: valid_delta_def cpu_total_def zero_counters_def)
  ultimately show ?thesis using cpu_shares_bounded [of "zero_counters\<lparr>User := 30, IdleTime := 70\<rparr>" zero_counters] by blast
qed

section \<open>Mount points\<close>

text \<open>How the kernel writes a path into /proc/self/mountinfo.\<close>

fun kernel_escape :: "string \<Rightarrow> string" where
  "kernel_escape [] = []"
| "kernel_escape (c # s) =
     (if c = CHR '' '' then CHR 0x5C # ''040'' else if c = CHR 9 then CHR 0x5C # ''011''
      else if c = CHR 10 then CHR 0x5C # ''012'' else if c = CHR 0x5C then CHR 0x5C # ''134'' else [c]) @ kernel_escape s"

lemma decode_plain: "c \<noteq> CHR 0x5C \<Longrightarrow> decode_mount_field (c # s) = c # decode_mount_field s"
  by (cases s rule: decode_mount_field.cases) auto

lemma decode_kernel_escape: "decode_mount_field (kernel_escape s) = s"
proof (induction s)
  case (Cons c s)
  then show ?case by (auto simp: decode_plain)
qed simp

end
