(* ===== verification/Freebsd_Parsers.thy ===== *)
theory Freebsd_Parsers
  imports Linux_Collector
begin

text \<open>
  The parsers of sysctl, swapinfo, df, mount, pciconf and geom on FreeBSD,
  \<open>internal/collectors/freebsd/parse.go\<close> and \<open>hardware.go\<close>. Counters are 64-bit words, so differences and
  acc wrap as in the code.
\<close>

section \<open>sysctl and counters\<close>

record bsd_counters =
  BsdUser :: u64
  BsdNice :: u64
  BsdSystem :: u64
  BsdInterrupt :: u64
  BsdIdle :: u64

definition bsd_zero :: bsd_counters where
  "bsd_zero = \<lparr>BsdUser = 0, BsdNice = 0, BsdSystem = 0, BsdInterrupt = 0, BsdIdle = 0\<rparr>"

definition bsd_total :: "bsd_counters \<Rightarrow> u64" where
  "bsd_total c = BsdUser c + BsdNice c + BsdSystem c + BsdInterrupt c + BsdIdle c"

definition bsd_valid :: "bsd_counters \<Rightarrow> bsd_counters \<Rightarrow> bool" where
  "bsd_valid c p \<longleftrightarrow> \<not> (BsdUser c < BsdUser p \<or> BsdNice c < BsdNice p \<or> BsdSystem c < BsdSystem p \<or>
     BsdInterrupt c < BsdInterrupt p \<or> BsdIdle c < BsdIdle p \<or> bsd_total c \<le> bsd_total p)"

definition bsd_percentage :: "bsd_counters \<Rightarrow> bsd_counters \<Rightarrow> float64 option" where
  "bsd_percentage c p =
     (if \<not> bsd_valid c p then None
      else let total_delta = bsd_total c - bsd_total p; idle_delta = BsdIdle c - BsdIdle p
           in Some (share (total_delta - idle_delta) total_delta))"

definition sysctl_line :: "string \<Rightarrow> (string \<times> string) list \<Rightarrow> (string \<times> string) list" where
  "sysctl_line line m = (case cut_at (CHR '':'') line of
     (key, Some v) \<Rightarrow> (if trim_space key \<noteq> [] then AList.update (trim_space key) (trim_space v) m else m)
   | _ \<Rightarrow> m)"

definition parse_sysctl :: "bytes \<Rightarrow> (string \<times> string) list" where
  "parse_sysctl body = fold sysctl_line (text_lines body) []"

definition bsd_uint :: "string \<Rightarrow> u64 option" where
  "bsd_uint v = parse_u64 (trim_space v)"

definition parse_counter :: "string \<Rightarrow> bsd_counters result" where
  "parse_counter v =
     (let fs = text_fields v in
      if length fs \<noteq> 5 then Inl (Msg ''FreeBSD CPU counter must contain five values'')
      else case those (map parse_u64 fs) of
          Some [a, b, c, d, e] \<Rightarrow> Inr \<lparr>BsdUser = a, BsdNice = b, BsdSystem = c, BsdInterrupt = d, BsdIdle = e\<rparr>
        | _ \<Rightarrow> Inl (Msg ''FreeBSD CPU counter is invalid''))"

function counters_by_five :: "string list \<Rightarrow> bsd_counters list result" where
  "counters_by_five fs =
     (if fs = [] then Inr []
      else bind_result (parse_counter (join_with (CHR '' '') (take 5 fs))) (\<lambda>c.
           bind_result (counters_by_five (drop 5 fs)) (\<lambda>cs. Inr (c # cs))))"
  by pat_completeness auto
termination by (relation "measure length") (auto simp: neq_Nil_conv)

declare counters_by_five.simps [simp del]

definition parse_per_cpu :: "string \<Rightarrow> bsd_counters list result" where
  "parse_per_cpu v = (let fs = text_fields v in
     if fs = [] \<or> length fs mod 5 \<noteq> 0 then Inl (Msg ''FreeBSD per-CPU counters are invalid'') else counters_by_five fs)"

definition parse_load :: "string \<Rightarrow> float64 list result" where
  "parse_load v =
     (let fs = text_fields (trim_space (trim_suffix (trim_prefix (trim_space v) ''{'') ''}'')) in
      if length fs \<noteq> 3 then Inl (Msg ''FreeBSD load average is invalid'')
      else case those (map nonnegative_float fs) of
          None \<Rightarrow> Inl (Msg ''FreeBSD load average is invalid'') | Some xs \<Rightarrow> Inr xs)"

text \<open>\<open>time.Unix\<close>: the seconds are counted from the year one in a signed word.\<close>

definition unix_time :: "int \<Rightarrow> time" where
  "unix_time s = sint (of_int (s + 62135596800) :: 64 word) * 10 ^ 9"

definition parse_boot_time :: "string \<Rightarrow> time result" where
  "parse_boot_time v = (case cut_str ''sec ='' v of
     (a, None) \<Rightarrow> Inl (Msg ''FreeBSD boot time is invalid'')
   | (a, Some rest) \<Rightarrow> (case atoi (before_any '', }'' (trim_space rest)) of
       None \<Rightarrow> Inl (Msg ''FreeBSD boot time is invalid'')
     | Some s \<Rightarrow> (if s \<le> 0 then Inl (Msg ''FreeBSD boot time is invalid'') else Inr (unix_time s))))"

section \<open>Swap and filesystems\<close>

definition swap_line :: "string \<Rightarrow> u64 \<times> u64 \<Rightarrow> u64 \<times> u64" where
  "swap_line line acc =
     (let fs = text_fields line in
      if length fs < 4 then acc
      else case (bsd_uint (fs ! 1), bsd_uint (fs ! 2)) of
          (Some t, Some u) \<Rightarrow> (if u \<le> t then (fst acc + t, snd acc + u) else acc)
        | _ \<Rightarrow> acc)"

definition parse_swap :: "bytes \<Rightarrow> (string \<times> any) list" where
  "parse_swap body = (case fold swap_line (tl (text_lines body)) (0, 0) of (t, u) \<Rightarrow>
     [(''swapTotalBytes'', u64_value (t * 1024)), (''swapUsedBytes'', u64_value (u * 1024))]
     @ (if t > 0 then [(''swapUsedPercent'', GFloat64 (share u t))] else []))"

definition df_line :: "string \<Rightarrow> metric_map option" where
  "df_line line =
     (let fs = text_fields line in
      if length fs < 6 then None
      else case (bsd_uint (fs ! 1), bsd_uint (fs ! 2), bsd_uint (fs ! 3)) of
          (Some t, Some u, Some a) \<Rightarrow> Some (metric_map_of [(''mountPoint'', GString (last fs)),
            (''totalBytes'', u64_value (t * 1024)), (''usedBytes'', u64_value (u * 1024)), (''availableBytes'', u64_value (a * 1024))])
        | _ \<Rightarrow> None)"

definition parse_df :: "bytes \<Rightarrow> metric_map list" where
  "parse_df body = List.map_filter df_line (tl (text_lines body))"

record bsd_mount =
  MountSource :: string
  MountTarget :: string
  MountType :: string
  MountOptions :: "string list"

definition mount_line :: "string \<Rightarrow> (string \<times> bsd_mount) list \<Rightarrow> (string \<times> bsd_mount) list" where
  "mount_line line m =
     (let fs = text_fields line in
      if length fs < 4 then m
      else AList.update (fs ! 1) \<lparr>MountSource = fs ! 0, MountTarget = fs ! 1, MountType = fs ! 2,
        MountOptions = split_on (CHR '','') (fs ! 3)\<rparr> m)"

definition parse_mount_p :: "bytes \<Rightarrow> (string \<times> bsd_mount) list" where
  "parse_mount_p body = fold mount_line (text_lines body) []"

definition merge_mount :: "(string \<times> bsd_mount) list \<Rightarrow> metric_map \<Rightarrow> metric_map" where
  "merge_mount mounts fs =
     (case map_of mounts (case at_key fs ''mountPoint'' of GString s \<Rightarrow> s | _ \<Rightarrow> []) of
        None \<Rightarrow> fs
      | Some m \<Rightarrow> fold (\<lambda>(k, v). put k v) [(''source'', GString (MountSource m)), (''fsType'', GString (MountType m)),
          (''root'', GString ''/''), (''options'', GSlice (map GString (MountOptions m))),
          (''readOnly'', GBool (''ro'' \<in> set (MountOptions m)))] fs)"

definition parse_temperature :: "string \<Rightarrow> float64 option" where
  "parse_temperature v = (case parse_float (trim_space (trim_suffix v ''C'')) of
     None \<Rightarrow> None
   | Some x \<Rightarrow> (if fless x (Finite (- 100)) \<or> fless (Finite 250) x then None else Some x))"

section \<open>PCI devices and disks\<close>

text \<open>The devices found so far with the one being read; one without properties is dropped.\<close>

type_synonym device_scan = "metric_map list \<times> metric_map option"

definition flush_device :: "device_scan \<Rightarrow> device_scan" where
  "flush_device s = (case s of (found, current) \<Rightarrow>
     (case current of
        Some d \<Rightarrow> (if length d > 1 \<and> length found < 128 then found @ [d] else found)
      | None \<Rightarrow> found, None))"

definition pci_property :: "string \<Rightarrow> metric_map \<Rightarrow> metric_map" where
  "pci_property prop m = (case cut_at (CHR ''='') prop of
     (key, Some v) \<Rightarrow> (if key \<in> set [''class'', ''vendor'', ''device'', ''subvendor'', ''subdevice'']
        then put (key @ ''Id'') (GString v) m else m)
   | _ \<Rightarrow> m)"

definition pci_header :: "string \<Rightarrow> metric_map option" where
  "pci_header line = (case cut_at (CHR '':'') line of
     (selector, None) \<Rightarrow> None
   | (selector, Some props) \<Rightarrow> (let name = fst (cut_at (CHR ''@'') selector) in
       if name = [] \<or> length name > 64 then None
       else Some (fold pci_property (text_fields props) (metric_map_of [(''name'', GString name)]))))"

definition pci_detail :: "string \<Rightarrow> metric_map \<Rightarrow> metric_map" where
  "pci_detail line m = (case cut_at (CHR ''='') (trim_space line) of
     (key, None) \<Rightarrow> m
   | (key, Some v) \<Rightarrow> (if trim_space key \<in> set [''vendor'', ''device'', ''class'', ''subclass'']
       then put (trim_space key) (GString (take 256 (trim_chars [CHR 39] (trim_space v)))) m else m))"

definition pci_line :: "string \<Rightarrow> device_scan \<Rightarrow> device_scan" where
  "pci_line line s =
     (if trim_space line = [] then flush_device s
      else if hd line \<noteq> CHR '' '' \<and> contains_str line ''@pci'' then (fst (flush_device s), pci_header line)
      else (fst s, map_option (pci_detail line) (snd s)))"

definition parse_pci :: "bytes \<Rightarrow> metric_map list" where
  "parse_pci body = fst (flush_device (fold pci_line (text_lines body) ([], None)))"

definition geom_detail :: "string \<Rightarrow> metric_map \<Rightarrow> metric_map" where
  "geom_detail trimmed m = (case cut_at (CHR '':'') trimmed of
     (k, None) \<Rightarrow> m
   | (k, Some raw) \<Rightarrow>
      (let key = to_lower (trim_space k); v = trim_space raw in
       if key = ''mediasize'' then put_some ''capacityBytes'' (case text_fields v of [] \<Rightarrow> None | f # fs \<Rightarrow> map_option u64_value (parse_u64 f)) m
       else if key = ''sectorsize'' then put_some ''sectorBytes'' (map_option u64_value (parse_u64 v)) m
       else if key = ''descr'' then (if v = [] then m else put ''description'' (GString (take 256 v)) m)
       else if key = ''rotationrate'' then put_some ''rotationRPM'' (map_option u64_value (parse_u64 v)) m
       else m))"

definition geom_line :: "string \<Rightarrow> device_scan \<Rightarrow> device_scan" where
  "geom_line line s =
     (let trimmed = trim_space line in
      if has_prefix trimmed ''Geom name:'' then
        (let name = trim_space (trim_prefix trimmed ''Geom name:'') in
         (fst (flush_device s), if name \<noteq> [] \<and> length name \<le> 128 then Some (metric_map_of [(''name'', GString name)]) else None))
      else (fst s, map_option (geom_detail trimmed) (snd s)))"

definition parse_geom_disks :: "bytes \<Rightarrow> metric_map list" where
  "parse_geom_disks body = fst (flush_device (fold geom_line (text_lines body) ([], None)))"

end
