(* ===== verification/Freebsd_Collector.thy ===== *)
theory Freebsd_Collector
  imports Freebsd_Parsers
begin

text \<open>
  The FreeBSD collector, \<open>internal/collectors/freebsd/collector.go\<close>: everything it knows of the host it asks
  commands for. Each step gives its part of the metrics and the capabilities it changes. Between
  collections the CPU counters, the services with the time they were collected, and the hardware that was
  read once are remembered.
\<close>

record bsd_host =
  BsdRun :: runner_fun
  BsdExpired :: "string \<Rightarrow> bool"
  BsdTime :: time
  BsdHostname :: string
  BsdText :: "error \<Rightarrow> string"

record bsd_collector =
  BsdBefore :: time
  BsdCpu :: bsd_counters
  BsdCores :: "bsd_counters list"
  BsdServicesAt :: time
  BsdServices :: "service list"
  BsdServiceState :: "capability option"
  BsdStatic :: "metric_map option"

definition new_bsd_collector :: bsd_collector where
  "new_bsd_collector = \<lparr>BsdBefore = 0, BsdCpu = bsd_zero, BsdCores = [], BsdServicesAt = 0, BsdServices = [],
     BsdServiceState = None, BsdStatic = None\<rparr>"

type_synonym capability_changes = "(string \<times> capability) list"

definition bsd_unavailable :: "string \<Rightarrow> capability" where
  "bsd_unavailable detail = capability_of Unavailable (take 256 detail)"

definition core_sysctl_keys :: "string list" where
  "core_sysctl_keys = [''kern.osrelease'', ''hw.machine_arch'', ''hw.model'', ''hw.ncpu'', ''hw.physmem'', ''kern.boottime'',
     ''vm.loadavg'', ''kern.cp_time'', ''kern.cp_times'', ''vm.stats.vm.v_page_size'', ''vm.stats.vm.v_free_count'',
     ''vm.stats.vm.v_page_count'', ''vm.stats.vm.v_active_count'', ''vm.stats.vm.v_inactive_count'',
     ''vm.stats.vm.v_cache_count'', ''vm.stats.vm.v_laundry_count'', ''vm.stats.vm.v_wire_count'',
     ''kstat.zfs.misc.arcstats.size'']"

definition bsd_capabilities :: capabilities where
  "bsd_capabilities =
     [(''host.uptime'', available ''FreeBSD sysctl''), (''host.system'', available ''FreeBSD sysctl''),
      (''host.load'', available ''FreeBSD sysctl''), (''host.cpu'', available ''FreeBSD sysctl''),
      (''host.memory'', available ''FreeBSD sysctl and swapinfo''), (''host.filesystems'', available ''FreeBSD df''),
      (''host.disk-io'', capability_of Disabled ''continuous disk I/O collection is disabled''),
      (''host.network'', capability_of Disabled ''continuous network collection is disabled''),
      (''host.pci'', capability_of Unavailable ''PCI inventory not collected yet''),
      (''host.storage-inventory'', capability_of Unavailable ''disk inventory not collected yet''),
      (''host.sensors'', capability_of Unavailable ''no readable FreeBSD sensor exposed''),
      (''host.batteries'', capability_of Unavailable ''no readable ACPI battery exposed''),
      (''host.services'', capability_of Unavailable ''rc.d services not collected yet''),
      (''host.processes'', capability_of PermissionBlocked
        (''host policy hides other users'' @ CHR 39 # '' processes; resource values are omitted'')),
      (''host.gpu'', capability_of Unavailable ''no safe FreeBSD GPU collector is enabled''),
      (''storage.health'', capability_of Disabled ''continuous FreeBSD storage health is not enabled''),
      (''containers'', capability_of Disabled ''container discovery is opt-in'')]"

definition sensor_keys :: "int \<Rightarrow> string list" where
  "sensor_keys cpus =
     map (\<lambda>i. ''dev.cpu.'' @ show_nat i @ ''.temperature'') [0..<nat (min 128 (max 0 cpus))]
     @ map (\<lambda>i. ''hw.acpi.thermal.tz'' @ show_nat i @ ''.temperature'') [0..<8]"

text \<open>\<open>strconv.Atoi\<close> with its error dropped: out of range it gives the nearest value.\<close>

definition cpu_number :: "string \<Rightarrow> int" where
  "cpu_number v = (case atoi v of Some n \<Rightarrow> n
     | None \<Rightarrow> (let t = (if has_prefix v ''+'' then tl v else v) in
         if t \<noteq> [] \<and> list_all is_digit t then 2 ^ 63 - 1 else 0))"

section \<open>Steps\<close>

definition bsd_system :: "bsd_host \<Rightarrow> (string \<times> string) list \<Rightarrow>
    metric_map \<times> float64 option \<times> float64 list \<times> capability_changes" where
  "bsd_system h m =
     (let uptime = (case parse_boot_time (value_of m ''kern.boottime'') of
            Inl e \<Rightarrow> None
          | Inr boot \<Rightarrow> if boot > BsdTime h then None else Some (duration_seconds (time_sub (BsdTime h) boot)));
          load = parse_load (value_of m ''vm.loadavg'')
      in (metric_map_of ([(''operatingSystem'', GString ''FreeBSD''), (''kernel'', GString (value_of m ''kern.osrelease'')),
            (''architecture'', GString (value_of m ''hw.machine_arch'')), (''cpuModel'', GString (value_of m ''hw.model''))]
            @ (case bsd_uint (value_of m ''hw.ncpu'') of None \<Rightarrow> [] | Some n \<Rightarrow> [(''logicalCores'', u64_value n)])),
          uptime, (case load of Inl e \<Rightarrow> [] | Inr xs \<Rightarrow> xs),
          (if uptime = None then [(''host.uptime'', bsd_unavailable ''FreeBSD boot time is unavailable'')] else [])
          @ (case load of Inl e \<Rightarrow> [(''host.load'', bsd_unavailable (BsdText h e))] | Inr xs \<Rightarrow> [])))"

definition bsd_shares :: "bsd_counters \<Rightarrow> bsd_counters \<Rightarrow> (string \<times> any) list" where
  "bsd_shares c p = (case bsd_percentage c p of
     None \<Rightarrow> []
   | Some x \<Rightarrow> (let whole = bsd_total c - bsd_total p in
       [(''percent'', GFloat64 x),
        (''userPercent'', GFloat64 (share (BsdUser c + BsdNice c - BsdUser p - BsdNice p) whole)),
        (''systemPercent'', GFloat64 (share (BsdSystem c + BsdInterrupt c - BsdSystem p - BsdInterrupt p) whole)),
        (''idlePercent'', GFloat64 (share (BsdIdle c - BsdIdle p) whole))]))"

definition core_entry :: "bsd_counters list \<Rightarrow> nat \<times> bsd_counters \<Rightarrow> metric_map" where
  "core_entry before e = (case e of (i, c) \<Rightarrow> metric_map_of ((''name'', GString (''cpu'' @ show_nat i)) #
     (if i < length before then (case bsd_percentage c (before ! i) of None \<Rightarrow> [] | Some x \<Rightarrow> [(''percent'', GFloat64 x)]) else [])))"

text \<open>Unreadable counters of the cores leave the list of cores empty; unreadable counters of the whole leave everything.\<close>

definition bsd_collect_cpu :: "bsd_host \<Rightarrow> (string \<times> string) list \<Rightarrow> bsd_collector \<Rightarrow>
    metric_map \<times> capability_changes \<times> bsd_collector" where
  "bsd_collect_cpu h m st = (case parse_counter (value_of m ''kern.cp_time'') of
     Inl e \<Rightarrow> ([], [(''host.cpu'', bsd_unavailable (BsdText h e))], st)
   | Inr c \<Rightarrow>
      (let per = parse_per_cpu (value_of m ''kern.cp_times''); cores = (case per of Inl e \<Rightarrow> [] | Inr cs \<Rightarrow> cs)
       in (metric_map_of ([(''logicalCores'', GInt KInt (int (length cores)))] @ bsd_shares c (BsdCpu st)
             @ [(''cores'', GSlice (map (GMap \<circ> core_entry (BsdCores st)) (enumerate 0 cores)))]),
           (case per of Inl e \<Rightarrow> [(''host.cpu'', bsd_unavailable (BsdText h e))] | Inr cs \<Rightarrow> []),
           st\<lparr>BsdCpu := c, BsdCores := cores\<rparr>)))"

text \<open>\<open>math.Max(0, x)\<close>, \<open>math.Min\<close>, and the conversion of a rounded number.\<close>

definition at_least_zero :: "float64 \<Rightarrow> float64" where
  "at_least_zero x = (if fless x (Finite 0) then Finite 0 else x)"

definition float_min :: "float64 \<Rightarrow> float64 \<Rightarrow> float64" where
  "float_min x y = (if x = NaN \<or> y = NaN then NaN else if fless y x then y else x)"

definition rounded_u64 :: "float64 \<Rightarrow> u64" where
  "rounded_u64 x = (case x of Finite r \<Rightarrow> of_int \<lfloor>r + 1 / 2\<rfloor> | _ \<Rightarrow> 0)"

definition used_bytes :: "u64 \<Rightarrow> u64 \<Rightarrow> u64 \<Rightarrow> u64 \<Rightarrow> u64" where
  "used_bytes whole pages reclaimable arc =
     (let before_arc = fdiv (fmul (float_of_u64 (pages - reclaimable)) (float_of_u64 whole)) (float_of_u64 pages);
          used = float_min (at_least_zero (fsub before_arc (float_of_u64 arc))) (float_of_u64 whole)
      in rounded_u64 used)"

definition bsd_memory :: "(string \<times> string) list \<Rightarrow> (string \<times> any) list result" where
  "bsd_memory m =
     (let get_count = (\<lambda>k. bsd_uint (value_of m k)); count0 = (\<lambda>k. case get_count k of None \<Rightarrow> 0 | Some n \<Rightarrow> n);
          cached = count0 ''vm.stats.vm.v_cache_count''; laundry = count0 ''vm.stats.vm.v_laundry_count'' in
      case (get_count ''hw.physmem'', get_count ''vm.stats.vm.v_page_size'', get_count ''vm.stats.vm.v_page_count'',
            get_count ''vm.stats.vm.v_free_count'', get_count ''vm.stats.vm.v_inactive_count'') of
        (Some whole, Some page, Some pages, Some free, Some inactive) \<Rightarrow>
          (if page = 0 \<or> pages = 0 then Inl (Msg ''FreeBSD memory counters are incomplete'')
           else if free + inactive + cached + laundry > pages then Inl (Msg ''FreeBSD memory counters are inconsistent'')
           else let used = used_bytes whole pages (free + inactive + cached + laundry) (count0 ''kstat.zfs.misc.arcstats.size'')
             in Inr ([(''totalBytes'', u64_value whole), (''availableBytes'', u64_value (whole - used)), (''usedBytes'', u64_value used),
                  (''usedPercent'', GFloat64 (share used whole)), (''pageSizeBytes'', u64_value page), (''pageCount'', u64_value pages),
                  (''inactivePages'', u64_value inactive), (''cachePages'', u64_value cached), (''laundryPages'', u64_value laundry),
                  (''freePages'', u64_value free)]
               @ List.map_filter (\<lambda>(source, target). map_option (\<lambda>n. (target, u64_value n)) (get_count source))
                   [(''vm.stats.vm.v_active_count'', ''activePages''), (''vm.stats.vm.v_wire_count'', ''wiredPages''),
                    (''kstat.zfs.misc.arcstats.size'', ''zfsArcBytes'')]))
      | _ \<Rightarrow> Inl (Msg ''FreeBSD memory counters are incomplete''))"

definition bsd_collect_memory :: "bsd_host \<Rightarrow> (string \<times> string) list \<Rightarrow> metric_map \<times> capability_changes" where
  "bsd_collect_memory h m = (case bsd_memory m of
     Inl e \<Rightarrow> ([], [(''host.memory'', bsd_unavailable (case e of Msg t \<Rightarrow> t | _ \<Rightarrow> []))])
   | Inr entries \<Rightarrow> (metric_map_of (entries @ (case BsdRun h ''/usr/sbin/swapinfo'' [''-k''] of
         (body, None) \<Rightarrow> parse_swap body | (body, Some e) \<Rightarrow> [])), []))"

definition bsd_collect_filesystems :: "bsd_host \<Rightarrow> metric_map list \<times> capability_changes" where
  "bsd_collect_filesystems h = (case BsdRun h ''/bin/df'' [''-kP''] of
     (body, Some e) \<Rightarrow> ([], [(''host.filesystems'', bsd_unavailable (BsdText h e))])
   | (body, None) \<Rightarrow> (case BsdRun h ''/sbin/mount'' [''-p''] of (mounts, failure) \<Rightarrow>
      (let fs = map (merge_mount (parse_mount_p mounts)) (parse_df body) in
       (fs, [(''host.filesystems'',
         if fs = [] then bsd_unavailable ''FreeBSD df returned no filesystems''
         else if failure \<noteq> None then available ''df; mount metadata unavailable'' else available ''df and mount'')]))))"

definition bsd_collect_sensors :: "bsd_host \<Rightarrow> (string \<times> string) list \<Rightarrow> metric_map list \<times> capability_changes" where
  "bsd_collect_sensors h m =
     (let found = parse_sysctl (fst (BsdRun h ''/sbin/sysctl'' (sensor_keys (cpu_number (value_of m ''hw.ncpu'')))));
          entry = (\<lambda>name. map_option (\<lambda>x. metric_map_of [(''key'', GString name), (''temperatureCelsius'', GFloat64 x)])
            (parse_temperature (value_of found name)));
          sensors = take 256 (List.map_filter entry (sort (map fst found)))
      in (sensors, if sensors = [] then [] else [(''host.sensors'', available ''read-only FreeBSD sysctl'')]))"

definition battery_state :: "u64 \<Rightarrow> u64 \<Rightarrow> string" where
  "battery_state life state = (if Bit_Operations.and state 2 \<noteq> 0 then ''charging''
     else if Bit_Operations.and state 1 \<noteq> 0 then ''discharging'' else if life = 100 then ''full'' else ''unknown'')"

definition bsd_collect_battery :: "bsd_host \<Rightarrow> metric_map list \<times> capability_changes" where
  "bsd_collect_battery h =
     (let m = parse_sysctl (fst (BsdRun h ''/sbin/sysctl'' [''hw.acpi.battery.life'', ''hw.acpi.battery.state''])) in
      case (bsd_uint (value_of m ''hw.acpi.battery.life''), bsd_uint (value_of m ''hw.acpi.battery.state'')) of
        (Some life, Some s) \<Rightarrow> (if life > 100 then ([], [])
          else ([metric_map_of [(''name'', GString ''acpi-battery''), (''percentage'', u64_value life),
                  (''state'', GString (battery_state life s))]],
                [(''host.batteries'', available ''read-only FreeBSD ACPI sysctl'')]))
      | _ \<Rightarrow> ([], []))"

text \<open>Hardware is read at the first collection, whether it succeeds or not.\<close>

definition read_static :: "bsd_host \<Rightarrow> metric_map" where
  "read_static h =
     (let devices = (\<lambda>name args parse. case BsdRun h name args of (body, Some e) \<Rightarrow> [] | (body, None) \<Rightarrow> parse body);
          entry = (\<lambda>(key, ds). if ds = [] then None else Some (key, GSlice (map GMap ds)))
      in metric_map_of (List.map_filter entry [(''pciDevices'', devices ''/usr/sbin/pciconf'' [''-lv''] parse_pci),
           (''storageDevices'', devices ''/sbin/geom'' [''disk'', ''list''] parse_geom_disks)]))"

definition bsd_collect_static :: "bsd_host \<Rightarrow> bsd_collector \<Rightarrow> metric_map \<times> capability_changes \<times> bsd_collector" where
  "bsd_collect_static h st =
     (let static = (case BsdStatic st of None \<Rightarrow> read_static h | Some m \<Rightarrow> m) in
      (static,
       (if get static ''pciDevices'' \<noteq> None then [(''host.pci'', available ''sanitized FreeBSD pciconf inventory'')] else [])
       @ (if get static ''storageDevices'' \<noteq> None
          then [(''host.storage-inventory'', available ''sanitized FreeBSD GEOM inventory; identifiers omitted'')] else []),
       st\<lparr>BsdStatic := Some static\<rparr>))"

definition bsd_refresh_services :: "bsd_host \<Rightarrow> contract \<Rightarrow> bsd_collector \<Rightarrow> bsd_collector" where
  "bsd_refresh_services h c st =
     (let now = BsdTime h in
      if \<not> due (ServiceIntervalSeconds (Collection c)) 600 (BsdServicesAt st) now then st
      else (case rcd_collect (BsdRun h) (BsdExpired h) of
          Inl e \<Rightarrow> st\<lparr>BsdServicesAt := now, BsdServiceState := Some (bsd_unavailable (BsdText h e))\<rparr>
        | Inr ss \<Rightarrow> st\<lparr>BsdServicesAt := now, BsdServices := take 512 (map (\<lambda>v. v\<lparr>Manager := ''rcd''\<rparr>) ss),
            BsdServiceState := Some (available ''FreeBSD rc.d; process resource fields may be unavailable'')\<rparr>))"

section \<open>Collect\<close>

definition bsd_heartbeat :: "bsd_host \<Rightarrow> capabilities \<Rightarrow> metrics \<Rightarrow> service list \<Rightarrow> heartbeat" where
  "bsd_heartbeat h caps m services =
     \<lparr>HbMajor = 0, HbSequence = 0, AgentVersion = [], CollectedAt = BsdTime h, HbHost = \<lparr>HostType = [], HostID = 0\<rparr>,
      Hostname = BsdHostname h, DroppedSamples = 0, MonitoringRevision = 0, Capabilities = caps, CapabilitiesHash = [],
      HbMetrics = m, HbState = None, HbServices = services, HbContainers = [], HbStorage = []\<rparr>"

definition bsd_collect :: "bsd_host \<Rightarrow> contract \<Rightarrow> bsd_collector \<Rightarrow> heartbeat result \<times> bsd_collector" where
  "bsd_collect h c st =
     (let m = parse_sysctl (fst (BsdRun h ''/sbin/sysctl'' core_sysctl_keys)) in
      if m = [] then (Inl (Msg ''collect FreeBSD sysctl metrics''), st)
      else
        (let (system, uptime, load, caps1) = bsd_system h m;
             (static, caps2, st1) = bsd_collect_static h st;
             (cpu, caps3, st2) = bsd_collect_cpu h m st1;
             (memory, caps4) = bsd_collect_memory h m;
             (filesystems, caps5) = bsd_collect_filesystems h;
             (sensors, caps6) = bsd_collect_sensors h m;
             (batteries, caps7) = bsd_collect_battery h;
             st3 = bsd_refresh_services h c st2;
             caps = fold (\<lambda>(k, x). set_capability k x) (caps1 @ caps2 @ caps3 @ caps4 @ caps5 @ caps6 @ caps7) bsd_capabilities
         in (Inr (bsd_heartbeat h (given_capability ''host.services'' (BsdServiceState st3) caps)
               \<lparr>UptimeSeconds = uptime, LoadAverage = load, MSystem = fold (\<lambda>(k, v). AList.update k v) static system, MCPU = cpu,
                MMemory = memory, Filesystems = filesystems, DiskIO = [], Network = [], MSensors = sensors, Batteries = batteries,
                MGPUs = []\<rparr> (BsdServices st3)),
             st3\<lparr>BsdBefore := BsdTime h\<rparr>)))"

end
