(* ===== verification/Freebsd_Correct.thy ===== *)
theory Freebsd_Correct
  imports Freebsd_Collector Linux_Correct
begin

text \<open>
  The FreeBSD collector: the memory it reports as used is part of the memory there is, whatever the page
  counters and the size of the ZFS cache are, and the list of devices is bounded.
\<close>

section \<open>Memory\<close>

lemma clamped_used:
  assumes "t = Finite r" and "0 \<le> r"
  shows "float_min (at_least_zero x) t = NaN \<or> (\<exists>y. float_min (at_least_zero x) t = Finite y \<and> 0 \<le> y \<and> y \<le> r)"
  using assms by (cases x) (auto simp: float_min_def at_least_zero_def)

lemma rounded_at_most: "0 \<le> y \<Longrightarrow> y \<le> of_int n \<Longrightarrow> 0 \<le> \<lfloor>y + 1 / 2 :: rat\<rfloor> \<and> \<lfloor>y + 1 / 2\<rfloor> \<le> n"
  by (simp add: floor_le_iff le_floor_iff)

lemma of_int_at_most: "0 \<le> n \<Longrightarrow> n \<le> uint w \<Longrightarrow> of_int n \<le> w" for w :: u64
  by (simp add: word_le_def unsigned_of_int take_bit_eq_mod) (meson order_trans zmod_le_nonneg_dividend)

lemma used_bytes_at_most:
  assumes "uint whole < 2 ^ 53"
  shows "used_bytes whole pages reclaimable arc \<le> whole"
proof -
  have w: "float_of_u64 whole = Finite (of_int (uint whole))"
    unfolding float_of_u64_def float_of_int_def by (rule to_float_small_int) (use assms in simp_all)
  define u where "u = float_min (at_least_zero (fsub (fdiv (fmul (float_of_u64 (pages - reclaimable)) (float_of_u64 whole))
    (float_of_u64 pages)) (float_of_u64 arc))) (float_of_u64 whole)"
  have used: "used_bytes whole pages reclaimable arc = rounded_u64 u" by (simp add: used_bytes_def u_def Let_def)
  have "u = NaN \<or> (\<exists>y. u = Finite y \<and> 0 \<le> y \<and> y \<le> of_int (uint whole))"
    unfolding u_def by (rule clamped_used [OF w]) (simp only: of_int_0_le_iff unsigned_greater_eq)
  then show ?thesis
  proof
    assume "u = NaN"
    then show ?thesis by (simp add: used rounded_u64_def)
  next
    assume "\<exists>y. u = Finite y \<and> 0 \<le> y \<and> y \<le> of_int (uint whole)"
    then obtain y where y: "u = Finite y" "0 \<le> y" "y \<le> of_int (uint whole)" by blast
    note r = rounded_at_most [OF y(2,3)]
    have "of_int \<lfloor>y + 1 / 2\<rfloor> \<le> whole" by (rule of_int_at_most) (use r in auto)
    then show ?thesis by (simp add: used rounded_u64_def y(1))
  qed
qed

text \<open>
  C29: the memory reported for a FreeBSD host adds up, for less than 64 TiB: used and available memory are
  the whole, used memory is at most the whole also when the ZFS cache is larger than the pages in use, and
  its share is a number between 0 and 100.
\<close>

theorem reported_memory_adds_up:
  assumes "bsd_memory m = Inr entries" and "bsd_uint (value_of m ''hw.physmem'') = Some whole"
    and "0 < whole" and "whole < 2 ^ 46"
  shows "\<exists>used x. used \<le> whole \<and> percent_value x \<and>
    map_of entries ''totalBytes'' = Some (u64_value whole) \<and> map_of entries ''usedBytes'' = Some (u64_value used) \<and>
    map_of entries ''availableBytes'' = Some (u64_value (whole - used)) \<and> map_of entries ''usedPercent'' = Some (GFloat64 x)"
proof -
  obtain page pages free inactive where counts:
    "bsd_uint (value_of m ''vm.stats.vm.v_page_size'') = Some page" "bsd_uint (value_of m ''vm.stats.vm.v_page_count'') = Some pages"
    "bsd_uint (value_of m ''vm.stats.vm.v_free_count'') = Some free" "bsd_uint (value_of m ''vm.stats.vm.v_inactive_count'') = Some inactive"
    using assms(1) by (auto simp: bsd_memory_def Let_def split: option.splits)
  obtain reclaimable arc where e: "\<exists>rest. entries =
      [(''totalBytes'', u64_value whole), (''availableBytes'', u64_value (whole - used_bytes whole pages reclaimable arc)),
       (''usedBytes'', u64_value (used_bytes whole pages reclaimable arc)),
       (''usedPercent'', GFloat64 (share (used_bytes whole pages reclaimable arc) whole))] @ rest"
    using assms(1,2) counts by (auto simp: bsd_memory_def Let_def split: if_splits)
  define used where "used = used_bytes whole pages reclaimable arc"
  have w: "unat whole < 2 ^ 46" using assms(4) by (simp add: word_less_nat_alt)
  have "uint whole < 2 ^ 46" using assms(4) by (simp add: word_less_def)
  then have "uint whole < 2 ^ 53" by simp
  then have u: "used \<le> whole" unfolding used_def by (rule used_bytes_at_most)
  have "percent_value (share used whole)"
    using u w assms(3) by (intro share_percent) (simp_all add: word_le_nat_alt word_less_nat_alt)
  with u e show ?thesis by (intro exI [of _ used] exI [of _ "share used whole"]) (auto simp: used_def)
qed

definition sample_sysctl :: "(string \<times> string) list" where
  "sample_sysctl = [(''hw.physmem'', ''8388608''), (''vm.stats.vm.v_page_size'', ''4096''), (''vm.stats.vm.v_page_count'', ''2000''),
     (''vm.stats.vm.v_free_count'', ''500''), (''vm.stats.vm.v_inactive_count'', ''250''),
     (''kstat.zfs.misc.arcstats.size'', ''1048576'')]"

lemma bsd_uint_digits:
  assumes "dec_val 0 v = Some n" and "v \<noteq> []" and "list_all visible v" and "n < 2 ^ 64"
  shows "bsd_uint v = Some (word_of_nat n)"
  using assms by (simp add: bsd_uint_def parse_u64_def parse_uint_def trim_space_all_visible list_all_iff)

lemma sample_counts:
  "bsd_uint ''8388608'' = Some (word_of_nat 8388608)" "bsd_uint ''4096'' = Some (word_of_nat 4096)"
  "bsd_uint ''2000'' = Some (word_of_nat 2000)" "bsd_uint ''500'' = Some (word_of_nat 500)"
  "bsd_uint ''250'' = Some (word_of_nat 250)" "bsd_uint ''1048576'' = Some (word_of_nat 1048576)" "bsd_uint [] = None"
  by ((rule bsd_uint_digits; simp add: is_digit_def digit_val_def visible_def)+)
    (simp add: bsd_uint_def trim_space_def parse_u64_def parse_uint_def)

lemma reported_memory_adds_up_witness:
  "\<exists>entries used x. bsd_memory sample_sysctl = Inr entries \<and> used \<le> 8388608 \<and> percent_value x \<and>
    map_of entries ''usedBytes'' = Some (u64_value used) \<and> map_of entries ''availableBytes'' = Some (u64_value (8388608 - used))"
proof -
  have "value_of sample_sysctl ''hw.physmem'' = ''8388608''" by (simp add: sample_sysctl_def value_of_def)
  then have v: "bsd_uint (value_of sample_sysctl ''hw.physmem'') = Some 8388608" by (simp add: sample_counts del: word_of_nat_eq_0_iff)
  have "\<exists>entries. bsd_memory sample_sysctl = Inr entries"
    by (simp add: bsd_memory_def Let_def sample_sysctl_def value_of_def sample_counts)
  then obtain entries where e: "bsd_memory sample_sysctl = Inr entries" by blast
  have "(0 :: u64) < 8388608" "(8388608 :: u64) < 2 ^ 46" by simp_all
  from reported_memory_adds_up [OF e v this] e show ?thesis by blast
qed

end
