(* ===== verification/Container_Collector.thy ===== *)
theory Container_Collector
  imports Linux_Devices "HOL-Library.Product_Lexorder"
begin

text \<open>
  The client of the Docker and Podman API, \<open>internal/collectors/containers/collector.go\<close>: the choice of
  the API version, the list of running containers, and their statistics with the counters remembered from
  the last collection. The runtime is an arbitrary server: \<open>runtimeHTTPError\<close> is the error
  \<open>HttpStatus\<close> with the body that was read; a body that fails while it is read fails the decoding.
\<close>

section \<open>State\<close>

record container_counters =
  SampledAt :: time
  RxTotal :: u64
  TxTotal :: u64
  ReadTotal :: u64
  WriteTotal :: u64

definition zero_container_counters :: container_counters where
  "zero_container_counters = \<lparr>SampledAt = 0, RxTotal = 0, TxTotal = 0, ReadTotal = 0, WriteTotal = 0\<rparr>"

record container_collector =
  SourceMode :: string
  SourceRuntime :: string
  BaseUrl :: string
  PreviousCounters :: "(string \<times> container_counters) list"
  ApiPrefix :: string
  ApiResolved :: bool

text \<open>
  \<open>New\<close>: \<open>given\<close> says whether the caller passes an HTTP client of its own; \<open>parse\<close> gives the scheme and
  the host of a URL. The transport is part of the server.
\<close>

definition new_container_collector :: "(string \<Rightarrow> (string \<times> string) option) \<Rightarrow> bool \<Rightarrow> string \<Rightarrow> string \<Rightarrow> string \<Rightarrow>
    container_collector result" where
  "new_container_collector parse given mode rt endpoint =
     (if mode \<noteq> ''proxy'' \<and> mode \<noteq> ''socket'' then Inl (Msg ''container collector requires proxy or socket mode'')
      else if rt \<noteq> ''docker'' \<and> rt \<noteq> ''podman'' then Inl (Msg ''container collector runtime is unsupported'')
      else let url = (if \<not> given \<and> mode = ''socket'' then ''http://container-runtime'' else trim_right_slash endpoint) in
        case parse url of
          None \<Rightarrow> Inl (Msg ''container collector endpoint is invalid'')
        | Some (scheme, host) \<Rightarrow>
           (if scheme \<noteq> ''http'' \<or> host = [] then Inl (Msg ''container collector endpoint is invalid'')
            else Inr \<lparr>SourceMode = mode, SourceRuntime = rt, BaseUrl = url, PreviousCounters = [], ApiPrefix = [],
              ApiResolved = False\<rparr>))"

definition container_detail :: "container_collector \<Rightarrow> string" where
  "container_detail c = (if SourceMode c = ''proxy'' then ''read-only '' @ SourceRuntime c @ '' socket proxy''
     else ''local '' @ SourceRuntime c @ '' socket'')"

section \<open>Requests\<close>

definition maximum_body_bytes :: nat where "maximum_body_bytes = 8 * 1024 * 1024"

definition access_denied :: "nat \<Rightarrow> error" where
  "access_denied status = Msg (''container runtime access denied with HTTP '' @ show_nat status)"

definition read_runtime :: "(json \<Rightarrow> 'a option) \<Rightarrow> http_response \<Rightarrow> 'a result" where
  "read_runtime decode r =
     (if StatusCode r \<noteq> 200 then
        (if StatusCode r = 403 \<or> StatusCode r = 401 then Inl (access_denied (StatusCode r))
         else Inl (HttpStatus (StatusCode r) (case read_limited 4096 r of Inl e \<Rightarrow> [] | Inr b \<Rightarrow> b)))
      else case bind_result (read_limited (maximum_body_bytes + 1) r) (\<lambda>b. Inr (Option.bind (first_value b) decode)) of
          Inr (Some x) \<Rightarrow> Inr x
        | _ \<Rightarrow> Inl (Msg ''decode container runtime response''))"

definition get_json :: "'w server \<Rightarrow> (json \<Rightarrow> 'a option) \<Rightarrow> container_collector \<Rightarrow> string \<Rightarrow> 'w \<Rightarrow> 'a result \<times> 'w" where
  "get_json srv decode c path =
     bind_io (srv ((get_request (BaseUrl c @ path))\<lparr>Headers := [(''Accept'', ''application/json'')]\<rparr>))
       (\<lambda>r w. (read_runtime decode r, w))"

section \<open>The API version\<close>

text \<open>\<open>^[0-9]+\.[0-9]+$\<close>, and both numbers fit into 32 bits.\<close>

definition digits_only :: "string \<Rightarrow> bool" where
  "digits_only s \<longleftrightarrow> s \<noteq> [] \<and> list_all is_digit s"

definition api_version_pattern :: "string \<Rightarrow> bool" where
  "api_version_pattern v \<longleftrightarrow> (case split_on (CHR ''.'') v of [a, b] \<Rightarrow> digits_only a \<and> digits_only b | _ \<Rightarrow> False)"

definition parse_api_version :: "string \<Rightarrow> (nat \<times> nat) option" where
  "parse_api_version v =
     (if \<not> api_version_pattern v then None
      else case map (parse_uint 32) (split_on (CHR ''.'') v) of [Some a, Some b] \<Rightarrow> Some (a, b) | _ \<Rightarrow> None)"

definition compare_api_versions :: "nat \<times> nat \<Rightarrow> nat \<times> nat \<Rightarrow> int" where
  "compare_api_versions a b =
     (if fst a < fst b \<or> fst a = fst b \<and> snd a < snd b then - 1 else if a = b then 0 else 1)"

definition decode_runtime_version :: "json \<Rightarrow> (string \<times> string) option" where
  "decode_runtime_version = json_struct None ([], []) (\<lambda>ms.
     (case (string_field ''ApiVersion'' ms, string_field ''MinAPIVersion'' ms) of
        (Some v, Some m) \<Rightarrow> Some (v, m) | _ \<Rightarrow> None))"

definition chosen_prefix :: "string \<times> string \<Rightarrow> string" where
  "chosen_prefix v = (case (parse_api_version (fst v), parse_api_version (snd v)) of
     (Some current, Some minimum) \<Rightarrow> (if compare_api_versions current minimum < 0 then [] else ''/v'' @ fst v)
   | _ \<Rightarrow> [])"

text \<open>The state of a collection is the collector with the world.\<close>

definition resolve_api_prefix :: "'w server \<Rightarrow> container_collector \<times> 'w \<Rightarrow> string \<times> container_collector \<times> 'w" where
  "resolve_api_prefix srv st = (case st of (c, w) \<Rightarrow>
     (if ApiResolved c then (ApiPrefix c, c, w)
      else case get_json srv decode_runtime_version c ''/version'' w of
          (Inl e, w') \<Rightarrow> ([], c\<lparr>ApiResolved := True, ApiPrefix := []\<rparr>, w')
        | (Inr v, w') \<Rightarrow> (chosen_prefix v, c\<lparr>ApiResolved := True, ApiPrefix := chosen_prefix v\<rparr>, w')))"

definition version_mismatch :: "error \<Rightarrow> bool" where
  "version_mismatch e \<longleftrightarrow> (case e of
     HttpStatus status body \<Rightarrow> status = 400 \<and>
       (contains_str (to_lower body) ''client version'' \<or> contains_str (to_lower body) ''api version'')
   | _ \<Rightarrow> False)"

definition get_runtime_json :: "'w server \<Rightarrow> (json \<Rightarrow> 'a option) \<Rightarrow> string \<Rightarrow> container_collector \<times> 'w \<Rightarrow>
    'a result \<times> container_collector \<times> 'w" where
  "get_runtime_json srv decode path st =
     (case resolve_api_prefix srv st of (prefix, c, w) \<Rightarrow>
       (case get_json srv decode c (prefix @ path) w of
          (Inr x, w') \<Rightarrow> (Inr x, c, w')
        | (Inl e, w') \<Rightarrow>
            (if prefix = [] \<or> \<not> version_mismatch e then (Inl e, c, w')
             else case resolve_api_prefix srv (c\<lparr>ApiResolved := False, ApiPrefix := []\<rparr>, w') of (again, c', w'') \<Rightarrow>
               (case get_json srv decode c' (again @ path) w'' of (r, w3) \<Rightarrow> (r, c', w3)))))"

section \<open>What the runtime lists\<close>

record listed_port =
  PortIP :: string
  PrivatePort :: "16 word"
  PublicPort :: "16 word"
  PortType :: string

record listed_container =
  ListedID :: string
  ListedNames :: "string list"
  ListedImage :: string
  ListedImageID :: string
  ListedState :: string
  ListedStatus :: string
  ListedLabels :: "(string \<times> string) list"
  ListedNetworkMode :: string
  ListedNetworks :: "string list"
  ListedPorts :: "listed_port list"

text \<open>A map is read member by member, a later one replaces an earlier one of the same key.\<close>

definition json_members :: "(json \<Rightarrow> 'a option) \<Rightarrow> json \<Rightarrow> (string \<times> 'a) list option" where
  "json_members conv v = (case v of
     JNull \<Rightarrow> Some []
   | JObj ms \<Rightarrow> map_option (\<lambda>xs. fold (\<lambda>(k, x). AList.update k x) xs [])
       (those (map (\<lambda>(k, x). map_option (Pair k) (conv x)) ms))
   | _ \<Rightarrow> None)"

fun json_u16 :: "json \<Rightarrow> 16 word option" where
  "json_u16 (JNum l) = map_option of_nat (parse_uint 16 l)"
| "json_u16 _ = None"

definition u16_field :: "string \<Rightarrow> (string \<times> json) list \<Rightarrow> 16 word option" where
  "u16_field name ms = assign_field json_u16 0 (member_values name ms)"

definition decode_listed_port :: "json \<Rightarrow> listed_port option" where
  "decode_listed_port = json_struct None \<lparr>PortIP = [], PrivatePort = 0, PublicPort = 0, PortType = []\<rparr> (\<lambda>ms.
     (case (string_field ''IP'' ms, u16_field ''PrivatePort'' ms, u16_field ''PublicPort'' ms, string_field ''Type'' ms) of
        (Some i, Some p, Some q, Some t) \<Rightarrow> Some \<lparr>PortIP = i, PrivatePort = p, PublicPort = q, PortType = t\<rparr>
      | _ \<Rightarrow> None))"

definition decode_listed :: "json \<Rightarrow> listed_container option" where
  "decode_listed = json_struct None
     \<lparr>ListedID = [], ListedNames = [], ListedImage = [], ListedImageID = [], ListedState = [], ListedStatus = [],
      ListedLabels = [], ListedNetworkMode = [], ListedNetworks = [], ListedPorts = []\<rparr> (\<lambda>ms.
     (case (string_field ''Id'' ms, slice_field json_string_elem ''Names'' ms, string_field ''Image'' ms,
            string_field ''ImageID'' ms, string_field ''State'' ms, string_field ''Status'' ms) of
        (Some i, Some ns, Some m, Some d, Some s, Some u) \<Rightarrow>
          (case (assign_field (json_members json_string_elem) [] (member_values ''Labels'' ms),
                 inner_field False [''NetworkMode''] [] (string_field ''NetworkMode'') ''HostConfig'' ms,
                 inner_field False [''Networks''] []
                   (\<lambda>i. map_option (map fst) (assign_field (json_members Some) [] (member_values ''Networks'' i)))
                   ''NetworkSettings'' ms,
                 slice_field decode_listed_port ''Ports'' ms) of
             (Some ls, Some nm, Some nets, Some ps) \<Rightarrow>
               Some \<lparr>ListedID = i, ListedNames = ns, ListedImage = m, ListedImageID = d, ListedState = s, ListedStatus = u,
                 ListedLabels = ls, ListedNetworkMode = nm, ListedNetworks = nets, ListedPorts = ps\<rparr>
           | _ \<Rightarrow> None)
      | _ \<Rightarrow> None))"

definition decode_listing :: "json \<Rightarrow> listed_container list option" where
  "decode_listing v = (case v of JNull \<Rightarrow> Some [] | _ \<Rightarrow> json_slice decode_listed v)"

section \<open>Fields of a container\<close>

definition first_string :: "string list \<Rightarrow> string" where
  "first_string xs = (case xs of [] \<Rightarrow> [] | x # _ \<Rightarrow> x)"

definition short_id :: "string \<Rightarrow> string" where
  "short_id v = take 12 v"

definition health_from_status :: "string \<Rightarrow> string" where
  "health_from_status status =
     (case find (\<lambda>h. contains_str (to_lower status) (CHR ''('' # h @ '')'')) [''healthy'', ''unhealthy'', ''starting''] of
        None \<Rightarrow> [] | Some h \<Rightarrow> h)"

text \<open>\<open>s[:strings.LastIndex(s, p)]\<close>.\<close>

definition before_last :: "string \<Rightarrow> string \<Rightarrow> string option" where
  "before_last p s = (case cut_str (rev p) (rev s) of (a, None) \<Rightarrow> None | (a, Some b) \<Rightarrow> Some (rev b))"

definition uptime_from_status :: "string \<Rightarrow> string" where
  "uptime_from_status status =
     (let value = trim_space status in
      if \<not> has_prefix value ''Up '' then []
      else let since = trim_space (trim_prefix value ''Up '');
               plain = (case before_last '' ('' since of
                 Some front \<Rightarrow> (if has_suffix since '')'' then trim_space front else since) | None \<Rightarrow> since)
           in take 128 plain)"

definition network_mode :: "string \<Rightarrow> string" where
  "network_mode v = (let m = to_lower (trim_space v) in
     if m = ''host'' then ''host'' else if m = ''none'' then ''none''
     else if m \<in> set ['''', ''default'', ''bridge''] then ''bridge'' else ''custom'')"

definition network_names :: "listed_container \<Rightarrow> string list" where
  "network_names c = take 32 (sort (filter (\<lambda>n. n \<noteq> [] \<and> length n \<le> 128) (map trim_space (ListedNetworks c))))"

definition structured_port :: "listed_port \<Rightarrow> container_port option" where
  "structured_port p = (let name = to_lower (trim_space (PortType p)) in
     if PublicPort p = 0 \<or> PrivatePort p = 0 \<or> name \<notin> set [''tcp'', ''udp'', ''sctp''] then None
     else Some \<lparr>HostPort = PublicPort p, ContainerPort = PrivatePort p, PortProtocol = name\<rparr>)"

definition structured_ports :: "listed_container \<Rightarrow> container_port list" where
  "structured_ports c = sort_key (\<lambda>p. (unat (HostPort p), unat (ContainerPort p), PortProtocol p))
     (List.map_filter structured_port (ListedPorts c))"

definition published_port :: "listed_port \<Rightarrow> string option" where
  "published_port p =
     (if PublicPort p = 0 then None
      else let value = show_nat (unat (PublicPort p)) @ CHR '':'' # show_nat (unat (PrivatePort p)) @ CHR ''/'' # to_lower (PortType p)
           in Some (if PortIP p \<noteq> [] then PortIP p @ CHR '':'' # value else value))"

definition published_ports :: "listed_container \<Rightarrow> string list" where
  "published_ports c = sort (List.map_filter published_port (ListedPorts c))"

definition container_name :: "listed_container \<Rightarrow> string" where
  "container_name l = (let name = trim_prefix (first_string (ListedNames l)) ''/'' in
     if name = [] then short_id (ListedID l) else name)"

definition listed_to_container :: "string \<Rightarrow> listed_container \<Rightarrow> container" where
  "listed_to_container rt l =
     \<lparr>Runtime = rt, RuntimeID = ListedID l, ContainerName = container_name l, Image = ListedImage l,
      ImageDigest = (if ListedImageID l = [] then None else Some (ListedImageID l)), ContainerState = ListedState l,
      Status = trim_space (ListedStatus l), Uptime = uptime_from_status (ListedStatus l),
      Health = (if health_from_status (ListedStatus l) = [] then None else Some (health_from_status (ListedStatus l))),
      ComposeService = trim_space (value_of (ListedLabels l) ''com.docker.compose.service''),
      NetworkMode = network_mode (ListedNetworkMode l), NetworkNames = network_names l, Ports = structured_ports l,
      PublishedPorts = published_ports l, ContainerCPU = None, MemoryBytes = None, NetworkRx = None, NetworkTx = None,
      DiskRead = None, DiskWrite = None\<rparr>"

section \<open>Statistics\<close>

record stats_payload =
  CpuUsage :: u64
  PercpuUsage :: "u64 list"
  SystemUsage :: u64
  OnlineCpus :: u64
  PreCpuUsage :: u64
  PreSystemUsage :: u64
  MemoryUsage :: u64
  MemoryCache :: u64
  MemoryInactive :: u64
  StatNetworks :: "(string \<times> u64 \<times> u64) list"
  BlkioBytes :: "(string \<times> u64) list"

fun json_u64_elem :: "json \<Rightarrow> u64 option" where
  "json_u64_elem JNull = Some 0"
| "json_u64_elem v = json_u64 v"

definition decode_cpu_usage :: "json \<Rightarrow> (u64 \<times> u64 list) option" where
  "decode_cpu_usage = json_struct None (0, []) (\<lambda>ms.
     (case (u64_field ''total_usage'' ms, slice_field json_u64_elem ''percpu_usage'' ms) of
        (Some t, Some p) \<Rightarrow> Some (t, p) | _ \<Rightarrow> None))"

text \<open>\<open>cpu_stats\<close> and \<open>precpu_stats\<close>: the second has neither the list nor the number of the CPUs.\<close>

definition decode_cpu_stats :: "json \<Rightarrow> ((u64 \<times> u64 list) \<times> u64 \<times> u64) option" where
  "decode_cpu_stats = json_struct None ((0, []), 0, 0) (\<lambda>ms.
     (case (assign_field decode_cpu_usage (0, []) (member_values ''cpu_usage'' ms),
            u64_field ''system_cpu_usage'' ms, u64_field ''online_cpus'' ms) of
        (Some u, Some s, Some n) \<Rightarrow> Some (u, s, n) | _ \<Rightarrow> None))"

definition decode_precpu_stats :: "json \<Rightarrow> (u64 \<times> u64) option" where
  "decode_precpu_stats = json_struct None (0, 0) (\<lambda>ms.
     (case (inner_field False [''total_usage''] 0 (u64_field ''total_usage'') ''cpu_usage'' ms, u64_field ''system_cpu_usage'' ms) of
        (Some u, Some s) \<Rightarrow> Some (u, s) | _ \<Rightarrow> None))"

definition decode_memory_stats :: "json \<Rightarrow> (u64 \<times> u64 \<times> u64) option" where
  "decode_memory_stats = json_struct None (0, 0, 0) (\<lambda>ms.
     (case (u64_field ''usage'' ms,
            inner_field False [''cache'', ''inactive_file''] (0, 0)
              (\<lambda>i. case (u64_field ''cache'' i, u64_field ''inactive_file'' i) of (Some a, Some b) \<Rightarrow> Some (a, b) | _ \<Rightarrow> None)
              ''stats'' ms) of
        (Some u, Some s) \<Rightarrow> Some (u, s) | _ \<Rightarrow> None))"

definition decode_network_bytes :: "json \<Rightarrow> (u64 \<times> u64) option" where
  "decode_network_bytes = json_struct None (0, 0) (\<lambda>ms.
     (case (u64_field ''rx_bytes'' ms, u64_field ''tx_bytes'' ms) of (Some r, Some t) \<Rightarrow> Some (r, t) | _ \<Rightarrow> None))"

definition decode_blkio_entry :: "json \<Rightarrow> (string \<times> u64) option" where
  "decode_blkio_entry = json_struct None ([], 0) (\<lambda>ms.
     (case (string_field ''op'' ms, u64_field ''value'' ms) of (Some p, Some v) \<Rightarrow> Some (p, v) | _ \<Rightarrow> None))"

definition zero_stats :: stats_payload where
  "zero_stats = \<lparr>CpuUsage = 0, PercpuUsage = [], SystemUsage = 0, OnlineCpus = 0, PreCpuUsage = 0, PreSystemUsage = 0,
     MemoryUsage = 0, MemoryCache = 0, MemoryInactive = 0, StatNetworks = [], BlkioBytes = []\<rparr>"

definition decode_stats :: "json \<Rightarrow> stats_payload option" where
  "decode_stats = json_struct None zero_stats (\<lambda>ms.
     (case (assign_field decode_cpu_stats ((0, []), 0, 0) (member_values ''cpu_stats'' ms),
            assign_field decode_precpu_stats (0, 0) (member_values ''precpu_stats'' ms),
            assign_field decode_memory_stats (0, 0, 0) (member_values ''memory_stats'' ms),
            assign_field (json_members decode_network_bytes) [] (member_values ''networks'' ms),
            inner_field False [''io_service_bytes_recursive''] [] (slice_field decode_blkio_entry ''io_service_bytes_recursive'')
              ''blkio_stats'' ms) of
        (Some ((t, p), s, n), Some (pt, psys), Some (u, cached, inactive), Some nets, Some io) \<Rightarrow>
          Some \<lparr>CpuUsage = t, PercpuUsage = p, SystemUsage = s, OnlineCpus = n, PreCpuUsage = pt, PreSystemUsage = psys,
            MemoryUsage = u, MemoryCache = cached, MemoryInactive = inactive, StatNetworks = nets, BlkioBytes = io\<rparr>
      | _ \<Rightarrow> None))"

text \<open>Sums of 64-bit counters, which wrap.\<close>

definition blkio_sum :: "string \<Rightarrow> stats_payload \<Rightarrow> u64" where
  "blkio_sum op_name s = sum_list (map snd (filter (\<lambda>(p, v). to_lower p = op_name) (BlkioBytes s)))"

definition stats_counters :: "stats_payload \<Rightarrow> time \<Rightarrow> container_counters" where
  "stats_counters s now = \<lparr>SampledAt = now, RxTotal = sum_list (map (fst \<circ> snd) (StatNetworks s)),
     TxTotal = sum_list (map (snd \<circ> snd) (StatNetworks s)), ReadTotal = blkio_sum ''read'' s, WriteTotal = blkio_sum ''write'' s\<rparr>"

definition byte_rate :: "u64 \<Rightarrow> u64 \<Rightarrow> float64 \<Rightarrow> float64 option" where
  "byte_rate current previous elapsed =
     (if current < previous then None else Some (fdiv (float_of_u64 (current - previous)) elapsed))"

definition container_cpu :: "stats_payload \<Rightarrow> float64 option" where
  "container_cpu s =
     (let cpu_delta = CpuUsage s - min (CpuUsage s) (PreCpuUsage s);
          system_delta = SystemUsage s - min (SystemUsage s) (PreSystemUsage s);
          cores = (if OnlineCpus s = 0 then of_nat (length (PercpuUsage s)) else OnlineCpus s)
      in if system_delta > 0 \<and> cores > 0
         then Some (fmul (fmul (fdiv (float_of_u64 cpu_delta) (float_of_u64 system_delta)) (float_of_u64 cores)) (Finite 100))
         else None)"

definition container_memory :: "stats_payload \<Rightarrow> u64" where
  "container_memory s = (let cache = max (MemoryCache s) (MemoryInactive s) in
     if MemoryUsage s \<ge> cache then MemoryUsage s - cache else MemoryUsage s)"

definition apply_stats :: "stats_payload \<Rightarrow> container_counters \<Rightarrow> time \<Rightarrow> container \<Rightarrow> container" where
  "apply_stats s previous now c =
     (let current = stats_counters s now; elapsed = duration_seconds (time_sub now (SampledAt previous));
          measured = c\<lparr>ContainerCPU := (case container_cpu s of None \<Rightarrow> ContainerCPU c | Some x \<Rightarrow> Some x),
            MemoryBytes := Some (container_memory s)\<rparr>
      in if \<not> is_zero (SampledAt previous) \<and> fless (Finite 0) elapsed then
           measured\<lparr>NetworkRx := byte_rate (RxTotal current) (RxTotal previous) elapsed,
             NetworkTx := byte_rate (TxTotal current) (TxTotal previous) elapsed,
             DiskRead := byte_rate (ReadTotal current) (ReadTotal previous) elapsed,
             DiskWrite := byte_rate (WriteTotal current) (WriteTotal previous) elapsed\<rparr>
         else measured)"

section \<open>Collect\<close>

definition maximum_containers :: nat where "maximum_containers = 128"

definition unnamed :: "listed_container \<Rightarrow> bool" where
  "unnamed l \<longleftrightarrow> trim_space (ListedID l) = [] \<or> trim_space (ListedImage l) = []"

definition stats_path :: "string \<Rightarrow> string" where
  "stats_path i = ''/containers/'' @ path_escape i @ ''/stats?stream=false&one-shot=true''"

definition counters_before :: "container_collector \<Rightarrow> string \<Rightarrow> container_counters" where
  "counters_before c i = (case map_of (PreviousCounters c) i of None \<Rightarrow> zero_container_counters | Some x \<Rightarrow> x)"

definition collect_one :: "'w server \<Rightarrow> time \<Rightarrow> listed_container \<Rightarrow> container_collector \<times> 'w \<Rightarrow>
    container \<times> container_collector \<times> 'w" where
  "collect_one srv now l st =
     (let plain = listed_to_container (SourceRuntime (fst st)) l in
      case get_runtime_json srv decode_stats (stats_path (ListedID l)) st of
        (Inl e, st') \<Rightarrow> (plain, st')
      | (Inr s, c, w) \<Rightarrow> (apply_stats s (counters_before c (ListedID l)) now plain,
          c\<lparr>PreviousCounters := AList.update (ListedID l) (stats_counters s now) (PreviousCounters c)\<rparr>, w))"

fun collect_listed :: "'w server \<Rightarrow> time \<Rightarrow> listed_container list \<Rightarrow> container_collector \<times> 'w \<Rightarrow>
    container list \<times> container_collector \<times> 'w" where
  "collect_listed srv now [] st = ([], st)"
| "collect_listed srv now (l # ls) st =
     (if unnamed l then collect_listed srv now ls st
      else case collect_one srv now l st of (x, st') \<Rightarrow>
        (case collect_listed srv now ls st' of (xs, st'') \<Rightarrow> (x # xs, st'')))"

text \<open>Counters of containers that are gone are forgotten.\<close>

definition forget_gone :: "listed_container list \<Rightarrow> container_collector \<Rightarrow> container_collector" where
  "forget_gone ls c = (let ids = map ListedID (filter (\<lambda>l. \<not> unnamed l) ls) in
     c\<lparr>PreviousCounters := filter (\<lambda>(i, x). i \<in> set ids) (PreviousCounters c)\<rparr>)"

definition collect_containers :: "'w server \<Rightarrow> ('w \<Rightarrow> time \<times> 'w) \<Rightarrow> container_collector \<times> 'w \<Rightarrow>
    container list result \<times> container_collector \<times> 'w" where
  "collect_containers srv clock st =
     (case get_runtime_json srv decode_listing ''/containers/json?all=0'' st of
        (Inl e, st') \<Rightarrow> (Inl e, st')
      | (Inr listed, c, w) \<Rightarrow>
         (let ls = sort_key ListedID (take maximum_containers listed) in
          case clock w of (now, w') \<Rightarrow>
            (case collect_listed srv now ls (c, w') of (found, c', w'') \<Rightarrow> (Inr found, forget_gone ls c', w''))))"

end
