(* ===== verification/Float_Measures.thy ===== *)
theory Float_Measures
  imports Service_Correct Linux_Parsers
begin

text \<open>
  The measures the collectors compute from counters are finite and not negative: rates per second of an
  elapsed time, and shares scaled by a number of CPUs.
\<close>

lemma big_powers:
  "of_int 1 * pow2 64 \<le> max_float" "of_int 1 * pow2 128 \<le> max_float" "of_int 1 * pow2 135 \<le> max_float"
  "of_int 1 * pow2 40 \<le> max_float"
  by (simp_all add: pow2_def max_float_def)

text \<open>Rounding does not cross a power of two downwards.\<close>

lemma to_float_between:
  assumes "pow2 e \<le> x" and "- 1022 \<le> e" and "x \<le> of_int 1 * pow2 j" and "- 1074 \<le> j" and "of_int 1 * pow2 j \<le> max_float"
  shows "\<exists>y. to_float x = Finite y \<and> pow2 e \<le> y \<and> y \<le> of_int 1 * pow2 j"
proof -
  have x: "0 < x" using assms(1) by (rule less_le_trans [OF pow2_pos])
  have "pow2 e < pow2 (binary_exponent x + 1)"
    using assms(1) binary_exponent_bounds(2) [OF x] by (rule le_less_trans)
  then have b: "e \<le> binary_exponent x" by simp
  then have "pow2 e \<le> pow2 (binary_exponent x)" by simp
  also have "\<dots> \<le> round_pos x" using b x assms(2) by (intro round_pos_ge) simp_all
  finally have "pow2 e \<le> round_pos x" .
  moreover have "round_pos x \<le> of_int 1 * pow2 j" by (rule round_pos_le [OF x assms(3)]) (use assms(4) in simp_all)
  ultimately show ?thesis using assms(5) x by (simp add: to_float_def)
qed

lemma nanosecond_part: "0 < r \<Longrightarrow> r < 10 ^ 9 \<Longrightarrow> \<exists>y. to_float (of_int r / 10 ^ 9) = Finite y \<and> pow2 (- 30) \<le> y \<and> y \<le> of_int 1 * pow2 0"
proof (rule to_float_between)
  assume r: "0 < r" "r < (10 :: int) ^ 9"
  then have "(1 :: rat) \<le> of_int r" by (simp only: of_int_1_le_iff)
  then show "pow2 (- 30) \<le> of_int r / 10 ^ 9" by (simp add: pow2_def)
  have "(of_int r :: rat) \<le> of_int (10 ^ 9)" using r(2) by (simp only: of_int_le_iff)
  then show "of_int r / 10 ^ 9 \<le> of_int 1 * pow2 0" by (simp add: pow2_def)
  show "of_int 1 * pow2 0 \<le> max_float" by (simp add: pow2_def max_float_def)
qed simp_all

text \<open>A positive duration in seconds is at least 2^-30 of a second.\<close>

lemma duration_seconds_bounds:
  assumes "0 < d" and "d \<le> 2 ^ 63"
  shows "\<exists>y. duration_seconds d = Finite y \<and> pow2 (- 30) \<le> y \<and> y \<le> of_int 1 * pow2 40"
proof -
  let ?q = "d div 10 ^ 9" and ?r = "d mod 10 ^ 9"
  have q0: "0 \<le> ?q" using assms(1) by (simp add: pos_imp_zdiv_nonneg_iff)
  have "?q * 10 ^ 9 \<le> d" by simp
  then have q: "?q < 2 ^ 34" using assms(2) by simp
  have r: "0 \<le> ?r" "?r < 10 ^ 9" by simp_all
  have fq: "float_of_int ?q = Finite (of_int ?q)"
    unfolding float_of_int_def by (rule to_float_small_int) (use q0 q in simp_all)
  have fr: "float_of_int ?r = Finite (of_int ?r)"
    unfolding float_of_int_def by (rule to_float_small_int) (use r in simp_all)
  obtain y where y: "to_float (of_int ?r / 10 ^ 9) = Finite y" "0 \<le> y" "y \<le> 1" "?r \<noteq> 0 \<Longrightarrow> pow2 (- 30) \<le> y"
  proof (cases "?r = 0")
    case False
    with r have "0 < ?r" by simp
    from nanosecond_part [OF this r(2)] obtain y where "to_float (of_int ?r / 10 ^ 9) = Finite y" "pow2 (- 30) \<le> y" "y \<le> of_int 1 * pow2 0"
      by blast
    moreover from this(2) have "0 \<le> y" by (rule order_trans [OF pow2_nonneg])
    ultimately show thesis using that [of y] by (simp add: pow2_def [of 0])
  qed (use that [of 0] in simp)
  have low: "pow2 (- 30) \<le> of_int ?q + y"
  proof (cases "?q = 0")
    case True
    then have "?r \<noteq> 0" using assms(1) by (metis div_mult_mod_eq add.right_neutral mult_zero_left less_irrefl)
    with True y(4) show ?thesis by simp
  next
    case False
    with q0 have "(1 :: rat) \<le> of_int ?q" by (simp only: of_int_1_le_iff)
    moreover have "pow2 (- 30) \<le> 1" by (simp add: pow2_def)
    ultimately show ?thesis using y(2) by linarith
  qed
  have "(of_int ?q :: rat) < 2 ^ 34" by (rule of_int_less_power [OF q])
  then have up: "of_int ?q + y \<le> of_int 1 * pow2 40" using y(3) by (simp add: pow2_def)
  from to_float_between [OF low _ up] big_powers(4)
  obtain z where "to_float (of_int ?q + y) = Finite z" "pow2 (- 30) \<le> z" "z \<le> of_int 1 * pow2 40" by auto
  with fq fr y(1) assms(1) show ?thesis by (simp add: duration_seconds_def Let_def)
qed

text \<open>Only a positive duration is positive in seconds.\<close>

lemma duration_seconds_positive:
  assumes "fless (Finite 0) (duration_seconds d)" and "- (2 ^ 63) \<le> d"
  shows "0 < d"
proof (rule ccontr)
  assume d: "\<not> 0 < d"
  show False
  proof (cases "d = 0")
    case True
    with assms(1) show False by (simp add: duration_seconds_def Let_def float_of_int_def)
  next
    case False
    with d have n: "0 < - d" "- d \<le> 2 ^ 63" using assms(2) by simp_all
    from duration_seconds_bounds [OF n] obtain y where y: "duration_seconds (- d) = Finite y" "pow2 (- 30) \<le> y" by blast
    have "0 < y" using y(2) by (rule less_le_trans [OF pow2_pos])
    moreover have "duration_seconds d = fneg (duration_seconds (- d))" using n by (simp add: duration_seconds_def Let_def)
    ultimately show False using assms(1) y(1) by simp
  qed
qed

text \<open>A number of bytes per second.\<close>

lemma per_second_fine:
  assumes "0 < d" and "d < 2 ^ 63"
  shows "\<exists>y. fdiv (float_of_u64 w) (duration_seconds d) = Finite y \<and> 0 \<le> y"
proof -
  obtain n where n: "float_of_u64 w = Finite n" "0 \<le> n" "n \<le> of_int 1 * pow2 64" using float_of_u64_bounded by blast
  obtain e where e: "duration_seconds d = Finite e" "pow2 (- 30) \<le> e" using duration_seconds_bounds [OF assms(1)] assms(2) by auto
  have e0: "0 < e" using e(2) by (rule less_le_trans [OF pow2_pos])
  have "n / e \<le> pow2 64 / pow2 (- 30)"
    using n e(2) by (intro frac_le) simp_all
  also have "\<dots> \<le> of_int 1 * pow2 128" by (simp add: pow2_def)
  finally have "\<exists>y. to_float (n / e) = Finite y \<and> 0 \<le> y \<and> y \<le> of_int 1 * pow2 128"
    using n(2) e0 big_powers(2) by (intro to_float_bounded) simp_all
  with n(1) e(1) e0 show ?thesis by auto
qed

text \<open>A share of CPU time, times the number of CPUs, in percent.\<close>

lemma scaled_share_fine:
  assumes "0 < whole"
  shows "\<exists>y. fmul (fmul (fdiv (float_of_u64 part) (float_of_u64 whole)) (float_of_u64 cores)) (Finite 100) = Finite y \<and> 0 \<le> y"
proof -
  obtain n where n: "float_of_u64 part = Finite n" "0 \<le> n" "n \<le> of_int 1 * pow2 64" using float_of_u64_bounded by blast
  obtain k where k: "float_of_u64 cores = Finite k" "0 \<le> k" "k \<le> of_int 1 * pow2 64" using float_of_u64_bounded by blast
  have "0 < uint whole" using assms by (simp add: word_less_def)
  then have "(1 :: rat) \<le> of_int (uint whole)" by (simp only: of_int_1_le_iff)
  moreover have "uint whole < 2 ^ 64" using unsigned_less [of whole] by simp
  then have "(of_int (uint whole) :: rat) < 2 ^ 64" by (rule of_int_less_power)
  ultimately have "\<exists>e. to_float (of_int (uint whole)) = Finite e \<and> 1 \<le> e \<and> e \<le> of_int 1 * pow2 64"
    using big_powers(1) by (intro to_float_at_least_one) (simp_all add: pow2_def)
  then obtain e where e: "float_of_u64 whole = Finite e" "1 \<le> e" by (auto simp: float_of_u64_def float_of_int_def)
  have "n / e \<le> n" using n(2) e(2) by (simp add: divide_le_eq mult_le_cancel_left1)
  then have "\<exists>q. to_float (n / e) = Finite q \<and> 0 \<le> q \<and> q \<le> of_int 1 * pow2 64"
    using n e big_powers(1) by (intro to_float_bounded) simp_all
  then obtain q where q: "to_float (n / e) = Finite q" "0 \<le> q" "q \<le> pow2 64" by auto
  have "q * k \<le> pow2 64 * pow2 64" using q(2,3) k(2,3) by (intro mult_mono) simp_all
  then have "\<exists>x. to_float (q * k) = Finite x \<and> 0 \<le> x \<and> x \<le> of_int 1 * pow2 128"
    using q(2) k(2) big_powers(2) by (intro to_float_bounded) (simp_all add: pow2_add [symmetric])
  then obtain x where x: "to_float (q * k) = Finite x" "0 \<le> x" "x \<le> pow2 128" by auto
  have "x * 100 \<le> of_int 1 * pow2 135" using x(3) by (simp add: pow2_def)
  then have "\<exists>y. to_float (x * 100) = Finite y \<and> 0 \<le> y \<and> y \<le> of_int 1 * pow2 135"
    using x(2) big_powers(3) by (intro to_float_bounded) simp_all
  with n(1) k(1) e q(1) x(1) show ?thesis by auto
qed

end
