(* ===== verification/Container_Correct.thy ===== *)
theory Container_Correct
  imports Container_Collector Float_Measures
begin

text \<open>
  The container collector: what it returns is what the protocol accepts, it asks the runtime a bounded
  number of questions, it falls back to the unversioned API when the version is refused, and it keeps
  counters only of containers that are there.
\<close>

section \<open>Measures\<close>

lemma finite_fine: "\<exists>y. x = Finite y \<and> 0 \<le> y \<Longrightarrow> \<not> bad_measure (Some x)"
  by (auto simp: nonfinite_def)

lemma container_cpu_fine: "\<not> bad_measure (container_cpu s)"
proof (cases "0 < SystemUsage s - min (SystemUsage s) (PreSystemUsage s)")
  case True
  from finite_fine [OF scaled_share_fine [OF this]] show ?thesis
    by (simp add: container_cpu_def Let_def del: bad_measure.simps(2))
qed (simp add: container_cpu_def Let_def)

lemma byte_rate_fine:
  assumes "fless (Finite 0) (duration_seconds (time_sub a b))"
  shows "\<not> bad_measure (byte_rate x y (duration_seconds (time_sub a b)))"
proof -
  have "- (2 ^ 63) \<le> time_sub a b" "time_sub a b < 2 ^ 63" by (simp_all add: time_sub_def)
  with assms have "0 < time_sub a b" "time_sub a b < 2 ^ 63" by (simp_all add: duration_seconds_positive)
  from per_second_fine [OF this] obtain z where "fdiv (float_of_u64 (x - y)) (duration_seconds (time_sub a b)) = Finite z" "0 \<le> z"
    by blast
  then show ?thesis by (simp add: byte_rate_def nonfinite_def)
qed

text \<open>A container whose measures the protocol accepts; the other fields are those of the listing.\<close>

definition measures_fine :: "container \<Rightarrow> bool" where
  "measures_fine c \<longleftrightarrow> (\<forall>x \<in> set [ContainerCPU c, NetworkRx c, NetworkTx c, DiskRead c, DiskWrite c]. \<not> bad_measure x)"

definition without_stats :: "container \<Rightarrow> container" where
  "without_stats c = c\<lparr>ContainerCPU := None, MemoryBytes := None, NetworkRx := None, NetworkTx := None, DiskRead := None,
     DiskWrite := None\<rparr>"

lemma apply_stats_fine: "measures_fine c \<Longrightarrow> measures_fine (apply_stats s p now c)"
  using container_cpu_fine [of s] byte_rate_fine [of now "SampledAt p"]
  by (auto simp: measures_fine_def apply_stats_def Let_def split: option.splits)

lemma apply_stats_plain: "without_stats (apply_stats s p now c) = without_stats c"
  by (simp add: without_stats_def apply_stats_def Let_def)

section \<open>Fields of a listed container\<close>

lemma length_trim_left_le: "length (trim_left s) \<le> length s"
  by (induction s rule: trim_left.induct) auto

lemma uptime_bound: "length (uptime_from_status s) \<le> 128"
  by (simp add: uptime_from_status_def Let_def)

lemma network_mode_known: "network_mode v \<in> set ['''', ''host'', ''bridge'', ''none'', ''custom'']"
  by (simp add: network_mode_def Let_def)

lemma trim_space_idem_blank: "trim_space s \<noteq> [] \<Longrightarrow> \<not> blank_text (trim_space s)"
  by (simp add: blank_text_def front_of_trimmed_not_blank [of s "trim_space s" "[]"])

lemma network_name_fine: "n \<in> set (network_names c) \<Longrightarrow> \<not> blank_text n \<and> length n \<le> 128"
proof -
  assume "n \<in> set (network_names c)"
  from in_set_takeD [OF this [unfolded network_names_def]]
  have "n \<in> set (filter (\<lambda>n. n \<noteq> [] \<and> length n \<le> 128) (map trim_space (ListedNetworks c)))" by (simp only: set_sort)
  then have "n \<in> trim_space ` set (ListedNetworks c)" "n \<noteq> []" "length n \<le> 128" by (simp_all only: set_filter set_map mem_Collect_eq simp_thms)
  then show ?thesis using trim_space_idem_blank by (metis imageE)
qed

lemma network_names_bound: "length (network_names c) \<le> 32"
  unfolding network_names_def by (simp only: length_take min.cobounded2)

lemma structured_ports_fine:
  "\<forall>p \<in> set (structured_ports c). HostPort p \<noteq> 0 \<and> ContainerPort p \<noteq> 0 \<and> PortProtocol p \<in> set [''tcp'', ''udp'', ''sctp'']"
  by (auto simp: structured_ports_def structured_port_def List.map_filter_def Let_def split: if_splits)

section \<open>One collection\<close>

text \<open>Asking the runtime changes nothing of the collector but the API version.\<close>

definition same_source :: "container_collector \<Rightarrow> container_collector \<Rightarrow> bool" where
  "same_source c d \<longleftrightarrow> SourceMode d = SourceMode c \<and> SourceRuntime d = SourceRuntime c \<and> BaseUrl d = BaseUrl c \<and>
     PreviousCounters d = PreviousCounters c"

lemma resolve_same: "resolve_api_prefix srv (c, w) = (p, d, w') \<Longrightarrow> same_source c d"
  by (auto simp: resolve_api_prefix_def same_source_def split: if_splits prod.splits sum.splits)

lemma get_runtime_json_same:
  assumes "get_runtime_json srv decode path (c, w) = (r, d, w')"
  shows "same_source c d"
proof -
  obtain p c1 w1 where f: "resolve_api_prefix srv (c, w) = (p, c1, w1)" by (metis prod_cases3)
  have c1: "same_source c c1" by (rule resolve_same [OF f])
  obtain r1 w2 where g: "get_json srv decode c1 (p @ path) w1 = (r1, w2)" by (metis surj_pair)
  show ?thesis
  proof (cases "\<exists>e. r1 = Inl e \<and> p \<noteq> [] \<and> version_mismatch e")
    case False
    with assms f g c1 show ?thesis by (auto simp: get_runtime_json_def split: sum.splits if_splits)
  next
    case True
    obtain p2 c2 w3 where s: "resolve_api_prefix srv (c1\<lparr>ApiResolved := False, ApiPrefix := []\<rparr>, w2) = (p2, c2, w3)"
      by (metis prod_cases3)
    then have "same_source (c1\<lparr>ApiResolved := False, ApiPrefix := []\<rparr>) c2" by (rule resolve_same)
    with c1 have "same_source c c2" by (simp add: same_source_def)
    moreover have "d = c2" using assms f g s True by (auto simp: get_runtime_json_def split: prod.splits)
    ultimately show ?thesis by simp
  qed
qed

text \<open>What a returned container has in common with the listed one it was made from.\<close>

definition described :: "string \<Rightarrow> listed_container \<Rightarrow> container \<Rightarrow> bool" where
  "described rt l x \<longleftrightarrow> without_stats x = without_stats (listed_to_container rt l) \<and> measures_fine x"

lemma listed_measures: "measures_fine (listed_to_container rt l)"
  by (simp add: measures_fine_def listed_to_container_def)

lemma collect_one_described:
  assumes "collect_one srv now l (c, w) = (x, d, w')"
  shows "described (SourceRuntime c) l x" and "SourceRuntime d = SourceRuntime c"
proof -
  obtain r d' w2 where g: "get_runtime_json srv decode_stats (stats_path (ListedID l)) (c, w) = (r, d', w2)"
    by (metis prod_cases3)
  have s: "same_source c d'" by (rule get_runtime_json_same [OF g])
  show "described (SourceRuntime c) l x"
    using assms g listed_measures apply_stats_fine apply_stats_plain
    by (auto simp: collect_one_def described_def Let_def split: sum.splits)
  show "SourceRuntime d = SourceRuntime c"
    using assms g s by (auto simp: collect_one_def same_source_def Let_def split: sum.splits)
qed

lemma collect_listed_described:
  assumes "collect_listed srv now ls (c, w) = (xs, d, w')"
  shows "list_all2 (described (SourceRuntime c)) (filter (\<lambda>l. \<not> unnamed l) ls) xs"
  using assms
proof (induction ls arbitrary: c w xs d w')
  case (Cons l ls)
  show ?case
  proof (cases "unnamed l")
    case True
    with Cons show ?thesis by simp
  next
    case False
    obtain x c1 w1 where o: "collect_one srv now l (c, w) = (x, c1, w1)" by (metis prod_cases3)
    obtain ys c2 w2 where r: "collect_listed srv now ls (c1, w1) = (ys, c2, w2)" by (metis prod_cases3)
    have "xs = x # ys" using False Cons.prems o r by simp
    with Cons.IH [OF r] collect_one_described [OF o] False show ?thesis by simp
  qed
qed simp

lemma described_runtime_id: "described rt l x \<Longrightarrow> RuntimeID x = ListedID l"
  by (cases x) (simp add: described_def without_stats_def listed_to_container_def)

text \<open>The lengths that are the runtime's own business.\<close>

definition within_lengths :: "container \<Rightarrow> bool" where
  "within_lengths c \<longleftrightarrow> length (RuntimeID c) \<le> 128 \<and> \<not> blank_text (ContainerName c) \<and> length (ContainerName c) \<le> 256 \<and>
     length (Image c) \<le> 512 \<and> length (ContainerState c) \<le> 64 \<and> length (Status c) \<le> 256 \<and>
     length (ComposeService c) \<le> 256 \<and> length (Ports c) \<le> 128 \<and> length (PublishedPorts c) \<le> 128 \<and>
     (\<forall>p \<in> set (PublishedPorts c). length p \<le> 128)"

lemma described_fields:
  assumes "described rt l x"
  shows "Runtime x = rt" "Image x = ListedImage l" "Uptime x = uptime_from_status (ListedStatus l)"
    "NetworkMode x = network_mode (ListedNetworkMode l)" "NetworkNames x = network_names l" "Ports x = structured_ports l"
  using assms by (cases x; simp add: described_def without_stats_def listed_to_container_def)+

lemma described_valid:
  assumes "described rt l x" and "rt = ''docker'' \<or> rt = ''podman''" and "\<not> unnamed l" and "within_lengths x"
  shows "validate_container x = Inr ()"
proof -
  note f = described_fields [OF assms(1)]
  have i: "\<not> blank_text (RuntimeID x)" "\<not> blank_text (Image x)"
    using assms(3) described_runtime_id [OF assms(1)] f(2) by (simp_all add: unnamed_def blank_text_def)
  have u: "length (Uptime x) \<le> 128" unfolding f(3) by (rule uptime_bound)
  have n: "length (NetworkNames x) \<le> 32" "\<forall>m \<in> set (NetworkNames x). \<not> blank_text m \<and> length m \<le> 128"
    unfolding f(5) using network_names_bound network_name_fine by blast+
  have m: "NetworkMode x \<in> set ['''', ''host'', ''bridge'', ''none'', ''custom'']" unfolding f(4) by (rule network_mode_known)
  have p: "\<forall>p \<in> set (Ports x). HostPort p \<noteq> 0 \<and> ContainerPort p \<noteq> 0 \<and> PortProtocol p \<in> set [''tcp'', ''udp'', ''sctp'']"
    unfolding f(6) by (rule structured_ports_fine)
  have s: "measures_fine x" using assms(1) by (simp add: described_def)
  show ?thesis
    unfolding validate_container_def checks_ok
    using assms(2,4) f(1) i u n m p s
    by (simp only: set_simps ball_simps fail_if_ok check_all_ok within_lengths_def measures_fine_def) auto
qed

text \<open>A collection as a whole: what it returns describes named containers of the listing, in order.\<close>

lemma collect_listed_runtime:
  assumes "collect_listed srv now ls (c, w) = (xs, d, w')"
  shows "SourceRuntime d = SourceRuntime c"
  using assms
proof (induction ls arbitrary: c w xs)
  case (Cons l ls)
  obtain x c1 w1 where o: "collect_one srv now l (c, w) = (x, c1, w1)" by (metis prod_cases3)
  obtain ys c2 w2 where r: "collect_listed srv now ls (c1, w1) = (ys, c2, w2)" by (metis prod_cases3)
  show ?case
  proof (cases "unnamed l")
    case True
    then show ?thesis using Cons by simp
  next
    case False
    then have "c2 = d" "w2 = w'" using Cons.prems o r by simp_all
    with Cons.IH [of c1 w1 ys] r collect_one_described(2) [OF o] show ?thesis by simp
  qed
qed simp

lemma collect_containers_described:
  assumes "collect_containers srv clock (c, w) = (r, c', w')"
  shows "SourceRuntime c' = SourceRuntime c" and "\<And>xs. r = Inr xs \<Longrightarrow>
    \<exists>ls. length ls \<le> 128 \<and> sorted (map ListedID ls) \<and> (\<forall>l \<in> set ls. \<not> unnamed l) \<and> list_all2 (described (SourceRuntime c)) ls xs"
proof -
  obtain l d w1 where g: "get_runtime_json srv decode_listing ''/containers/json?all=0'' (c, w) = (l, d, w1)" by (metis prod_cases3)
  have rt: "SourceRuntime d = SourceRuntime c" using get_runtime_json_same [OF g] by (simp add: same_source_def)
  have "SourceRuntime c' = SourceRuntime c \<and> (\<forall>xs. r = Inr xs \<longrightarrow> (\<exists>ls. length ls \<le> 128 \<and> sorted (map ListedID ls) \<and>
      (\<forall>l \<in> set ls. \<not> unnamed l) \<and> list_all2 (described (SourceRuntime c)) ls xs))"
  proof (cases l)
    case (Inl e)
    with assms g rt show ?thesis by (auto simp: collect_containers_def)
  next
    case (Inr listed)
    define ls where "ls = sort_key ListedID (take maximum_containers listed)"
    obtain now w2 where k: "clock w1 = (now, w2)" by fastforce
    obtain ys e w3 where o: "collect_listed srv now ls (d, w2) = (ys, e, w3)" by (metis prod_cases3)
    have r: "r = Inr ys" "c' = forget_gone ls e" using assms g Inr k o by (simp_all add: collect_containers_def Let_def ls_def)
    let ?ls = "filter (\<lambda>l. \<not> unnamed l) ls"
    have "length ls \<le> 128" by (simp add: ls_def maximum_containers_def)
    then have "length ?ls \<le> 128" by (rule order_trans [OF length_filter_le])
    moreover have "sorted (map ListedID ?ls)" unfolding ls_def by (rule sorted_filter) simp
    moreover have "list_all2 (described (SourceRuntime c)) ?ls ys" using collect_listed_described [OF o] rt by simp
    moreover have "\<forall>l \<in> set ?ls. \<not> unnamed l" by simp
    moreover have "SourceRuntime c' = SourceRuntime c"
      using collect_listed_runtime [OF o] rt by (simp add: r(2) forget_gone_def Let_def)
    ultimately show ?thesis using r(1) by blast
  qed
  then show "SourceRuntime c' = SourceRuntime c" and "\<And>xs. r = Inr xs \<Longrightarrow>
    \<exists>ls. length ls \<le> 128 \<and> sorted (map ListedID ls) \<and> (\<forall>l \<in> set ls. \<not> unnamed l) \<and> list_all2 (described (SourceRuntime c)) ls xs"
    by blast+
qed

definition container_fine :: "container \<Rightarrow> bool" where
  "container_fine x \<longleftrightarrow> (within_lengths x \<longrightarrow> validate_container x = Inr ())"

lemma collect_containers_fine:
  assumes "collect_containers srv clock (c, w) = (Inr xs, c', w')"
    and "SourceRuntime c = ''docker'' \<or> SourceRuntime c = ''podman''"
  shows "length xs \<le> 128 \<and> (\<forall>x \<in> set xs. container_fine x)"
proof -
  obtain ls where ls: "length ls \<le> 128" "\<forall>l \<in> set ls. \<not> unnamed l" "list_all2 (described (SourceRuntime c)) ls xs"
    using collect_containers_described(2) [OF assms(1) refl] by blast
  have "container_fine x" if "x \<in> set xs" for x
  proof -
    from ls(3) that obtain l where "l \<in> set ls" "described (SourceRuntime c) l x"
      by (metis in_set_conv_nth list_all2_conv_all_nth)
    with assms(2) ls(2) show ?thesis using described_valid [of "SourceRuntime c" l x] by (simp add: container_fine_def)
  qed
  with ls(1) list_all2_lengthD [OF ls(3)] show ?thesis by simp
qed


section \<open>Requests\<close>

text \<open>A server that counts the requests it gets.\<close>

definition counted :: "'w server \<Rightarrow> (nat \<times> 'w) server" where
  "counted srv q s = (case srv q (snd s) of (r, w) \<Rightarrow> (r, fst s + 1, w))"

lemma get_json_counted: "get_json (counted srv) decode c path (n, w) = (r, m, w') \<Longrightarrow> m = n + 1"
  by (auto simp: get_json_def counted_def bind_io_def split: prod.splits sum.splits)

lemma resolve_counted: "resolve_api_prefix (counted srv) (c, n, w) = (p, d, m, w') \<Longrightarrow> m \<le> n + 1"
  by (auto simp: resolve_api_prefix_def dest: get_json_counted split: if_splits prod.splits sum.splits)

lemma runtime_json_counted:
  assumes "get_runtime_json (counted srv) decode path (c, n, w) = (r, d, m, w')"
  shows "m \<le> n + 4"
proof -
  obtain p c1 n1 w1 where f: "resolve_api_prefix (counted srv) (c, n, w) = (p, c1, n1, w1)" by (metis surj_pair)
  obtain r1 n2 w2 where g: "get_json (counted srv) decode c1 (p @ path) (n1, w1) = (r1, n2, w2)" by (metis surj_pair)
  have n2: "n2 \<le> n + 2" using resolve_counted [OF f] get_json_counted [OF g] by simp
  show ?thesis
  proof (cases "\<exists>e. r1 = Inl e \<and> p \<noteq> [] \<and> version_mismatch e")
    case False
    with assms f g n2 show ?thesis by (auto simp: get_runtime_json_def split: sum.splits if_splits)
  next
    case True
    obtain p2 c2 n3 w3 where s: "resolve_api_prefix (counted srv) (c1\<lparr>ApiResolved := False, ApiPrefix := []\<rparr>, n2, w2) = (p2, c2, n3, w3)"
      by (metis surj_pair)
    obtain r2 n4 w4 where h: "get_json (counted srv) decode c2 (p2 @ path) (n3, w3) = (r2, n4, w4)" by (metis surj_pair)
    have "m = n4" using assms f g s h True by (auto simp: get_runtime_json_def)
    with resolve_counted [OF s] get_json_counted [OF h] n2 show ?thesis by simp
  qed
qed

lemma collect_listed_counted:
  assumes "collect_listed (counted srv) now ls (c, n, w) = (xs, d, m, w')"
  shows "m \<le> n + 4 * length ls"
  using assms
proof (induction ls arbitrary: c n w xs d m w')
  case (Cons l ls)
  show ?case
  proof (cases "unnamed l")
    case True
    with Cons.prems have "collect_listed (counted srv) now ls (c, n, w) = (xs, d, m, w')" by simp
    from Cons.IH [OF this] show ?thesis by simp
  next
    case False
    obtain x c1 n1 w1 where o: "collect_one (counted srv) now l (c, n, w) = (x, c1, n1, w1)" by (metis surj_pair)
    obtain q c2 n2 w2 where g: "get_runtime_json (counted srv) decode_stats (stats_path (ListedID l)) (c, n, w) = (q, c2, n2, w2)"
      by (metis surj_pair)
    have "n1 \<le> n + 4" using o g runtime_json_counted [OF g] by (auto simp: collect_one_def Let_def split: sum.splits)
    moreover obtain ys c3 n3 w3 where r: "collect_listed (counted srv) now ls (c1, n1, w1) = (ys, c3, n3, w3)" by (metis surj_pair)
    moreover have "m = n3" using Cons.prems False o r by simp
    ultimately show ?thesis using Cons.IH [OF r] by simp
  qed
qed simp

definition counted_clock :: "('w \<Rightarrow> time \<times> 'w) \<Rightarrow> nat \<times> 'w \<Rightarrow> time \<times> nat \<times> 'w" where
  "counted_clock clock s = (case clock (snd s) of (t, w) \<Rightarrow> (t, fst s, w))"

text \<open>
  C26: a collection ends after at most 516 requests to the runtime, four for the list and four for each of
  at most 128 containers, whatever the runtime answers; a failed one has made at most four. After a success
  the collector remembers the counters of containers only that the collection returned.
\<close>

theorem collection_ends:
  assumes "collect_containers (counted srv) (counted_clock clock) (c, 0, w) = (r, c', n, w')"
  shows "n \<le> 516 \<and> (\<forall>e. r = Inl e \<longrightarrow> n \<le> 4) \<and>
    (\<forall>xs. r = Inr xs \<longrightarrow> fst ` set (PreviousCounters c') \<subseteq> RuntimeID ` set xs)"
proof -
  obtain l d n1 w1 where g: "get_runtime_json (counted srv) decode_listing ''/containers/json?all=0'' (c, 0, w) = (l, d, n1, w1)"
    by (metis surj_pair)
  have n1: "n1 \<le> 4" using runtime_json_counted [OF g] by simp
  show ?thesis
  proof (cases l)
    case (Inl e)
    with assms g n1 show ?thesis by (auto simp: collect_containers_def)
  next
    case (Inr listed)
    define ls where "ls = sort_key ListedID (take maximum_containers listed)"
    obtain now w2 where k: "clock w1 = (now, w2)" by fastforce
    obtain ys e n3 w3 where o: "collect_listed (counted srv) now ls (d, n1, w2) = (ys, e, n3, w3)" by (metis surj_pair)
    have r: "r = Inr ys" "c' = forget_gone ls e" "n = n3"
      using assms g Inr k o by (simp_all add: collect_containers_def Let_def ls_def counted_clock_def)
    have "length ls \<le> 128" by (simp add: ls_def maximum_containers_def)
    then have n: "n \<le> 516" using collect_listed_counted [OF o] n1 r(3) by simp
    have "list_all2 (described (SourceRuntime d)) (filter (\<lambda>l. \<not> unnamed l) ls) ys" by (rule collect_listed_described [OF o])
    then have "map RuntimeID ys = map ListedID (filter (\<lambda>l. \<not> unnamed l) ls)"
      by (induction rule: list_all2_induct) (simp_all add: described_runtime_id)
    then have "RuntimeID ` set ys = ListedID ` set (filter (\<lambda>l. \<not> unnamed l) ls)" by (metis set_map)
    then have "fst ` set (PreviousCounters c') \<subseteq> RuntimeID ` set ys" unfolding r(2) by (auto simp: forget_gone_def Let_def)
    with n r(1) show ?thesis by simp
  qed
qed

section \<open>A sample runtime\<close>

text \<open>It lists one container under the unversioned API and answers nothing else.\<close>

definition sample_listing :: json where
  "sample_listing = JArr [JObj [(''Id'', JStr ''abc''), (''Image'', JStr ''web''), (''State'', JStr ''running'')]]"

definition sample_runtime :: "unit server" where
  "sample_runtime q w = (Inr \<lparr>StatusCode = (if has_suffix (Url q) ''?all=0'' then 200 else 404),
     RespBody = Inr (json_text sample_listing @ newline), ETag = []\<rparr>, w)"

definition sample_source :: container_collector where
  "sample_source = \<lparr>SourceMode = ''socket'', SourceRuntime = ''docker'', BaseUrl = ''http://x'', PreviousCounters = [],
     ApiPrefix = [], ApiResolved = True\<rparr>"

definition sample_listed :: listed_container where
  "sample_listed = \<lparr>ListedID = ''abc'', ListedNames = [], ListedImage = ''web'', ListedImageID = [], ListedState = ''running'',
     ListedStatus = [], ListedLabels = [], ListedNetworkMode = [], ListedNetworks = [], ListedPorts = []\<rparr>"

lemma sample_listing_read:
  "read_runtime decode_listing \<lparr>StatusCode = 200, RespBody = Inr (json_text sample_listing @ newline), ETag = []\<rparr> =
     Inr [sample_listed]"
proof -
  have "parse_json (json_text sample_listing @ newline) = Some sample_listing"
    by (rule parse_json_text) (auto simp: sample_listing_def)
  then have p: "first_value (json_text sample_listing @ newline) = Some sample_listing" by (simp add: first_value_parse)
  have "length (json_text sample_listing @ newline) \<le> 100" by code_simp
  then have l: "take (maximum_body_bytes + 1) (json_text sample_listing @ newline) = json_text sample_listing @ newline"
    by (simp add: maximum_body_bytes_def del: json_text.simps)
  have "decode_listing sample_listing =
     Some [sample_listed]"
    by (simp add: decode_listing_def sample_listing_def json_slice_def decode_listed_def json_struct_def string_field_def
        slice_field_def inner_field_def field_names_def fold_simps sample_listed_def)
  with l p show ?thesis by (simp add: read_runtime_def read_limited_def del: json_text.simps append_assoc)
qed

lemma sample_list:
  "get_runtime_json sample_runtime decode_listing ''/containers/json?all=0'' (sample_source, ()) = (Inr [sample_listed], sample_source, ())"
  by (simp add: get_runtime_json_def resolve_api_prefix_def sample_source_def get_json_def bind_io_def get_request_def
      sample_runtime_def has_suffix_def sample_listing_read del: json_text.simps)

lemma sample_stats:
  "\<exists>e. get_runtime_json sample_runtime decode_stats (stats_path ''abc'') (sample_source, ()) = (Inl e, sample_source, ())"
proof -
  have "stats_path ''abc'' = ''/containers/abc/stats?stream=false&one-shot=true''" by code_simp
  then show ?thesis
    by (simp add: get_runtime_json_def resolve_api_prefix_def sample_source_def get_json_def bind_io_def get_request_def
        sample_runtime_def has_suffix_def read_runtime_def del: json_text.simps)
qed

lemma sample_collected:
  "\<exists>c'. collect_containers sample_runtime (Pair 1) (sample_source, ()) = (Inr [listed_to_container ''docker'' sample_listed], c', ())"
proof -
  have "\<not> unnamed sample_listed" by code_simp
  moreover have "ListedID sample_listed = ''abc''" "SourceRuntime sample_source = ''docker''"
    by (simp_all add: sample_listed_def sample_source_def)
  ultimately show ?thesis
    using sample_stats
    by (auto simp: collect_containers_def sample_list maximum_containers_def collect_one_def Let_def)
qed


lemma collection_ends_witness:
  "\<exists>r c' n w'. collect_containers (counted sample_runtime) (counted_clock (Pair 1)) (sample_source, 0, ()) = (r, c', n, w') \<and> n \<le> 516"
proof -
  obtain r c' n w' where h: "collect_containers (counted sample_runtime) (counted_clock (Pair 1)) (sample_source, 0, ()) = (r, c', n, w')"
    by (metis surj_pair)
  from collection_ends [OF this] h show ?thesis by blast
qed

text \<open>
  While a container starts, Docker prints its health as \<open>(health: starting)\<close>, which is none of the texts
  the code looks for.
\<close>

lemma starting_health_missed: "health_from_status ''Up 5 seconds (health: starting)'' = []"
  by code_simp

end
