(* ===== verification/Collector_Rules.thy ===== *)
theory Collector_Rules
  imports Linux_Correct Freebsd_Collector Container_Correct
begin

text \<open>
  What the collectors promise the agent: the heartbeats a run of collections produces keep the limits of
  the protocol on what is collected, and so do the values remembered between them. The container collector
  is reached through an interface.
\<close>

section \<open>What a heartbeat carries\<close>

definition storage_form :: "storage_health \<Rightarrow> bool" where
  "storage_form s \<longleftrightarrow> StorageKind s \<in> set [''smart'', ''emmc'', ''mdraid''] \<and>
     StorageState s \<in> set [''healthy'', ''warning'', ''failed'', ''unknown''] \<and> \<not> is_zero (StorageCollectedAt s)"

definition capability_fine :: "capability \<Rightarrow> bool" where
  "capability_fine c \<longleftrightarrow> valid_availability (CapState c) \<and> length (CapDetail c) \<le> 256"

definition service_fine :: "service \<Rightarrow> bool" where
  "service_fine v \<longleftrightarrow> (short_fields v \<longrightarrow> validate_service v = Inr ())"

text \<open>
  The limits of the protocol on what is collected, but for the numbers of file systems and of GPUs, which the
  collectors do not keep.
\<close>

definition collection_fits :: "heartbeat \<Rightarrow> bool" where
  "collection_fits h \<longleftrightarrow> length (HbServices h) \<le> 512 \<and> (\<forall>v \<in> set (HbServices h). service_fine v) \<and>
     length (HbContainers h) \<le> 128 \<and> (\<forall>x \<in> set (HbContainers h). container_fine x) \<and>
     length (HbStorage h) \<le> 64 \<and> (\<forall>s \<in> set (HbStorage h). storage_form s) \<and>
     length (Capabilities h) \<le> 64 \<and> (\<forall>c \<in> set (Capabilities h). check_capability c = Inr ()) \<and>
     (LoadAverage (HbMetrics h) = [] \<or> length (LoadAverage (HbMetrics h)) = 3) \<and>
     length (MSensors (HbMetrics h)) \<le> 256 \<and> length (Batteries (HbMetrics h)) \<le> 16 \<and>
     DiskIO (HbMetrics h) = [] \<and> Network (HbMetrics h) = []"

lemma acceptable_fine: "acceptable v \<Longrightarrow> service_fine (v\<lparr>Manager := m\<rparr>)"
proof -
  assume "acceptable v"
  then have "acceptable (v\<lparr>Manager := m\<rparr>)" by (simp add: acceptable_def)
  then show ?thesis using acceptable_valid unfolding service_fine_def by blast
qed

section \<open>Capabilities\<close>

lemma unavailable_fine: "capability_fine (unavailable f e)" "capability_fine (bsd_unavailable d)"
  by (simp_all add: capability_fine_def unavailable_def bsd_unavailable_def capability_of_def)

lemma available_fine: "length d \<le> 256 \<Longrightarrow> capability_fine (available d)"
  by (simp add: capability_fine_def available_def capability_of_def)

text \<open>An update under a known name adds at most one entry, and a fine one.\<close>

definition capabilities_fine :: "nat \<Rightarrow> capabilities \<Rightarrow> bool" where
  "capabilities_fine n cs \<longleftrightarrow> length cs \<le> n \<and> (\<forall>c \<in> set cs. check_capability c = Inr ())"

lemma length_update_le: "length (AList.update k v m) \<le> Suc (length m)"
  by (induction m) auto

lemma set_update_subset: "set (AList.update k v m) \<subseteq> insert (k, v) (set m)"
  by (induction m) auto

lemma capabilities_fine_set:
  assumes "capabilities_fine n cs" and "capability_name_pattern k" and "capability_fine c"
  shows "capabilities_fine (Suc n) (set_capability k c cs)"
  using assms length_update_le [of k c cs] set_update_subset [of k c cs]
  by (auto simp: capabilities_fine_def set_capability_def check_capability_def capability_fine_def not_less)

lemma capabilities_fine_given:
  assumes "capabilities_fine n cs" and "capability_name_pattern k" and "\<forall>x \<in> set_option c. capability_fine x"
  shows "capabilities_fine (Suc n) (given_capability k c cs)"
proof (cases c)
  case None
  with assms(1) show ?thesis by (auto simp: given_capability_def capabilities_fine_def)
next
  case (Some x)
  with assms show ?thesis using capabilities_fine_set by (simp add: given_capability_def)
qed

lemma capabilities_fine_fold:
  assumes "capabilities_fine n cs" and "\<forall>(k, c) \<in> set us. capability_name_pattern k \<and> capability_fine c"
  shows "capabilities_fine (n + length us) (fold (\<lambda>(k, c). set_capability k c) us cs)"
  using assms
proof (induction us arbitrary: n cs)
  case (Cons u us)
  obtain k c where u: "u = (k, c)" by (metis surj_pair)
  with Cons.prems have "capabilities_fine (Suc n) (set_capability k c cs)" by (intro capabilities_fine_set) auto
  from Cons.IH [OF this] Cons.prems(2) u show ?case by simp
qed simp

lemma capability_names:
  "capability_name_pattern ''host.uptime''" "capability_name_pattern ''host.load''" "capability_name_pattern ''host.cpu''"
  "capability_name_pattern ''host.memory''" "capability_name_pattern ''host.filesystems''" "capability_name_pattern ''host.sensors''"
  "capability_name_pattern ''host.batteries''" "capability_name_pattern ''host.gpu''" "capability_name_pattern ''host.services''"
  "capability_name_pattern ''storage.health''" "capability_name_pattern ''containers''" "capability_name_pattern ''host.pci''"
  "capability_name_pattern ''host.storage-inventory''"
  by code_simp+

section \<open>Services and storage health\<close>

lemma collect_services_fine:
  assumes "collect_services h run base now m s = (Inr ss, s')"
  shows "length ss \<le> 512 \<and> (\<forall>v \<in> set ss. acceptable v)"
  using assms systemd_collect_fine [of run now s ss s'] openrc_collect_fine [of h run base ss]
  by (cases m) (auto simp: collect_services_def)

lemma smart_records_form:
  assumes "smart_records ask n ds = Inr rs" and "n \<le> 64" and "\<And>d r. ask d = Inr r \<Longrightarrow> storage_form r"
  shows "n + length rs \<le> 64 \<and> (\<forall>r \<in> set rs. storage_form r)"
  using assms
proof (induction ask n ds arbitrary: rs rule: smart_records.induct)
  case (2 ask n d ds)
  show ?case
  proof (cases "n \<ge> 64")
    case True
    with 2 show ?thesis by simp
  next
    case False
    with 2 obtain r rest where r: "ask d = Inr r" "smart_records ask (n + 1) ds = Inr rest" "rs = r # rest"
      by (auto simp: bind_result_Inr_iff)
    from 2(1) [OF False r(2)] False 2(4) have "n + 1 + length rest \<le> 64 \<and> (\<forall>r \<in> set rest. storage_form r)" by simp
    with r 2(4) [OF r(1)] show ?thesis by simp
  qed
qed simp

lemma smart_state_known: "smart_state p \<in> set [''healthy'', ''warning'', ''failed'', ''unknown'']"
  by (auto simp: smart_state_def Let_def split: option.splits bool.splits)

lemma smart_form:
  assumes "\<not> is_zero now" and "collect_smart run ctl opaque now d = Inr r"
  shows "storage_form r"
proof -
  obtain p where "r = smart_record opaque now d p"
    using assms(2) by (auto simp: collect_smart_def split: prod.splits if_splits option.splits)
  with assms(1) smart_state_known [of p] show ?thesis by (auto simp: storage_form_def smart_record_def)
qed

lemma storage_states:
  "emmc_state v \<in> set [''healthy'', ''warning'', ''failed'', ''unknown'']"
  "md_state array degraded \<in> set [''healthy'', ''warning'', ''failed'', ''unknown'']"
  by (simp_all add: emmc_state_def md_state_def)

lemma storage_kinds: "''emmc'' \<in> set [''smart'', ''emmc'', ''mdraid'']" "''mdraid'' \<in> set [''smart'', ''emmc'', ''mdraid'']"
  by simp_all

lemma emmc_form: "\<not> is_zero now \<Longrightarrow> storage_form (emmc_record h opaque now block name)"
  using storage_states(1) storage_kinds(1) by (simp add: storage_form_def emmc_record_def Let_def del: list.set)

lemma md_form: "\<not> is_zero now \<Longrightarrow> storage_form (md_record h opaque now block name)"
  using storage_states(2) storage_kinds(2) by (simp add: storage_form_def md_record_def Let_def del: list.set)

lemma block_form: "\<not> is_zero now \<Longrightarrow> block_record h opaque now block name = Some r \<Longrightarrow> storage_form r"
  using emmc_form md_form by (fastforce simp: block_record_def simp del: if_split_asm split: if_splits)

lemma storage_health_form:
  assumes "collect_storage_health h run ctl opaque base devices now smart = Inr rs" and "\<not> is_zero now"
  shows "length rs \<le> 64 \<and> (\<forall>r \<in> set rs. storage_form r)"
proof -
  obtain items where d: "DirItems h (join_path [base, ''sys'', ''block'']) = Inr items"
    using assms(1) by (cases "DirItems h (join_path [base, ''sys'', ''block''])") (simp_all add: collect_storage_health_def)
  define found where "found = take 64 (List.map_filter (\<lambda>(n, d). block_record h opaque now (join_path [base, ''sys'', ''block'']) n) items)"
  have one: "storage_form (the (block_record h opaque now block name))"
    if "block_record h opaque now block name = Some y" for block name y
    using block_form [OF assms(2) that] that by simp
  have f: "length found \<le> 64" "\<forall>r \<in> set found. storage_form r"
    unfolding found_def by (auto simp: map_filter_def dest!: in_set_takeD intro: one)
  show ?thesis
  proof (cases smart)
    case False
    with assms(1) d f show ?thesis by (simp add: collect_storage_health_def Let_def found_def)
  next
    case True
    with assms(1) d obtain more where m: "smart_records (collect_smart run ctl opaque now) (length found) devices = Inr more"
      "rs = found @ more"
      by (auto simp: collect_storage_health_def Let_def found_def bind_result_Inr_iff split: if_splits)
    from smart_records_form [OF m(1) f(1) smart_form [OF assms(2)]] f(2) m(2) show ?thesis by auto
  qed
qed

lemma start_fine:
  fixes f :: "'c \<Rightarrow> container list result \<times> 'c"
  assumes "length detail \<le> 256"
  shows "capabilities_fine 14 (linux_capabilities (Some (detail, f)))"
proof -
  let ?front = "butlast (linux_capabilities (None :: 'c container_source))"
  have d: "capability_fine (available detail)" by (rule available_fine [OF assms])
  have l: "linux_capabilities (Some (detail, f)) = ?front @ [(''containers'', available detail)]"
    by (simp add: linux_capabilities_def)
  have n: "length ?front = 13" "\<forall>c \<in> set ?front. check_capability c = Inr ()" by code_simp+
  have "check_capability (''containers'', available detail) = Inr ()"
    using d capability_names(11) by (simp only: check_capability_def capability_fine_def fail_if_ok fst_conv snd_conv) simp
  with n show ?thesis by (simp only: capabilities_fine_def l length_append set_append ball_Un list.set ball_simps) simp
qed

lemma heartbeat_fits:
  assumes "length services \<le> 512" and "\<forall>v \<in> set services. service_fine v" and "length xs \<le> 128" and "\<forall>x \<in> set xs. container_fine x"
    and "length storage \<le> 64" and "\<forall>s \<in> set storage. storage_form s" and "length caps \<le> 64"
    and "\<forall>c \<in> set caps. check_capability c = Inr ()" and "LoadAverage m = [] \<or> length (LoadAverage m) = 3"
    and "length (MSensors m) \<le> 256" and "length (Batteries m) \<le> 16" and "DiskIO m = []" and "Network m = []"
  shows "collection_fits (linux_heartbeat host caps m services xs storage)"
  using assms by (simp add: collection_fits_def linux_heartbeat_def)

section \<open>The container collector as an interface\<close>

text \<open>The remembered values of the collector keep the limits; \<open>good\<close> is asked of the container collector's state.\<close>

definition state_fine :: "('c \<Rightarrow> bool) \<Rightarrow> 'c linux_collector \<Rightarrow> bool" where
  "state_fine good st \<longleftrightarrow> length (CachedServices st) \<le> 512 \<and> (\<forall>v \<in> set (CachedServices st). service_fine v) \<and>
     length (CachedStorage st) \<le> 64 \<and> (\<forall>s \<in> set (CachedStorage st). storage_form s) \<and>
     (\<forall>x \<in> set_option (ServiceCapability st) \<union> set_option (StorageCapability st). capability_fine x) \<and>
     good (linux_collector.ContainerState st)"

section \<open>The parts of a collection\<close>

lemma from_file_fine: "capability_fine (snd (from_file cfg h name parse))"
  using available_fine [of "''procfs''"] by (auto simp: from_file_def unavailable_fine split: sum.splits)

lemma collect_cpu_fine: "capability_fine (fst (snd (collect_cpu cfg h before)))"
  using from_file_fine [of cfg h "''proc/stat''" parse_cpu_counters]
  by (auto simp: collect_cpu_def split: prod.splits option.splits)

lemma collect_memory_fine: "capability_fine (snd (collect_memory cfg h))"
  using from_file_fine [of cfg h "''proc/meminfo''" parse_meminfo]
  by (auto simp: collect_memory_def split: prod.splits option.splits)

lemma collect_filesystems_fine: "capability_fine (snd (collect_filesystems cfg host))"
proof -
  have "capability_fine (capability_of Disabled ''statfs disabled for fixture root'')"
    "capability_fine (available ''mountinfo and statfs'')" by code_simp+
  then show ?thesis by (auto simp: collect_filesystems_def unavailable_fine split: sum.splits)
qed

lemma collect_filesystems_length: "length (fst (collect_filesystems cfg host)) \<le> 256"
  by (auto simp: collect_filesystems_def collect_mounted_filesystems_def bind_result_Inr_iff Let_def split: sum.splits if_splits)

lemma sysfs_fine: "capability_fine (available ''sysfs'')" by code_simp

lemma collect_sensors_fine:
  "capability_fine (snd (collect_sensors cfg h)) \<and> length (fst (collect_sensors cfg h)) \<le> 256"
  by (auto simp: collect_sensors_def unavailable_fine sysfs_fine Let_def split: sum.splits)

lemma collect_batteries_fine:
  "capability_fine (snd (collect_batteries cfg h)) \<and> length (fst (collect_batteries cfg h)) \<le> 16"
  by (auto simp: collect_batteries_def unavailable_fine sysfs_fine Let_def split: sum.splits)

lemma those_length: "those xs = Some ys \<Longrightarrow> length ys = length xs"
  by (induction xs arbitrary: ys) (auto split: option.splits)

lemma load_of_three: "parse_load_average b = Inr xs \<Longrightarrow> length xs = 3"
  by (auto simp: parse_load_average_def Let_def dest!: those_length split: if_splits option.splits)

lemma load_file_three: "fst (from_file cfg h name parse_load_average) = Some xs \<Longrightarrow> length xs = 3"
  by (auto simp: from_file_def bind_result_Inr_iff dest: load_of_three split: sum.splits)

text \<open>
  What the Linux collector relies on: a collection of containers keeps the state of the container collector
  good, and from a good state it gives at most 128 containers the protocol accepts.
\<close>

locale container_provider =
  fixes collect_them :: "'c \<Rightarrow> container list result \<times> 'c" and good :: "'c \<Rightarrow> bool"
  assumes keeps_good: "good k \<Longrightarrow> good (snd (collect_them k))"
    and gives_fine: "good k \<Longrightarrow> fst (collect_them k) = Inr xs \<Longrightarrow> length xs \<le> 128 \<and> (\<forall>x \<in> set xs. container_fine x)"
begin

lemma new_fine: "good k \<Longrightarrow> state_fine good (new_linux_collector k)"
  by (simp add: state_fine_def new_linux_collector_def)

lemma refresh_services_fine:
  assumes "state_fine good st" and "length (ManagerDetail cfg) \<le> 256"
  shows "state_fine good (refresh_services cfg host c st)"
proof -
  obtain r s where r: "collect_services (HostFiles host) (HostRun host) (BasePath cfg) (HostTime host) (ServiceManager cfg)
      (SystemdState st) = (r, s)" by fastforce
  show ?thesis
  proof (cases r)
    case (Inl e)
    with r assms(1) show ?thesis
      by (auto simp: refresh_services_def Let_def state_fine_def unavailable_fine)
  next
    case (Inr ss)
    with r have "length ss \<le> 512 \<and> (\<forall>v \<in> set ss. acceptable v)" using collect_services_fine by simp
    with r Inr assms show ?thesis
      by (auto simp: refresh_services_def Let_def state_fine_def available_fine acceptable_fine)
  qed
qed

lemma refresh_storage_fine:
  assumes "state_fine good st" and "\<not> is_zero (HostTime host)"
  shows "state_fine good (refresh_storage cfg host c st)"
proof (cases "collect_storage_health (HostFiles host) (HostRun host) (SmartctlPath cfg) (Opaque cfg) (BasePath cfg)
    (SmartDevices cfg) (HostTime host) (SMARTEnabled (Privacy c) \<and> SmartDevices cfg \<noteq> [])")
  case (Inl e)
  with assms(1) show ?thesis
    by (auto simp: refresh_storage_def Let_def state_fine_def unavailable_fine)
next
  case (Inr rs)
  from storage_health_form [OF this assms(2)] have rs: "length rs \<le> 64 \<and> (\<forall>r \<in> set rs. storage_form r)" .
  have d: "capability_fine (available ''read-only sysfs'')" "capability_fine (capability_of Disabled ''SMART disabled by server contract'')"
    "capability_fine (capability_of Unavailable ''no supported storage-health device found'')" by code_simp+
  show ?thesis
  proof (cases rs)
    case Nil
    with Inr assms(1) d show ?thesis by (simp add: refresh_storage_def Let_def state_fine_def)
  next
    case (Cons s ss)
    with Inr assms(1) rs d(1) show ?thesis by (simp add: refresh_storage_def Let_def state_fine_def)
  qed
qed

lemma gather_fine:
  assumes "state_fine good st" and "gather_containers cfg (Some (detail, collect_them)) c st = ((xs, cap), st')" and "length detail \<le> 256"
  shows "state_fine good st' \<and> length xs \<le> 128 \<and> (\<forall>x \<in> set xs. container_fine x) \<and> capability_fine cap"
proof (cases "ContainersEnabled (Privacy c)")
  case False
  moreover have "capability_fine (capability_of Disabled ''container discovery disabled by server contract'')" by code_simp
  ultimately show ?thesis using assms by (auto simp: gather_containers_def)
next
  case True
  have g: "good (linux_collector.ContainerState st)" using assms(1) by (simp add: state_fine_def)
  obtain r k where r: "collect_them (linux_collector.ContainerState st) = (r, k)" by fastforce
  have k: "good k" using keeps_good [OF g] r by simp
  show ?thesis
  proof (cases r)
    case (Inl e)
    have "capability_fine (capability_of (refusal_state (TextOf cfg e)) (take 256 (TextOf cfg e)))"
      by (simp add: capability_fine_def capability_of_def refusal_state_def)
    with assms(1,2) True r Inl k show ?thesis by (auto simp: gather_containers_def state_fine_def Let_def)
  next
    case (Inr ys)
    with gives_fine [OF g, of ys] r have "length ys \<le> 128 \<and> (\<forall>x \<in> set ys. container_fine x)" by simp
    with assms True r Inr k available_fine [of detail] show ?thesis by (auto simp: gather_containers_def state_fine_def)
  qed
qed

lemma linux_collect_fine:
  assumes "state_fine good st" and "\<not> is_zero (HostTime host)" and "length (ManagerDetail cfg) \<le> 256" and "length detail \<le> 256"
    and "linux_collect cfg (Some (detail, collect_them)) host c st = (r, st')"
  shows "state_fine good st' \<and> (\<exists>hb. r = Inr hb \<and> collection_fits hb \<and> length (Filesystems (HbMetrics hb)) \<le> 256)"
proof -
  let ?h = "HostFiles host"
  obtain uptime ucap where u: "from_file cfg ?h ''proc/uptime'' parse_uptime = (uptime, ucap)" by fastforce
  obtain load lcap where l: "from_file cfg ?h ''proc/loadavg'' parse_load_average = (load, lcap)" by fastforce
  obtain cpu ccap before where p: "collect_cpu cfg ?h (CpuBefore st) = (cpu, ccap, before)" by (metis prod_cases3)
  obtain memory mcap where m: "collect_memory cfg ?h = (memory, mcap)" by fastforce
  obtain fs fcap where f: "collect_filesystems cfg host = (fs, fcap)" by fastforce
  obtain ss scap where s: "collect_sensors cfg ?h = (ss, scap)" by fastforce
  obtain bs bcap where b: "collect_batteries cfg ?h = (bs, bcap)" by fastforce
  obtain gpus g where gp: "collect_aggregated_gpus ?h (Opaque cfg) (BasePath cfg) (Gpu st) = (gpus, g)" by fastforce
  define gcap where "gcap = (case gpus of Inl e \<Rightarrow> unavailable (TextOf cfg) e | Inr x \<Rightarrow> available ''read-only DRM sysfs'')"
  define st2 where "st2 = refresh_storage cfg host c (refresh_services cfg host c (st\<lparr>CpuBefore := before, Gpu := g\<rparr>))"
  obtain xs xcap st3 where k: "gather_containers cfg (Some (detail, collect_them)) c st2 = ((xs, xcap), st3)" by (metis surj_pair)
  have "state_fine good (st\<lparr>CpuBefore := before, Gpu := g\<rparr>)" using assms(1) by (simp add: state_fine_def)
  then have s2: "state_fine good st2"
    unfolding st2_def by (intro refresh_storage_fine refresh_services_fine assms(2,3))
  have s3: "state_fine good st3" and xs: "length xs \<le> 128" "\<forall>x \<in> set xs. container_fine x" and xc: "capability_fine xcap"
    using gather_fine [OF s2 k assms(4)] by simp_all
  have "capability_fine (available ''read-only DRM sysfs'')" by code_simp
  then have gc: "capability_fine gcap" by (auto simp: gcap_def unavailable_fine split: sum.splits)
  let ?us = "[(''host.uptime'', ucap), (''host.load'', lcap), (''host.cpu'', ccap), (''host.memory'', mcap),
    (''host.filesystems'', fcap), (''host.sensors'', scap), (''host.batteries'', bcap), (''host.gpu'', gcap)]"
  let ?caps = "set_capability ''containers'' xcap (given_capability ''storage.health'' (StorageCapability st2)
    (given_capability ''host.services'' (ServiceCapability st2) (fold (\<lambda>(k, c). set_capability k c) ?us
      (linux_capabilities (Some (detail, collect_them))))))"
  define final where "final = ?caps"
  have cs: "capability_fine ucap" "capability_fine lcap" "capability_fine ccap" "capability_fine mcap" "capability_fine fcap"
    "capability_fine scap" "capability_fine bcap"
    using from_file_fine [of cfg ?h "''proc/uptime''" parse_uptime] from_file_fine [of cfg ?h "''proc/loadavg''" parse_load_average]
      collect_cpu_fine [of cfg ?h "CpuBefore st"] collect_memory_fine [of cfg ?h] collect_filesystems_fine [of cfg host]
      collect_sensors_fine [of cfg ?h] collect_batteries_fine [of cfg ?h]
    by (simp_all only: u l p m f s b fst_conv snd_conv)
  have "\<forall>(k, c) \<in> set ?us. capability_name_pattern k \<and> capability_fine c"
    by (simp only: list.set ball_simps prod.case capability_names cs gc simp_thms)
  from capabilities_fine_fold [OF start_fine [OF assms(4)] this]
  have c1: "capabilities_fine (14 + length ?us) (fold (\<lambda>(k, c). set_capability k c) ?us (linux_capabilities (Some (detail, collect_them))))" .
  have sc: "\<forall>x \<in> set_option (ServiceCapability st2). capability_fine x" "\<forall>x \<in> set_option (StorageCapability st2). capability_fine x"
    using s2 unfolding state_fine_def by blast+
  from capabilities_fine_set [OF capabilities_fine_given [OF capabilities_fine_given [OF c1 capability_names(9) sc(1)] capability_names(10) sc(2)]
      capability_names(11) xc]
  have "capabilities_fine (Suc (Suc (Suc (14 + length ?us)))) ?caps" .
  then have "capabilities_fine (Suc (Suc (Suc (14 + length ?us)))) final" unfolding final_def .
  then have caps: "length final \<le> 64" "\<forall>c \<in> set final. check_capability c = Inr ()" by (simp_all add: capabilities_fine_def)
  have load: "load = None \<or> (\<exists>ys. load = Some ys \<and> length ys = 3)" by (metis l fst_conv load_file_three option.exhaust)
  have lengths: "length ss \<le> 256" "length bs \<le> 16"
    using collect_sensors_fine [of cfg ?h] collect_batteries_fine [of cfg ?h] by (simp_all only: s b fst_conv)
  let ?m = "\<lparr>UptimeSeconds = uptime, LoadAverage = (case load of None \<Rightarrow> [] | Some xs \<Rightarrow> xs), MSystem = collect_system cfg ?h,
    MCPU = cpu, MMemory = memory, Filesystems = fs, DiskIO = [], Network = [], MSensors = ss, Batteries = bs,
    MGPUs = (case gpus of Inl e \<Rightarrow> [] | Inr x \<Rightarrow> x)\<rparr>"
  let ?hb = "linux_heartbeat host final ?m (CachedServices st2) xs (CachedStorage st2)"
  have "linux_collect cfg (Some (detail, collect_them)) host c st = (Inr ?hb, st3\<lparr>CollectedBefore := HostTime host\<rparr>)"
    by (simp only: linux_collect_def Let_def u l p m f s b gp prod.case st2_def [symmetric] gcap_def [symmetric] k final_def)
  with assms(5) have r: "r = Inr ?hb" "st' = st3\<lparr>CollectedBefore := HostTime host\<rparr>" by (simp_all only: prod.inject)
  have fields: "LoadAverage ?m = [] \<or> length (LoadAverage ?m) = 3" "length (MSensors ?m) \<le> 256" "length (Batteries ?m) \<le> 16"
    "DiskIO ?m = []" "Network ?m = []"
    using load by (simp_all only: metrics.simps lengths) (auto split: option.splits)
  have "length fs \<le> 256" using collect_filesystems_length [of cfg host] by (simp only: f fst_conv)
  then have l256: "length (Filesystems (HbMetrics ?hb)) \<le> 256" by (simp add: linux_heartbeat_def)
  have kept: "length (CachedServices st2) \<le> 512" "\<forall>v \<in> set (CachedServices st2). service_fine v"
    "length (CachedStorage st2) \<le> 64" "\<forall>s \<in> set (CachedStorage st2). storage_form s"
    using s2 unfolding state_fine_def by blast+
  have "collection_fits ?hb"
    by (rule heartbeat_fits [OF kept(1,2) xs kept(3,4) caps fields])
  moreover have "state_fine good st'" using s3 by (simp add: r(2) state_fine_def)
  ultimately show ?thesis using r(1) l256 by blast
qed

end

text \<open>The container collector of the code keeps the contract, over every server and clock.\<close>

definition known_runtime :: "container_collector \<times> 'w \<Rightarrow> bool" where
  "known_runtime st \<longleftrightarrow> SourceRuntime (fst st) = ''docker'' \<or> SourceRuntime (fst st) = ''podman''"

interpretation runtime_source: container_provider "collect_containers srv clock" known_runtime for srv clock
proof unfold_locales
  fix k :: "container_collector \<times> 'a" and xs
  assume g: "known_runtime k"
  obtain c w where k: "k = (c, w)" by fastforce
  obtain r c' w' where r: "collect_containers srv clock (c, w) = (r, c', w')" by (metis prod_cases3)
  show "known_runtime (snd (collect_containers srv clock k))"
    using collect_containers_described(1) [OF r] g r k by (simp add: known_runtime_def)
  show "length xs \<le> 128 \<and> (\<forall>x \<in> set xs. container_fine x)" if "fst (collect_containers srv clock k) = Inr xs"
    using collect_containers_fine [of srv clock c w xs c' w'] that g r k by (simp add: known_runtime_def)
qed

section \<open>Runs\<close>

text \<open>Collections one after the other, each with the host as it is then and the contract in force.\<close>

fun linux_run :: "linux_config \<Rightarrow> 'c container_source \<Rightarrow> (linux_host \<times> contract) list \<Rightarrow> 'c linux_collector \<Rightarrow>
    heartbeat result list \<times> 'c linux_collector" where
  "linux_run cfg source [] st = ([], st)"
| "linux_run cfg source ((host, c) # steps) st = (case linux_collect cfg source host c st of
     (r, st') \<Rightarrow> (case linux_run cfg source steps st' of (rs, st'') \<Rightarrow> (r # rs, st'')))"

fun bsd_run :: "(bsd_host \<times> contract) list \<Rightarrow> bsd_collector \<Rightarrow> heartbeat result list \<times> bsd_collector" where
  "bsd_run [] st = ([], st)"
| "bsd_run ((h, c) # steps) st = (case bsd_collect h c st of
     (r, st') \<Rightarrow> (case bsd_run steps st' of (rs, st'') \<Rightarrow> (r # rs, st'')))"

lemma linux_run_fits:
  assumes "state_fine known_runtime st" and "\<forall>(host, k) \<in> set steps. \<not> is_zero (HostTime host)"
    and "length (ManagerDetail cfg) \<le> 256" and "length detail \<le> 256"
    and "linux_run cfg (Some (detail, collect_containers srv clock)) steps st = (rs, st')"
  shows "state_fine known_runtime st' \<and>
    (\<forall>r \<in> set rs. \<exists>hb. r = Inr hb \<and> collection_fits hb \<and> length (Filesystems (HbMetrics hb)) \<le> 256)"
  using assms(1,2,5)
proof (induction steps arbitrary: st rs)
  case (Cons step steps)
  obtain host k where s: "step = (host, k)" by fastforce
  obtain r st1 where r: "linux_collect cfg (Some (detail, collect_containers srv clock)) host k st = (r, st1)" by fastforce
  obtain rs' where rs: "linux_run cfg (Some (detail, collect_containers srv clock)) steps st1 = (rs', st')" "rs = r # rs'"
    using Cons.prems(3) r s by (auto split: prod.splits)
  have t: "\<not> is_zero (HostTime host)" using Cons.prems(2) s by simp
  from runtime_source.linux_collect_fine [OF Cons.prems(1) t assms(3,4) r]
  have "state_fine known_runtime st1" "\<exists>hb. r = Inr hb \<and> collection_fits hb \<and> length (Filesystems (HbMetrics hb)) \<le> 256" by blast+
  with Cons.IH [OF _ _ rs(1)] Cons.prems(2) rs(2) show ?case by simp
qed simp

section \<open>FreeBSD\<close>

definition bsd_fine :: "bsd_collector \<Rightarrow> bool" where
  "bsd_fine st \<longleftrightarrow> length (BsdServices st) \<le> 512 \<and> (\<forall>v \<in> set (BsdServices st). service_fine v) \<and>
     (\<forall>x \<in> set_option (BsdServiceState st). capability_fine x)"

lemma bsd_services_fine: "bsd_fine st \<Longrightarrow> bsd_fine (bsd_refresh_services h c st)"
proof (cases "rcd_collect (BsdRun h) (BsdExpired h)")
  case (Inl e)
  assume "bsd_fine st"
  with Inl show ?thesis by (auto simp: bsd_refresh_services_def bsd_fine_def Let_def unavailable_fine)
next
  case (Inr ss)
  assume "bsd_fine st"
  moreover have "length ss \<le> 512 \<and> (\<forall>v \<in> set ss. acceptable v)" using rcd_collect_fine [OF Inr] by blast
  moreover have "capability_fine (available ''FreeBSD rc.d; process resource fields may be unavailable'')" by code_simp
  ultimately show ?thesis using Inr acceptable_fine by (auto simp: bsd_refresh_services_def bsd_fine_def Let_def)
qed

definition changes_fine :: "capability_changes \<Rightarrow> bool" where
  "changes_fine us \<longleftrightarrow> length us \<le> 2 \<and> (\<forall>(k, c) \<in> set us. capability_name_pattern k \<and> capability_fine c)"

lemma bsd_texts_fine:
  "capability_fine (available ''df; mount metadata unavailable'')" "capability_fine (available ''df and mount'')"
  "capability_fine (available ''read-only FreeBSD sysctl'')" "capability_fine (available ''read-only FreeBSD ACPI sysctl'')"
  "capability_fine (available ''sanitized FreeBSD pciconf inventory'')"
  "capability_fine (available ''sanitized FreeBSD GEOM inventory; identifiers omitted'')"
  by code_simp+

lemma bsd_load_three: "parse_load v = Inr xs \<Longrightarrow> length xs = 3"
  by (auto simp: parse_load_def Let_def dest!: those_length split: if_splits option.splits)

lemma changes_fine_none: "changes_fine []"
  by (simp add: changes_fine_def)

lemma changes_fine_one: "capability_name_pattern k \<Longrightarrow> capability_fine c \<Longrightarrow> changes_fine [(k, c)]"
  by (simp add: changes_fine_def)

lemma changes_fine_two:
  "capability_name_pattern j \<Longrightarrow> capability_fine b \<Longrightarrow> capability_name_pattern k \<Longrightarrow> capability_fine c \<Longrightarrow>
   changes_fine ((if p then [(j, b)] else []) @ (if q then [(k, c)] else []))"
  by (simp add: changes_fine_def)

lemma bsd_system_fine:
  assumes "bsd_system h m = (system, uptime, load, us)"
  shows "changes_fine us" and "load = [] \<or> length load = 3"
proof -
  show "load = [] \<or> length load = 3"
    using assms bsd_load_three [of "value_of m ''vm.loadavg''"]
    by (cases "parse_load (value_of m ''vm.loadavg'')") (auto simp: bsd_system_def Let_def)
  have "us = (if uptime = None then [(''host.uptime'', bsd_unavailable ''FreeBSD boot time is unavailable'')] else [])
      @ (case parse_load (value_of m ''vm.loadavg'') of Inl e \<Rightarrow> [(''host.load'', bsd_unavailable (BsdText h e))] | Inr xs \<Rightarrow> [])"
    using assms by (simp only: bsd_system_def Let_def prod.inject) (elim conjE, hypsubst, rule refl)
  then show "changes_fine us"
    using changes_fine_two [OF capability_names(1) unavailable_fine(2) capability_names(2) unavailable_fine(2), where q = True]
      changes_fine_two [OF capability_names(1) unavailable_fine(2) capability_names(2) unavailable_fine(2), where q = False]
    by (cases "parse_load (value_of m ''vm.loadavg'')") (simp_all only: sum.case if_True if_False)
qed

lemma bsd_cpu_fine:
  assumes "bsd_collect_cpu h m st = (cpu, us, st')"
  shows "changes_fine us" and "bsd_fine st \<Longrightarrow> bsd_fine st'"
  using assms changes_fine_none changes_fine_one [OF capability_names(3) unavailable_fine(2)]
  by (auto simp: bsd_collect_cpu_def Let_def bsd_fine_def split: sum.splits)

lemma bsd_static_fine:
  assumes "bsd_collect_static h st = (static, us, st')"
  shows "changes_fine us" and "bsd_fine st \<Longrightarrow> bsd_fine st'"
proof -
  have "us = (if get static ''pciDevices'' \<noteq> None then [(''host.pci'', available ''sanitized FreeBSD pciconf inventory'')] else [])
      @ (if get static ''storageDevices'' \<noteq> None
         then [(''host.storage-inventory'', available ''sanitized FreeBSD GEOM inventory; identifiers omitted'')] else [])"
    using assms by (simp only: bsd_collect_static_def Let_def prod.inject) blast
  then show "changes_fine us"
    by (simp only: changes_fine_two [OF capability_names(12) bsd_texts_fine(5) capability_names(13) bsd_texts_fine(6)])
  show "bsd_fine st \<Longrightarrow> bsd_fine st'" using assms by (auto simp: bsd_collect_static_def Let_def bsd_fine_def)
qed

lemma bsd_memory_fine: "changes_fine (snd (bsd_collect_memory h m))"
  using changes_fine_none changes_fine_one [OF capability_names(4) unavailable_fine(2)]
  by (auto simp: bsd_collect_memory_def split: sum.splits)

lemma bsd_filesystems_fine: "changes_fine (snd (bsd_collect_filesystems h))"
proof -
  note one = changes_fine_one [OF capability_names(5)]
  show ?thesis
    using one [OF unavailable_fine(2)] one [OF bsd_texts_fine(1)] one [OF bsd_texts_fine(2)]
    by (auto simp: bsd_collect_filesystems_def Let_def split: prod.splits option.splits)
qed

lemma bsd_sensors_fine:
  "changes_fine (snd (bsd_collect_sensors h m)) \<and> length (fst (bsd_collect_sensors h m)) \<le> 256"
  using changes_fine_none changes_fine_one [OF capability_names(6) bsd_texts_fine(3)]
  by (simp add: bsd_collect_sensors_def Let_def)

lemma bsd_battery_fine: "changes_fine (snd (bsd_collect_battery h)) \<and> length (fst (bsd_collect_battery h)) \<le> 16"
  using changes_fine_none changes_fine_one [OF capability_names(7) bsd_texts_fine(4)]
  by (auto simp: bsd_collect_battery_def Let_def split: option.splits)

lemma fold_fine:
  assumes "capabilities_fine n cs" and "\<forall>us \<in> set uss. changes_fine us"
  shows "capabilities_fine (n + 2 * length uss) (fold (\<lambda>(k, c). set_capability k c) (concat uss) cs)"
  using assms
proof (induction uss arbitrary: n cs)
  case (Cons us uss)
  from capabilities_fine_fold [OF Cons.prems(1), of us] Cons.prems(2)
  have "capabilities_fine (n + length us) (fold (\<lambda>(k, c). set_capability k c) us cs)" by (simp add: changes_fine_def)
  then have "capabilities_fine (n + 2) (fold (\<lambda>(k, c). set_capability k c) us cs)"
    using Cons.prems(2) by (auto simp: capabilities_fine_def changes_fine_def)
  from Cons.IH [OF this] Cons.prems(2) show ?case by simp
qed simp

lemma bsd_start_fine: "capabilities_fine 17 bsd_capabilities"
proof -
  have "length bsd_capabilities = 17" "\<forall>c \<in> set bsd_capabilities. check_capability c = Inr ()" by code_simp+
  then show ?thesis by (simp only: capabilities_fine_def) simp
qed

lemma bsd_heartbeat_fits:
  assumes "bsd_fine st" and "length caps \<le> 64" and "\<forall>c \<in> set caps. check_capability c = Inr ()"
    and "LoadAverage m = [] \<or> length (LoadAverage m) = 3" and "length (MSensors m) \<le> 256" and "length (Batteries m) \<le> 16"
    and "DiskIO m = []" and "Network m = []"
  shows "collection_fits (bsd_heartbeat h caps m (BsdServices st))"
  using assms by (simp add: collection_fits_def bsd_heartbeat_def bsd_fine_def)

lemma bsd_collect_fits:
  assumes "bsd_fine st" and "bsd_collect h c st = (r, st')"
  shows "bsd_fine st' \<and> (\<forall>hb. r = Inr hb \<longrightarrow> collection_fits hb \<and> MGPUs (HbMetrics hb) = [])"
proof -
  define m where "m = parse_sysctl (fst (BsdRun h ''/sbin/sysctl'' core_sysctl_keys))"
  show ?thesis
  proof (cases "m = []")
    case True
    with assms show ?thesis by (auto simp: bsd_collect_def m_def Let_def)
  next
    case False
    obtain system uptime load us1 where s: "bsd_system h m = (system, uptime, load, us1)" by (metis prod_cases4)
    obtain static us2 st1 where k: "bsd_collect_static h st = (static, us2, st1)" by (metis prod_cases3)
    obtain cpu us3 st2 where p: "bsd_collect_cpu h m st1 = (cpu, us3, st2)" by (metis prod_cases3)
    obtain memory us4 where e: "bsd_collect_memory h m = (memory, us4)" by fastforce
    obtain fs us5 where f: "bsd_collect_filesystems h = (fs, us5)" by fastforce
    obtain ss us6 where n: "bsd_collect_sensors h m = (ss, us6)" by fastforce
    obtain bs us7 where b: "bsd_collect_battery h = (bs, us7)" by fastforce
    define st3 where "st3 = bsd_refresh_services h c st2"
    have fine: "bsd_fine st3"
      unfolding st3_def using assms(1) bsd_static_fine(2) [OF k] bsd_cpu_fine(2) [OF p] by (intro bsd_services_fine) simp
    let ?uss = "[us1, us2, us3, us4, us5, us6, us7]"
    have us: "\<forall>us \<in> set ?uss. changes_fine us"
      using bsd_system_fine(1) [OF s] bsd_static_fine(1) [OF k] bsd_cpu_fine(1) [OF p] bsd_memory_fine [of h m]
        bsd_filesystems_fine [of h] bsd_sensors_fine [of h m] bsd_battery_fine [of h] e f n b by simp
    define caps where "caps = fold (\<lambda>(k, x). set_capability k x) (us1 @ us2 @ us3 @ us4 @ us5 @ us6 @ us7) bsd_capabilities"
    have "caps = fold (\<lambda>(k, x). set_capability k x) (concat ?uss) bsd_capabilities" by (simp add: caps_def)
    with fold_fine [OF bsd_start_fine us] have "capabilities_fine (17 + 2 * length ?uss) caps" by simp
    then have c1: "capabilities_fine 31 caps" by simp
    have "\<forall>x \<in> set_option (BsdServiceState st3). capability_fine x" using fine unfolding bsd_fine_def by blast
    from capabilities_fine_given [OF c1 capability_names(9) this]
    have c2: "length (given_capability ''host.services'' (BsdServiceState st3) caps) \<le> 64"
      "\<forall>c \<in> set (given_capability ''host.services'' (BsdServiceState st3) caps). check_capability c = Inr ()"
      by (simp_all add: capabilities_fine_def)
    let ?m = "\<lparr>UptimeSeconds = uptime, LoadAverage = load, MSystem = fold (\<lambda>(k, v). AList.update k v) static system, MCPU = cpu,
      MMemory = memory, Filesystems = fs, DiskIO = [], Network = [], MSensors = ss, Batteries = bs, MGPUs = []\<rparr>"
    have "bsd_collect h c st = (Inr (bsd_heartbeat h (given_capability ''host.services'' (BsdServiceState st3) caps) ?m (BsdServices st3)),
        st3\<lparr>BsdBefore := BsdTime h\<rparr>)"
      using False
      by (simp only: bsd_collect_def Let_def m_def [symmetric] if_False s k p e f n b prod.case st3_def [symmetric] caps_def [symmetric])
    with assms(2) have r: "r = Inr (bsd_heartbeat h (given_capability ''host.services'' (BsdServiceState st3) caps) ?m (BsdServices st3))"
      "st' = st3\<lparr>BsdBefore := BsdTime h\<rparr>" by simp_all
    have "LoadAverage ?m = [] \<or> length (LoadAverage ?m) = 3" "length (MSensors ?m) \<le> 256" "length (Batteries ?m) \<le> 16"
      "DiskIO ?m = []" "Network ?m = []"
      using bsd_system_fine(2) [OF s] bsd_sensors_fine [of h m] bsd_battery_fine [of h] n b by simp_all
    from bsd_heartbeat_fits [OF fine c2 this] r fine show ?thesis by (auto simp: bsd_fine_def bsd_heartbeat_def)
  qed
qed

lemma bsd_run_fits:
  assumes "bsd_fine st" and "bsd_run steps st = (rs, st')"
  shows "bsd_fine st' \<and> (\<forall>hb. Inr hb \<in> set rs \<longrightarrow> collection_fits hb \<and> MGPUs (HbMetrics hb) = [])"
  using assms
proof (induction steps arbitrary: st rs)
  case (Cons step steps)
  obtain h c where s: "step = (h, c)" by fastforce
  obtain r st1 where r: "bsd_collect h c st = (r, st1)" by fastforce
  obtain rs' where rs: "bsd_run steps st1 = (rs', st')" "rs = r # rs'" using Cons.prems(2) r s by (auto split: prod.splits)
  from bsd_collect_fits [OF Cons.prems(1) r] Cons.IH [OF _ rs(1)] rs(2) show ?case by auto
qed simp

lemma new_bsd_fine: "bsd_fine new_bsd_collector"
  by (simp add: bsd_fine_def new_bsd_collector_def)

lemma container_detail_short: "known_runtime (c, w) \<Longrightarrow> length (container_detail c) \<le> 256"
  by (auto simp: known_runtime_def container_detail_def)


text \<open>A host without files, commands that fail, and the sample runtime.\<close>

definition empty_files :: host_files where
  "empty_files = \<lparr>FileBody = (\<lambda>p. Inl NotExist), DirItems = (\<lambda>p. Inl NotExist), LinkInfo = (\<lambda>p. None), PathInfo = (\<lambda>p. None)\<rparr>"

definition empty_host :: linux_host where
  "empty_host = \<lparr>HostFiles = empty_files, HostRun = (\<lambda>n args. ([], Some NotExist)), Statfs = (\<lambda>p. None), HostTime = 10 ^ 9, HostName = ''h''\<rparr>"

fun plain_text :: "error \<Rightarrow> string" where
  "plain_text (Msg t) = t"
| "plain_text _ = ''error''"

definition empty_config :: linux_config where
  "empty_config = \<lparr>BasePath = ''/'', Architecture = ''amd64'', Opaque = (\<lambda>a b. b), ServiceManager = UseSystemd,
     ManagerName = ''systemd'', ManagerDetail = ''systemd'', SmartDevices = [], SmartctlPath = [], TextOf = plain_text\<rparr>"


end
