(* ===== verification/Collector_Schedule.thy ===== *)
theory Collector_Schedule
  imports Collector_Rules
begin

text \<open>
  The state of the Linux collector between heartbeats: services and storage health are collected once per
  interval and stand until then, and what the container runtime refuses is reported as blocked.
\<close>

section \<open>What a collection leaves alone\<close>

definition service_part :: "'c linux_collector \<Rightarrow> systemd \<times> time \<times> service list \<times> capability option" where
  "service_part st = (SystemdState st, LastServicesAt st, CachedServices st, ServiceCapability st)"

definition storage_part :: "'c linux_collector \<Rightarrow> time \<times> storage_health list \<times> capability option" where
  "storage_part st = (LastStorageAt st, CachedStorage st, StorageCapability st)"

lemma refresh_services_parts:
  "service_part (refresh_services cfg host c (st\<lparr>CpuBefore := b, Gpu := g\<rparr>)) = service_part (refresh_services cfg host c st)"
  "storage_part (refresh_services cfg host c st) = storage_part st"
  by (simp_all add: refresh_services_def service_part_def storage_part_def Let_def split: prod.splits sum.splits)

lemma storage_part_cpu: "storage_part (st\<lparr>CpuBefore := b, Gpu := g\<rparr>) = storage_part st"
  by (simp add: storage_part_def)

lemma refresh_storage_services: "service_part (refresh_storage cfg host c st) = service_part st"
  by (simp add: refresh_storage_def service_part_def Let_def split: sum.splits list.splits)

lemma refresh_storage_storage:
  "storage_part st = storage_part st' \<Longrightarrow> storage_part (refresh_storage cfg host c st) = storage_part (refresh_storage cfg host c st')"
  by (simp add: refresh_storage_def storage_part_def Let_def split: sum.splits list.splits)

lemma gather_parts:
  assumes "gather_containers cfg source c st = (x, st')"
  shows "service_part st' = service_part st" and "storage_part st' = storage_part st"
  using assms
  by (auto simp: gather_containers_def service_part_def storage_part_def Let_def split: option.splits if_splits prod.splits sum.splits)

section \<open>What a heartbeat is made of\<close>

text \<open>The measurements of the host in one collection, each collector on its own files.\<close>

definition host_metrics :: "linux_config \<Rightarrow> linux_host \<Rightarrow> 'c linux_collector \<Rightarrow> metrics" where
  "host_metrics cfg host st =
     (let h = HostFiles host in
      \<lparr>UptimeSeconds = fst (from_file cfg h ''proc/uptime'' parse_uptime),
       LoadAverage = (case fst (from_file cfg h ''proc/loadavg'' parse_load_average) of None \<Rightarrow> [] | Some xs \<Rightarrow> xs),
       MSystem = collect_system cfg h, MCPU = fst (collect_cpu cfg h (CpuBefore st)), MMemory = fst (collect_memory cfg h),
       Filesystems = fst (collect_filesystems cfg host), DiskIO = [], Network = [],
       MSensors = fst (collect_sensors cfg h), Batteries = fst (collect_batteries cfg h),
       MGPUs = (case fst (collect_aggregated_gpus h (Opaque cfg) (BasePath cfg) (Gpu st)) of Inl e \<Rightarrow> [] | Inr x \<Rightarrow> x)\<rparr>)"

definition after_refresh :: "linux_config \<Rightarrow> linux_host \<Rightarrow> contract \<Rightarrow> 'c linux_collector \<Rightarrow> 'c linux_collector" where
  "after_refresh cfg host c st =
     (let h = HostFiles host in
      refresh_storage cfg host c (refresh_services cfg host c
        (st\<lparr>CpuBefore := snd (snd (collect_cpu cfg h (CpuBefore st))),
            Gpu := snd (collect_aggregated_gpus h (Opaque cfg) (BasePath cfg) (Gpu st))\<rparr>)))"

definition host_capabilities :: "linux_config \<Rightarrow> 'c container_source \<Rightarrow> linux_host \<Rightarrow> contract \<Rightarrow> 'c linux_collector \<Rightarrow> capabilities" where
  "host_capabilities cfg source host c st =
     (let h = HostFiles host; st2 = after_refresh cfg host c st in
      given_capability ''storage.health'' (StorageCapability st2) (given_capability ''host.services'' (ServiceCapability st2)
        (fold (\<lambda>(k, x). set_capability k x)
          [(''host.uptime'', snd (from_file cfg h ''proc/uptime'' parse_uptime)),
           (''host.load'', snd (from_file cfg h ''proc/loadavg'' parse_load_average)),
           (''host.cpu'', fst (snd (collect_cpu cfg h (CpuBefore st)))), (''host.memory'', snd (collect_memory cfg h)),
           (''host.filesystems'', snd (collect_filesystems cfg host)), (''host.sensors'', snd (collect_sensors cfg h)),
           (''host.batteries'', snd (collect_batteries cfg h)),
           (''host.gpu'', case fst (collect_aggregated_gpus h (Opaque cfg) (BasePath cfg) (Gpu st)) of
              Inl e \<Rightarrow> unavailable (TextOf cfg) e | Inr x \<Rightarrow> available ''read-only DRM sysfs'')]
          (linux_capabilities source))))"

lemma linux_collect_shape:
  assumes "gather_containers cfg source c (after_refresh cfg host c st) = ((xs, cap), st3)"
  shows "linux_collect cfg source host c st =
    (Inr (linux_heartbeat host (set_capability ''containers'' cap (host_capabilities cfg source host c st)) (host_metrics cfg host st)
        (CachedServices (after_refresh cfg host c st)) xs (CachedStorage (after_refresh cfg host c st))),
     st3\<lparr>CollectedBefore := HostTime host\<rparr>)"
proof -
  let ?h = "HostFiles host"
  obtain uptime ucap where u: "from_file cfg ?h ''proc/uptime'' parse_uptime = (uptime, ucap)" by fastforce
  obtain load lcap where l: "from_file cfg ?h ''proc/loadavg'' parse_load_average = (load, lcap)" by fastforce
  obtain cpu ccap before where p: "collect_cpu cfg ?h (CpuBefore st) = (cpu, ccap, before)" by (metis prod_cases3)
  obtain memory mcap where m: "collect_memory cfg ?h = (memory, mcap)" by fastforce
  obtain fs fcap where f: "collect_filesystems cfg host = (fs, fcap)" by fastforce
  obtain ss scap where s: "collect_sensors cfg ?h = (ss, scap)" by fastforce
  obtain bs bcap where b: "collect_batteries cfg ?h = (bs, bcap)" by fastforce
  obtain gpus g where gp: "collect_aggregated_gpus ?h (Opaque cfg) (BasePath cfg) (Gpu st) = (gpus, g)" by fastforce
  have r: "refresh_storage cfg host c (refresh_services cfg host c (st\<lparr>CpuBefore := before, Gpu := g\<rparr>)) = after_refresh cfg host c st"
    by (simp only: after_refresh_def Let_def p gp snd_conv)
  show ?thesis
    by (simp only: linux_collect_def host_metrics_def host_capabilities_def Let_def u l p m f s b gp prod.case fst_conv snd_conv r assms)
qed

lemma after_refresh_parts:
  "service_part (after_refresh cfg host c st) = service_part (refresh_services cfg host c st)"
  "storage_part (after_refresh cfg host c st) = storage_part (refresh_storage cfg host c st)"
  unfolding after_refresh_def Let_def refresh_storage_services refresh_services_parts(1)
  by (rule refl, rule refresh_storage_storage) (simp only: refresh_services_parts(2) storage_part_cpu)

lemma linux_collect_parts:
  assumes "linux_collect cfg source host c st = (r, st')"
  shows "service_part st' = service_part (refresh_services cfg host c st)"
    and "storage_part st' = storage_part (refresh_storage cfg host c st)"
proof -
  obtain xs cap st3 where k: "gather_containers cfg source c (after_refresh cfg host c st) = ((xs, cap), st3)" by (metis surj_pair)
  have st': "st' = st3\<lparr>CollectedBefore := HostTime host\<rparr>" using linux_collect_shape [OF k] assms by simp
  then have "service_part st' = service_part st3" "storage_part st' = storage_part st3"
    by (simp_all add: service_part_def storage_part_def)
  note e = this gather_parts [OF k] after_refresh_parts
  show "service_part st' = service_part (refresh_services cfg host c st)" unfolding e ..
  show "storage_part st' = storage_part (refresh_storage cfg host c st)" unfolding e ..
qed

lemma map_of_set_capability: "map_of (set_capability k x cs) = (map_of cs)(k \<mapsto> x)"
  by (simp add: set_capability_def update_conv')

lemma map_of_given: "map_of (given_capability k x cs) = (case x of None \<Rightarrow> map_of cs | Some y \<Rightarrow> (map_of cs)(k \<mapsto> y))"
  by (simp add: given_capability_def map_of_set_capability split: option.splits)

text \<open>A heartbeat reports the services and the storage health that are remembered after its collection.\<close>

definition reports :: "'c linux_collector \<Rightarrow> heartbeat result \<Rightarrow> bool" where
  "reports st x \<longleftrightarrow> (\<exists>hb. x = Inr hb \<and> HbServices hb = take 512 (CachedServices st) \<and> HbStorage hb = take 64 (CachedStorage st) \<and>
     (\<forall>cap. ServiceCapability st = Some cap \<longrightarrow> map_of (Capabilities hb) ''host.services'' = Some cap) \<and>
     (\<forall>cap. StorageCapability st = Some cap \<longrightarrow> map_of (Capabilities hb) ''storage.health'' = Some cap))"

lemma linux_collect_reports:
  assumes "linux_collect cfg source host c st = (r, st')"
  shows "reports st' r"
proof -
  define st2 where "st2 = after_refresh cfg host c st"
  obtain xs cap st3 where k: "gather_containers cfg source c st2 = ((xs, cap), st3)" by (metis surj_pair)
  let ?hb = "linux_heartbeat host (set_capability ''containers'' cap (host_capabilities cfg source host c st)) (host_metrics cfg host st)
        (CachedServices st2) xs (CachedStorage st2)"
  have r: "r = Inr ?hb" "st' = st3\<lparr>CollectedBefore := HostTime host\<rparr>"
    using linux_collect_shape [OF k [unfolded st2_def]] assms unfolding st2_def by simp_all
  have p: "service_part st' = service_part st2" "storage_part st' = storage_part st2"
    using gather_parts [OF k] by (simp_all add: r(2) service_part_def storage_part_def)
  have "map_of (Capabilities ?hb) ''host.services'' = Some x" if "ServiceCapability st2 = Some x" for x
    using that by (simp add: linux_heartbeat_def map_of_set_capability host_capabilities_def Let_def map_of_given st2_def split: option.splits)
  moreover have "map_of (Capabilities ?hb) ''storage.health'' = Some x" if "StorageCapability st2 = Some x" for x
    using that by (simp add: linux_heartbeat_def map_of_set_capability host_capabilities_def Let_def map_of_given st2_def)
  ultimately show ?thesis using p by (simp add: reports_def r(1) linux_heartbeat_def service_part_def storage_part_def)
qed

lemma reports_cong: "service_part st = service_part st' \<Longrightarrow> storage_part st = storage_part st' \<Longrightarrow> reports st = reports st'"
  by (simp add: fun_eq_iff reports_def service_part_def storage_part_def)

section \<open>Intervals\<close>

text \<open>An interval has passed when nothing was noted before, or when that many seconds lie between.\<close>

definition passed :: "int \<Rightarrow> time \<Rightarrow> time \<Rightarrow> bool" where
  "passed seconds before now \<longleftrightarrow> is_zero before \<or> seconds * 10 ^ 9 \<le> time_sub now before"

definition services_due :: "linux_host \<times> contract \<Rightarrow> time \<Rightarrow> bool" where
  "services_due step before \<longleftrightarrow> (let s = ServiceIntervalSeconds (Collection (snd step)) in
     passed (if s \<le> 0 then 600 else s) before (HostTime (fst step)))"

definition storage_due :: "linux_host \<times> contract \<Rightarrow> time \<Rightarrow> bool" where
  "storage_due step before \<longleftrightarrow> (let s = StorageHealthIntervalSeconds (Collection (snd step)) in
     passed (if s \<le> 0 then 3600 else s) before (HostTime (fst step)))"

lemma due_passed: "due s dflt before now \<longleftrightarrow> passed (if s \<le> 0 then dflt else s) before now"
  by (simp add: due_def passed_def)

lemma not_due_stays:
  "\<not> services_due (host, c) (LastServicesAt st) \<Longrightarrow> refresh_services cfg host c st = st"
  "\<not> storage_due (host, c) (LastStorageAt st) \<Longrightarrow> refresh_storage cfg host c st = st"
  by (simp_all add: refresh_services_def refresh_storage_def services_due_def storage_due_def Let_def due_passed)

text \<open>While nothing is due, what is remembered stands and every heartbeat reports it.\<close>

lemma run_between:
  assumes "\<forall>step \<in> set steps. \<not> services_due step (LastServicesAt st) \<and> \<not> storage_due step (LastStorageAt st)"
    and "linux_run cfg source steps st = (rs, st'')"
  shows "service_part st'' = service_part st \<and> storage_part st'' = storage_part st \<and> length rs = length steps \<and>
    (\<forall>x \<in> set rs. reports st x)"
  using assms
proof (induction steps arbitrary: st rs)
  case (Cons step steps)
  obtain host c where s: "step = (host, c)" by fastforce
  obtain r st' where r: "linux_collect cfg source host c st = (r, st')" by fastforce
  obtain rs' where rs: "linux_run cfg source steps st' = (rs', st'')" "rs = r # rs'"
    using Cons.prems(2) r s by (auto split: prod.splits)
  have nd: "\<not> services_due (host, c) (LastServicesAt st)" "\<not> storage_due (host, c) (LastStorageAt st)" using Cons.prems(1) s by simp_all
  have p: "service_part st' = service_part st" "storage_part st' = storage_part st"
    using linux_collect_parts [OF r] unfolding not_due_stays(1) [OF nd(1)] not_due_stays(2) [OF nd(2)] .
  then have "LastServicesAt st' = LastServicesAt st" "LastStorageAt st' = LastStorageAt st" by (simp_all add: service_part_def storage_part_def)
  with Cons.IH [OF _ rs(1)] Cons.prems(1) p reports_cong [OF p] linux_collect_reports [OF r] rs(2) show ?case by simp
qed simp

text \<open>A due collection is noted at once, and values are replaced only by values that were collected.\<close>

definition found_services :: "linux_config \<Rightarrow> linux_host \<Rightarrow> 'c linux_collector \<Rightarrow> service list result" where
  "found_services cfg host st =
     fst (collect_services (HostFiles host) (HostRun host) (BasePath cfg) (HostTime host) (ServiceManager cfg) (SystemdState st))"

definition found_storage :: "linux_config \<Rightarrow> linux_host \<Rightarrow> contract \<Rightarrow> storage_health list result" where
  "found_storage cfg host c = collect_storage_health (HostFiles host) (HostRun host) (SmartctlPath cfg) (Opaque cfg) (BasePath cfg)
     (SmartDevices cfg) (HostTime host) (SMARTEnabled (Privacy c) \<and> SmartDevices cfg \<noteq> [])"

lemma due_services_noted:
  assumes "services_due (host, c) (LastServicesAt st)"
  shows "LastServicesAt (refresh_services cfg host c st) = HostTime host"
    and "CachedServices (refresh_services cfg host c st) =
      (case found_services cfg host st of Inl e \<Rightarrow> CachedServices st | Inr ss \<Rightarrow> map (\<lambda>v. v\<lparr>Manager := ManagerName cfg\<rparr>) ss)"
    and "ServiceCapability (refresh_services cfg host c st) = Some
      (case found_services cfg host st of Inl e \<Rightarrow> unavailable (TextOf cfg) e | Inr ss \<Rightarrow> available (ManagerDetail cfg))"
  using assms
  by (auto simp: refresh_services_def services_due_def Let_def due_passed found_services_def split: prod.splits sum.splits)

lemma due_storage_noted:
  assumes "storage_due (host, c) (LastStorageAt st)"
  shows "LastStorageAt (refresh_storage cfg host c st) = HostTime host"
    and "CachedStorage (refresh_storage cfg host c st) = (case found_storage cfg host c of Inl e \<Rightarrow> CachedStorage st | Inr xs \<Rightarrow> xs)"
    and "found_storage cfg host c = Inl e \<Longrightarrow> StorageCapability (refresh_storage cfg host c st) = Some (unavailable (TextOf cfg) e)"
    and "found_storage cfg host c = Inr (x # xs) \<Longrightarrow>
      StorageCapability (refresh_storage cfg host c st) = Some (available ''read-only sysfs'')"
  using assms by (auto simp: refresh_storage_def storage_due_def Let_def due_passed found_storage_def split: sum.splits list.splits)



section \<open>A runtime that denies access\<close>

definition denies :: "'w server \<Rightarrow> bool" where
  "denies srv \<longleftrightarrow> (\<forall>q w. \<exists>resp w'. srv q w = (Inr resp, w') \<and> (StatusCode resp = 401 \<or> StatusCode resp = 403))"

lemma denied_texts:
  "access_denied 401 = Msg ''container runtime access denied with HTTP 401''"
  "access_denied 403 = Msg ''container runtime access denied with HTTP 403''"
  "refusal_state ''container runtime access denied with HTTP 401'' = PermissionBlocked"
  "refusal_state ''container runtime access denied with HTTP 403'' = PermissionBlocked"
  by code_simp+

lemma denied_read:
  assumes "StatusCode r = 401 \<or> StatusCode r = 403"
  shows "read_runtime decode r = Inl (access_denied (StatusCode r))"
proof -
  have "StatusCode r \<noteq> 200" "StatusCode r = 403 \<or> StatusCode r = 401" using assms by auto
  then show ?thesis by (simp only: read_runtime_def if_True if_False not_False_eq_True)
qed

lemma denied_get:
  assumes "denies srv"
  shows "\<exists>s w'. (s = 401 \<or> s = 403) \<and> get_json srv decode c path w = (Inl (access_denied s), w')"
proof -
  define q where "q = (get_request (BaseUrl c @ path))\<lparr>Headers := [(''Accept'', ''application/json'')]\<rparr>"
  from assms have "\<exists>resp w'. srv q w = (Inr resp, w') \<and> (StatusCode resp = 401 \<or> StatusCode resp = 403)"
    unfolding denies_def by (elim allE)
  then obtain resp w' where r: "srv q w = (Inr resp, w')" "StatusCode resp = 401 \<or> StatusCode resp = 403" by (elim exE conjE)
  have "get_json srv decode c path w = (read_runtime decode resp, w')"
    unfolding get_json_def q_def [symmetric] bind_io_def r(1) by (simp only: prod.case sum.case)
  then show ?thesis unfolding denied_read [OF r(2)] using r(2) by (intro exI conjI)
qed

lemma denied_runtime_json:
  assumes "denies srv"
  shows "\<exists>s st'. (s = 401 \<or> s = 403) \<and> get_runtime_json srv decode path st = (Inl (access_denied s), st')"
proof -
  obtain p c w where f: "resolve_api_prefix srv st = (p, c, w)" by (metis prod_cases3)
  obtain s w' where g: "s = 401 \<or> s = 403" "get_json srv decode c (p @ path) w = (Inl (access_denied s), w')"
    using denied_get [OF assms, of decode c "p @ path" w] by (elim exE conjE)
  have "\<not> version_mismatch (access_denied s)" by (simp only: version_mismatch_def access_denied_def error.case not_False_eq_True)
  then have "get_runtime_json srv decode path st = (Inl (access_denied s), c, w')"
    by (simp only: get_runtime_json_def f g(2) prod.case sum.case simp_thms if_True)
  with g(1) show ?thesis by blast
qed

lemma denied_collection:
  assumes "denies srv"
  shows "\<exists>s st'. (s = 401 \<or> s = 403) \<and> collect_containers srv clock st = (Inl (access_denied s), st')"
proof -
  obtain s st' where g: "s = 401 \<or> s = 403"
    "get_runtime_json srv decode_listing ''/containers/json?all=0'' st = (Inl (access_denied s), st')"
    using denied_runtime_json [OF assms] by metis
  have "collect_containers srv clock st = (Inl (access_denied s), st')"
    by (simp only: collect_containers_def g(2) prod.case sum.case)
  with g(1) show ?thesis by blast
qed

text \<open>The capabilities of everything but the containers do not depend on the container runtime.\<close>

lemma linux_capabilities_source:
  fixes source :: "'c container_source"
  assumes "name \<noteq> ''containers''"
  shows "map_of (linux_capabilities source) name = map_of (linux_capabilities (None :: 'c container_source)) name"
proof -
  define front where "front = butlast (linux_capabilities (None :: 'c container_source))"
  have l: "\<exists>x. linux_capabilities s = front @ [(''containers'', x)]" for s :: "'c container_source"
    by (simp add: linux_capabilities_def front_def)
  have "map_of (linux_capabilities s) name = map_of front name" for s :: "'c container_source"
  proof -
    obtain x where "linux_capabilities s = front @ [(''containers'', x)]" using l by blast
    moreover have "map_of [(''containers'', x)] name = None" using assms by (simp only: map_of.simps fun_upd_apply fst_conv if_False)
    ultimately show ?thesis by (simp only: map_of_append map_add_def option.case) (simp split: option.split)
  qed
  then show ?thesis by metis
qed

lemma set_capability_agree:
  "map_of cs name = map_of cs' name \<Longrightarrow> map_of (set_capability k x cs) name = map_of (set_capability k x cs') name"
  by (simp add: map_of_set_capability)

lemma set_capabilities_agree:
  assumes "map_of cs name = map_of cs' name"
  shows "map_of (fold (\<lambda>(k, x). set_capability k x) us cs) name = map_of (fold (\<lambda>(k, x). set_capability k x) us cs') name"
  using assms
proof (induction us arbitrary: cs cs')
  case (Cons u us)
  obtain k x where "u = (k, x)" by fastforce
  with Cons.IH [OF set_capability_agree [OF Cons.prems, of k x]] show ?case by (simp only: fold_Cons o_apply prod.case)
qed (simp only: fold_Nil id_apply)

lemma given_capability_agree:
  "map_of cs name = map_of cs' name \<Longrightarrow> map_of (given_capability k x cs) name = map_of (given_capability k x cs') name"
  by (cases x) (simp_all add: map_of_given)

lemma host_capabilities_source:
  assumes "name \<noteq> ''containers''"
  shows "map_of (host_capabilities cfg source host c st) name = map_of (host_capabilities cfg None host c st) name"
  unfolding host_capabilities_def Let_def
  by (rule given_capability_agree, rule given_capability_agree, rule set_capabilities_agree, rule linux_capabilities_source [OF assms])

lemma linux_collect_without:
  assumes "gather_containers cfg source c (after_refresh cfg host c st) = (([], cap), st3)"
    and "linux_collect cfg source host c st = (r, st')" and "linux_collect cfg None host c st = (r0, st0)"
  shows "\<exists>hb hb0. r = Inr hb \<and> r0 = Inr hb0 \<and> hb = hb0\<lparr>Capabilities := Capabilities hb\<rparr> \<and>
    (\<forall>name. name \<noteq> ''containers'' \<longrightarrow> map_of (Capabilities hb) name = map_of (Capabilities hb0) name) \<and>
    map_of (Capabilities hb) ''containers'' = Some cap \<and> HbContainers hb = [] \<and> HbMetrics hb = host_metrics cfg host st \<and>
    HbServices hb = take 512 (CachedServices (refresh_services cfg host c st)) \<and>
    HbStorage hb = take 64 (CachedStorage (refresh_storage cfg host c st))"
proof -
  have "\<exists>cap0. gather_containers cfg None c (after_refresh cfg host c st) = (([], cap0), after_refresh cfg host c st)"
    by (simp add: gather_containers_def)
  then obtain cap0 where n: "gather_containers cfg None c (after_refresh cfg host c st) = (([], cap0), after_refresh cfg host c st)" ..
  have r: "r = Inr (linux_heartbeat host (set_capability ''containers'' cap (host_capabilities cfg source host c st)) (host_metrics cfg host st)
        (CachedServices (after_refresh cfg host c st)) [] (CachedStorage (after_refresh cfg host c st)))"
    using linux_collect_shape [OF assms(1)] assms(2) by simp
  have r0: "r0 = Inr (linux_heartbeat host (set_capability ''containers'' cap0 (host_capabilities cfg None host c st)) (host_metrics cfg host st)
        (CachedServices (after_refresh cfg host c st)) [] (CachedStorage (after_refresh cfg host c st)))"
    using linux_collect_shape [OF n] assms(3) by simp
  have c: "CachedServices (after_refresh cfg host c st) = CachedServices (refresh_services cfg host c st)"
    "CachedStorage (after_refresh cfg host c st) = CachedStorage (refresh_storage cfg host c st)"
    using after_refresh_parts [of cfg host c st] by (simp_all add: service_part_def storage_part_def)
  show ?thesis unfolding r r0 c
    by (simp add: linux_heartbeat_def map_of_set_capability host_capabilities_source [where source = source])
qed

lemma denied_gather:
  assumes "denies srv" and "ContainersEnabled (Privacy k)" and "\<And>t. TextOf cfg (Msg t) = t"
  shows "\<exists>d st'. gather_containers cfg (Some (detail, collect_containers srv clock)) k st =
      (([], \<lparr>CapState = PermissionBlocked, CapDetail = d\<rparr>), st') \<and>
    (d = ''container runtime access denied with HTTP 401'' \<or> d = ''container runtime access denied with HTTP 403'')"
proof -
  obtain s st' where c: "s = 401 \<or> s = 403" "collect_containers srv clock (linux_collector.ContainerState st) = (Inl (access_denied s), st')"
    using denied_collection [OF assms(1)] by blast
  define d where "d = ''container runtime access denied with HTTP '' @ show_nat s"
  have t: "TextOf cfg (access_denied s) = d" unfolding access_denied_def d_def by (rule assms(3))
  have d: "d = ''container runtime access denied with HTTP 401'' \<or> d = ''container runtime access denied with HTTP 403''"
    using c(1) denied_texts(1,2) unfolding access_denied_def d_def by (elim disjE) (simp_all only: error.inject simp_thms)
  have "refusal_state d = PermissionBlocked" using d denied_texts(3,4) by (elim disjE) (simp_all only:)
  moreover have "length d \<le> 256" using d by (elim disjE) simp_all
  ultimately have "gather_containers cfg (Some (detail, collect_containers srv clock)) k st =
      (([], \<lparr>CapState = PermissionBlocked, CapDetail = d\<rparr>), st\<lparr>linux_collector.ContainerState := st',
        ContainerCapability := Some \<lparr>CapState = PermissionBlocked, CapDetail = d\<rparr>\<rparr>)"
    using c(2) assms(2) t by (simp add: gather_containers_def Let_def capability_of_def)
  with d show ?thesis by blast
qed

text \<open>
  C27: when the runtime, or the proxy before it, answers with 401 or 403, the rest of a Linux heartbeat is
  collected and sent all the same. It carries every measurement of the host, the services and the storage
  health, and is the heartbeat that is collected where no runtime is configured, apart from the capability of
  containers: that one says blocked by permissions, with the status in the detail, and no container is listed.
\<close>

theorem denied_runtime_reported:
  assumes "denies srv" and "ContainersEnabled (Privacy k)" and "\<And>t. TextOf cfg (Msg t) = t"
    and "linux_collect cfg (Some (detail, collect_containers srv clock)) host k st = (r, st')"
    and "linux_collect cfg None host k st = (r0, st0)"
  shows "\<exists>hb hb0 d. r = Inr hb \<and> r0 = Inr hb0 \<and> HbContainers hb = [] \<and>
    map_of (Capabilities hb) ''containers'' = Some \<lparr>CapState = PermissionBlocked, CapDetail = d\<rparr> \<and>
    (d = ''container runtime access denied with HTTP 401'' \<or> d = ''container runtime access denied with HTTP 403'') \<and>
    HbMetrics hb = host_metrics cfg host st \<and>
    HbServices hb = take 512 (CachedServices (refresh_services cfg host k st)) \<and>
    HbStorage hb = take 64 (CachedStorage (refresh_storage cfg host k st)) \<and>
    (\<forall>name. name \<noteq> ''containers'' \<longrightarrow> map_of (Capabilities hb) name = map_of (Capabilities hb0) name) \<and>
    hb = hb0\<lparr>Capabilities := Capabilities hb\<rparr>"
proof -
  obtain d st3 where g: "gather_containers cfg (Some (detail, collect_containers srv clock)) k (after_refresh cfg host k st) =
      (([], \<lparr>CapState = PermissionBlocked, CapDetail = d\<rparr>), st3)"
    and d: "d = ''container runtime access denied with HTTP 401'' \<or> d = ''container runtime access denied with HTTP 403''"
    using denied_gather [OF assms(1-3)] by blast
  from linux_collect_without [OF g assms(4,5)] d show ?thesis by blast
qed

definition denying_server :: "unit server" where
  "denying_server q w = (Inr \<lparr>StatusCode = 403, RespBody = Inr [], ETag = []\<rparr>, w)"

text \<open>A host with a kernel release, so that something is measured.\<close>

definition kernel_host :: linux_host where
  "kernel_host = empty_host\<lparr>HostFiles := empty_files\<lparr>FileBody :=
     (\<lambda>p. if p = ''/proc/sys/kernel/osrelease'' then Inr ''6.1'' else Inl NotExist)\<rparr>\<rparr>"

lemma kernel_host_system:
  "at_key (collect_system empty_config (HostFiles kernel_host)) ''kernel'' = GString ''6.1''"
  by code_simp

lemma denied_runtime_reported_witness:
  "\<exists>hb st' d. linux_collect empty_config (Some (''x'', collect_containers denying_server (Pair 1))) kernel_host
      (zero_contract\<lparr>Privacy := (Privacy zero_contract)\<lparr>ContainersEnabled := True\<rparr>\<rparr>) (new_linux_collector (sample_source, ())) = (Inr hb, st') \<and>
     map_of (Capabilities hb) ''containers'' = Some \<lparr>CapState = PermissionBlocked, CapDetail = d\<rparr> \<and>
     at_key (MSystem (HbMetrics hb)) ''kernel'' = GString ''6.1''"
proof -
  let ?k = "zero_contract\<lparr>Privacy := (Privacy zero_contract)\<lparr>ContainersEnabled := True\<rparr>\<rparr>"
  let ?st = "new_linux_collector (sample_source, ())"
  let ?src = "Some (''x'', collect_containers denying_server (Pair 1))"
  have "denies denying_server" by (simp add: denies_def denying_server_def)
  moreover have "ContainersEnabled (Privacy ?k)" by simp
  moreover have "TextOf empty_config (Msg t) = t" for t by (simp add: empty_config_def)
  moreover obtain r st' where r: "linux_collect empty_config ?src kernel_host ?k ?st = (r, st')" by fastforce
  moreover obtain r0 st0 where "linux_collect empty_config None kernel_host ?k ?st = (r0, st0)" by fastforce
  ultimately obtain hb d where hb: "r = Inr hb" "HbMetrics hb = host_metrics empty_config kernel_host ?st"
    "map_of (Capabilities hb) ''containers'' = Some \<lparr>CapState = PermissionBlocked, CapDetail = d\<rparr>"
    using denied_runtime_reported [where srv = denying_server and k = ?k and cfg = empty_config and detail = "''x''" and clock = "Pair 1"
      and host = kernel_host and st = ?st] by blast
  have "at_key (MSystem (HbMetrics hb)) ''kernel'' = GString ''6.1''"
    unfolding hb(2) host_metrics_def Let_def metrics.simps kernel_host_system by simp
  with r hb(1,3) show ?thesis by blast
qed

end
