(* ===== verification/Go_Flags.thy ===== *)
theory Go_Flags
  imports Agent_Prelude Go_Strings "HOL-Library.AList"
begin

text \<open>
  The \<open>flag\<close> package as the programs use it: flags with a text or a boolean value, in front of the
  positional arguments. The value of a flag that was set is kept as its text; a flag that is set twice
  keeps the later value.
\<close>

datatype flag_kind = TextFlag | BoolFlag

definition bool_text :: "string \<Rightarrow> bool option" where
  "bool_text v = (if v \<in> {''1'', ''t'', ''T'', ''TRUE'', ''true'', ''True''} then Some True
     else if v \<in> {''0'', ''f'', ''F'', ''FALSE'', ''false'', ''False''} then Some False else None)"

definition show_bool :: "bool \<Rightarrow> string" where
  "show_bool b = (if b then ''true'' else ''false'')"

text \<open>The name of a flag and its value after an equals sign, which cannot come first.\<close>

definition split_flag :: "string \<Rightarrow> string \<times> string option" where
  "split_flag s = (case s of [] \<Rightarrow> ([], None) | c # t \<Rightarrow> (case cut_at (CHR ''='') t of (a, v) \<Rightarrow> (c # a, v)))"

text \<open>\<open>parseOne\<close>: nothing for an argument that is no flag.\<close>

definition flag_body :: "string \<Rightarrow> string option" where
  "flag_body s = (if length s < 2 \<or> hd s \<noteq> CHR ''-'' then None
     else Some (if s ! 1 = CHR ''-'' then drop 2 s else drop 1 s))"

fun parse_flags :: "(string \<times> flag_kind) list \<Rightarrow> (string \<times> string) list \<Rightarrow> string list \<Rightarrow>
    ((string \<times> string) list \<times> string list) result" where
  "parse_flags known given [] = Inr (given, [])"
| "parse_flags known given (s # rest) =
     (case flag_body s of
        None \<Rightarrow> Inr (given, s # rest)
      | Some body \<Rightarrow>
         if s = ''--'' then Inr (given, rest)
         else if body = [] \<or> hd body = CHR ''-'' \<or> hd body = CHR ''='' then Inl (Msg ''bad flag syntax'')
         else (case split_flag body of (name, value) \<Rightarrow>
           (case map_of known name of
              None \<Rightarrow> Inl (Msg (if name = ''help'' \<or> name = ''h'' then ''flag: help requested'' else ''flag provided but not defined''))
            | Some BoolFlag \<Rightarrow>
                (case value of
                   None \<Rightarrow> parse_flags known (AList.update name (show_bool True) given) rest
                 | Some v \<Rightarrow> (case bool_text v of
                     None \<Rightarrow> Inl (Msg ''invalid boolean value'')
                   | Some b \<Rightarrow> parse_flags known (AList.update name (show_bool b) given) rest))
            | Some TextFlag \<Rightarrow>
                (case value of
                   Some v \<Rightarrow> parse_flags known (AList.update name v given) rest
                 | None \<Rightarrow> (case rest of
                     [] \<Rightarrow> Inl (Msg ''flag needs an argument'')
                   | v # rest' \<Rightarrow> parse_flags known (AList.update name v given) rest')))))"

definition flag_text :: "(string \<times> string) list \<Rightarrow> string \<Rightarrow> string \<Rightarrow> string" where
  "flag_text given name usual = (case map_of given name of None \<Rightarrow> usual | Some v \<Rightarrow> v)"

definition flag_set :: "(string \<times> string) list \<Rightarrow> string \<Rightarrow> bool" where
  "flag_set given name \<longleftrightarrow> flag_text given name (show_bool False) = show_bool True"

text \<open>An argument without a leading minus sign ends the flags.\<close>

lemma positional_ends_flags:
  assumes "hd s \<noteq> CHR ''-''"
  shows "parse_flags known given (s # rest) = Inr (given, s # rest)"
  using assms by (simp add: flag_body_def)

end
