(* ===== verification/Command_Line.thy ===== *)
theory Command_Line
  imports Go_Flags Agent_Runtime Agent_Update Inventory_Socket Container_Collector
begin

text \<open>
  The program itself, \<open>cmd/agent/main.go\<close>: the choice of a command by its arguments, \<open>update\<close>,
  \<open>inventory\<close>, and the agent, which is put together from the configuration, the identity, the buffer and
  the collectors, is activated once, and then collects once or serves until it is stopped. What lies outside
  src/ (processes, sockets, the network, the user's identity) is an argument; the platform's collector is
  given by the configuration and the container collector.
\<close>

section \<open>Arguments\<close>

definition default_config_path :: "bool \<Rightarrow> string" where
  "default_config_path freebsd = (if freebsd then ''/usr/local/etc/homelab-inventory-agent/config.json''
     else ''/etc/homelab-inventory-agent/config.json'')"

definition update_flags :: "(string \<times> flag_kind) list" where
  "update_flags = [(''config'', TextFlag), (''version'', TextFlag), (''check'', BoolFlag)]"

definition inventory_flags :: "(string \<times> flag_kind) list" where
  "inventory_flags = [(''config'', TextFlag)]"

definition agent_flags :: "(string \<times> flag_kind) list" where
  "agent_flags = [(''version'', BoolFlag), (''config'', TextFlag), (''enrollment-code'', TextFlag),
     (''enrollment-code-file'', TextFlag), (''once'', BoolFlag)]"

record agent_settings =
  ShowVersion :: bool
  ConfigPath :: string
  EnrollmentCode :: string
  EnrollmentCodeFile :: string
  Once :: bool

text \<open>The agent looks at its flags only; positional arguments are let pass.\<close>

definition agent_settings_of :: "string list \<Rightarrow> agent_settings result" where
  "agent_settings_of args = bind_result (parse_flags agent_flags [] args) (\<lambda>(given, rest).
     Inr \<lparr>ShowVersion = flag_set given ''version'',
          ConfigPath = flag_text given ''config'' ''/etc/homelab-inventory-agent/config.json'',
          EnrollmentCode = flag_text given ''enrollment-code'' [],
          EnrollmentCodeFile = flag_text given ''enrollment-code-file'' [],
          Once = flag_set given ''once''\<rparr>)"

datatype command = InventoryCommand "string list" | UpdateCommand "string list" | AgentCommand agent_settings

definition choose_command :: "string list \<Rightarrow> command result" where
  "choose_command args =
     (if args \<noteq> [] \<and> hd args = ''inventory'' then Inr (InventoryCommand (tl args))
      else if args \<noteq> [] \<and> hd args = ''update'' then Inr (UpdateCommand (tl args))
      else bind_result (agent_settings_of args) (\<lambda>s. Inr (AgentCommand s)))"

section \<open>The update command\<close>

text \<open>\<open>setup\<close> is what the updater makes of a configuration file: its check, the platform and the release client.\<close>

definition update_options_of :: "string \<Rightarrow> int \<Rightarrow> (string \<times> string) list \<Rightarrow> update_options" where
  "update_options_of version uid given = \<lparr>EffectiveUserID = uid, CurrentVersion = version,
     Requested = flag_text given ''version'' [], CheckOnly = flag_set given ''check''\<rparr>"

definition update_message :: "update_result \<Rightarrow> string" where
  "update_message r =
     (if Updated r then []
      else if UpdateAvailable r then ''Agent update available: '' @ ResCurrent r @ '' -> '' @ ResTarget r @ [CHR 10]
      else ''Agent '' @ ResCurrent r @ '' is already current.'' @ [CHR 10])"

definition update_command :: "bool \<Rightarrow> string \<Rightarrow> int \<Rightarrow> 'w update_env \<Rightarrow>
    (string \<Rightarrow> unit result \<times> platform result \<times> 'w release_client result) \<Rightarrow> string list \<Rightarrow> 'w machine \<Rightarrow>
    string result \<times> 'w machine" where
  "update_command freebsd version uid env setup args m =
     (case parse_flags update_flags [] args of
        Inl e \<Rightarrow> (Inl e, m)
      | Inr (given, rest) \<Rightarrow>
         if rest \<noteq> [] then (Inl (Msg ''update does not accept positional arguments''), m)
         else (case setup (flag_text given ''config'' (default_config_path freebsd)) of (configuration, selected, client) \<Rightarrow>
           bind_io (run_update env configuration selected client (update_options_of version uid given))
             (\<lambda>r. return_io (update_message r)) m))"

section \<open>The inventory command\<close>

text \<open>
  \<open>load\<close> is \<open>config.Load\<close> and \<open>scan\<close> the platform's scanner for the host of the configuration; errors of the
  last writes are dropped.
\<close>

definition say :: "(string \<Rightarrow> 'w \<Rightarrow> unit result \<times> 'w) \<Rightarrow> string \<Rightarrow> 'w \<Rightarrow> unit result \<times> 'w" where
  "say out message w = (Inr (), snd (out (message @ [CHR 10]) w))"

definition inventory_command :: "bool \<Rightarrow> int \<Rightarrow> (string \<Rightarrow> config result) \<Rightarrow> (host_ref \<Rightarrow> hardware_snapshot result) \<Rightarrow>
    (string \<Rightarrow> 'w \<Rightarrow> unit result \<times> 'w) \<Rightarrow> bytes \<times> error option \<Rightarrow> 'w peer \<Rightarrow> (hardware_snapshot \<Rightarrow> bytes result) \<Rightarrow>
    string list \<Rightarrow> 'w \<Rightarrow> unit result \<times> 'w" where
  "inventory_command freebsd uid load scan out input peer marshal args =
     (case parse_flags inventory_flags [] args of
        Inl e \<Rightarrow> fail_io e
      | Inr (given, rest) \<Rightarrow>
         if rest \<noteq> [] then fail_io (Msg ''inventory does not accept positional arguments'')
         else if uid \<noteq> 0 then fail_io (Msg ''hardware inventory requires elevated privileges; run sudo homelab-inventory-agent inventory'')
         else bind_io (lift_io (load (flag_text given ''config'' (default_config_path freebsd)))) (\<lambda>c.
              bind_io (lift_io (scan (ConfHost c))) (\<lambda>s.
              bind_io (confirm out input s) (\<lambda>confirmed.
                if \<not> confirmed then say out ''Hardware snapshot was not sent.''
                else bind_io (send_snapshot peer marshal s) (\<lambda>_. say out ''Hardware snapshot sent for review.'')))))"

section \<open>The enrollment code\<close>

text \<open>
  A code file as opening, reading and closing it give it. At most 513 bytes are read, so that a failure
  behind them is not seen.
\<close>

type_synonym code_file = "(bytes \<times> error option \<times> error option) result"

definition read_code :: "code_file \<Rightarrow> string result" where
  "read_code f = (case f of
     Inl e \<Rightarrow> Inl (Msg ''open enrollment code file'')
   | Inr (content, failure, closing) \<Rightarrow>
      (let body = take 513 content in
       if failure \<noteq> None \<and> length content < 513 then Inl (Msg ''read enrollment code file'')
       else case closing of
         Some e \<Rightarrow> Inl e
       | None \<Rightarrow> if body = [] \<or> length body > 512 then Inl (Msg ''enrollment code file must contain 1 to 512 bytes'')
                 else Inr (trim_space body)))"

definition given_code :: "(string \<Rightarrow> code_file) \<Rightarrow> agent_settings \<Rightarrow> string result" where
  "given_code code_at s =
     (if EnrollmentCode s \<noteq> [] \<and> EnrollmentCodeFile s \<noteq> [] then Inl (Msg ''provide only one enrollment-code source'')
      else if EnrollmentCodeFile s \<noteq> [] then read_code (code_at (EnrollmentCodeFile s))
      else Inr (EnrollmentCode s))"

section \<open>Putting the agent together\<close>

text \<open>
  What the program finds on its host: the disk with the configuration, for every state directory the disk
  with the identity and the other files and the disk of its buffer, and the world outside.
\<close>

record 'w installation =
  ConfigFiles :: disk
  StateFiles :: "string \<Rightarrow> disk"
  QueueFiles :: "string \<Rightarrow> disk"
  World :: 'w

definition at_config :: "(disk \<Rightarrow> 'a result \<times> disk) \<Rightarrow> 'w installation \<Rightarrow> 'a result \<times> 'w installation" where
  "at_config f i = (case f (ConfigFiles i) of (r, d) \<Rightarrow> (r, i\<lparr>ConfigFiles := d\<rparr>))"

definition at_state :: "string \<Rightarrow> (disk \<Rightarrow> 'a result \<times> disk) \<Rightarrow> 'w installation \<Rightarrow> 'a result \<times> 'w installation" where
  "at_state dir f i = (case f (StateFiles i dir) of (r, d) \<Rightarrow> (r, i\<lparr>StateFiles := (StateFiles i)(dir := d)\<rparr>))"

definition at_queue :: "string \<Rightarrow> (disk \<Rightarrow> 'a result \<times> disk) \<Rightarrow> 'w installation \<Rightarrow> 'a result \<times> 'w installation" where
  "at_queue dir f i = (case f (QueueFiles i dir) of (r, d) \<Rightarrow> (r, i\<lparr>QueueFiles := (QueueFiles i)(dir := d)\<rparr>))"

text \<open>What an agent leaves behind in the installation.\<close>

definition leave :: "string \<Rightarrow> 'w agent \<Rightarrow> 'w installation \<Rightarrow> 'w installation" where
  "leave dir a i = i\<lparr>StateFiles := (StateFiles i)(dir := snd (Device a)),
     QueueFiles := (QueueFiles i)(dir := directory (Buffer a)), World := Outside a\<rparr>"

text \<open>
  The build's version, the URL parsers and connections of the clients, the key generator, and the
  platform's collector with its capabilities.
\<close>

record 'w build =
  BuildVersion :: string
  ParseConfigUrl :: url_parser
  ParseClientUrl :: "string \<Rightarrow> (string \<times> string \<times> string) option"
  ParseRuntimeUrl :: "string \<Rightarrow> (string \<times> string) option"
  Connection :: "'w client"
  NewKey :: "bytes result"
  CodeFile :: "string \<Rightarrow> code_file"
  Platform :: "identity \<Rightarrow> config \<Rightarrow> container_collector option \<Rightarrow> capabilities \<times> 'w agent_env"

definition open_limits :: limits where
  "open_limits = \<lparr>Samples = 60, Bytes = 10 * 2 ^ 20\<rparr>"

definition native_update :: capability where
  "native_update = \<lparr>CapState = Available, CapDetail = ''manual root-authorized atomic update with rollback''\<rparr>"

definition configured_containers :: "(string \<Rightarrow> (string \<times> string) option) \<Rightarrow> config \<Rightarrow> container_collector option result" where
  "configured_containers parse c =
     (let k = ConfContainers c in
      if CMode k = ''disabled'' then Inr None
      else case new_container_collector parse False (CMode k) (CRuntime k) (CEndpoint k) of
        Inl e \<Rightarrow> Inl (Msg ''configure container collector'')
      | Inr x \<Rightarrow> Inr (Some x))"

definition agent_env_of :: "'w build \<Rightarrow> config \<Rightarrow> 'w client \<Rightarrow> identity \<Rightarrow> container_collector option \<Rightarrow> 'w agent_env" where
  "agent_env_of b c client device containers = (case Platform b device c containers of (caps, env) \<Rightarrow>
     env\<lparr>AgConfig := c, AgVersion := BuildVersion b, AgCapabilities := AList.update ''agent.native-update'' native_update caps,
         AgClient := client\<rparr>)"

text \<open>Activation before the first use; whether it succeeds or not, the agent's files stay as they are then.\<close>

definition activate_first :: "string \<Rightarrow> string \<Rightarrow> 'w agent_env \<Rightarrow> 'w agent \<Rightarrow> 'w installation \<Rightarrow>
    ('w agent_env \<times> 'w agent) result \<times> 'w installation" where
  "activate_first dir code env a i =
     (if deviceID (fst (Device a)) \<noteq> 0 then (Inr (env, a), leave dir a i)
      else if code = [] then (Inl (Msg ''agent is not activated; provide -enrollment-code once''), leave dir a i)
      else (case activate_agent env code a of
         (Inl e, a') \<Rightarrow> (Inl (Msg ''activate agent''), leave dir a' i)
       | (Inr _, a') \<Rightarrow> (Inr (env, a'), leave dir a' i)))"

definition assemble :: "'w build \<Rightarrow> string \<Rightarrow> config \<Rightarrow> 'w installation \<Rightarrow> ('w agent_env \<times> 'w agent) result \<times> 'w installation" where
  "assemble b code c =
     (let dir = StateDirectory c in
      bind_io (at_state dir (load_or_create (NewKey b))) (\<lambda>device.
      bind_io (at_queue dir (\<lambda>d. open_queue d open_limits)) (\<lambda>q.
      bind_io (lift_io (new_client (ParseClientUrl b) (Connection b) (ConfEndpoint c))) (\<lambda>client.
      bind_io (lift_io (configured_containers (ParseRuntimeUrl b) c)) (\<lambda>containers i.
      bind_io (lift_io (new_agent (ParseConfigUrl b) (agent_env_of b c client device containers) (device, StateFiles i dir) q (World i)))
        (\<lambda>(env, a). activate_first dir code env a) i)))))"

definition start_agent :: "'w build \<Rightarrow> agent_settings \<Rightarrow> 'w installation \<Rightarrow> ('w agent_env \<times> 'w agent) result \<times> 'w installation" where
  "start_agent b s =
     bind_io (lift_io (given_code (CodeFile b) s)) (\<lambda>code.
     bind_io (at_config (load_config (ParseConfigUrl b) (ConfigPath s))) (\<lambda>c. assemble b code c))"

section \<open>Serving\<close>

definition default_socket_path :: "bool \<Rightarrow> string" where
  "default_socket_path linux = (if linux then ''/run/homelab-inventory-agent/inventory.sock''
     else ''/var/run/homelab-inventory-agent/inventory.sock'')"

definition snapshot_server :: "bool \<Rightarrow> (string \<Rightarrow> string \<Rightarrow> string) \<Rightarrow> (error \<Rightarrow> string) \<Rightarrow> 'w agent_env \<Rightarrow> ('w agent) inventory_server" where
  "snapshot_server linux opaque error_text env =
     \<lparr>SocketPath = default_socket_path linux, ServedHost = ConfHost (AgConfig env), OpaqueID = opaque,
      SocketClock = (\<lambda>a. case Now env (Outside a) of (t, w) \<Rightarrow> (t, a\<lparr>Outside := w\<rparr>)),
      Submit = submit_snapshot env, ErrorText = error_text\<rparr>"

text \<open>
  The two goroutines take turns on the one agent: an event of the loop, or a connection to the socket. The
  first of them that returns ends the program, and cancels the other.
\<close>

datatype daemon_event = LoopEvent signal | Connected connection | SocketEnded "unit result"

fun serve_events :: "'w agent_env \<Rightarrow> ('w agent) inventory_server \<Rightarrow> daemon_event list \<Rightarrow> mode \<Rightarrow> 'w agent \<Rightarrow> mode \<times> 'w agent" where
  "serve_events env srv [] m a = (m, a)"
| "serve_events env srv (e # es) m a =
     (case m of Ended r \<Rightarrow> (Ended r, a)
      | _ \<Rightarrow> (case e of
          LoopEvent s \<Rightarrow> (case run_event env s m a of ((m', errors), a') \<Rightarrow> serve_events env srv es m' a')
        | Connected c \<Rightarrow> (case handle_connection srv c a of (r, a') \<Rightarrow> serve_events env srv es m a')
        | SocketEnded r \<Rightarrow> (Ended r, a)))"

text \<open>The connections, and the end of the socket, that come before the loop has started.\<close>

type_synonym early_events = "connection list \<times> unit result option"

definition serve_agent :: "'w agent_env \<Rightarrow> ('w agent) inventory_server \<Rightarrow> early_events \<Rightarrow> daemon_event list \<Rightarrow> 'w agent \<Rightarrow> mode \<times> 'w agent" where
  "serve_agent env srv early es a =
     (let a1 = fold (\<lambda>c a. snd (handle_connection srv c a)) (fst early) a in
      case snd early of
        Some r \<Rightarrow> (Ended r, a1)
      | None \<Rightarrow> (case run_start env a1 of ((m, errors), a') \<Rightarrow> serve_events env srv es m a'))"

text \<open>The agent command: its result, which is none while it still serves, and the agent it ran if it got that far.\<close>

definition agent_command :: "'w build \<Rightarrow> bool \<Rightarrow> (string \<Rightarrow> string \<Rightarrow> string) \<Rightarrow> (error \<Rightarrow> string) \<Rightarrow> agent_settings \<Rightarrow> early_events \<Rightarrow>
    daemon_event list \<Rightarrow> 'w installation \<Rightarrow> unit result option \<times> ('w agent_env \<times> 'w agent) option" where
  "agent_command b linux opaque error_text s early es i =
     (if ShowVersion s then (Some (Inr ()), None)
      else case start_agent b s i of
        (Inl e, i') \<Rightarrow> (Some (Inl e), None)
      | (Inr (env, a), i') \<Rightarrow>
         if Once s then (case run_once env a of (r, a') \<Rightarrow> (Some r, Some (env, a')))
         else (case serve_agent env (snapshot_server linux opaque error_text env) early es a of
           (m, a') \<Rightarrow> ((case m of Ended r \<Rightarrow> Some r | _ \<Rightarrow> None), Some (env, a'))))"

end
