(* ===== verification/Command_Correct.thy ===== *)
theory Command_Correct
  imports Command_Line Agent_Sample
begin

text \<open>
  The program: it serves only an activated agent and reaches the hub before that only to activate it;
  whatever it does between two starts keeps the agent's invariant; and a hardware snapshot leaves the
  machine only after root asked for it and said yes.
\<close>

section \<open>Serving keeps the invariant\<close>

lemma connection_advances:
  assumes "agent_ok a"
  shows "agent_advances (handle_connection (snapshot_server linux opaque error_text env) c) a"
  unfolding handle_connection_def
proof (rule agents.advances_bind)
  let ?srv = "snapshot_server linux opaque error_text env"
  show "agent_advances (\<lambda>w. (check_snapshot ?srv c, w)) a" using assms by (simp add: advances_def agents.moves_refl)
  fix s :: hardware_snapshot and t :: "'a agent"
  assume t: "agent_ok t"
  show "agent_advances (bind_io (\<lambda>w. map_prod Inr id (SocketClock ?srv w)) (\<lambda>now.
       (if SnapshotCollectedAt s < now - 15 * minute \<or> SnapshotCollectedAt s > now + 2 * minute
        then fail_io (Msg ''inventory snapshot timestamp is outside the accepted window'')
        else (let s' = add_opaque_fingerprints (OpaqueID ?srv) s in
          case validate_hardware_snapshot s' of
            Inl e \<Rightarrow> fail_io (Msg ''normalized inventory snapshot is invalid'')
          | Inr _ \<Rightarrow> Submit ?srv s')))) t"
  proof (rule agents.advances_bind)
    show "agent_advances (\<lambda>w. map_prod Inr id (SocketClock ?srv w)) t"
      using t by (simp add: advances_def snapshot_server_def split: prod.split)
  qed (auto simp: snapshot_server_def Let_def split: sum.split intro!: advances_fail submit_snapshot_advances)
qed

lemma serving_advances:
  "serve_events env (snapshot_server linux opaque error_text env) es m a = (m', b) \<Longrightarrow> agent_ok a \<Longrightarrow>
   agent_ok b \<and> agent_moves a b"
proof (induction es arbitrary: m a)
  case (Cons e es)
  let ?srv = "snapshot_server linux opaque error_text env"
  show ?case
  proof (cases "\<exists>r. m = Ended r")
    case True
    with Cons.prems show ?thesis by (auto simp: agents.moves_refl)
  next
    case False
    have step: ?thesis if "serve_events env ?srv es n c = (m', b)" "agent_ok c \<and> agent_moves a c" for n c
      using Cons.IH [OF that(1)] that(2) agents.moves_trans by blast
    show ?thesis
    proof (cases e)
      case (LoopEvent s)
      obtain n errors c where c: "run_event env s m a = ((n, errors), c)" by (metis surj_pair)
      with Cons.prems False LoopEvent have "serve_events env ?srv es n c = (m', b)" by (cases m) auto
      then show ?thesis using advancesD [OF run_event_advances [OF Cons.prems(2)] c] by (rule step)
    next
      case (Connected k)
      obtain r c where c: "handle_connection ?srv k a = (r, c)" by (metis surj_pair)
      with Cons.prems False Connected have "serve_events env ?srv es m c = (m', b)" by (cases m) auto
      then show ?thesis using advancesD [OF connection_advances [OF Cons.prems(2)] c] by (rule step)
    next
      case (SocketEnded r)
      with Cons.prems False show ?thesis by (cases m) (auto simp: agents.moves_refl)
    qed
  qed
qed (simp add: agents.moves_refl)

lemma daemon_advances:
  assumes "serve_agent env (snapshot_server linux opaque error_text env) early es a = (m, b)" and "agent_ok a"
  shows "agent_ok b \<and> agent_moves a b"
proof -
  define c where "c = fold (\<lambda>k a. snd (handle_connection (snapshot_server linux opaque error_text env) k a)) (fst early) a"
  have c: "agent_ok c \<and> agent_moves a c"
    unfolding c_def by (rule agents.advances_steps) (use assms(2) connection_advances in blast)+
  show ?thesis
  proof (cases "snd early")
    case None
    obtain n errors d where d: "run_start env c = ((n, errors), d)" by (metis surj_pair)
    have d': "agent_ok d \<and> agent_moves c d" using advancesD [OF run_start_advances d] c by simp
    have "serve_events env (snapshot_server linux opaque error_text env) es n d = (m, b)"
      using assms(1) None d by (simp add: serve_agent_def c_def [symmetric])
    from serving_advances [OF this] d' have "agent_ok b" "agent_moves d b" by simp_all
    then show ?thesis using c d' agents.moves_trans [of a c d] agents.moves_trans [of a d b] by simp
  qed (use assms(1) c in \<open>simp add: serve_agent_def c_def [symmetric]\<close>)
qed

section \<open>Starting\<close>

lemma at_state_frame: "at_state dir f i = (r, i') \<Longrightarrow> World i' = World i \<and> ConfigFiles i' = ConfigFiles i \<and> QueueFiles i' = QueueFiles i \<and>
    f (StateFiles i dir) = (r, StateFiles i' dir)"
  by (auto simp: at_state_def split: prod.splits)

lemma at_queue_frame: "at_queue dir f i = (r, i') \<Longrightarrow> World i' = World i \<and> ConfigFiles i' = ConfigFiles i \<and> StateFiles i' = StateFiles i \<and>
    f (QueueFiles i dir) = (r, QueueFiles i' dir)"
  by (auto simp: at_queue_def split: prod.splits)

lemma at_config_frame: "at_config f i = (r, i') \<Longrightarrow> World i' = World i \<and> StateFiles i' = StateFiles i \<and> QueueFiles i' = QueueFiles i \<and>
    f (ConfigFiles i) = (r, ConfigFiles i')"
  by (auto simp: at_config_def split: prod.splits)

lemma new_agent_parts:
  assumes "new_agent parse env device q w = Inr (env', a)"
  shows "fst (Device a) = fst device \<and> Buffer a = q \<and> Outside a = w"
  using assms by (auto simp: new_agent_def bind_result_Inr_iff split: if_splits prod.splits sum.splits)

lemma activated_has_id:
  assumes "activate_agent env token a = (Inr x, a')"
  shows "deviceID (fst (Device a')) \<noteq> 0"
  using assms
  by (auto simp: activate_agent_def activate_def pure_io_def on_device_def bind_io_def Let_def
      split: if_splits sum.splits prod.splits)

lemma activate_first_cases:
  assumes "activate_first dir code env a i = (r, i')"
  shows "(\<forall>e b. r = Inr (e, b) \<longrightarrow> e = env \<and> deviceID (fst (Device b)) \<noteq> 0 \<and> i' = leave dir b i \<and>
      (b = a \<or> (\<exists>x. activate_agent env code a = (x, b)))) \<and>
    (World i' \<noteq> Outside a \<longrightarrow> code \<noteq> [] \<and> deviceID (fst (Device a)) = 0)"
  using assms activated_has_id [of env code a]
  by (auto simp: activate_first_def leave_def split: if_splits sum.splits prod.splits)

text \<open>What happened when the program got an agent together, step by step.\<close>

lemma assemble_cases:
  assumes "assemble b code c i = (r, i')"
  obtains (failed) e where "r = Inl e" "World i' = World i"
  | (built) device d q dq env env' a j where
      "load_or_create (NewKey b) (StateFiles i (StateDirectory c)) = (Inr device, d)"
      "open_queue (QueueFiles i (StateDirectory c)) open_limits = (Inr q, dq)"
      "new_agent (ParseConfigUrl b) env (device, d) q (World i) = Inr (env', a)"
      "activate_first (StateDirectory c) code env' a j = (r, i')"
proof -
  let ?dir = "StateDirectory c"
  obtain rd i1 where s1: "at_state ?dir (load_or_create (NewKey b)) i = (rd, i1)" by (metis surj_pair)
  note f1 = at_state_frame [OF s1]
  show thesis
  proof (cases rd)
    case (Inl e)
    with assms s1 f1 show thesis by (intro failed) (auto simp: assemble_def bind_io_def Let_def)
  next
    case d: (Inr device)
    obtain rq i2 where s2: "at_queue ?dir (\<lambda>d. open_queue d open_limits) i1 = (rq, i2)" by (metis surj_pair)
    note f2 = at_queue_frame [OF s2]
    show thesis
    proof (cases rq)
      case (Inl e)
      with assms s1 d s2 f1 f2 show thesis by (intro failed) (auto simp: assemble_def bind_io_def Let_def)
    next
      case q: (Inr q)
      from assms s1 d s2 q have rest: "bind_io (lift_io (new_client (ParseClientUrl b) (Connection b) (ConfEndpoint c))) (\<lambda>client.
          bind_io (lift_io (configured_containers (ParseRuntimeUrl b) c)) (\<lambda>containers i.
          bind_io (lift_io (new_agent (ParseConfigUrl b) (agent_env_of b c client device containers) (device, StateFiles i ?dir) q (World i)))
            (\<lambda>(env, a). activate_first ?dir code env a) i)) i2 = (r, i')"
        by (simp add: assemble_def bind_io_def Let_def)
      show thesis
      proof (cases "\<exists>client containers env' a. new_client (ParseClientUrl b) (Connection b) (ConfEndpoint c) = Inr client \<and>
          configured_containers (ParseRuntimeUrl b) c = Inr containers \<and>
          new_agent (ParseConfigUrl b) (agent_env_of b c client device containers) (device, StateFiles i2 ?dir) q (World i2) = Inr (env', a)")
        case True
        then obtain client containers env' a where n: "new_client (ParseClientUrl b) (Connection b) (ConfEndpoint c) = Inr client"
          "configured_containers (ParseRuntimeUrl b) c = Inr containers"
          "new_agent (ParseConfigUrl b) (agent_env_of b c client device containers) (device, StateFiles i2 ?dir) q (World i2) = Inr (env', a)"
          by blast
        with rest have "activate_first ?dir code env' a i2 = (r, i')" by (simp add: bind_io_def lift_io_def)
        with n(3) f1 f2 d q show thesis by (intro built) auto
      next
        case False
        with rest have "World i' = World i2 \<and> (\<forall>x. r \<noteq> Inr x)"
          by (auto simp: bind_io_def lift_io_def split: sum.splits)
        with f1 f2 show thesis by (cases r) (auto intro: failed)
      qed
    qed
  qed
qed

lemma start_agent_cases:
  assumes "start_agent b s i = (r, i')"
  obtains (failed) e where "r = Inl e" "World i' = World i"
  | (assembled) code c j where "given_code (CodeFile b) s = Inr code"
      "fst (load_config (ParseConfigUrl b) (ConfigPath s) (ConfigFiles i)) = Inr c"
      "assemble b code c j = (r, i')" "StateFiles j = StateFiles i" "QueueFiles j = QueueFiles i" "World j = World i"
proof (cases "given_code (CodeFile b) s")
  case (Inl e)
  with assms show thesis by (intro failed) (auto simp: start_agent_def bind_io_def lift_io_def)
next
  case (Inr code)
  obtain rc j where c: "at_config (load_config (ParseConfigUrl b) (ConfigPath s)) i = (rc, j)" by (metis surj_pair)
  note f = at_config_frame [OF c]
  show thesis
  proof (cases rc)
    case (Inl e)
    with assms \<open>given_code (CodeFile b) s = Inr code\<close> c f show thesis
      by (intro failed) (auto simp: start_agent_def bind_io_def lift_io_def)
  next
    case (Inr conf)
    with assms \<open>given_code (CodeFile b) s = Inr code\<close> c f show thesis
      by (intro assembled [of code conf j]) (auto simp: start_agent_def bind_io_def lift_io_def)
  qed
qed

text \<open>
  C21: the program serves only an agent that is bound to a device id, and what it reaches outside while it
  starts is the hub, for an activation: only with a code that is not empty, and only while the identity on
  disk is bound to no device. An activated agent starts with no request, whatever code it is given.
\<close>

theorem starting_activates_once:
  assumes "start_agent b s i = (r, i')"
  shows "(\<forall>env a. r = Inr (env, a) \<longrightarrow> deviceID (fst (Device a)) \<noteq> 0) \<and>
    (World i' \<noteq> World i \<longrightarrow> (\<exists>code c device d. given_code (CodeFile b) s = Inr code \<and> code \<noteq> [] \<and>
       fst (load_config (ParseConfigUrl b) (ConfigPath s) (ConfigFiles i)) = Inr c \<and>
       load_or_create (NewKey b) (StateFiles i (StateDirectory c)) = (Inr device, d) \<and> deviceID device = 0))"
  using assms
proof (cases rule: start_agent_cases)
  case (assembled code c j)
  from assembled(3) show ?thesis
  proof (cases rule: assemble_cases)
    case (built device d q dq env env' a k)
    note first = activate_first_cases [OF built(4)] and parts = new_agent_parts [OF built(3)]
    have "World i' = World i \<or> code \<noteq> [] \<and> deviceID device = 0" using first parts assembled(6) by auto
    with first built(1) assembled show ?thesis by (auto simp: assembled(4))
  qed (use assembled(6) in simp)
qed simp

text \<open>
  C20: a run of the program on the files an agent left behind keeps the invariant of that agent, whichever
  command line starts it and in whatever order the loop's events and the connections to the socket come:
  identity, buffer, telemetry state and monitoring configuration stay consistent with their files, the
  sequence number and the monitoring revision do not go back, the key does not change and a revoked agent
  stays revoked.
\<close>

theorem program_keeps_invariant:
  assumes "agent_command b linux opaque error_text s early es i = (r, Some (env, a))"
    and "fst (load_config (ParseConfigUrl b) (ConfigPath s) (ConfigFiles i)) = Inr c"
    and "StateFiles i (StateDirectory c) = snd (Device a0)" and "QueueFiles i (StateDirectory c) = directory (Buffer a0)"
    and "agent_ok a0"
  shows "agent_ok a \<and> agent_moves a0 a"
proof -
  obtain a1 i' where start: "start_agent b s i = (Inr (env, a1), i')"
    and ran: "(if Once s then snd (run_once env a1)
      else snd (serve_agent env (snapshot_server linux opaque error_text env) early es a1)) = a"
    using assms(1) by (auto simp: agent_command_def split: if_splits prod.splits sum.splits)
  from start have one: "agent_ok a1 \<and> agent_moves a0 a1"
  proof (cases rule: start_agent_cases)
    case (assembled code c' j)
    with assms(2) have c: "c' = c" by simp
    from assembled(3) show ?thesis
    proof (cases rule: assemble_cases)
      case (built device d q dq env0 env' a2 k)
      have two: "agent_ok a2 \<and> agent_moves a0 a2"
        by (rule restart_advances [OF assms(5) _ _ built(3)]) (use built(1,2) assms(3,4) assembled(4,5) c in simp_all)
      then have "agent_ok a1 \<and> agent_moves a2 a1"
        using activate_first_cases [OF built(4)] advancesD [OF activate_agent_advances, of a2]
        by (auto simp: agents.moves_refl)
      with two show ?thesis using agents.moves_trans [of a0 a2 a1] by simp
    qed simp
  qed simp
  have "agent_ok a \<and> agent_moves a1 a"
  proof (cases "Once s")
    case True
    obtain x y where xy: "run_once env a1 = (x, y)" by (metis surj_pair)
    with True ran advancesD [OF run_once_advances xy] one show ?thesis by simp
  next
    case False
    obtain m y where xy: "serve_agent env (snapshot_server linux opaque error_text env) early es a1 = (m, y)" by (metis surj_pair)
    with False ran daemon_advances [OF xy] one show ?thesis by simp
  qed
  with one show ?thesis using agents.moves_trans [of a0 a1 a] by simp
qed

section \<open>A sample installation\<close>

definition sample_file :: json where
  "sample_file = JObj [(''endpoint'', JStr ''http://hub''), (''host'', JObj [(''type'', JStr ''server''), (''id'', JNum (show_nat 1))]),
     (''stateDirectory'', JStr ''/var/lib/agent'')]"

definition installed_config :: config where
  "installed_config = \<lparr>ConfEndpoint = ''http://hub'', ConfHost = \<lparr>HostType = ''server'', HostID = 1\<rparr>,
     StateDirectory = ''/var/lib/agent'', ConfFilesystems = [], SmartDevices = [],
     ConfContainers = default_containers zero_containers\<rparr>"

definition sample_build :: "unit build" where
  "sample_build = \<lparr>BuildVersion = ''1.0.0'', ParseConfigUrl = plain_url, ParseClientUrl = (\<lambda>u. Some (''http'', ''hub'', u)),
     ParseRuntimeUrl = (\<lambda>u. None), Connection = sample_client, NewKey = Inl IoFault, CodeFile = (\<lambda>p. Inl NotExist),
     Platform = (\<lambda>device c containers. ([], sample_env))\<rparr>"

definition once_settings :: agent_settings where
  "once_settings = \<lparr>ShowVersion = False, ConfigPath = ''config.json'', EnrollmentCode = [], EnrollmentCodeFile = [], Once = True\<rparr>"

definition sample_installation :: "unit installation" where
  "sample_installation = \<lparr>ConfigFiles = \<lparr>files = [(''config.json'', Reg (json_text sample_file @ newline) mode_600)], faults = [], seeds = []\<rparr>,
     StateFiles = (\<lambda>dir. sample_disk), QueueFiles = (\<lambda>dir. directory sample_queue), World = ()\<rparr>"

lemma sample_file_parsed: "parse_json (json_text sample_file @ newline) = Some sample_file"
  by (rule parse_json_text) (auto simp: sample_file_def)

lemma sample_file_decoded: "decode_config sample_file = Some (installed_config\<lparr>ConfContainers := zero_containers\<rparr>)"
proof -
  have u: "parse_u64 (show_nat 1) = Some 1" using parse_u64_show [of 1] by (simp add: show_u64_def)
  have h: "Agent_Config.decode_host (JObj [(''type'', JStr ''server''), (''id'', JNum (show_nat 1))]) =
      Some \<lparr>HostType = ''server'', HostID = 1\<rparr>"
    by (simp add: Agent_Config.decode_host_def json_struct_def known_members_def string_field_def u64_field_def fold_simps
        u [unfolded One_nat_def] del: show_nat.simps)
  show ?thesis
    by (simp add: decode_config_def sample_file_def json_struct_def known_members_def fold_simps string_field_def
        slice_field_def h [unfolded One_nat_def] installed_config_def zero_config_def del: show_nat.simps)
qed

lemma installed_valid:
  "validate_config plain_url (installed_config\<lparr>ConfContainers := zero_containers\<rparr>) = Inr installed_config"
  "validate_config plain_url installed_config = Inr installed_config"
proof -
  have "validate_containers plain_url zero_containers = Inr (default_containers zero_containers)"
    "validate_containers plain_url (default_containers zero_containers) = Inr (default_containers zero_containers)"
    "validate_endpoint plain_url ''http://hub'' = Inr ''http://hub''"
    "validate_host_ref \<lparr>HostType = ''server'', HostID = 1\<rparr> = Inr ()" "is_abs ''/var/lib/agent''"
    by code_simp+
  then show "validate_config plain_url (installed_config\<lparr>ConfContainers := zero_containers\<rparr>) = Inr installed_config"
    "validate_config plain_url installed_config = Inr installed_config"
    by (simp_all add: validate_config_def installed_config_def)
qed

lemma sample_loaded:
  "load_config plain_url ''config.json'' (ConfigFiles sample_installation) = (Inr installed_config, ConfigFiles sample_installation)"
proof -
  have "read_file ''config.json'' (ConfigFiles sample_installation) = (Inr (json_text sample_file @ newline), ConfigFiles sample_installation)"
    by (simp add: read_file_def call_fault_free fault_free_def sample_installation_def lookup_def del: json_text.simps)
  then show ?thesis
    by (simp add: load_config_def first_value_parse sample_file_parsed sample_file_decoded installed_valid(1) del: json_text.simps)
qed

lemma assembled_existing:
  assumes "load_or_create (NewKey b) (StateFiles i (StateDirectory c)) = (Inr device, d)" and "deviceID device \<noteq> 0"
    and "open_queue (QueueFiles i (StateDirectory c)) open_limits = (Inr q, dq)"
    and "new_client (ParseClientUrl b) (Connection b) (ConfEndpoint c) = Inr client"
    and "configured_containers (ParseRuntimeUrl b) c = Inr containers"
    and "new_agent (ParseConfigUrl b) (agent_env_of b c client device containers) (device, d) q (World i) = Inr (env, a)"
  shows "\<exists>i'. assemble b code c i = (Inr (env, a), i')"
  using assms new_agent_parts [OF assms(6)]
  by (simp add: assemble_def Let_def bind_io_def lift_io_def at_state_def at_queue_def activate_first_def)

lemma new_agent_Inr:
  assumes "validate_config parse (AgConfig env) = Inr c" and "AgVersion env \<noteq> []"
    and "load_monitoring (snd device) = (Inr m, d1)" and "load_telemetry d1 = (Inr t, d2)"
  shows "\<exists>x. new_agent parse env device q w = Inr x"
  using assms by (simp add: new_agent_def bind_result_def)

lemma sample_assembled: "\<exists>env a i'. assemble sample_build [] installed_config i = (Inr (env, a), i')"
  if "StateFiles i = StateFiles sample_installation" "QueueFiles i = QueueFiles sample_installation"
proof -
  have d: "load_or_create (NewKey sample_build) (StateFiles i (StateDirectory installed_config)) = (Inr sample_identity, sample_disk)"
    using restart_loads [OF sample_identity_good(2), of sample_disk mode_600] that
    by (simp add: sample_disk_def lookup_def fault_free_def sample_build_def sample_installation_def)
  have q: "open_queue (QueueFiles i (StateDirectory installed_config)) open_limits =
      (Inr \<lparr>directory = directory sample_queue, queue_limits = open_limits\<rparr>, directory sample_queue)"
    using that by (simp add: open_queue_def positive_limits_def open_limits_def sample_installation_def sample_queue_def
      bind_io_def return_io_def make_directory_def chmod_directory_def entries_locked_def read_dir_def call_fault_free fault_free_def)
  obtain client where cl: "new_client (ParseClientUrl sample_build) (Connection sample_build) (ConfEndpoint installed_config) = Inr client"
    by (simp add: new_client_def sample_build_def)
  have k: "configured_containers (ParseRuntimeUrl sample_build) installed_config = Inr None"
    by (simp add: configured_containers_def installed_config_def default_containers_def zero_containers_def)
  have files: "load_monitoring sample_disk = (Inr zero_monitoring, sample_disk)" "load_telemetry sample_disk = (Inr empty_sync, sample_disk)"
    by (simp_all add: load_monitoring_def load_telemetry_def read_file_def call_fault_free fault_free_def sample_disk_def lookup_def
        identity_name_def monitoring_name_def telemetry_name_def)
  let ?env = "agent_env_of sample_build installed_config client sample_identity None"
  have e: "AgConfig ?env = installed_config" "AgVersion ?env \<noteq> []" by (simp_all add: agent_env_of_def sample_build_def)
  have p: "ParseConfigUrl sample_build = plain_url" by (simp add: sample_build_def)
  obtain x where "new_agent (ParseConfigUrl sample_build) ?env (sample_identity, sample_disk)
      \<lparr>directory = directory sample_queue, queue_limits = open_limits\<rparr> (World i) = Inr x"
    using new_agent_Inr [of plain_url ?env installed_config "(sample_identity, sample_disk)"] e installed_valid(2) files p by force
  then have n: "new_agent (ParseConfigUrl sample_build) ?env (sample_identity, sample_disk)
      \<lparr>directory = directory sample_queue, queue_limits = open_limits\<rparr> (World i) = Inr (fst x, snd x)" by simp
  have "deviceID sample_identity \<noteq> 0" by (simp add: sample_identity_def)
  from assembled_existing [OF d this q cl k n] show ?thesis by blast
qed

lemma sample_started: "\<exists>env a i'. start_agent sample_build once_settings sample_installation = (Inr (env, a), i')"
proof -
  define i where "i = sample_installation\<lparr>ConfigFiles := ConfigFiles sample_installation\<rparr>"
  obtain env a i' where a: "assemble sample_build [] installed_config i = (Inr (env, a), i')"
    using sample_assembled [of i] by (auto simp: i_def)
  have p: "ParseConfigUrl sample_build = plain_url" "ConfigPath once_settings = ''config.json''"
    by (simp_all add: sample_build_def once_settings_def)
  have c: "at_config (load_config (ParseConfigUrl sample_build) (ConfigPath once_settings)) sample_installation = (Inr installed_config, i)"
    unfolding p at_config_def by (simp add: sample_loaded i_def)
  have g: "given_code (CodeFile sample_build) once_settings = Inr []" by (simp add: given_code_def once_settings_def)
  show ?thesis using a by (simp add: start_agent_def bind_io_def lift_io_def g c)
qed

lemma starting_activates_once_witness:
  "\<exists>env a i'. start_agent sample_build once_settings sample_installation = (Inr (env, a), i') \<and> deviceID (fst (Device a)) \<noteq> 0"
  using sample_started starting_activates_once [of sample_build once_settings sample_installation] by blast

lemma program_keeps_invariant_witness:
  "\<exists>r env a. agent_command sample_build True (\<lambda>n t. ''opaque'') (\<lambda>e. []) once_settings ([], None) [] sample_installation
      = (r, Some (env, a)) \<and> agent_ok a \<and> agent_moves sample_agent a"
proof -
  obtain env a i' where s: "start_agent sample_build once_settings sample_installation = (Inr (env, a), i')"
    using sample_started by blast
  obtain r a' where o: "run_once env a = (r, a')" by (metis surj_pair)
  have k: "\<not> ShowVersion once_settings" "Once once_settings" "ConfigPath once_settings = ''config.json''"
    "ParseConfigUrl sample_build = plain_url" by (simp_all add: once_settings_def sample_build_def)
  have c: "agent_command sample_build True (\<lambda>n t. ''opaque'') (\<lambda>e. []) once_settings ([], None) [] sample_installation
      = (Some r, Some (env, a'))" using s o k(1,2) by (simp add: agent_command_def)
  have l: "fst (load_config (ParseConfigUrl sample_build) (ConfigPath once_settings) (ConfigFiles sample_installation)) = Inr installed_config"
    unfolding k sample_loaded by simp
  have "StateFiles sample_installation (StateDirectory installed_config) = snd (Device sample_agent)"
    "QueueFiles sample_installation (StateDirectory installed_config) = directory (Buffer sample_agent)"
    by (simp_all add: sample_installation_def sample_agent_def)
  from program_keeps_invariant [OF c l this sample_agent_ok] c show ?thesis by blast
qed

section \<open>The inventory command\<close>

text \<open>Whether the answer on the input is a yes.\<close>

definition says_yes :: "bytes \<times> error option \<Rightarrow> bool" where
  "says_yes input = (case answer_line input of Inl e \<Rightarrow> False | Inr l \<Rightarrow> is_yes l)"

lemma confirm_answer: "confirm out input s w = (Inr yes, w') \<Longrightarrow> yes = says_yes input"
  by (auto simp: confirm_def says_yes_def bind_result_def elim!: bind_io_InrE split: sum.splits)

text \<open>
  C25: the socket of the agent is reached only when root runs the command without positional arguments, on
  a valid configuration, the scan found something, and the first line of the input says yes: in every other
  case the run is the same whatever is behind the socket, so that nothing of the snapshot leaves the process
  but its masked summary.
\<close>

theorem snapshot_needs_consent:
  assumes "\<not> (uid = 0 \<and> says_yes input \<and>
    (\<exists>given c s. parse_flags inventory_flags [] args = Inr (given, []) \<and>
       load (flag_text given ''config'' (default_config_path freebsd)) = Inr c \<and> scan (ConfHost c) = Inr s))"
  shows "inventory_command freebsd uid load scan out input peer marshal args w =
    inventory_command freebsd uid load scan out input other marshal' args w"
proof (cases "parse_flags inventory_flags [] args")
  case (Inr x)
  obtain given rest where x: "x = (given, rest)" by (metis surj_pair)
  let ?path = "flag_text given ''config'' (default_config_path freebsd)"
  show ?thesis
  proof (cases "rest = [] \<and> uid = 0")
    case True
    show ?thesis
    proof (cases "load ?path")
      case c: (Inr c)
      show ?thesis
      proof (cases "scan (ConfHost c)")
        case s: (Inr s)
        from assms True Inr x c s have no: "\<not> says_yes input" by auto
        obtain r w' where a: "confirm out input s w = (r, w')" by (metis surj_pair)
        with no confirm_answer [of out input s w] show ?thesis
          using Inr x True c s by (cases r) (auto simp: inventory_command_def bind_io_def lift_io_def)
      qed (use Inr x True c in \<open>simp add: inventory_command_def bind_io_def lift_io_def\<close>)
    qed (use Inr x True in \<open>simp add: inventory_command_def bind_io_def lift_io_def\<close>)
  qed (use Inr x in \<open>auto simp: inventory_command_def\<close>)
qed (simp add: inventory_command_def)

lemma snapshot_needs_consent_witness:
  "inventory_command False 0 (\<lambda>p. Inr installed_config) (\<lambda>h. Inr zero_snapshot) (\<lambda>t w. (Inr (), t # w)) (''no'' @ newline, None)
     \<lparr>Dial = (\<lambda>w. (Inr (), ''dialled'' # w)), SendAll = (\<lambda>b w. (Inr (), b # w)), Reply = (\<lambda>w. ([], w))\<rparr> (\<lambda>s. Inr ''x'') [] []
   = inventory_command False 0 (\<lambda>p. Inr installed_config) (\<lambda>h. Inr zero_snapshot) (\<lambda>t w. (Inr (), t # w)) (''no'' @ newline, None)
     \<lparr>Dial = (\<lambda>w. (Inl IoFault, w)), SendAll = (\<lambda>b w. (Inl IoFault, w)), Reply = (\<lambda>w. ([], w))\<rparr> (\<lambda>s. Inl IoFault) [] []"
proof (rule snapshot_needs_consent)
  have "\<not> says_yes (''no'' @ newline, None)" by code_simp
  then show "\<not> (0 = (0 :: int) \<and> says_yes (''no'' @ newline, None) \<and>
    (\<exists>given c s. parse_flags inventory_flags [] [] = Inr (given, []) \<and>
       (Inr installed_config :: config result) = Inr c \<and> (Inr zero_snapshot :: hardware_snapshot result) = Inr s))" by blast
qed

text \<open>The daemon's default configuration is that of Linux everywhere; the other commands follow the system.\<close>

lemma agent_default_ignores_system:
  "map_option ConfigPath (case agent_settings_of [] of Inl e \<Rightarrow> None | Inr s \<Rightarrow> Some s) = Some (default_config_path False)"
  "default_config_path True \<noteq> default_config_path False"
  by (simp_all add: agent_settings_of_def bind_result_def flag_text_def default_config_path_def)

end
