(* ===== verification/Collector_Glue.thy ===== *)
theory Collector_Glue
  imports Linux_Collector Freebsd_Collector Container_Collector
begin

text \<open>
  The choice of the collector, \<open>internal/collectors/platform\<close>, and the collector of other systems,
  \<open>internal/collectors/baseline\<close>, which measures nothing. What the Linux collector finds out about its host
  when it is made (service manager, path of smartctl, architecture) is given with the configuration.
\<close>

record platform_options =
  PlatformFilesystems :: "string list"
  PlatformDevices :: "string list"
  PlatformContainers :: "container_collector option"

text \<open>The configured file systems are handed on and not used: neither collector reads them.\<close>

definition platform_linux :: "linux_config \<Rightarrow> opaque_id \<Rightarrow> 'w server \<Rightarrow> ('w \<Rightarrow> time \<times> 'w) \<Rightarrow> platform_options \<Rightarrow>
    linux_config \<times> (container_collector \<times> 'w) container_source" where
  "platform_linux found opaque srv clock options =
     (found\<lparr>BasePath := ''/'', Opaque := opaque, SmartDevices := PlatformDevices options\<rparr>,
      map_option (\<lambda>c. (container_detail c, collect_containers srv clock)) (PlatformContainers options))"

definition platform_freebsd :: "opaque_id \<Rightarrow> platform_options \<Rightarrow> bsd_collector" where
  "platform_freebsd opaque options = new_bsd_collector"

definition baseline_capabilities :: capabilities where
  "baseline_capabilities =
     [(''host.cpu'', capability_of Unavailable ''collector not installed in this development build''),
      (''host.memory'', capability_of Unavailable ''collector not installed in this development build''),
      (''host.storage'', capability_of Unavailable ''collector not installed in this development build''),
      (''host.network'', capability_of Unavailable ''collector not installed in this development build''),
      (''host.services'', capability_of Disabled ''service discovery is not enabled''),
      (''containers'', capability_of Disabled ''container discovery is opt-in'')]"

definition no_metrics :: metrics where
  "no_metrics = \<lparr>UptimeSeconds = None, LoadAverage = [], MSystem = [], MCPU = [], MMemory = [], Filesystems = [],
     DiskIO = [], Network = [], MSensors = [], Batteries = [], MGPUs = []\<rparr>"

definition baseline_collect :: "time \<Rightarrow> string \<Rightarrow> heartbeat result" where
  "baseline_collect now hostname = Inr
     \<lparr>HbMajor = 0, HbSequence = 0, AgentVersion = [], CollectedAt = now, HbHost = \<lparr>HostType = [], HostID = 0\<rparr>,
      Hostname = hostname, DroppedSamples = 0, MonitoringRevision = 0, Capabilities = baseline_capabilities, CapabilitiesHash = [],
      HbMetrics = no_metrics, HbState = None, HbServices = [], HbContainers = [], HbStorage = []\<rparr>"

definition platform_other :: "opaque_id \<Rightarrow> platform_options \<Rightarrow> time \<Rightarrow> string \<Rightarrow> heartbeat result" where
  "platform_other opaque options = baseline_collect"

text \<open>Without a container collector the Linux collector says that containers are disabled.\<close>

lemma disabled_containers_unset:
  "PlatformContainers options = None \<Longrightarrow>
   map_option CapState (map_of (linux_capabilities (snd (platform_linux found opaque srv clock options))) ''containers'') = Some Disabled"
  by (simp add: platform_linux_def linux_capabilities_def capability_of_def)

lemma baseline_capabilities_valid: "list_all (\<lambda>c. check_capability c = Inr ()) baseline_capabilities"
  by code_simp

end
