(* ===== verification/Release_Manifest.thy ===== *)
theory Release_Manifest
  imports Update_Release Go_Text Go_Values
begin

text \<open>
  The release tool, \<open>cmd/releasemanifest/main.go\<close>, which writes the manifest the updater reads: one asset
  for each line of a checksum file, with the size of the file of that name. A panic is an error. The files
  are an argument: whether there is a regular file of a name, and its size.
\<close>

definition manifest_asset :: "(string \<Rightarrow> (bool \<times> int) option) \<Rightarrow> string \<Rightarrow> asset result" where
  "manifest_asset stat line = (case text_fields line of
     [digest, name] \<Rightarrow>
       (let path = trim_prefix name ''*''; clean = clean_path path in
        if \<not> hex_digest digest then Inl (Msg ''invalid sha256 digest'')
        else if clean \<noteq> path \<or> has_prefix clean ''../'' \<or> has_prefix path ''/'' then Inl (Msg ''invalid release asset path'')
        else case stat path of
            Some (True, n) \<Rightarrow> Inr \<lparr>AssetPath = path, SHA256 = digest, AssetBytes = n\<rparr>
          | _ \<Rightarrow> Inl (Msg ''release asset is not a regular file''))
   | _ \<Rightarrow> Inl (Msg ''invalid checksum line''))"

fun manifest_assets :: "(string \<Rightarrow> (bool \<times> int) option) \<Rightarrow> string list \<Rightarrow> asset list result" where
  "manifest_assets stat [] = Inr []"
| "manifest_assets stat (l # ls) =
     bind_result (manifest_asset stat l) (\<lambda>a. bind_result (manifest_assets stat ls) (\<lambda>as. Inr (a # as)))"

text \<open>The lines before one that is too long are looked at first.\<close>

definition release_manifest :: "string \<Rightarrow> string \<Rightarrow> (string \<Rightarrow> (bool \<times> int) option) \<Rightarrow> bytes \<Rightarrow> manifest result" where
  "release_manifest version revision stat checksums =
     (if version = [] \<or> revision = [] then Inl (Msg ''release version and source revision are required'')
      else case scan_lines token_size checksums of (ls, too_long) \<Rightarrow>
        bind_result (manifest_assets stat ls) (\<lambda>as.
          if too_long then Inl (Msg ''token too long'')
          else Inr \<lparr>ManifestVersion = version, SourceRevision = revision, ManifestMajor = 1, Assets = as\<rparr>))"

text \<open>The file: indented, and a slice that was never appended to is null.\<close>

definition asset_json :: "asset \<Rightarrow> json" where
  "asset_json a = JObj [(''path'', JStr (AssetPath a)), (''sha256'', JStr (SHA256 a)), (''bytes'', JNum (show_int (AssetBytes a)))]"

definition manifest_json :: "manifest \<Rightarrow> json" where
  "manifest_json m = JObj [(''version'', JStr (ManifestVersion m)), (''sourceRevision'', JStr (SourceRevision m)),
     (''protocolMajor'', JNum (show_int (ManifestMajor m))),
     (''assets'', if Assets m = [] then JNull else JArr (map asset_json (Assets m)))]"

definition manifest_file :: "manifest \<Rightarrow> bytes" where
  "manifest_file m = indent_text 0 (manifest_json m) @ newline"

section \<open>What the tool accepts\<close>

lemma manifest_asset_Inr:
  assumes "manifest_asset stat l = Inr a"
  shows "hex_digest (SHA256 a) \<and> clean_path (AssetPath a) = AssetPath a \<and> \<not> has_prefix (AssetPath a) ''../'' \<and>
    \<not> has_prefix (AssetPath a) ''/'' \<and> stat (AssetPath a) = Some (True, AssetBytes a)"
  using assms by (auto simp: manifest_asset_def Let_def split: list.splits if_splits option.splits bool.splits)

lemma manifest_assets_Inr:
  "manifest_assets stat ls = Inr as \<Longrightarrow> \<forall>a \<in> set as. \<exists>l \<in> set ls. manifest_asset stat l = Inr a"
proof (induction stat ls arbitrary: as rule: manifest_assets.induct)
  case (2 stat l ls)
  then obtain a rest where "manifest_asset stat l = Inr a" "manifest_assets stat ls = Inr rest" "as = a # rest"
    by (auto simp: bind_result_Inr_iff)
  with 2(1) show ?case by fastforce
qed simp

lemma manifest_assets_length: "manifest_assets stat ls = Inr as \<Longrightarrow> length as = length ls"
  by (induction stat ls arbitrary: as rule: manifest_assets.induct) (auto simp: bind_result_Inr_iff)

lemma release_manifest_Inr:
  assumes "release_manifest version revision stat checksums = Inr m"
  shows "ManifestVersion m = version \<and> ManifestMajor m = 1 \<and>
    (\<forall>a \<in> set (Assets m). hex_digest (SHA256 a) \<and> clean_path (AssetPath a) = AssetPath a \<and>
       \<not> has_prefix (AssetPath a) ''../'' \<and> \<not> has_prefix (AssetPath a) ''/'' \<and> stat (AssetPath a) = Some (True, AssetBytes a))"
  using assms manifest_assets_Inr manifest_asset_Inr
  by (auto simp: release_manifest_def bind_result_Inr_iff split: if_splits prod.splits) metis+

section \<open>Reading it back\<close>

lemma clean_path_empty: "clean_path [] \<noteq> []"
  by code_simp

lemma check_assets_Inr:
  assumes "\<forall>a \<in> set as. \<not> bad_asset a \<and> hex_digest (SHA256 a) \<and> AssetPath a \<notin> set seen" and "distinct (map AssetPath as)"
  shows "check_assets seen as = Inr ()"
  using assms
proof (induction seen as rule: check_assets.induct)
  case (2 seen item rest)
  have "\<forall>a \<in> set rest. AssetPath a \<noteq> AssetPath item" using 2(3) by (metis distinct.simps(2) image_eqI list.simps(9) set_map)
  with 2 show ?case by simp
qed simp

lemma show_int_nat: "0 \<le> n \<Longrightarrow> show_int n = show_nat (nat n)"
  by (simp add: show_int_def)

lemma asset_json_decoded:
  assumes "0 \<le> AssetBytes a" and "AssetBytes a < 2 ^ 63"
  shows "decode_asset (asset_json a) = Some a"
proof -
  have "json_int (JNum (show_int (AssetBytes a))) = Some (AssetBytes a)"
    using json_int_show [of "nat (AssetBytes a)"] assms by (simp add: show_int_nat)
  then show ?thesis
    by (simp add: decode_asset_def asset_json_def json_struct_def known_members_def string_field_def int_field_def fold_simps
        del: json_int.simps show_nat.simps)
qed

lemma asset_json_natural: "0 \<le> AssetBytes a \<Longrightarrow> natural_json (asset_json a)"
  by (auto simp: asset_json_def show_int_nat simp del: show_nat.simps)

lemma manifest_file_decoded:
  assumes "\<forall>a \<in> set (Assets m). 0 \<le> AssetBytes a \<and> AssetBytes a < 2 ^ 63" and "ManifestMajor m = 1"
  shows "decode_manifest (manifest_file m) = Some m"
proof -
  have "natural_json (manifest_json m)"
    using assms asset_json_natural by (auto simp: manifest_json_def show_int_nat simp del: show_nat.simps)
  then have p: "parse_json (manifest_file m) = Some (manifest_json m)" by (simp only: manifest_file_def parse_indent_text)
  have v: "json_int (JNum (show_int 1)) = Some 1" using json_int_show [of 1] by (simp add: show_int_nat del: show_nat.simps)
  have "those (map decode_asset (map asset_json as)) = Some as"
    if "\<forall>a \<in> set as. 0 \<le> AssetBytes a \<and> AssetBytes a < 2 ^ 63" for as
    using that by (induction as) (simp_all add: asset_json_decoded)
  then have "those (map decode_asset (map asset_json (Assets m))) = Some (Assets m)" using assms(1) by blast
  then have "slice_field decode_asset ''assets'' [(''version'', JStr (ManifestVersion m)), (''sourceRevision'', JStr (SourceRevision m)),
      (''protocolMajor'', JNum (show_int (ManifestMajor m))), (''assets'', if Assets m = [] then JNull else JArr (map asset_json (Assets m)))]
    = Some (Assets m)" by (simp add: slice_field_def json_slice_def fold_simps)
  then show ?thesis using v assms(2)
    by (simp add: decode_manifest_def p json_struct_def manifest_json_def known_members_def string_field_def int_field_def fold_simps
        del: json_int.simps show_nat.simps)
qed

text \<open>
  C30: what the release tool writes, the updater reads and accepts: the manifest file decodes to the manifest
  it was written from, and passes every check of the updater for its version when it names 1 to 64 files,
  each once, none of them empty or larger than 128 MiB.
\<close>

theorem written_manifest_accepted:
  assumes "release_manifest version revision stat checksums = Inr m"
    and "1 \<le> length (Assets m)" and "length (Assets m) \<le> 64" and "distinct (map AssetPath (Assets m))"
    and "\<forall>a \<in> set (Assets m). 1 \<le> AssetBytes a \<and> AssetBytes a \<le> max_asset_bytes"
  shows "decode_manifest (manifest_file m) = Some m \<and> check_manifest version m = Inr m"
proof -
  note r = release_manifest_Inr [OF assms(1)]
  have "\<forall>a \<in> set (Assets m). 0 \<le> AssetBytes a \<and> AssetBytes a < 2 ^ 63" using assms(5) by (fastforce simp: max_asset_bytes_def)
  then have "decode_manifest (manifest_file m) = Some m" using r by (intro manifest_file_decoded) simp_all
  moreover have "\<forall>a \<in> set (Assets m). \<not> bad_asset a" using r assms(5) clean_path_empty by (auto simp: bad_asset_def Let_def)
  then have "check_assets [] (Assets m) = Inr ()" using r assms(4) by (intro check_assets_Inr) auto
  ultimately show ?thesis using r assms(2,3) by (auto simp: check_manifest_def bind_result_def)
qed

definition sample_digest :: string where
  "sample_digest = replicate 64 (CHR ''a'')"

definition sample_checksums :: bytes where
  "sample_checksums = sample_digest @ ''  *agent-linux'' @ [CHR 10]"

definition sample_stat :: "string \<Rightarrow> (bool \<times> int) option" where
  "sample_stat p = (if p = ''agent-linux'' then Some (True, 42) else None)"

lemma sample_manifest: "release_manifest ''1.2.3'' ''abc'' sample_stat sample_checksums = Inr
    \<lparr>ManifestVersion = ''1.2.3'', SourceRevision = ''abc'', ManifestMajor = 1,
     Assets = [\<lparr>AssetPath = ''agent-linux'', SHA256 = sample_digest, AssetBytes = 42\<rparr>]\<rparr>"
proof -
  have l: "raw_lines sample_checksums = [sample_digest @ ''  *agent-linux'']" by code_simp
  have f: "text_fields (sample_digest @ ''  *agent-linux'') = [sample_digest, ''*agent-linux'']" by code_simp
  have h: "hex_digest (sample_digest)" by code_simp
  have c: "clean_path ''agent-linux'' = ''agent-linux''" by code_simp
  have d: "drop_cr (sample_digest @ ''  *agent-linux'') = sample_digest @ ''  *agent-linux''" by code_simp
  have s: "scan_lines token_size sample_checksums = ([sample_digest @ ''  *agent-linux''], False)"
    unfolding scan_lines_def l by (simp add: token_size_def d) (simp add: sample_digest_def)
  have a: "manifest_asset sample_stat (sample_digest @ ''  *agent-linux'') =
      Inr \<lparr>AssetPath = ''agent-linux'', SHA256 = sample_digest, AssetBytes = 42\<rparr>"
    unfolding manifest_asset_def f
    by (simp add: Let_def h c trim_prefix_def has_prefix_def sample_stat_def)
  show ?thesis by (simp add: release_manifest_def s a bind_result_def)
qed

lemma written_manifest_accepted_witness:
  "\<exists>m. release_manifest ''1.2.3'' ''abc'' sample_stat sample_checksums = Inr m \<and> decode_manifest (manifest_file m) = Some m \<and>
    check_manifest ''1.2.3'' m = Inr m"
  using written_manifest_accepted [OF sample_manifest] sample_manifest by (auto simp: max_asset_bytes_def)

text \<open>The tool lets a file be listed twice, and writes an empty file; the updater refuses both.\<close>

lemma empty_file_published:
  "manifest_asset (\<lambda>p. Some (True, 0)) (sample_digest @ '' x'') =
     Inr \<lparr>AssetPath = ''x'', SHA256 = sample_digest, AssetBytes = 0\<rparr>"
  "bad_asset \<lparr>AssetPath = ''x'', SHA256 = sample_digest, AssetBytes = 0\<rparr>"
  by code_simp+

end
