(* ===== verification/Spec2Isabelle.thy ===== *)
theory Spec2Isabelle
  imports Agent_Rules Transport_Correct Agent_Config Telemetry_Correct Update_Correct
    Service_Correct Inventory_Correct Linux_Correct Freebsd_Correct Collector_Schedule Command_Correct
    Collector_Glue Release_Manifest
begin

text \<open>
  The homelab inventory agent: a model of the Go program under src/ and the theorems that make
  it correct.

  The program.  An agent runs on a host, is activated once at a hub, and from then on collects
  a heartbeat every cycle, signs it and sends it.  While the hub is away the heartbeats wait in
  a directory of files; the hub may revoke the agent, change its monitoring configuration or
  announce a new contract (schema, interval, limits).  What a heartbeat says is collected from
  the files and commands of a Linux or FreeBSD host and from a container runtime.  A process of
  root may scan the hardware and hand a snapshot to the agent over a local socket.  The same
  program, run by a timer or by hand, replaces the agent by a newer release and falls back to the
  old one when the new one is not healthy; a tool writes the manifest of a release.

  The parts and their theories, in the order of imports.

  \<^item> Agent_Prelude, Go_Strings, Go_Numbers, Go_Float, Go_Base64, Go_Time, Go_Json, Go_Json_Print,
    Go_Http, Go_Text, Go_Values, Go_Flags: what the code uses of Go and its standard library
    (errors as a sum type, byte strings, strconv, float64 with its rounding, base64, time.Parse
    and Format for the forms the agent uses, the JSON decoder with the struct rules of
    encoding/json, the JSON printer, the answer of an HTTP request, lines and fields of a text,
    untyped values, command line flags).  Float_Bounds and Float_Measures bound rounded results.
  \<^item> Go_Disk, State_File: a disk as an association list from paths to files with mode, and a
    stream of faults that lets any file operation fail, also a write in its middle.  A property
    about a crash is a property about every such stream.  The locale document is a state file
    that is replaced atomically; it is interpreted for each file of the agent.
  \<^item> Heartbeat_Queue, with Queue_Correct and Queue_Contract (internal/buffer/queue.go): the
    directory of waiting heartbeats.  State: the entries and the dropped counter in memory and
    their files.  The abstract specification is a list of entries in sequence order with two
    limits; every operation refines it when no file operation fails, and keeps the directory
    well formed whatever fails.
  \<^item> Agent_Identity, with Identity_Correct (internal/identity/identity.go): the identity file,
    activation and sequence numbers.  Lemmas: numbers reach the disk before they are used,
    strictly increase along any history of faults and restarts, and never wrap.
  \<^item> Protocol_Model, Protocol_Check, with Protocol_Correct (protocol/v1/models.go): the wire
    structs as records and their validators, with a reference definition of bounded values.
  \<^item> Telemetry_Delta, with Telemetry_Correct (internal/runtime/telemetry_delta.go): the deltas
    of the compact heartbeat; replaying them rebuilds the values they were taken from.
  \<^item> Agent_Config (internal/config/config.go): Load and Validate.
  \<^item> Agent_Transport, with Transport_Sample and Transport_Correct (internal/transport/client.go,
    protocol/v1/bundle.go): the requests of the client and every check of their answers.
  \<^item> Agent_State, Agent_Runtime (internal/runtime): the files of the agent and its methods, each
    a definition that passes the whole agent with its disk.  Agent_Files and Agent_Correct hold
    their invariant: the locale progress states what every method promises (it keeps the
    invariant and only moves forward), is interpreted on the model's agent, and its rules carry
    the promise through the composition of methods; the step relation agent_step collects the
    operations with restarts.  Agent_Sample is a concrete agent for the witnesses.
    Agent_Working: on directories that work, every answer of the hub that the client accepts is
    processed without an error.  Agent_Process: the process as a step relation over the mode of its
    loop, its events and restarts; from a revoked agent nothing is sent any more.
    Agent_Delivery and Agent_Rules hold the properties of the whole agent.
  \<^item> Update_Version, Update_Release, Agent_Update, with Update_Correct (internal/agentupdate):
    version comparison against semantic precedence, the release manifest and its checks, and the
    update with its rollback.
    Release_Manifest (cmd/releasemanifest): the tool that writes the manifest; the updater
    reads and accepts what it writes.
  \<^item> Command_Output (internal/command): what a collector sees of the host, the bounded output of
    a command and the files below a root.
  \<^item> Service_Collectors, with Service_Correct (internal/collectors/services): systemd, OpenRC and
    rc.d, and the choice between them.  Whatever the tools print, the services they give are
    valid in the protocol.
  \<^item> Linux_Parsers, Linux_Devices, Linux_Collector, with Linux_Correct (internal/collectors/linux):
    the parsers of /proc and /sys, GPU averages, storage health and Collect, with the values it
    remembers between heartbeats as its state.
  \<^item> Freebsd_Parsers, Freebsd_Collector, with Freebsd_Correct (internal/collectors/freebsd): the
    same for FreeBSD, whose host is known by its commands only.
  \<^item> Container_Collector, with Container_Correct (internal/collectors/containers): the client of a
    container runtime.  Its listing is bounded, its requests end, its containers are valid.
  \<^item> Collector_Rules, Collector_Schedule: what the collectors promise the agent.  The locale
    container_provider is what the Linux collector asks of a container collector, interpreted on
    the one above; a run of collections keeps the limits of the protocol but for file systems and
    GPUs, services and storage are collected once per interval and reported until the next, and a
    runtime that denies access costs a heartbeat nothing but its containers.  Collector_Glue (internal/collectors/platform and
    baseline): the choice of the collector.
  \<^item> Inventory_Scan, Inventory_Socket, with Inventory_Correct (internal/inventoryscan): the
    hardware scan, the local socket with its checks, and its client with the question.
  \<^item> Command_Line, with Command_Correct (cmd/agent/main.go): the commands, the assembly of the
    agent from the parts above, and the two goroutines that serve it.  A run of the program
    keeps the agent's invariant; a snapshot leaves the process only with consent.

  How the model corresponds to the code.  A Go struct is a record with the fields of the
  struct, an error is the left side of a sum, and a method is a function from the receiver and
  the disk to a result and both; on an error it returns the receiver as the code left it, so
  a half-finished method is visible.  Machine integers are words of their width where they can
  wrap (sequence numbers, revisions, counters) and int where the code bounds them first.  A
  float64 is a rational number or one of the three other values, each operation rounded to
  nearest; the sign of a zero is not kept.

  Bounds and fuel.  The JSON decoder recurses on a fuel of twice the length of the text and
  four, and a lemma shows that more fuel gives the same result.  Every other recursion is
  structural or has a measure.  The main loop of the agent follows a finite list of events, and
  a property about it is one about every such list.

  Not modelled, and why.  Cryptography (Ed25519, SHA-256, HMAC, x509), gzip, net/url, the
  HTTP transport, redirects followed by net/http, the clock, statfs, processes and the JSON text
  of a heartbeat are arguments of the definitions, with no law assumed where a property does not
  name one.  A power failure is a run of failing calls, not a loss of pages already written.
  The methods of the agent and the socket are atomic: goroutines take turns at whole methods,
  and the ticker that samples a GPU runs between collections.  In one collection each file is
  read once, so that the files are a function; glob patterns are matched without meta characters
  in the root; a map is listed in one order.  sort.Slice keeps the order of equal elements here,
  which Go does not promise.  A response whose body fails while it is read fails to decode.
  Lower case conversion is that of ASCII, and strings are taken to be UTF-8.  A JSON object that
  repeats a member of struct type takes the last one where Go merges; a nil slice prints as an
  empty one, but for the release tool; the limit of 10000 nested values is left out.  The text
  of an HTTP error is left out of its message.  The builds for systems other than Linux and
  FreeBSD only return an error where they are not the baseline collector.  Signal handling, the
  log and the server of the packaging tests are I/O.
\<close>

end
